(* ===== verification/Prelude.thy ===== *)
theory Prelude
  imports Main "HOL-Library.State_Monad" "HOL-Library.Multiset" "HOL-Library.Word"
    "HOL-Library.Sublist" "HOL-Library.AList" "HOL-Library.Char_ord"
    "HOL-Library.List_Lexorder" "HOL-Library.Product_Lexorder"
begin

text \<open>
  What every component shares: the Go types and errors, the part of the standard library
  the sources use (\<open>time\<close>, \<open>strings.TrimSpace\<close>, \<open>encoding/hex\<close>), Go's
  ``call, then return early on an error'' as a combinator over the state monad, a
  weakest-precondition layer for it, and generic facts on lists and sorted lists.
\<close>

section \<open>Go types and errors\<close>

text \<open>
  A Go \<open>uint\<close> is used for row identifiers only, on which the program does no arithmetic;
  \<open>int\<close> and \<open>int64\<close> are unbounded here except where a width is written out.
  A \<open>time.Time\<close> is its number of nanoseconds since the Unix epoch.
\<close>

type_synonym uint = nat
type_synonym time = int

text \<open>
  The \<open>error\<close> values the program tells apart: gorm's \<open>ErrRecordNotFound\<close>, a
  \<open>*mysql.MySQLError\<close> with its number and text, the program's own sentinels
  (\<open>internal/apierror/errors.go\<close>), go-redis's \<open>redis.Nil\<close>, the panic of
  a nil dereference, an \<open>errors.New\<close> of the sources, and any other error of a driver, of the network or of a cancelled context.
\<close>

datatype go_error =
    ErrRecordNotFound
  | MySQLError nat string
  | ErrUnauthorized
  | ErrValidation
  | RedisNil
  | PanicNil
  | ErrNew string
  | ErrExternal string

type_synonym 'a res = "go_error + 'a"

fun error_text :: "go_error \<Rightarrow> string" where
  "error_text ErrRecordNotFound = ''record not found''"
| "error_text (MySQLError n s) = s"
| "error_text ErrUnauthorized = ''unauthorized''"
| "error_text ErrValidation = ''validation error''"
| "error_text RedisNil = ''redis: nil''"
| "error_text PanicNil = ''runtime error: invalid memory address or nil pointer dereference''"
| "error_text (ErrNew s) = s"
| "error_text (ErrExternal s) = s"

text \<open>\<open>util.IsDupKey\<close>: MySQL's error 1062, a duplicate entry for a unique key.\<close>

fun IsDupKey :: "go_error \<Rightarrow> bool" where
  "IsDupKey (MySQLError n s) = (n = 1062)"
| "IsDupKey _ = False"

text \<open>\<open>apierror.ClassifyHttpStatus\<close>; \<open>None\<close> is the nil error.\<close>

fun ClassifyHttpStatus :: "go_error option \<Rightarrow> nat" where
  "ClassifyHttpStatus None = 200"
| "ClassifyHttpStatus (Some e) =
     (if e = ErrUnauthorized then 401
      else if e = ErrValidation then 400
      else if e = ErrRecordNotFound then 404
      else 500)"

section \<open>Standard library: time, strings, hex\<close>

definition time_zero :: time where
  "time_zero = - 62135596800 * 10 ^ 9"

definition IsZero :: "time \<Rightarrow> bool" where
  "IsZero t \<longleftrightarrow> t = time_zero"

definition UnixMilli :: "time \<Rightarrow> int" where
  "UnixMilli t = t div 10 ^ 6"

definition Unix :: "time \<Rightarrow> int" where
  "Unix t = t div 10 ^ 9"

definition time_UnixMilli :: "int \<Rightarrow> time" where
  "time_UnixMilli ms = ms * 10 ^ 6"

definition time_Unix :: "int \<Rightarrow> time" where
  "time_Unix s = s * 10 ^ 9"

text \<open>
  \<open>strings.TrimSpace\<close> drops leading and trailing white space in the sense of
  \<open>unicode.IsSpace\<close>. A Go string is its UTF-8 bytes, so the white space runes are given by
  their encodings.
\<close>

definition space_encodings :: "string list" where
  "space_encodings =
     map (map char_of)
       [[9 :: nat], [10], [11], [12], [13], [32], [0xC2, 0x85], [0xC2, 0xA0], [0xE1, 0x9A, 0x80],
        [0xE2, 0x80, 0x80], [0xE2, 0x80, 0x81], [0xE2, 0x80, 0x82], [0xE2, 0x80, 0x83],
        [0xE2, 0x80, 0x84], [0xE2, 0x80, 0x85], [0xE2, 0x80, 0x86], [0xE2, 0x80, 0x87],
        [0xE2, 0x80, 0x88], [0xE2, 0x80, 0x89], [0xE2, 0x80, 0x8A], [0xE2, 0x80, 0xA8],
        [0xE2, 0x80, 0xA9], [0xE2, 0x80, 0xAF], [0xE2, 0x81, 0x9F], [0xE3, 0x80, 0x80]]"

fun match_prefix :: "string list \<Rightarrow> string \<Rightarrow> nat option" where
  "match_prefix [] s = None"
| "match_prefix (p # ps) s =
     (if p \<noteq> [] \<and> take (length p) s = p then Some (length p) else match_prefix ps s)"

lemma match_prefix_Some: "match_prefix ps s = Some n \<Longrightarrow> 0 < n \<and> n \<le> length s"
proof (induction ps)
  case (Cons p ps)
  show ?case
  proof (cases "p \<noteq> [] \<and> take (length p) s = p")
    case True
    then have "length (take (length p) s) = length p" by simp
    with True Cons.prems show ?thesis by auto
  next
    case False
    with Cons show ?thesis by auto
  qed
qed simp

function trim_prefixes :: "string list \<Rightarrow> string \<Rightarrow> string" where
  "trim_prefixes ps s =
     (case match_prefix ps s of None \<Rightarrow> s | Some n \<Rightarrow> trim_prefixes ps (drop n s))"
  by pat_completeness auto
termination
  by (relation "measure (\<lambda>(ps, s). length s)") (auto dest: match_prefix_Some)

declare trim_prefixes.simps [simp del]

definition TrimSpace :: "string \<Rightarrow> string" where
  "TrimSpace s =
     rev (trim_prefixes (map rev space_encodings) (rev (trim_prefixes space_encodings s)))"

definition hex_digit :: "nat \<Rightarrow> char" where
  "hex_digit n = (if n < 10 then char_of (48 + n) else char_of (87 + n))"

definition hex_EncodeToString :: "8 word list \<Rightarrow> string" where
  "hex_EncodeToString bs =
     concat (map (\<lambda>b. [hex_digit (unat b div 16), hex_digit (unat b mod 16)]) bs)"

text \<open>
  \<open>strconv.FormatUint(n, 10)\<close> and \<open>fmt.Sprintf("%d")\<close> on an unsigned number;
  \<open>strconv.ParseUint(s, 10, 64)\<close>.
\<close>

fun FormatUint :: "nat \<Rightarrow> string" where
  "FormatUint n = (if n < 10 then [char_of (48 + n)]
     else FormatUint (n div 10) @ [char_of (48 + n mod 10)])"

declare FormatUint.simps [simp del]

definition digit_val :: "char \<Rightarrow> nat option" where
  "digit_val c = (let n = of_char c :: nat in if 48 \<le> n \<and> n \<le> 57 then Some (n - 48) else None)"

fun parse_digits :: "nat \<Rightarrow> string \<Rightarrow> nat option" where
  "parse_digits acc [] = Some acc"
| "parse_digits acc (c # cs) =
     (case digit_val c of None \<Rightarrow> None | Some d \<Rightarrow> parse_digits (acc * 10 + d) cs)"

definition ParseUint :: "string \<Rightarrow> nat option" where
  "ParseUint s =
     (if s = [] then None
      else case parse_digits 0 s of
             None \<Rightarrow> None
           | Some n \<Rightarrow> if n < 2 ^ 64 then Some n else None)"

section \<open>The state monad with early returns\<close>

abbreviation ret :: "'a \<Rightarrow> ('s, 'a) state" where
  "ret \<equiv> State_Monad.return"

abbreviation throw :: "go_error \<Rightarrow> ('s, 'a res) state" where
  "throw e \<equiv> ret (Inl e)"

abbreviation ok :: "'a \<Rightarrow> ('s, 'a res) state" where
  "ok a \<equiv> ret (Inr a)"

text \<open>\<open>v, err := m; if err != nil { return err }\<close>, then the rest with \<open>v\<close>.\<close>

definition bindE :: "('s, 'a res) state \<Rightarrow> ('a \<Rightarrow> ('s, 'b res) state) \<Rightarrow> ('s, 'b res) state" where
  "bindE m f = do {r \<leftarrow> m; case r of Inl e \<Rightarrow> throw e | Inr v \<Rightarrow> f v}"

text \<open>A \<open>for\<close> loop whose body ignores errors, and one that returns at the first error.\<close>

fun for_each :: "('a \<Rightarrow> ('s, 'b) state) \<Rightarrow> 'a list \<Rightarrow> ('s, unit) state" where
  "for_each f [] = ret ()"
| "for_each f (x # xs) = do {_ \<leftarrow> f x; for_each f xs}"

fun for_eachE :: "('a \<Rightarrow> ('s, unit res) state) \<Rightarrow> 'a list \<Rightarrow> ('s, unit res) state" where
  "for_eachE f [] = ok ()"
| "for_eachE f (x # xs) = bindE (f x) (\<lambda>_. for_eachE f xs)"

section \<open>Weakest preconditions\<close>

named_theorems wp_simps and wp_intros

definition wp :: "('s, 'a) state \<Rightarrow> ('a \<Rightarrow> 's \<Rightarrow> bool) \<Rightarrow> 's \<Rightarrow> bool" where
  "wp m Q s = (case run_state m s of (a, s') \<Rightarrow> Q a s')"

lemma wp_return [wp_simps]: "wp (ret a) Q s = Q a s"
  by (simp add: wp_def)

lemma wp_bind [wp_simps]: "wp (State_Monad.bind m f) Q s = wp m (\<lambda>a. wp (f a) Q) s"
  by (simp add: wp_def split: prod.splits)

lemma wp_bindE [wp_simps]:
  "wp (bindE m f) Q s = wp m (\<lambda>r s'. case r of Inl e \<Rightarrow> Q (Inl e) s' | Inr v \<Rightarrow> wp (f v) Q s') s"
  by (simp add: wp_def bindE_def split: prod.splits sum.splits)

lemma wp_if [wp_simps]: "wp (if b then m else n) Q s = (if b then wp m Q s else wp n Q s)"
  by simp

lemma wp_case_sum [wp_simps]:
  "wp (case r of Inl e \<Rightarrow> f e | Inr v \<Rightarrow> g v) Q s = (case r of Inl e \<Rightarrow> wp (f e) Q s | Inr v \<Rightarrow> wp (g v) Q s)"
  by (cases r) simp_all

lemma wp_case_option [wp_simps]:
  "wp (case r of None \<Rightarrow> m | Some v \<Rightarrow> g v) Q s = (case r of None \<Rightarrow> wp m Q s | Some v \<Rightarrow> wp (g v) Q s)"
  by (cases r) simp_all

lemma wp_let [wp_simps]: "wp (let x = a in f x) Q s = wp (f a) Q s"
  by simp

text \<open>The same for a computation that still waits for its state, as under a binder.\<close>

lemmas wp_unapplied [wp_simps] =
  wp_return [abs_def] wp_bind [abs_def] wp_bindE [abs_def] wp_if [abs_def] wp_case_sum [abs_def]
  wp_case_option [abs_def]

lemma wp_mono: "wp m P s \<Longrightarrow> (\<And>a s'. P a s' \<Longrightarrow> Q a s') \<Longrightarrow> wp m Q s"
  by (auto simp: wp_def split: prod.splits)

lemma wp_runD: "wp m Q s \<Longrightarrow> run_state m s = (a, s') \<Longrightarrow> Q a s'"
  by (simp add: wp_def)

lemma wp_runI: "(\<And>a s'. run_state m s = (a, s') \<Longrightarrow> Q a s') \<Longrightarrow> wp m Q s"
  by (simp add: wp_def split: prod.splits)

lemma wp_conj: "wp m (\<lambda>a s'. P a s' \<and> Q a s') s \<longleftrightarrow> wp m P s \<and> wp m Q s"
  by (auto simp: wp_def split: prod.splits)

lemma wp_for_each:
  assumes step: "\<And>x s. x \<in> set xs \<Longrightarrow> I s \<Longrightarrow> wp (f x) (\<lambda>_ s'. I s') s"
  shows "I s \<Longrightarrow> wp (for_each f xs) (\<lambda>_ s'. I s') s"
  using step
proof (induction xs arbitrary: s)
  case (Cons x xs)
  have "wp (f x) (\<lambda>_ s'. I s') s" using Cons.prems by simp
  then have "wp (f x) (\<lambda>_. wp (for_each f xs) (\<lambda>_ s'. I s')) s"
    by (rule wp_mono) (rule Cons.IH, use Cons.prems in auto)
  then show ?case by (simp add: wp_simps)
qed (simp add: wp_simps)

lemma wp_for_eachE:
  assumes step: "\<And>ys x zs s. xs = ys @ x # zs \<Longrightarrow> I ys s \<Longrightarrow>
      wp (f x) (\<lambda>r s'. case r of Inl e \<Rightarrow> Q (Inl e) s' | Inr _ \<Rightarrow> I (ys @ [x]) s') s"
    and last: "\<And>s. I xs s \<Longrightarrow> Q (Inr ()) s"
  shows "I [] s \<Longrightarrow> wp (for_eachE f xs) Q s"
proof -
  have "wp (for_eachE f zs) Q s" if "xs = ys @ zs" "I ys s" for ys zs s
    using that
  proof (induction zs arbitrary: ys s)
    case Nil
    with last show ?case by (simp add: wp_simps)
  next
    case (Cons z zs)
    have "wp (f z) (\<lambda>r s'. case r of Inl e \<Rightarrow> Q (Inl e) s' | Inr _ \<Rightarrow> wp (for_eachE f zs) Q s') s"
      by (rule wp_mono [OF step [OF Cons.prems]]) (use Cons.prems Cons.IH [of "ys @ [z]"] in \<open>auto split: sum.splits\<close>)
    then show ?case by (simp add: wp_simps)
  qed
  from this [of "[]"] show "I [] s \<Longrightarrow> ?thesis" by simp
qed

section \<open>Lists\<close>

lemma length_filter_mono:
  "(\<And>x. x \<in> set xs \<Longrightarrow> P x \<Longrightarrow> Q x) \<Longrightarrow> length (filter P xs) \<le> length (filter Q xs)"
  by (induction xs) (auto simp: le_SucI)

section \<open>Facts on the standard library functions\<close>

lemma match_prefix_take: "match_prefix ps (take k s) = Some n \<Longrightarrow> match_prefix ps s \<noteq> None"
proof (induction ps)
  case (Cons p ps)
  show ?case
  proof (cases "p \<noteq> [] \<and> take (length p) (take k s) = p")
    case True
    then have "length (take (length p) (take k s)) = length p" by simp
    then have "length p \<le> k" by simp
    with True show ?thesis by (simp add: min_def split: if_splits)
  next
    case False
    with Cons show ?thesis by (auto split: if_splits)
  qed
qed simp

lemma trim_prefixes_fixed: "match_prefix ps (trim_prefixes ps s) = None"
  by (induction ps s rule: trim_prefixes.induct)
    (subst trim_prefixes.simps, auto split: option.splits)

lemma trim_prefixes_id: "match_prefix ps s = None \<Longrightarrow> trim_prefixes ps s = s"
  by (subst trim_prefixes.simps) simp

lemma trim_prefixes_drop: "\<exists>k. trim_prefixes ps s = drop k s"
proof (induction ps s rule: trim_prefixes.induct)
  case (1 ps s)
  show ?case
  proof (cases "match_prefix ps s")
    case None
    then show ?thesis by (intro exI [of _ 0]) (simp add: trim_prefixes_id)
  next
    case (Some n)
    with "1.IH" obtain k where "trim_prefixes ps (drop n s) = drop k (drop n s)" by blast
    with Some show ?thesis
      by (intro exI [of _ "k + n"]) (subst trim_prefixes.simps, simp)
  qed
qed

lemma TrimSpace_fixed:
  shows TrimSpace_no_prefix: "match_prefix space_encodings (TrimSpace s) = None"
    and TrimSpace_no_suffix: "match_prefix (map rev space_encodings) (rev (TrimSpace s)) = None"
proof -
  let ?l = "trim_prefixes space_encodings s"
  obtain k where "trim_prefixes (map rev space_encodings) (rev ?l) = drop k (rev ?l)"
    using trim_prefixes_drop by blast
  then have "TrimSpace s = take (length ?l - k) ?l"
    by (simp add: TrimSpace_def rev_drop)
  with match_prefix_take trim_prefixes_fixed
  show "match_prefix space_encodings (TrimSpace s) = None"
    by (metis option.exhaust)
  show "match_prefix (map rev space_encodings) (rev (TrimSpace s)) = None"
    by (simp add: TrimSpace_def trim_prefixes_fixed)
qed

lemma TrimSpace_idem [simp]: "TrimSpace (TrimSpace s) = TrimSpace s"
  by (subst TrimSpace_def) (simp add: trim_prefixes_id TrimSpace_fixed)

lemma TrimSpace_Nil [simp]: "TrimSpace [] = []"
  by (simp add: TrimSpace_def trim_prefixes_id space_encodings_def)

text \<open>A text that begins and ends with visible ASCII characters is not trimmed.\<close>

definition visible :: "char \<Rightarrow> bool" where
  "visible c \<longleftrightarrow> 32 < (of_char c :: nat) \<and> (of_char c :: nat) < 128"

lemma match_prefix_hd:
  "s \<noteq> [] \<Longrightarrow> (\<And>p. p \<in> set ps \<Longrightarrow> p \<noteq> [] \<Longrightarrow> \<not> visible (hd p)) \<Longrightarrow> visible (hd s) \<Longrightarrow> match_prefix ps s = None"
proof (induction ps)
  case (Cons p ps)
  have "take (length p) s \<noteq> p" if "p \<noteq> []"
  proof
    assume "take (length p) s = p"
    with that Cons.prems(1) have "hd s = hd p" by (metis hd_take length_greater_0_conv)
    with Cons.prems(2) [of p] Cons.prems(3) that show False by simp
  qed
  with Cons show ?case by auto
qed simp

lemma TrimSpace_visible:
  assumes "s \<noteq> []" "visible (hd s)" "visible (last s)"
  shows "TrimSpace s = s"
proof -
  have "\<forall>p \<in> set space_encodings. \<not> visible (hd p) \<and> \<not> visible (last p)"
    by (simp add: space_encodings_def visible_def)
  then have "\<not> visible (hd p)" if "p \<in> set space_encodings \<union> set (map rev space_encodings)" "p \<noteq> []" for p
    using that by (auto simp: hd_rev)
  with assms have "match_prefix space_encodings s = None" "match_prefix (map rev space_encodings) (rev s) = None"
    by (auto intro!: match_prefix_hd simp: hd_rev)
  then show ?thesis by (simp add: TrimSpace_def trim_prefixes_id)
qed

lemma length_hex [simp]: "length (hex_EncodeToString bs) = 2 * length bs"
  by (induction bs) (auto simp: hex_EncodeToString_def)

lemma UnixMilli_time_UnixMilli [simp]: "UnixMilli (time_UnixMilli ms) = ms"
  by (simp add: UnixMilli_def time_UnixMilli_def)

lemma Unix_time_Unix [simp]: "Unix (time_Unix s) = s"
  by (simp add: Unix_def time_Unix_def)

lemma UnixMilli_mono: "t \<le> u \<Longrightarrow> UnixMilli t \<le> UnixMilli u"
  by (simp add: UnixMilli_def zdiv_mono1)

lemma time_UnixMilli_UnixMilli: "10 ^ 6 dvd t \<Longrightarrow> time_UnixMilli (UnixMilli t) = t"
  by (simp add: UnixMilli_def time_UnixMilli_def)

lemma digit_val_char [simp]: "d < 10 \<Longrightarrow> digit_val (char_of (48 + d)) = Some d"
  by (simp add: digit_val_def Let_def)

lemma parse_digits_append:
  "parse_digits a (xs @ ys) = (case parse_digits a xs of None \<Rightarrow> None | Some b \<Rightarrow> parse_digits b ys)"
  by (induction xs arbitrary: a) (auto split: option.splits)

lemma parse_digits_FormatUint: "parse_digits 0 (FormatUint n) = Some n"
proof (induction n rule: FormatUint.induct)
  case (1 n)
  show ?case
  proof (cases "n < 10")
    case True
    then show ?thesis by (subst FormatUint.simps) simp
  next
    case False
    with "1" have "parse_digits 0 (FormatUint (n div 10)) = Some (n div 10)" by simp
    with False show ?thesis
      by (subst FormatUint.simps) (simp add: parse_digits_append)
  qed
qed

lemma FormatUint_nonempty [simp]: "FormatUint n \<noteq> []"
  by (subst FormatUint.simps) simp

lemma ParseUint_FormatUint: "n < 2 ^ 64 \<Longrightarrow> ParseUint (FormatUint n) = Some n"
  by (simp add: ParseUint_def parse_digits_FormatUint)

lemma FormatUint_inj: "FormatUint m = FormatUint n \<Longrightarrow> m = n"
  by (metis parse_digits_FormatUint option.inject)

end
