(* ===== verification/Entities.thy ===== *)
theory Entities
  imports Prelude
begin

text \<open>
  The program's data: one record per gorm entity (\<open>internal/api/*/entity.go\<close>), the unique
  indexes and automatic columns its struct tags declare, and the state of the services the
  program talks to: the MySQL tables, the Redis key space and the RabbitMQ queues.
\<close>

section \<open>Entities\<close>

record account =
  a_ID :: uint
  a_Username :: string
  a_Password :: string
  a_Token :: string
  a_RefreshToken :: string
  a_AvatarURL :: string
  a_Bio :: string

record video =
  v_ID :: uint
  v_AuthorID :: uint
  v_Username :: string
  v_Title :: string
  v_Description :: string
  v_PlayURL :: string
  v_CoverURL :: string
  v_CreateTime :: time
  v_LikesCount :: int
  v_Popularity :: int

record outbox_msg =
  o_ID :: uint
  o_VideoID :: uint
  o_EventType :: string
  o_CreateTime :: time
  o_Status :: string
  o_RetryCount :: int
  o_LastError :: string
  o_UpdatedAt :: time
  o_PublishedAt :: "time option"

record tag =
  tg_ID :: uint
  tg_Name :: string

record video_tag =
  vt_ID :: uint
  vt_VideoID :: uint
  vt_TagID :: uint

record like =
  l_ID :: uint
  l_VideoID :: uint
  l_AccountID :: uint
  l_CreatedAt :: time

record comment =
  c_ID :: uint
  c_EventID :: string
  c_Username :: string
  c_VideoID :: uint
  c_AuthorID :: uint
  c_Content :: string
  c_CreatedAt :: time

record social =
  s_ID :: uint
  s_FollowerID :: uint
  s_VloggerID :: uint

record message =
  m_ID :: uint
  m_FromID :: uint
  m_ToID :: uint
  m_Content :: string
  m_IsRead :: bool
  m_CreatedAt :: time

record notification =
  n_ID :: uint
  n_EventID :: string
  n_RecipientID :: uint
  n_SenderID :: uint
  n_Type :: string
  n_TargetID :: uint
  n_Content :: string
  n_IsRead :: bool
  n_CreatedAt :: time

section \<open>Schemas: what the struct tags declare\<close>

text \<open>
  \<open>row_id\<close> is the primary key. \<open>clash\<close> holds of two rows that a unique index (other than the
  primary key) does not let coexist. \<open>fill i t\<close> is what \<open>Create\<close> writes into the Go struct:
  the generated key and the automatic time columns that are still zero (\<open>autoCreateTime\<close>,
  \<open>autoUpdateTime\<close>, \<open>CreatedAt\<close>). \<open>col f\<close> maps the time columns through the precision the
  column type keeps.
\<close>

record 'r schema =
  row_id :: "'r \<Rightarrow> uint"
  clash :: "'r \<Rightarrow> 'r \<Rightarrow> bool"
  fill :: "uint \<Rightarrow> time \<Rightarrow> 'r \<Rightarrow> 'r"
  col :: "(time \<Rightarrow> time) \<Rightarrow> 'r \<Rightarrow> 'r"

definition auto_time :: "time \<Rightarrow> time \<Rightarrow> time" where
  "auto_time t v = (if IsZero v then t else v)"

definition account_schema :: "account schema" where
  "account_schema = \<lparr>row_id = a_ID, clash = (\<lambda>a b. a_Username a = a_Username b),
     fill = (\<lambda>i t a. a\<lparr>a_ID := i\<rparr>), col = (\<lambda>f a. a)\<rparr>"

definition video_schema :: "video schema" where
  "video_schema = \<lparr>row_id = v_ID, clash = (\<lambda>a b. False),
     fill = (\<lambda>i t v. v\<lparr>v_ID := i, v_CreateTime := auto_time t (v_CreateTime v)\<rparr>),
     col = (\<lambda>f v. v\<lparr>v_CreateTime := f (v_CreateTime v)\<rparr>)\<rparr>"

definition outbox_schema :: "outbox_msg schema" where
  "outbox_schema = \<lparr>row_id = o_ID, clash = (\<lambda>a b. False),
     fill = (\<lambda>i t m. m\<lparr>o_ID := i, o_CreateTime := auto_time t (o_CreateTime m),
                       o_UpdatedAt := auto_time t (o_UpdatedAt m)\<rparr>),
     col = (\<lambda>f m. m\<lparr>o_CreateTime := f (o_CreateTime m), o_UpdatedAt := f (o_UpdatedAt m),
                    o_PublishedAt := map_option f (o_PublishedAt m)\<rparr>)\<rparr>"

definition tag_schema :: "tag schema" where
  "tag_schema = \<lparr>row_id = tg_ID, clash = (\<lambda>a b. tg_Name a = tg_Name b),
     fill = (\<lambda>i t x. x\<lparr>tg_ID := i\<rparr>), col = (\<lambda>f x. x)\<rparr>"

definition video_tag_schema :: "video_tag schema" where
  "video_tag_schema = \<lparr>row_id = vt_ID, clash = (\<lambda>a b. False),
     fill = (\<lambda>i t x. x\<lparr>vt_ID := i\<rparr>), col = (\<lambda>f x. x)\<rparr>"

definition like_schema :: "like schema" where
  "like_schema = \<lparr>row_id = l_ID,
     clash = (\<lambda>a b. l_VideoID a = l_VideoID b \<and> l_AccountID a = l_AccountID b),
     fill = (\<lambda>i t x. x\<lparr>l_ID := i, l_CreatedAt := auto_time t (l_CreatedAt x)\<rparr>),
     col = (\<lambda>f x. x\<lparr>l_CreatedAt := f (l_CreatedAt x)\<rparr>)\<rparr>"

definition comment_schema :: "comment schema" where
  "comment_schema = \<lparr>row_id = c_ID, clash = (\<lambda>a b. c_EventID a = c_EventID b),
     fill = (\<lambda>i t x. x\<lparr>c_ID := i, c_CreatedAt := auto_time t (c_CreatedAt x)\<rparr>),
     col = (\<lambda>f x. x\<lparr>c_CreatedAt := f (c_CreatedAt x)\<rparr>)\<rparr>"

definition social_schema :: "social schema" where
  "social_schema = \<lparr>row_id = s_ID,
     clash = (\<lambda>a b. s_FollowerID a = s_FollowerID b \<and> s_VloggerID a = s_VloggerID b),
     fill = (\<lambda>i t x. x\<lparr>s_ID := i\<rparr>), col = (\<lambda>f x. x)\<rparr>"

definition message_schema :: "message schema" where
  "message_schema = \<lparr>row_id = m_ID, clash = (\<lambda>a b. False),
     fill = (\<lambda>i t x. x\<lparr>m_ID := i, m_CreatedAt := auto_time t (m_CreatedAt x)\<rparr>),
     col = (\<lambda>f x. x\<lparr>m_CreatedAt := f (m_CreatedAt x)\<rparr>)\<rparr>"

definition notification_schema :: "notification schema" where
  "notification_schema = \<lparr>row_id = n_ID, clash = (\<lambda>a b. n_EventID a = n_EventID b),
     fill = (\<lambda>i t x. x\<lparr>n_ID := i, n_CreatedAt := auto_time t (n_CreatedAt x)\<rparr>),
     col = (\<lambda>f x. x\<lparr>n_CreatedAt := f (n_CreatedAt x)\<rparr>)\<rparr>"

lemmas schema_defs =
  account_schema_def video_schema_def outbox_schema_def tag_schema_def video_tag_schema_def
  like_schema_def comment_schema_def social_schema_def message_schema_def notification_schema_def

lemma row_id_schema [simp]:
  "row_id account_schema = a_ID" "row_id video_schema = v_ID" "row_id outbox_schema = o_ID" "row_id tag_schema = tg_ID"
  "row_id video_tag_schema = vt_ID" "row_id like_schema = l_ID" "row_id comment_schema = c_ID"
  "row_id social_schema = s_ID" "row_id message_schema = m_ID" "row_id notification_schema = n_ID"
  by (simp_all add: schema_defs)

text \<open>What MySQL enforces of a table: distinct primary keys, none of them 0, no clash.\<close>

definition table_wf :: "'r schema \<Rightarrow> 'r list \<Rightarrow> bool" where
  "table_wf S rs \<longleftrightarrow> distinct (map (row_id S) rs) \<and> 0 \<notin> row_id S ` set rs \<and>
     (\<forall>a \<in> set rs. \<forall>b \<in> set rs. clash S a b \<longrightarrow> row_id S a = row_id S b)"

section \<open>The services' state\<close>

record tables =
  t_accounts :: "account list"
  t_videos :: "video list"
  t_outbox :: "outbox_msg list"
  t_tags :: "tag list"
  t_video_tags :: "video_tag list"
  t_likes :: "like list"
  t_comments :: "comment list"
  t_socials :: "social list"
  t_messages :: "message list"
  t_notifications :: "notification list"

text \<open>
  A Redis value: a string, an integer counter, or a sorted set as the list of its scores and
  members in Redis's order (by score, then by the bytes of the member). The scores the program
  writes are whole numbers (millisecond times and counts), which a float64 holds exactly up to
  \<open>2 ^ 53\<close>. With a value goes the time (in milliseconds of Redis's clock) it expires, if it does;
  an entry past that time counts as absent.
\<close>

datatype redis_val = RStr string | RInt int | RZSet "(int \<times> string) list"

type_synonym redis_entry = "redis_val \<times> int option"

type_synonym redis_db = "string \<rightharpoonup> redis_entry"

text \<open>AMQP messages: \<open>amqp.Publishing\<close>, and \<open>amqp.Delivery\<close> with where it came from.\<close>

datatype amqp_val = AInt32 "32 word" | AOther string

record publishing =
  p_Headers :: "(string \<times> amqp_val) list"
  p_ContentType :: string
  p_ContentEncoding :: string
  p_DeliveryMode :: nat
  p_Priority :: nat
  p_CorrelationId :: string
  p_ReplyTo :: string
  p_Expiration :: string
  p_MessageId :: string
  p_Timestamp :: time
  p_Type :: string
  p_UserId :: string
  p_AppId :: string
  p_Body :: string

record delivery =
  d_Pub :: publishing
  d_Exchange :: string
  d_RoutingKey :: string

text \<open>
  The broker: every accepted message in order, and for each queue the messages ready for
  delivery, delivered but not acknowledged, and dead-lettered.
\<close>

record broker =
  bk_log :: "delivery list"
  bk_ready :: "string \<Rightarrow> delivery list"
  bk_unacked :: "string \<Rightarrow> delivery list"
  bk_dead :: "string \<Rightarrow> delivery list"

text \<open>
  The memory of the process that calls share: the local cache of videos and the SSE hub, for each
  user its open connections. A connection is a Go channel: an identity and what it buffers.
\<close>

record sse_chan =
  ch_id :: nat
  ch_buf :: "notification list"

record memory =
  local_videos :: "string \<rightharpoonup> video"
  hub_clients :: "uint \<Rightarrow> sse_chan list"
  hub_next :: nat

text \<open>
  The world a call sees: the services' state, Redis's clock and the payloads published to its
  channels, the process's memory, and a hidden part of any type \<open>'x\<close> on which the outcome of a call
  may depend (network faults, generated keys, the host's clock and randomness).
\<close>

record 'x world =
  tabs :: tables
  rds :: redis_db
  rclock :: int
  mq :: broker
  pubs :: "(string \<times> string) list"
  mem :: memory
  hidden :: 'x

type_synonym ('x, 'a) io = "('x world, 'a) state"

section \<open>Frames\<close>

text \<open>What a call leaves alone; Redis's clock only moves forward.\<close>

definition same_redis :: "'x world \<Rightarrow> 'x world \<Rightarrow> bool" where
  "same_redis w w' \<longleftrightarrow> rds w' = rds w \<and> rclock w \<le> rclock w' \<and> pubs w' = pubs w \<and> mem w' = mem w"

definition sql_frame :: "'x world \<Rightarrow> 'x world \<Rightarrow> bool" where
  "sql_frame w w' \<longleftrightarrow> same_redis w w' \<and> mq w' = mq w"

definition redis_frame :: "'x world \<Rightarrow> 'x world \<Rightarrow> bool" where
  "redis_frame w w' \<longleftrightarrow> tabs w' = tabs w \<and> mq w' = mq w \<and> rclock w \<le> rclock w' \<and> pubs w' = pubs w \<and> mem w' = mem w"

definition mq_frame :: "'x world \<Rightarrow> 'x world \<Rightarrow> bool" where
  "mq_frame w w' \<longleftrightarrow> tabs w' = tabs w \<and> same_redis w w'"

definition quiet :: "'x world \<Rightarrow> 'x world \<Rightarrow> bool" where
  "quiet w w' \<longleftrightarrow> tabs w' = tabs w \<and> same_redis w w' \<and> mq w' = mq w"

lemmas frame_defs = same_redis_def sql_frame_def redis_frame_def mq_frame_def quiet_def

lemma sql_frame_refl [simp]: "sql_frame w w"
  by (simp add: frame_defs)

lemma sql_frame_trans [trans]: "sql_frame u v \<Longrightarrow> sql_frame v w \<Longrightarrow> sql_frame u w"
  by (simp add: frame_defs)

lemma quiet_iff: "quiet w w' \<longleftrightarrow> sql_frame w w' \<and> tabs w' = tabs w"
  by (auto simp: frame_defs)

lemma quiet_sql_frame [dest]: "quiet w w' \<Longrightarrow> sql_frame w w' \<and> tabs w' = tabs w"
  by (simp add: frame_defs)

end
