(* ===== verification/Gorm.thy ===== *)
theory Gorm
  imports Entities
begin

text \<open>
  The database as the program sees it. gorm and MySQL are not part of the sources, so every
  statement the repositories run is a field of a record the definitions take as an argument,
  as the Go structs hold a \<open>*gorm.DB\<close>; a \<open>Where\<close> text becomes a predicate on rows, an
  \<open>Order\<close> text a comparison, a column map a row update. \<open>gorm_ok\<close> names what the program
  relies on: the documented meaning of the SQL statements, of gorm's \<open>First\<close>, \<open>Create\<close>
  and \<open>Transaction\<close>, and that a statement that fails has had no effect or its whole effect.
\<close>

section \<open>Statements\<close>

record ('x, 'r) table_ops =
  db_find :: "('r \<Rightarrow> bool) \<Rightarrow> ('r \<Rightarrow> 'r \<Rightarrow> bool) \<Rightarrow> int \<Rightarrow> ('x, 'r list res) io"
  db_first :: "('r \<Rightarrow> bool) \<Rightarrow> ('x, 'r res) io"
  db_count :: "('r \<Rightarrow> bool) \<Rightarrow> ('x, int res) io"
  db_updates :: "('r \<Rightarrow> bool) \<Rightarrow> ('r \<Rightarrow> 'r) \<Rightarrow> ('x, int res) io"
  db_delete :: "('r \<Rightarrow> bool) \<Rightarrow> ('x, int res) io"
  db_create :: "'r \<Rightarrow> ('x, 'r res) io"

text \<open>
  \<open>db_find P ord lim\<close> is \<open>Where(P).Order(ord).Limit(lim).Find\<close>, with \<open>no_limit\<close> for a
  query without \<open>Limit\<close> and \<open>no_order\<close> for one without \<open>Order\<close>; \<open>db_updates\<close> and
  \<open>db_delete\<close> return \<open>RowsAffected\<close>; \<open>db_create\<close> returns the struct as \<open>Create\<close> leaves it.
  \<open>db_videos_sub\<close> is \<open>db_find\<close> on the videos with a \<open>Where\<close> that holds a subquery,
  \<open>db_videos_likes\<close> and \<open>db_videos_tags\<close> are the two joined queries, \<open>db_sum_likes\<close> is
  \<open>SELECT COALESCE(SUM(likes_count), 0)\<close> and \<open>db_scan_author\<close> is \<open>SELECT author_id\<close> scanned
  into a \<open>uint\<close> that starts at 0.
\<close>

abbreviation no_limit :: int where
  "no_limit \<equiv> - 1"

abbreviation no_order :: "'r \<Rightarrow> 'r \<Rightarrow> bool" where
  "no_order \<equiv> \<lambda>_ _. True"

record 'x gorm =
  db_accounts :: "('x, account) table_ops"
  db_videos :: "('x, video) table_ops"
  db_outbox :: "('x, outbox_msg) table_ops"
  db_tags :: "('x, tag) table_ops"
  db_video_tags :: "('x, video_tag) table_ops"
  db_likes :: "('x, like) table_ops"
  db_comments :: "('x, comment) table_ops"
  db_socials :: "('x, social) table_ops"
  db_messages :: "('x, message) table_ops"
  db_notifications :: "('x, notification) table_ops"
  db_videos_sub :: "(tables \<Rightarrow> video \<Rightarrow> bool) \<Rightarrow> (video \<Rightarrow> video \<Rightarrow> bool) \<Rightarrow> int \<Rightarrow> ('x, video list res) io"
  db_videos_likes :: "(video \<times> like \<Rightarrow> bool) \<Rightarrow> (video \<times> like \<Rightarrow> video \<times> like \<Rightarrow> bool) \<Rightarrow> int
    \<Rightarrow> ('x, video list res) io"
  db_videos_tags :: "(video \<times> video_tag \<times> tag \<Rightarrow> bool)
    \<Rightarrow> (video \<times> video_tag \<times> tag \<Rightarrow> video \<times> video_tag \<times> tag \<Rightarrow> bool) \<Rightarrow> int
    \<Rightarrow> ('x, video list res) io"
  db_sum_likes :: "(video \<Rightarrow> bool) \<Rightarrow> ('x, int res) io"
  db_scan_author :: "(video \<Rightarrow> bool) \<Rightarrow> ('x, uint res) io"
  db_transaction :: "('x, unit res) io \<Rightarrow> ('x, unit res) io"
  db_col_time :: "time \<Rightarrow> time"

section \<open>What the statements do\<close>

definition total_preorder :: "('r \<Rightarrow> 'r \<Rightarrow> bool) \<Rightarrow> bool" where
  "total_preorder ord \<longleftrightarrow> transp ord \<and> (\<forall>a b. ord a b \<or> ord b a)"

definition limit_rows :: "int \<Rightarrow> 'r list \<Rightarrow> 'r list" where
  "limit_rows lim rs = (if lim < 0 then rs else take (nat lim) rs)"

text \<open>A query may list rows that its \<open>ORDER BY\<close> does not tell apart in any order.\<close>

definition query_result ::
  "('r \<Rightarrow> bool) \<Rightarrow> ('r \<Rightarrow> 'r \<Rightarrow> bool) \<Rightarrow> int \<Rightarrow> 'r list \<Rightarrow> 'r list \<Rightarrow> bool" where
  "query_result P ord lim rs out \<longleftrightarrow>
     (\<exists>ys. mset ys = mset (filter P rs) \<and> sorted_wrt ord ys \<and> out = limit_rows lim ys)"

definition update_rows :: "('r \<Rightarrow> bool) \<Rightarrow> ('r \<Rightarrow> 'r) \<Rightarrow> 'r list \<Rightarrow> 'r list" where
  "update_rows P f rs = map (\<lambda>r. if P r then f r else r) rs"

definition changed_rows :: "('r \<Rightarrow> bool) \<Rightarrow> ('r \<Rightarrow> 'r) \<Rightarrow> 'r list \<Rightarrow> int" where
  "changed_rows P f rs = int (length (filter (\<lambda>r. P r \<and> f r \<noteq> r) rs))"

definition delete_rows :: "('r \<Rightarrow> bool) \<Rightarrow> 'r list \<Rightarrow> 'r list" where
  "delete_rows P rs = filter (\<lambda>r. \<not> P r) rs"

definition inserted :: "(time \<Rightarrow> time) \<Rightarrow> 'r schema \<Rightarrow> 'r list \<Rightarrow> 'r \<Rightarrow> 'r list \<Rightarrow> 'r \<Rightarrow> bool" where
  "inserted ct S rs r rs' r' \<longleftrightarrow>
     (\<exists>i t. i \<noteq> 0 \<and> \<not> IsZero t \<and> i \<notin> row_id S ` set rs \<and> r' = fill S i t r \<and>
        (\<forall>x \<in> set rs. \<not> clash S x r') \<and> rs' = rs @ [col S ct r'])"

text \<open>A failed statement: nothing happened, or all of it did and the answer was lost.\<close>

definition maybe_done :: "tables \<Rightarrow> tables \<Rightarrow> tables \<Rightarrow> bool" where
  "maybe_done t t' u \<longleftrightarrow> u = t \<or> u = t'"

definition find_ok :: "(tables \<Rightarrow> 'r list) \<Rightarrow> (('r \<Rightarrow> bool) \<Rightarrow> ('r \<Rightarrow> 'r \<Rightarrow> bool) \<Rightarrow> int
    \<Rightarrow> ('x, 'r list res) io) \<Rightarrow> bool" where
  "find_ok get q \<longleftrightarrow> (\<forall>P ord lim w. total_preorder ord \<longrightarrow> lim = no_limit \<or> 0 < lim \<longrightarrow>
     wp (q P ord lim) (\<lambda>r w'. quiet w w' \<and>
       (\<forall>out. r = Inr out \<longrightarrow> query_result P ord lim (get (tabs w)) out)) w)"

definition first_ok :: "'r schema \<Rightarrow> (tables \<Rightarrow> 'r list) \<Rightarrow> (('r \<Rightarrow> bool) \<Rightarrow> ('x, 'r res) io) \<Rightarrow> bool" where
  "first_ok S get q \<longleftrightarrow> (\<forall>P w. wp (q P) (\<lambda>r w'. quiet w w' \<and> (case r of
       Inr x \<Rightarrow> x \<in> set (get (tabs w)) \<and> P x \<and>
          (\<forall>y \<in> set (get (tabs w)). P y \<longrightarrow> row_id S x \<le> row_id S y)
     | Inl e \<Rightarrow> e = ErrRecordNotFound \<longrightarrow> (\<forall>y \<in> set (get (tabs w)). \<not> P y))) w)"

definition count_ok :: "(tables \<Rightarrow> 'r list) \<Rightarrow> (('r \<Rightarrow> bool) \<Rightarrow> ('x, int res) io) \<Rightarrow> bool" where
  "count_ok get q \<longleftrightarrow> (\<forall>P w. wp (q P) (\<lambda>r w'. quiet w w' \<and>
     (\<forall>n. r = Inr n \<longrightarrow> n = int (length (filter P (get (tabs w)))))) w)"

definition updates_post :: "(time \<Rightarrow> time) \<Rightarrow> 'r schema \<Rightarrow> (tables \<Rightarrow> 'r list)
    \<Rightarrow> (('r list \<Rightarrow> 'r list) \<Rightarrow> tables \<Rightarrow> tables) \<Rightarrow> ('r \<Rightarrow> bool) \<Rightarrow> ('r \<Rightarrow> 'r)
    \<Rightarrow> tables \<Rightarrow> int res \<Rightarrow> tables \<Rightarrow> bool" where
  "updates_post ct S get upd P f t r u \<longleftrightarrow>
     (let g = (\<lambda>x. col S ct (f x)); t' = upd (update_rows P g) t in
      (u \<noteq> t \<and> table_wf S (get t) \<longrightarrow> table_wf S (get t')) \<and>
      (case r of
        Inr n \<Rightarrow> u = t' \<and> n = changed_rows P g (get t)
      | Inl e \<Rightarrow> (if IsDupKey e then u = t \<and> \<not> table_wf S (get t') else maybe_done t t' u)))"

definition updates_ok :: "(time \<Rightarrow> time) \<Rightarrow> 'r schema \<Rightarrow> (tables \<Rightarrow> 'r list)
    \<Rightarrow> (('r list \<Rightarrow> 'r list) \<Rightarrow> tables \<Rightarrow> tables)
    \<Rightarrow> (('r \<Rightarrow> bool) \<Rightarrow> ('r \<Rightarrow> 'r) \<Rightarrow> ('x, int res) io) \<Rightarrow> bool" where
  "updates_ok ct S get upd q \<longleftrightarrow> (\<forall>P f w. wp (q P f) (\<lambda>r w'. sql_frame w w' \<and>
     updates_post ct S get upd P f (tabs w) r (tabs w')) w)"

definition delete_post :: "(tables \<Rightarrow> 'r list) \<Rightarrow> (('r list \<Rightarrow> 'r list) \<Rightarrow> tables \<Rightarrow> tables)
    \<Rightarrow> ('r \<Rightarrow> bool) \<Rightarrow> tables \<Rightarrow> int res \<Rightarrow> tables \<Rightarrow> bool" where
  "delete_post get upd P t r u \<longleftrightarrow> (let t' = upd (delete_rows P) t in case r of
       Inr n \<Rightarrow> u = t' \<and> n = int (length (filter P (get t)))
     | Inl e \<Rightarrow> maybe_done t t' u)"

definition delete_ok :: "(tables \<Rightarrow> 'r list) \<Rightarrow> (('r list \<Rightarrow> 'r list) \<Rightarrow> tables \<Rightarrow> tables)
    \<Rightarrow> (('r \<Rightarrow> bool) \<Rightarrow> ('x, int res) io) \<Rightarrow> bool" where
  "delete_ok get upd q \<longleftrightarrow> (\<forall>P w. wp (q P) (\<lambda>r w'. sql_frame w w' \<and>
     delete_post get upd P (tabs w) r (tabs w')) w)"

definition create_post :: "(time \<Rightarrow> time) \<Rightarrow> 'r schema \<Rightarrow> (tables \<Rightarrow> 'r list)
    \<Rightarrow> (('r list \<Rightarrow> 'r list) \<Rightarrow> tables \<Rightarrow> tables) \<Rightarrow> 'r \<Rightarrow> tables \<Rightarrow> 'r res \<Rightarrow> tables \<Rightarrow> bool" where
  "create_post ct S get upd r t res u \<longleftrightarrow> (case res of
       Inr r' \<Rightarrow> (\<exists>rs'. inserted ct S (get t) r rs' r' \<and> u = upd (\<lambda>_. rs') t)
     | Inl e \<Rightarrow> (if IsDupKey e then u = t \<and> (\<exists>x \<in> set (get t). clash S x r)
         else u = t \<or> (\<exists>rs' r'. inserted ct S (get t) r rs' r' \<and> u = upd (\<lambda>_. rs') t)))"

definition create_ok :: "(time \<Rightarrow> time) \<Rightarrow> 'r schema \<Rightarrow> (tables \<Rightarrow> 'r list)
    \<Rightarrow> (('r list \<Rightarrow> 'r list) \<Rightarrow> tables \<Rightarrow> tables) \<Rightarrow> ('r \<Rightarrow> ('x, 'r res) io) \<Rightarrow> bool" where
  "create_ok ct S get upd q \<longleftrightarrow> (\<forall>r w. row_id S r = 0 \<longrightarrow> wp (q r) (\<lambda>res w'. sql_frame w w' \<and>
     create_post ct S get upd r (tabs w) res (tabs w')) w)"

definition table_ok :: "(time \<Rightarrow> time) \<Rightarrow> 'r schema \<Rightarrow> (tables \<Rightarrow> 'r list)
    \<Rightarrow> (('r list \<Rightarrow> 'r list) \<Rightarrow> tables \<Rightarrow> tables) \<Rightarrow> ('x, 'r) table_ops \<Rightarrow> bool" where
  "table_ok ct S get upd T \<longleftrightarrow>
     find_ok get (db_find T) \<and> first_ok S get (db_first T) \<and> count_ok get (db_count T) \<and>
     updates_ok ct S get upd (db_updates T) \<and> delete_ok get upd (db_delete T) \<and>
     create_ok ct S get upd (db_create T)"

text \<open>
  \<open>Transaction(body)\<close>: \<open>BEGIN\<close> may fail; an error of the body rolls back and is returned;
  otherwise \<open>COMMIT\<close>, whose failure leaves all or nothing.
\<close>

definition transaction_ok :: "(('x, unit res) io \<Rightarrow> ('x, unit res) io) \<Rightarrow> bool" where
  "transaction_ok tx \<longleftrightarrow> (\<forall>body Q w.
     (\<forall>e w'. quiet w w' \<longrightarrow> Q (Inl e) w') \<longrightarrow>
     (\<forall>w0. quiet w w0 \<longrightarrow> wp body (\<lambda>r w1. \<forall>w'. sql_frame w1 w' \<longrightarrow> (case r of
         Inl e \<Rightarrow> tabs w' = tabs w \<longrightarrow> Q (Inl e) w'
       | Inr _ \<Rightarrow> (tabs w' = tabs w1 \<longrightarrow> Q (Inr ()) w') \<and>
           (\<forall>e. maybe_done (tabs w) (tabs w1) (tabs w') \<longrightarrow> Q (Inl e) w'))) w0) \<longrightarrow>
     wp (tx body) Q w)"

text \<open>The rows of the joined queries, as pairs and triples of rows.\<close>

definition join_likes :: "tables \<Rightarrow> (video \<times> like) list" where
  "join_likes t = filter (\<lambda>(v, l). l_VideoID l = v_ID v) (List.product (t_videos t) (t_likes t))"

definition join_tags :: "tables \<Rightarrow> (video \<times> video_tag \<times> tag) list" where
  "join_tags t = filter (\<lambda>(v, x, g). vt_VideoID x = v_ID v \<and> tg_ID g = vt_TagID x)
     (List.product (t_videos t) (List.product (t_video_tags t) (t_tags t)))"

definition videos_queries_ok :: "'x gorm \<Rightarrow> bool" where
  "videos_queries_ok G \<longleftrightarrow>
     (\<forall>P ord lim w. total_preorder ord \<longrightarrow> 0 < lim \<longrightarrow>
       wp (db_videos_sub G P ord lim) (\<lambda>r w'. quiet w w' \<and> (\<forall>out. r = Inr out \<longrightarrow>
         query_result (P (tabs w)) ord lim (t_videos (tabs w)) out)) w) \<and>
     (\<forall>P ord lim w. total_preorder ord \<longrightarrow> 0 < lim \<longrightarrow>
       wp (db_videos_likes G P ord lim) (\<lambda>r w'. quiet w w' \<and> (\<forall>out. r = Inr out \<longrightarrow>
         (\<exists>ps. query_result P ord lim (join_likes (tabs w)) ps \<and> out = map fst ps))) w) \<and>
     (\<forall>P ord lim w. total_preorder ord \<longrightarrow> 0 < lim \<longrightarrow>
       wp (db_videos_tags G P ord lim) (\<lambda>r w'. quiet w w' \<and> (\<forall>out. r = Inr out \<longrightarrow>
         (\<exists>ps. query_result P ord lim (join_tags (tabs w)) ps \<and> out = map fst ps))) w) \<and>
     (\<forall>P w. wp (db_sum_likes G P) (\<lambda>r w'. quiet w w' \<and> (\<forall>n. r = Inr n \<longrightarrow>
         n = sum_list (map v_LikesCount (filter P (t_videos (tabs w)))))) w) \<and>
     (\<forall>P w. wp (db_scan_author G P) (\<lambda>r w'. quiet w w' \<and> (\<forall>a. r = Inr a \<longrightarrow>
         (case filter P (t_videos (tabs w)) of [] \<Rightarrow> a = 0 | v # vs \<Rightarrow> a \<in> v_AuthorID ` set (v # vs)))) w)"

definition gorm_ok :: "'x gorm \<Rightarrow> bool" where
  "gorm_ok G \<longleftrightarrow> (let ct = db_col_time G in
     table_ok ct account_schema t_accounts t_accounts_update (db_accounts G) \<and>
     table_ok ct video_schema t_videos t_videos_update (db_videos G) \<and>
     table_ok ct outbox_schema t_outbox t_outbox_update (db_outbox G) \<and>
     table_ok ct tag_schema t_tags t_tags_update (db_tags G) \<and>
     table_ok ct video_tag_schema t_video_tags t_video_tags_update (db_video_tags G) \<and>
     table_ok ct like_schema t_likes t_likes_update (db_likes G) \<and>
     table_ok ct comment_schema t_comments t_comments_update (db_comments G) \<and>
     table_ok ct social_schema t_socials t_socials_update (db_socials G) \<and>
     table_ok ct message_schema t_messages t_messages_update (db_messages G) \<and>
     table_ok ct notification_schema t_notifications t_notifications_update (db_notifications G) \<and>
     transaction_ok (db_transaction G) \<and>
     videos_queries_ok G \<and>
     (\<forall>t. 10 ^ 6 dvd ct t \<and> ct (ct t) = ct t))"

section \<open>Rules for symbolic execution\<close>

lemma gorm_tables:
  assumes "gorm_ok G"
  shows accounts_ok: "table_ok (db_col_time G) account_schema t_accounts t_accounts_update (db_accounts G)"
    and videos_ok: "table_ok (db_col_time G) video_schema t_videos t_videos_update (db_videos G)"
    and outbox_table_ok: "table_ok (db_col_time G) outbox_schema t_outbox t_outbox_update (db_outbox G)"
    and tags_ok: "table_ok (db_col_time G) tag_schema t_tags t_tags_update (db_tags G)"
    and video_tags_ok: "table_ok (db_col_time G) video_tag_schema t_video_tags t_video_tags_update (db_video_tags G)"
    and likes_ok: "table_ok (db_col_time G) like_schema t_likes t_likes_update (db_likes G)"
    and comments_ok: "table_ok (db_col_time G) comment_schema t_comments t_comments_update (db_comments G)"
    and socials_ok: "table_ok (db_col_time G) social_schema t_socials t_socials_update (db_socials G)"
    and messages_ok: "table_ok (db_col_time G) message_schema t_messages t_messages_update (db_messages G)"
    and notifications_ok: "table_ok (db_col_time G) notification_schema t_notifications t_notifications_update (db_notifications G)"
    and col_time_idem: "db_col_time G (db_col_time G t) = db_col_time G t"
    and col_time_ms: "10 ^ 6 dvd db_col_time G t"
  using assms by (simp_all add: gorm_ok_def Let_def)

lemma wp_find:
  assumes "table_ok ct S get upd T" "total_preorder ord" "lim = no_limit \<or> 0 < lim"
    and "\<And>e w'. quiet w w' \<Longrightarrow> Q (Inl e) w'"
    and "\<And>out w'. quiet w w' \<Longrightarrow> query_result P ord lim (get (tabs w)) out \<Longrightarrow> Q (Inr out) w'"
  shows "wp (db_find T P ord lim) Q w"
proof -
  from assms(1-3) have "wp (db_find T P ord lim) (\<lambda>r w'. quiet w w' \<and>
       (\<forall>out. r = Inr out \<longrightarrow> query_result P ord lim (get (tabs w)) out)) w"
    unfolding table_ok_def find_ok_def by blast
  then show ?thesis by (rule wp_mono) (metis assms(4,5) old.sum.exhaust)
qed

lemma wp_first:
  assumes "table_ok ct S get upd T"
    and "\<And>w'. quiet w w' \<Longrightarrow> \<forall>y \<in> set (get (tabs w)). \<not> P y \<Longrightarrow> Q (Inl ErrRecordNotFound) w'"
    and "\<And>e w'. quiet w w' \<Longrightarrow> e \<noteq> ErrRecordNotFound \<Longrightarrow> Q (Inl e) w'"
    and "\<And>x w'. quiet w w' \<Longrightarrow> x \<in> set (get (tabs w)) \<Longrightarrow> P x \<Longrightarrow>
      \<forall>y \<in> set (get (tabs w)). P y \<longrightarrow> row_id S x \<le> row_id S y \<Longrightarrow> Q (Inr x) w'"
  shows "wp (db_first T P) Q w"
proof -
  from assms(1) have "wp (db_first T P) (\<lambda>r w'. quiet w w' \<and> (case r of
       Inr x \<Rightarrow> x \<in> set (get (tabs w)) \<and> P x \<and>
          (\<forall>y \<in> set (get (tabs w)). P y \<longrightarrow> row_id S x \<le> row_id S y)
     | Inl e \<Rightarrow> e = ErrRecordNotFound \<longrightarrow> (\<forall>y \<in> set (get (tabs w)). \<not> P y))) w"
    by (simp add: table_ok_def first_ok_def)
  then show ?thesis
  proof (rule wp_mono)
    fix r w' assume post: "quiet w w' \<and> (case r of
       Inr x \<Rightarrow> x \<in> set (get (tabs w)) \<and> P x \<and>
          (\<forall>y \<in> set (get (tabs w)). P y \<longrightarrow> row_id S x \<le> row_id S y)
     | Inl e \<Rightarrow> e = ErrRecordNotFound \<longrightarrow> (\<forall>y \<in> set (get (tabs w)). \<not> P y))"
    show "Q r w'"
    proof (cases r)
      case (Inl e)
      with post assms(2,3) show ?thesis by (cases "e = ErrRecordNotFound") auto
    next
      case (Inr x)
      with post assms(4) show ?thesis by simp
    qed
  qed
qed

lemma wp_count:
  assumes "table_ok ct S get upd T"
    and "\<And>e w'. quiet w w' \<Longrightarrow> Q (Inl e) w'"
    and "\<And>w'. quiet w w' \<Longrightarrow> Q (Inr (int (length (filter P (get (tabs w)))))) w'"
  shows "wp (db_count T P) Q w"
proof -
  from assms(1) have "wp (db_count T P) (\<lambda>r w'. quiet w w' \<and>
     (\<forall>n. r = Inr n \<longrightarrow> n = int (length (filter P (get (tabs w)))))) w"
    by (simp add: table_ok_def count_ok_def)
  then show ?thesis by (rule wp_mono) (metis assms(2,3) old.sum.exhaust)
qed

lemma wp_updates:
  assumes "table_ok ct S get upd T"
    and "\<And>r w'. sql_frame w w' \<Longrightarrow> updates_post ct S get upd P f (tabs w) r (tabs w') \<Longrightarrow> Q r w'"
  shows "wp (db_updates T P f) Q w"
  by (rule wp_mono [where P = "\<lambda>r w'. sql_frame w w' \<and> updates_post ct S get upd P f (tabs w) r (tabs w')"])
    (use assms in \<open>auto simp: table_ok_def updates_ok_def\<close>)

lemma wp_updates_simple:
  assumes "table_ok ct S get upd T"
    and "\<And>e w'. sql_frame w w' \<Longrightarrow>
      maybe_done (tabs w) (upd (update_rows P (\<lambda>x. col S ct (f x))) (tabs w)) (tabs w') \<Longrightarrow> Q (Inl e) w'"
    and "\<And>w'. sql_frame w w' \<Longrightarrow> tabs w' = upd (update_rows P (\<lambda>x. col S ct (f x))) (tabs w) \<Longrightarrow>
      Q (Inr (changed_rows P (\<lambda>x. col S ct (f x)) (get (tabs w)))) w'"
  shows "wp (db_updates T P f) Q w"
proof (rule wp_updates [OF assms(1)])
  fix r w' assume "sql_frame w w'" "updates_post ct S get upd P f (tabs w) r (tabs w')"
  then show "Q r w'"
    using assms(2,3) by (cases r) (auto simp: updates_post_def Let_def maybe_done_def split: if_splits)
qed

lemma wp_delete:
  assumes "table_ok ct S get upd T"
    and "\<And>r w'. sql_frame w w' \<Longrightarrow> delete_post get upd P (tabs w) r (tabs w') \<Longrightarrow> Q r w'"
  shows "wp (db_delete T P) Q w"
  by (rule wp_mono [where P = "\<lambda>r w'. sql_frame w w' \<and> delete_post get upd P (tabs w) r (tabs w')"])
    (use assms in \<open>auto simp: table_ok_def delete_ok_def\<close>)

lemma wp_create:
  assumes "table_ok ct S get upd T" "row_id S x = 0"
    and "\<And>r w'. sql_frame w w' \<Longrightarrow> create_post ct S get upd x (tabs w) r (tabs w') \<Longrightarrow> Q r w'"
  shows "wp (db_create T x) Q w"
  by (rule wp_mono [where P = "\<lambda>r w'. sql_frame w w' \<and> create_post ct S get upd x (tabs w) r (tabs w')"])
    (use assms in \<open>auto simp: table_ok_def create_ok_def\<close>)

text \<open>An insert by its outcomes: a duplicate, another failure, a new row.\<close>

definition row_added :: "(time \<Rightarrow> time) \<Rightarrow> 'r schema \<Rightarrow> (tables \<Rightarrow> 'r list) \<Rightarrow> (('r list \<Rightarrow> 'r list) \<Rightarrow> tables \<Rightarrow> tables)
    \<Rightarrow> 'r \<Rightarrow> tables \<Rightarrow> tables \<Rightarrow> bool" where
  "row_added ct S get upd x t t' \<longleftrightarrow> (\<exists>rs' r'. inserted ct S (get t) x rs' r' \<and> t' = upd (\<lambda>_. rs') t)"

lemma wp_create_cases:
  assumes "table_ok ct S get upd T" "row_id S x = 0"
    and "\<And>e w'. sql_frame w w' \<Longrightarrow> IsDupKey e \<Longrightarrow> tabs w' = tabs w \<Longrightarrow> \<exists>y \<in> set (get (tabs w)). clash S y x \<Longrightarrow> Q (Inl e) w'"
    and "\<And>e w'. sql_frame w w' \<Longrightarrow> \<not> IsDupKey e \<Longrightarrow>
      tabs w' = tabs w \<or> row_added ct S get upd x (tabs w) (tabs w') \<Longrightarrow> Q (Inl e) w'"
    and "\<And>y w'. sql_frame w w' \<Longrightarrow> row_added ct S get upd x (tabs w) (tabs w') \<Longrightarrow> Q (Inr y) w'"
  shows "wp (db_create T x) Q w"
proof (rule wp_create [OF assms(1,2)])
  fix r w' assume f: "sql_frame w w'" and post: "create_post ct S get upd x (tabs w) r (tabs w')"
  show "Q r w'"
  proof (cases r)
    case (Inl e)
    show ?thesis
    proof (cases "IsDupKey e")
      case True
      with Inl post assms(3) [OF f True] show ?thesis by (simp add: create_post_def)
    next
      case False
      with Inl post assms(4) [OF f False] show ?thesis by (simp add: create_post_def row_added_def)
    qed
  next
    case (Inr y)
    with post have "row_added ct S get upd x (tabs w) (tabs w')" by (auto simp: create_post_def row_added_def)
    with assms(5) [OF f] Inr show ?thesis by simp
  qed
qed

lemma wp_delete_cases:
  assumes "table_ok ct S get upd T"
    and "\<And>e w'. sql_frame w w' \<Longrightarrow> maybe_done (tabs w) (upd (delete_rows P) (tabs w)) (tabs w') \<Longrightarrow> Q (Inl e) w'"
    and "\<And>w'. sql_frame w w' \<Longrightarrow> tabs w' = upd (delete_rows P) (tabs w) \<Longrightarrow> Q (Inr (int (length (filter P (get (tabs w)))))) w'"
  shows "wp (db_delete T P) Q w"
proof (rule wp_delete [OF assms(1)])
  fix r w' assume "sql_frame w w'" "delete_post get upd P (tabs w) r (tabs w')"
  then show "Q r w'" using assms(2,3) by (cases r) (auto simp: delete_post_def Let_def)
qed

lemma wp_transaction:
  assumes "gorm_ok G"
    and "\<And>e w'. quiet w w' \<Longrightarrow> Q (Inl e) w'"
    and "\<And>w0. quiet w w0 \<Longrightarrow> wp body (\<lambda>r w1. \<forall>w'. sql_frame w1 w' \<longrightarrow> (case r of
         Inl e \<Rightarrow> tabs w' = tabs w \<longrightarrow> Q (Inl e) w'
       | Inr _ \<Rightarrow> (tabs w' = tabs w1 \<longrightarrow> Q (Inr ()) w') \<and>
           (\<forall>e. maybe_done (tabs w) (tabs w1) (tabs w') \<longrightarrow> Q (Inl e) w'))) w0"
  shows "wp (db_transaction G body) Q w"
  using assms by (simp add: gorm_ok_def transaction_ok_def Let_def)

text \<open>An invariant that a successful body keeps is kept by the transaction, whatever fails.\<close>

lemma wp_transaction_keeps:
  assumes G: "gorm_ok G" and body: "\<And>w. I (tabs w) \<Longrightarrow> wp body (\<lambda>r w'. r = Inr () \<longrightarrow> I (tabs w')) w"
    and I: "I (tabs w)"
  shows "wp (db_transaction G body) (\<lambda>_ w'. I (tabs w')) w"
proof (rule wp_transaction [OF G])
  show "I (tabs w')" if "quiet w w'" for w' using that I by (simp add: quiet_iff)
  fix w0 assume "quiet w w0"
  with I have "I (tabs w0)" by (simp add: quiet_iff)
  then show "wp body (\<lambda>r w2. \<forall>w'. sql_frame w2 w' \<longrightarrow> (case r of
       Inl e \<Rightarrow> tabs w' = tabs w \<longrightarrow> I (tabs w')
     | Inr _ \<Rightarrow> (tabs w' = tabs w2 \<longrightarrow> I (tabs w')) \<and>
         (\<forall>e::go_error. maybe_done (tabs w) (tabs w2) (tabs w') \<longrightarrow> I (tabs w')))) w0"
    by (rule wp_mono [OF body]) (use I in \<open>auto simp: maybe_done_def split: sum.splits\<close>)
qed


section \<open>Facts on queries and tables\<close>

lemma total_preorder_key [intro]: "total_preorder (\<lambda>a b. (k b :: 'k :: linorder) \<le> k a)"
  by (auto simp: total_preorder_def transp_def)

lemma total_preorder_key_up [intro]: "total_preorder (\<lambda>a b. (k a :: 'k :: linorder) \<le> k b)"
  by (auto simp: total_preorder_def transp_def)

lemma total_preorder_no_order [simp, intro]: "total_preorder no_order"
  by (simp add: total_preorder_def transp_def)

lemma set_limit_rows: "set (limit_rows lim rs) \<subseteq> set rs"
  by (auto simp: limit_rows_def dest: in_set_takeD)

lemma query_result_set: "query_result P ord lim rs out \<Longrightarrow> set out \<subseteq> {r \<in> set rs. P r}"
proof -
  assume "query_result P ord lim rs out"
  then obtain ys where "mset ys = mset (filter P rs)" "out = limit_rows lim ys"
    by (auto simp: query_result_def)
  moreover have "set ys = set (filter P rs)" by (rule mset_eq_setD) fact
  ultimately show ?thesis using set_limit_rows [of lim ys] by auto
qed

lemma query_result_sorted: "query_result P ord lim rs out \<Longrightarrow> sorted_wrt ord out"
  by (auto simp: query_result_def limit_rows_def sorted_wrt_take)

lemma query_result_length: "0 < lim \<Longrightarrow> query_result P ord lim rs out \<Longrightarrow> int (length out) \<le> lim"
  by (auto simp: query_result_def limit_rows_def)

text \<open>An order that tells the selected rows apart leaves the query no choice.\<close>

lemma sorted_wrt_unique:
  assumes "mset xs = mset ys" "sorted_wrt ord xs" "sorted_wrt ord ys"
    and anti: "\<And>a b. a \<in> set xs \<Longrightarrow> b \<in> set xs \<Longrightarrow> ord a b \<Longrightarrow> ord b a \<Longrightarrow> a = b"
  shows "xs = ys"
  using assms
proof (induction xs arbitrary: ys)
  case (Cons x xs)
  then obtain y ys' where ys: "ys = y # ys'" by (cases ys) auto
  have sets: "set (x # xs) = set ys" by (rule mset_eq_setD [OF Cons.prems(1)])
  have "x = y"
  proof (rule ccontr)
    assume "x \<noteq> y"
    with sets ys have "y \<in> set xs" "x \<in> set ys'" by auto
    with Cons.prems(2,3) ys have "ord x y" "ord y x" by auto
    with Cons.prems(4) \<open>y \<in> set xs\<close> \<open>x \<noteq> y\<close> show False by auto
  qed
  with Cons ys show ?case by auto
qed simp

lemma query_result_unique:
  assumes "query_result P ord lim rs a" "query_result P ord lim rs b"
    and "\<And>x y. x \<in> set rs \<Longrightarrow> y \<in> set rs \<Longrightarrow> ord x y \<Longrightarrow> ord y x \<Longrightarrow> x = y"
  shows "a = b"
proof -
  from assms(1,2) obtain xs ys where xs: "mset xs = mset (filter P rs)" "sorted_wrt ord xs"
      "a = limit_rows lim xs"
    and ys: "mset ys = mset (filter P rs)" "sorted_wrt ord ys" "b = limit_rows lim ys"
    by (auto simp: query_result_def)
  have "set xs \<subseteq> set rs" using mset_eq_setD [OF xs(1)] by auto
  have "xs = ys"
    by (rule sorted_wrt_unique [of _ _ ord]) (use xs ys assms(3) \<open>set xs \<subseteq> set rs\<close> in auto)
  with xs ys show ?thesis by simp
qed

lemma update_rows_simps [simp]:
  "update_rows P f [] = []"
  "update_rows P f (r # rs) = (if P r then f r else r) # update_rows P f rs"
  "length (update_rows P f rs) = length rs"
  by (simp_all add: update_rows_def)

lemma set_update_rows: "set (update_rows P f rs) = (\<lambda>r. if P r then f r else r) ` set rs"
  by (simp add: update_rows_def)

lemma ball_update_rows: "(\<forall>u \<in> set (update_rows P f rs). Q u) \<longleftrightarrow> (\<forall>r \<in> set rs. if P r then Q (f r) else Q r)"
  by (auto simp: set_update_rows)

lemma update_rows_none: "(\<And>r. r \<in> set rs \<Longrightarrow> \<not> P r) \<Longrightarrow> update_rows P f rs = rs"
  by (induction rs) auto

lemma map_update_rows: "(\<And>r. P r \<Longrightarrow> k (f r) = k r) \<Longrightarrow> map k (update_rows P f rs) = map k rs"
  by (simp add: update_rows_def)

lemma table_wf_inj: "table_wf S rs \<Longrightarrow> inj_on (row_id S) (set rs)"
  by (simp add: table_wf_def distinct_map)

lemma table_wf_idD:
  "table_wf S rs \<Longrightarrow> a \<in> set rs \<Longrightarrow> b \<in> set rs \<Longrightarrow> row_id S a = row_id S b \<Longrightarrow> a = b"
  by (auto dest: table_wf_inj inj_onD)

lemma table_wf_clashD:
  "table_wf S rs \<Longrightarrow> a \<in> set rs \<Longrightarrow> b \<in> set rs \<Longrightarrow> clash S a b \<Longrightarrow> a = b"
  by (metis table_wf_def table_wf_idD)

lemma table_wf_distinct: "table_wf S rs \<Longrightarrow> distinct rs"
  by (simp add: table_wf_def distinct_map)

lemma table_wf_snoc:
  assumes "table_wf S rs" "row_id S x \<noteq> 0" "row_id S x \<notin> row_id S ` set rs" "\<And>y. y \<in> set rs \<Longrightarrow> \<not> clash S y x \<and> \<not> clash S x y"
  shows "table_wf S (rs @ [x])"
  unfolding table_wf_def
proof (intro conjI)
  show "distinct (map (row_id S) (rs @ [x]))" "0 \<notin> row_id S ` set (rs @ [x])"
    using assms(1-3) by (auto simp: table_wf_def)
  show "\<forall>a \<in> set (rs @ [x]). \<forall>b \<in> set (rs @ [x]). clash S a b \<longrightarrow> row_id S a = row_id S b"
    using assms(1,4) by (auto simp: table_wf_def)
qed

lemma table_wf_delete: "table_wf S rs \<Longrightarrow> table_wf S (delete_rows P rs)"
  by (auto simp: table_wf_def delete_rows_def distinct_map inj_on_def)

end
