(* ===== verification/Amqp.thy ===== *)
theory Amqp
  imports Entities
begin

text \<open>
  The host (clock, randomness, JSON codecs), the RabbitMQ channel, and
  \<open>internal/middleware/rabbitmq\<close>: \<open>PublishJSON\<close> and the publishers of the like, comment,
  social, popularity and timeline events. The amqp client and the broker are parameters.
\<close>

section \<open>The host\<close>

record 'e codec =
  Marshal :: "'e \<Rightarrow> string res"
  Unmarshal :: "string \<Rightarrow> 'e option"

record like_event =
  le_EventID :: string
  le_Action :: string
  le_UserID :: uint
  le_VideoID :: uint
  le_OccurredAt :: time

record comment_event =
  ce_EventID :: string
  ce_Action :: string
  ce_CommentID :: uint
  ce_Username :: string
  ce_VideoID :: uint
  ce_AuthorID :: uint
  ce_Content :: string
  ce_OccurredAt :: time

record popularity_event =
  pe_EventID :: string
  pe_Action :: string
  pe_VideoID :: uint
  pe_Change :: int
  pe_OccurredAt :: time

record timeline_event =
  te_EventID :: string
  te_Action :: string
  te_VideoID :: uint
  te_CreateTime :: int
  te_OccurredAt :: time

record social_event =
  se_EventID :: string
  se_Action :: string
  se_FollowerID :: uint
  se_VloggerID :: uint
  se_OccurredAt :: time

text \<open>
  \<open>time.Now\<close>, \<open>crypto/rand.Read\<close> (its bytes, or an error) and \<open>encoding/json\<close> at the
  types the program sends and stores.
\<close>

record 'x host =
  time_Now :: "('x, time) io"
  rand_Read :: "nat \<Rightarrow> ('x, 8 word list res) io"
  json_like :: "like_event codec"
  json_comment :: "comment_event codec"
  json_popularity :: "popularity_event codec"
  json_timeline :: "timeline_event codec"
  json_social :: "social_event codec"
  json_video :: "video codec"

text \<open>
  What is relied on: reading the clock or random bytes touches no service, \<open>rand.Read\<close> fills
  the buffer, and decoding inverts encoding for values whose strings are ASCII.
\<close>

definition ascii :: "string \<Rightarrow> bool" where
  "ascii s \<longleftrightarrow> (\<forall>c \<in> set s. of_char c < (128 :: nat))"

definition codec_ok :: "('e \<Rightarrow> string list) \<Rightarrow> 'e codec \<Rightarrow> bool" where
  "codec_ok strs c \<longleftrightarrow> (\<forall>e b. Marshal c e = Inr b \<longrightarrow> (\<forall>s \<in> set (strs e). ascii s) \<longrightarrow>
     Unmarshal c b = Some e)"

definition host_ok :: "'x host \<Rightarrow> bool" where
  "host_ok H \<longleftrightarrow>
     (\<forall>w. wp (time_Now H) (\<lambda>t w'. quiet w w') w) \<and>
     (\<forall>n w. wp (rand_Read H n) (\<lambda>r w'. quiet w w' \<and> (\<forall>bs. r = Inr bs \<longrightarrow> length bs = n)) w) \<and>
     codec_ok (\<lambda>e. [le_EventID e, le_Action e]) (json_like H) \<and>
     codec_ok (\<lambda>e. [ce_EventID e, ce_Action e, ce_Username e, ce_Content e]) (json_comment H) \<and>
     codec_ok (\<lambda>e. [pe_EventID e, pe_Action e]) (json_popularity H) \<and>
     codec_ok (\<lambda>e. [te_EventID e, te_Action e]) (json_timeline H) \<and>
     codec_ok (\<lambda>e. [se_EventID e, se_Action e]) (json_social H)"

text \<open>\<open>util.RandHex\<close>.\<close>

definition RandHex :: "'x host \<Rightarrow> nat \<Rightarrow> ('x, string res) io" where
  "RandHex H n = bindE (rand_Read H n) (\<lambda>bytes. ok (hex_EncodeToString bytes))"

section \<open>The channel\<close>

record 'x channel =
  ch_Publish :: "string \<Rightarrow> string \<Rightarrow> publishing \<Rightarrow> ('x, unit res) io"
  ch_Ack :: "string \<Rightarrow> delivery \<Rightarrow> ('x, unit res) io"
  ch_Nack :: "string \<Rightarrow> delivery \<Rightarrow> bool \<Rightarrow> ('x, unit res) io"
  ch_bound :: "string \<Rightarrow> string \<Rightarrow> string list"

text \<open>
  A publish without confirms that returns nil has handed the message to the connection; the
  broker then has routed it to every queue bound with a matching key, or the connection broke
  first. \<open>Ack\<close> removes the delivery; \<open>Nack\<close> puts it back in its queue or dead-letters it.
\<close>

definition handed :: "delivery \<Rightarrow> broker \<Rightarrow> broker" where
  "handed d b = b\<lparr>bk_log := bk_log b @ [d]\<rparr>"

definition routed :: "string list \<Rightarrow> delivery \<Rightarrow> broker \<Rightarrow> broker" where
  "routed qs d b = (handed d b)\<lparr>bk_ready := (\<lambda>q. if q \<in> set qs then bk_ready b q @ [d] else bk_ready b q)\<rparr>"

definition acked :: "string \<Rightarrow> delivery \<Rightarrow> broker \<Rightarrow> broker" where
  "acked q d b = b\<lparr>bk_unacked := (bk_unacked b)(q := remove1 d (bk_unacked b q))\<rparr>"

definition requeued :: "string \<Rightarrow> delivery \<Rightarrow> broker \<Rightarrow> broker" where
  "requeued q d b = (acked q d b)\<lparr>bk_ready := (bk_ready b)(q := d # bk_ready b q)\<rparr>"

definition dead_lettered :: "string \<Rightarrow> delivery \<Rightarrow> broker \<Rightarrow> broker" where
  "dead_lettered q d b = (acked q d b)\<lparr>bk_dead := (bk_dead b)(q := bk_dead b q @ [d])\<rparr>"

definition publish_post :: "string list \<Rightarrow> delivery \<Rightarrow> broker \<Rightarrow> unit res \<Rightarrow> broker \<Rightarrow> bool" where
  "publish_post qs d b r b' \<longleftrightarrow>
     b' = handed d b \<or> b' = routed qs d b \<or> (\<exists>e. r = Inl e \<and> b' = b)"

definition channel_ok :: "'x channel \<Rightarrow> bool" where
  "channel_ok A \<longleftrightarrow>
     (\<forall>x k p w. wp (ch_Publish A x k p) (\<lambda>r w'. mq_frame w w' \<and>
        publish_post (ch_bound A x k) \<lparr>d_Pub = p, d_Exchange = x, d_RoutingKey = k\<rparr> (mq w) r (mq w')) w) \<and>
     (\<forall>q d w. wp (ch_Ack A q d) (\<lambda>r w'. mq_frame w w' \<and>
        mq w' = (if r = Inr () then acked q d (mq w) else mq w)) w) \<and>
     (\<forall>q d b w. wp (ch_Nack A q d b) (\<lambda>r w'. mq_frame w w' \<and>
        mq w' = (if r = Inr () then (if b then requeued q d (mq w) else dead_lettered q d (mq w)) else mq w)) w)"

section \<open>rabbit\_mq.go\<close>

text \<open>A \<open>*RabbitMQ\<close>; a nil connection or channel is \<open>False\<close> or \<open>None\<close>.\<close>

record 'x RabbitMQ =
  Conn :: bool
  Ch :: "'x channel option"

definition MaxRetryCount :: int where
  "MaxRetryCount = 3"

text \<open>A \<open>*LikeMQ\<close> and its like: nil, or a struct that embeds a \<open>*RabbitMQ\<close>.\<close>

type_synonym 'x mq_ptr = "'x RabbitMQ option option"

definition amqp_Persistent :: nat where
  "amqp_Persistent = 2"

definition json_publishing :: "time \<Rightarrow> string \<Rightarrow> publishing" where
  "json_publishing t body = \<lparr>p_Headers = [], p_ContentType = ''application/json'',
     p_ContentEncoding = '''', p_DeliveryMode = amqp_Persistent, p_Priority = 0, p_CorrelationId = '''',
     p_ReplyTo = '''', p_Expiration = '''', p_MessageId = '''', p_Timestamp = t, p_Type = '''',
     p_UserId = '''', p_AppId = '''', p_Body = body\<rparr>"

definition PublishJSON :: "'x host \<Rightarrow> 'x RabbitMQ option \<Rightarrow> string \<Rightarrow> string \<Rightarrow> string res \<Rightarrow> ('x, unit res) io" where
  "PublishJSON H r exchange routingKey payload =
     (case (case r of None \<Rightarrow> None | Some m \<Rightarrow> Ch m) of
        None \<Rightarrow> throw (ErrNew ''rabbitmq is not initialized'')
      | Some ch \<Rightarrow>
          if exchange = '''' \<or> routingKey = '''' then throw (ErrNew ''exchange and routingKey are required'')
          else bindE (ret payload) (\<lambda>bytes. do {
            now \<leftarrow> time_Now H;
            ch_Publish ch exchange routingKey (json_publishing now bytes)}))"

section \<open>The publishers\<close>

definition LikeExchange :: string where "LikeExchange = ''like.events''"
definition LikeQueue :: string where "LikeQueue = ''like.events''"
definition LikeRoutingKeyLike :: string where "LikeRoutingKeyLike = ''like.like''"
definition LikeRoutingKeyUnlike :: string where "LikeRoutingKeyUnlike = ''like.unlike''"

definition LikeMQ_publish :: "'x host \<Rightarrow> 'x mq_ptr \<Rightarrow> string \<Rightarrow> string \<Rightarrow> uint \<Rightarrow> uint \<Rightarrow> ('x, unit res) io" where
  "LikeMQ_publish H q action routingKey userID videoID =
     (case q of
        None \<Rightarrow> throw (ErrNew ''like_mq is not initialized'')
      | Some None \<Rightarrow> throw (ErrNew ''like_mq is not initialized'')
      | Some (Some base) \<Rightarrow>
          if userID = 0 \<or> videoID = 0 then throw (ErrNew ''userID and videoID are required'')
          else bindE (RandHex H 16) (\<lambda>id. do {
            now \<leftarrow> time_Now H;
            PublishJSON H (Some base) LikeExchange routingKey (Marshal (json_like H)
              \<lparr>le_EventID = id, le_Action = action, le_UserID = userID, le_VideoID = videoID, le_OccurredAt = now\<rparr>)}))"

definition LikeMQ_Like :: "'x host \<Rightarrow> 'x mq_ptr \<Rightarrow> uint \<Rightarrow> uint \<Rightarrow> ('x, unit res) io" where
  "LikeMQ_Like H q userID videoID = LikeMQ_publish H q ''like'' LikeRoutingKeyLike userID videoID"

definition LikeMQ_Unlike :: "'x host \<Rightarrow> 'x mq_ptr \<Rightarrow> uint \<Rightarrow> uint \<Rightarrow> ('x, unit res) io" where
  "LikeMQ_Unlike H q userID videoID = LikeMQ_publish H q ''unlike'' LikeRoutingKeyUnlike userID videoID"

definition CommentExchange :: string where "CommentExchange = ''comment.events''"
definition CommentRoutingKeyPublish :: string where "CommentRoutingKeyPublish = ''comment.publish''"
definition CommentRoutingKeyDelete :: string where "CommentRoutingKeyDelete = ''comment.delete''"

definition CommentMQ_publish :: "'x host \<Rightarrow> 'x mq_ptr \<Rightarrow> string \<Rightarrow> string \<Rightarrow> comment_event \<Rightarrow> ('x, unit res) io" where
  "CommentMQ_publish H q action routingKey evt =
     (case q of
        None \<Rightarrow> throw (ErrNew ''comment_mq is not initialized'')
      | Some None \<Rightarrow> throw (ErrNew ''comment_mq is not initialized'')
      | Some (Some base) \<Rightarrow>
          bindE (RandHex H 16) (\<lambda>id. do {
            now \<leftarrow> time_Now H;
            PublishJSON H (Some base) CommentExchange routingKey (Marshal (json_comment H)
              (evt\<lparr>ce_EventID := id, ce_Action := action, ce_OccurredAt := now\<rparr>))}))"

definition empty_comment_event :: comment_event where
  "empty_comment_event = \<lparr>ce_EventID = '''', ce_Action = '''', ce_CommentID = 0, ce_Username = '''',
     ce_VideoID = 0, ce_AuthorID = 0, ce_Content = '''', ce_OccurredAt = time_zero\<rparr>"

definition CommentMQ_Publish :: "'x host \<Rightarrow> 'x mq_ptr \<Rightarrow> string \<Rightarrow> uint \<Rightarrow> uint \<Rightarrow> string \<Rightarrow> ('x, unit res) io" where
  "CommentMQ_Publish H q username videoID authorID content =
     CommentMQ_publish H q ''publish'' CommentRoutingKeyPublish
       (empty_comment_event\<lparr>ce_Username := username, ce_VideoID := videoID, ce_AuthorID := authorID,
          ce_Content := content\<rparr>)"

definition CommentMQ_Delete :: "'x host \<Rightarrow> 'x mq_ptr \<Rightarrow> uint \<Rightarrow> ('x, unit res) io" where
  "CommentMQ_Delete H q commentID =
     CommentMQ_publish H q ''delete'' CommentRoutingKeyDelete (empty_comment_event\<lparr>ce_CommentID := commentID\<rparr>)"

definition SocialExchange :: string where "SocialExchange = ''social.events''"
definition SocialRoutingKeyFollow :: string where "SocialRoutingKeyFollow = ''social.follow''"
definition SocialRoutingKeyUnFollow :: string where "SocialRoutingKeyUnFollow = ''social.unfollow''"

definition SocialMQ_publish :: "'x host \<Rightarrow> 'x mq_ptr \<Rightarrow> string \<Rightarrow> string \<Rightarrow> uint \<Rightarrow> uint \<Rightarrow> ('x, unit res) io" where
  "SocialMQ_publish H q action routingKey followerID vloggerID =
     (case q of
        None \<Rightarrow> throw (ErrNew ''social_mq is not initialized'')
      | Some None \<Rightarrow> throw (ErrNew ''social_mq is not initialized'')
      | Some (Some base) \<Rightarrow>
          if followerID = 0 \<or> vloggerID = 0 then throw (ErrNew ''followerID and vloggerID are required'')
          else bindE (RandHex H 16) (\<lambda>id. do {
            now \<leftarrow> time_Now H;
            PublishJSON H (Some base) SocialExchange routingKey (Marshal (json_social H)
              \<lparr>se_EventID = id, se_Action = action, se_FollowerID = followerID, se_VloggerID = vloggerID,
               se_OccurredAt = now\<rparr>)}))"

definition SocialMQ_Follow :: "'x host \<Rightarrow> 'x mq_ptr \<Rightarrow> uint \<Rightarrow> uint \<Rightarrow> ('x, unit res) io" where
  "SocialMQ_Follow H q followerID vloggerID = SocialMQ_publish H q ''follow'' SocialRoutingKeyFollow followerID vloggerID"

definition SocialMQ_Unfollow :: "'x host \<Rightarrow> 'x mq_ptr \<Rightarrow> uint \<Rightarrow> uint \<Rightarrow> ('x, unit res) io" where
  "SocialMQ_Unfollow H q followerID vloggerID =
     SocialMQ_publish H q ''unfollow'' SocialRoutingKeyUnFollow followerID vloggerID"

definition PopularityExchange :: string where "PopularityExchange = ''video.popularity.events''"
definition PopularityRoutingKeyUpdate :: string where "PopularityRoutingKeyUpdate = ''video.popularity.update''"

definition PopularityMQ_publish :: "'x host \<Rightarrow> 'x mq_ptr \<Rightarrow> string \<Rightarrow> string \<Rightarrow> uint \<Rightarrow> int \<Rightarrow> ('x, unit res) io" where
  "PopularityMQ_publish H q action routingKey videoID change =
     (case q of
        None \<Rightarrow> throw (ErrNew ''popularity_mq is not initialized'')
      | Some None \<Rightarrow> throw (ErrNew ''popularity_mq is not initialized'')
      | Some (Some base) \<Rightarrow>
          if videoID = 0 \<or> change = 0 then throw (ErrNew ''videoID and change are required'')
          else bindE (RandHex H 16) (\<lambda>id. do {
            now \<leftarrow> time_Now H;
            PublishJSON H (Some base) PopularityExchange routingKey (Marshal (json_popularity H)
              \<lparr>pe_EventID = id, pe_Action = action, pe_VideoID = videoID, pe_Change = change, pe_OccurredAt = now\<rparr>)}))"

definition PopularityMQ_Update :: "'x host \<Rightarrow> 'x mq_ptr \<Rightarrow> uint \<Rightarrow> int \<Rightarrow> ('x, unit res) io" where
  "PopularityMQ_Update H q videoID change =
     PopularityMQ_publish H q ''update'' PopularityRoutingKeyUpdate videoID change"

definition TimelineExchange :: string where "TimelineExchange = ''video.timeline.events''"
definition TimelineRoutingKeyPublish :: string where "TimelineRoutingKeyPublish = ''video.timeline.publish''"

definition TimelineMQ_publish :: "'x host \<Rightarrow> 'x mq_ptr \<Rightarrow> string \<Rightarrow> string \<Rightarrow> uint \<Rightarrow> int \<Rightarrow> ('x, unit res) io" where
  "TimelineMQ_publish H q action routingKey videoID createTime =
     (case q of
        None \<Rightarrow> throw (ErrNew ''timeline_mq is not initialized'')
      | Some None \<Rightarrow> throw (ErrNew ''timeline_mq is not initialized'')
      | Some (Some base) \<Rightarrow>
          if videoID = 0 then throw (ErrNew ''videoID is required'')
          else bindE (RandHex H 16) (\<lambda>id. do {
            now \<leftarrow> time_Now H;
            PublishJSON H (Some base) TimelineExchange routingKey (Marshal (json_timeline H)
              \<lparr>te_EventID = id, te_Action = action, te_VideoID = videoID, te_CreateTime = createTime,
               te_OccurredAt = now\<rparr>)}))"

definition TimelineMQ_Publish :: "'x host \<Rightarrow> 'x mq_ptr \<Rightarrow> uint \<Rightarrow> time \<Rightarrow> ('x, unit res) io" where
  "TimelineMQ_Publish H q videoID createTime =
     TimelineMQ_publish H q ''publish'' TimelineRoutingKeyPublish videoID (UnixMilli createTime)"

section \<open>Rules for symbolic execution\<close>

lemma wp_time_Now: "host_ok H \<Longrightarrow> (\<And>t w'. quiet w w' \<Longrightarrow> Q t w') \<Longrightarrow> wp (time_Now H) Q w"
  by (rule wp_mono [where P = "\<lambda>t w'. quiet w w'"]) (auto simp: host_ok_def)

lemma wp_RandHex:
  assumes "host_ok H" "\<And>e w'. quiet w w' \<Longrightarrow> Q (Inl e) w'"
    and "\<And>s w'. quiet w w' \<Longrightarrow> length s = 2 * n \<Longrightarrow> Q (Inr s) w'"
  shows "wp (RandHex H n) Q w"
proof -
  have "wp (rand_Read H n) (\<lambda>r w'. quiet w w' \<and> (\<forall>bs. r = Inr bs \<longrightarrow> length bs = n)) w"
    using assms(1) by (simp add: host_ok_def)
  then show ?thesis
    unfolding RandHex_def wp_simps
    by (rule wp_mono) (auto simp: wp_simps assms(2,3) split: sum.splits)
qed

lemma wp_Publish:
  assumes "channel_ok A"
    and "\<And>r w'. mq_frame w w' \<Longrightarrow>
      publish_post (ch_bound A x k) \<lparr>d_Pub = p, d_Exchange = x, d_RoutingKey = k\<rparr> (mq w) r (mq w') \<Longrightarrow> Q r w'"
  shows "wp (ch_Publish A x k p) Q w"
  by (rule wp_mono [where P = "\<lambda>r w'. mq_frame w w' \<and>
      publish_post (ch_bound A x k) \<lparr>d_Pub = p, d_Exchange = x, d_RoutingKey = k\<rparr> (mq w) r (mq w')"])
    (use assms in \<open>auto simp: channel_ok_def\<close>)

lemma wp_Ack:
  assumes "channel_ok A" "\<And>r w'. mq_frame w w' \<Longrightarrow>
      mq w' = (if r = Inr () then acked q d (mq w) else mq w) \<Longrightarrow> Q r w'"
  shows "wp (ch_Ack A q d) Q w"
  by (rule wp_mono [where P = "\<lambda>r w'. mq_frame w w' \<and> mq w' = (if r = Inr () then acked q d (mq w) else mq w)"])
    (use assms in \<open>auto simp: channel_ok_def\<close>)

lemma wp_Nack:
  assumes "channel_ok A" "\<And>r w'. mq_frame w w' \<Longrightarrow> mq w' = (if r = Inr () then
      (if b then requeued q d (mq w) else dead_lettered q d (mq w)) else mq w) \<Longrightarrow> Q r w'"
  shows "wp (ch_Nack A q d b) Q w"
  by (rule wp_mono [where P = "\<lambda>r w'. mq_frame w w' \<and> mq w' = (if r = Inr () then
      (if b then requeued q d (mq w) else dead_lettered q d (mq w)) else mq w)"])
    (use assms in \<open>auto simp: channel_ok_def\<close>)

lemma mq_frame_trans [trans]: "mq_frame u v \<Longrightarrow> mq_frame v w \<Longrightarrow> mq_frame u w"
  by (simp add: frame_defs)

lemma quiet_mq_frame: "quiet w w' \<Longrightarrow> mq_frame w w'"
  by (simp add: frame_defs)

lemma quiet_mq: "quiet w w' \<Longrightarrow> mq w' = mq w"
  by (simp add: frame_defs)

text \<open>
  What a publisher does: it changes nothing but the broker, and when it returns nil it has
  handed over one message, with the given exchange and key, whose body \<open>P\<close> describes.
\<close>

definition mq_ptr_ok :: "'x mq_ptr \<Rightarrow> bool" where
  "mq_ptr_ok q \<longleftrightarrow> (\<forall>base ch. q = Some (Some base) \<longrightarrow> Ch base = Some ch \<longrightarrow> channel_ok ch)"

definition sent_post :: "string \<Rightarrow> string \<Rightarrow> (string \<Rightarrow> bool) \<Rightarrow> 'x world \<Rightarrow> unit res \<Rightarrow> 'x world \<Rightarrow> bool" where
  "sent_post x k P w r w' \<longleftrightarrow> mq_frame w w' \<and> prefix (bk_log (mq w)) (bk_log (mq w')) \<and>
     (r = Inr () \<longrightarrow> (\<exists>d. d_Exchange d = x \<and> d_RoutingKey d = k \<and>
     P (p_Body (d_Pub d)) \<and> bk_log (mq w') = bk_log (mq w) @ [d]))"

lemma sent_post_throw: "quiet w w' \<Longrightarrow> sent_post x k P w (Inl e) w'"
  by (simp add: sent_post_def frame_defs)

lemma sent_post_quiet: "quiet v w \<Longrightarrow> sent_post x k P w r w' \<Longrightarrow> sent_post x k P v r w'"
  by (auto simp: sent_post_def frame_defs)

lemma PublishJSON_post:
  assumes "host_ok H" "mq_ptr_ok (Some (Some m))" "\<And>b. payload = Inr b \<Longrightarrow> P b"
  shows "wp (PublishJSON H (Some m) x k payload) (sent_post x k P w) w"
proof (cases "Ch m")
  case None
  then show ?thesis by (simp add: PublishJSON_def wp_simps sent_post_throw frame_defs)
next
  case (Some ch)
  with assms(2) have ch: "channel_ok ch" by (simp add: mq_ptr_ok_def)
  show ?thesis
  proof (cases payload)
    case (Inl e)
    with Some show ?thesis by (simp add: PublishJSON_def wp_simps sent_post_throw frame_defs)
  next
    case (Inr b)
    have "wp (time_Now H) (\<lambda>t. wp (ch_Publish ch x k (json_publishing t b)) (sent_post x k P w)) w"
    proof (rule wp_time_Now [OF assms(1)])
      fix t w1 assume q: "quiet w w1"
      show "wp (ch_Publish ch x k (json_publishing t b)) (sent_post x k P w) w1"
        by (rule wp_Publish [OF ch], rule sent_post_quiet [OF q])
          (use assms(3) Inr in \<open>auto simp: sent_post_def publish_post_def handed_def routed_def json_publishing_def\<close>)
    qed
    with Some Inr show ?thesis by (simp add: PublishJSON_def wp_simps sent_post_throw frame_defs)
  qed
qed

text \<open>Drawing an identifier and reading the clock before the publish.\<close>

lemma publisher_post:
  assumes H: "host_ok H" and q: "mq_ptr_ok (Some (Some m))"
    and P: "\<And>id now b. payload id now = Inr b \<Longrightarrow> length id = 32 \<Longrightarrow> P b"
  shows "wp (bindE (RandHex H 16) (\<lambda>id. do {now \<leftarrow> time_Now H; PublishJSON H (Some m) x k (payload id now)}))
    (sent_post x k P w) w"
  unfolding wp_simps
proof (rule wp_RandHex [OF H])
  fix e w' assume "quiet w w'"
  then show "case Inl e of Inl e \<Rightarrow> sent_post x k P w (Inl e) w'
      | Inr i \<Rightarrow> wp (time_Now H) (\<lambda>now. wp (PublishJSON H (Some m) x k (payload i now)) (sent_post x k P w)) w'"
    by (simp add: sent_post_throw)
next
  fix s :: string and w1 assume w1: "quiet w w1" and len: "length s = 2 * 16"
  have "wp (time_Now H) (\<lambda>now. wp (PublishJSON H (Some m) x k (payload s now)) (sent_post x k P w)) w1"
  proof (rule wp_time_Now [OF H])
    fix t w2 assume w2: "quiet w1 w2"
    with w1 have "quiet w w2" by (auto simp: frame_defs)
    then show "wp (PublishJSON H (Some m) x k (payload s t)) (sent_post x k P w) w2"
      by (intro wp_mono [OF PublishJSON_post [OF H q, where P = P]])
        (use P len in \<open>auto intro: sent_post_quiet\<close>)
  qed
  then show "case Inr s of Inl e \<Rightarrow> sent_post x k P w (Inl e) w1
      | Inr i \<Rightarrow> wp (time_Now H) (\<lambda>now. wp (PublishJSON H (Some m) x k (payload i now)) (sent_post x k P w)) w1"
    by simp
qed

lemma LikeMQ_publish_post:
  assumes "host_ok H" "mq_ptr_ok q"
  shows "wp (LikeMQ_publish H q action k u v) (sent_post LikeExchange k
    (\<lambda>b. \<exists>e. Marshal (json_like H) e = Inr b \<and> le_Action e = action \<and> le_UserID e = u \<and> le_VideoID e = v) w) w"
  using assms
  by (auto simp: LikeMQ_publish_def wp_return sent_post_throw frame_defs
      intro!: publisher_post split: option.splits)

lemma TimelineMQ_Publish_post:
  assumes "host_ok H" "mq_ptr_ok q"
  shows "wp (TimelineMQ_Publish H q v t) (sent_post TimelineExchange TimelineRoutingKeyPublish
    (\<lambda>b. \<exists>e. Marshal (json_timeline H) e = Inr b \<and> te_VideoID e = v \<and> te_CreateTime e = UnixMilli t) w) w"
  using assms
  by (auto simp: TimelineMQ_Publish_def TimelineMQ_publish_def wp_return sent_post_throw frame_defs
      intro!: publisher_post split: option.splits)

text \<open>A publisher touches nothing but the queues.\<close>

lemma sent_post_frame: "sent_post x k P w r w' \<Longrightarrow> mq_frame w w'"
  by (simp add: sent_post_def)

lemma mq_frame_refl [simp]: "mq_frame w w"
  by (simp add: frame_defs)

lemma publish_frame_rule:
  "host_ok H \<Longrightarrow> mq_ptr_ok (Some (Some m)) \<Longrightarrow>
   wp (bindE (RandHex H 16) (\<lambda>id. do {now \<leftarrow> time_Now H; PublishJSON H (Some m) x k (payload id now)})) (\<lambda>_ w'. mq_frame w w') w"
  by (rule wp_mono [OF publisher_post [where P = "\<lambda>_. True"]]) (auto dest: sent_post_frame)

lemma publishers_frame:
  assumes "host_ok H" "mq_ptr_ok q"
  shows LikeMQ_frame: "wp (LikeMQ_publish H q act key u v) (\<lambda>_ w'. mq_frame w w') w"
    and CommentMQ_frame: "wp (CommentMQ_publish H q act key e) (\<lambda>_ w'. mq_frame w w') w"
    and SocialMQ_frame: "wp (SocialMQ_publish H q act key u v) (\<lambda>_ w'. mq_frame w w') w"
    and PopularityMQ_frame: "wp (PopularityMQ_publish H q act key v d) (\<lambda>_ w'. mq_frame w w') w"
    and TimelineMQ_frame: "wp (TimelineMQ_publish H q act key v c) (\<lambda>_ w'. mq_frame w w') w"
  using assms
  by (auto simp: LikeMQ_publish_def CommentMQ_publish_def SocialMQ_publish_def PopularityMQ_publish_def TimelineMQ_publish_def
      wp_return intro!: publish_frame_rule split: option.splits)

end
