(* ===== verification/Redis.thy ===== *)
theory Redis
  imports Gorm Amqp
begin

text \<open>
  \<open>internal/middleware/redis\<close>: the client the program wraps around go-redis, with its
  distributed lock, its Lua scripts and the sliding-window limiter. go-redis, the Redis server
  and the commands a script calls are parameters; \<open>redis_ok\<close> and \<open>lua_ok\<close> name what is relied on,
  the documented effect of each command on a key.
\<close>

section \<open>What the commands do\<close>

definition live :: "int \<Rightarrow> redis_db \<Rightarrow> string \<Rightarrow> redis_val option" where
  "live now db k = (case db k of
     None \<Rightarrow> None
   | Some (v, None) \<Rightarrow> Some v
   | Some (v, Some t) \<Rightarrow> if now < t then Some v else None)"

text \<open>The expiry an existing key has, which a write to a part of it keeps.\<close>

definition expiry :: "int \<Rightarrow> redis_db \<Rightarrow> string \<Rightarrow> int option" where
  "expiry now db k = (case live now db k of None \<Rightarrow> None | Some _ \<Rightarrow> snd (the (db k)))"

definition milliseconds :: "int \<Rightarrow> int" where
  "milliseconds d = d div 10 ^ 6"

definition ttl_at :: "int \<Rightarrow> int \<Rightarrow> int option" where
  "ttl_at now ttl = (if ttl = 0 then None else Some (now + milliseconds ttl))"

type_synonym 'a command = "int \<Rightarrow> redis_db \<Rightarrow> 'a res \<times> redis_db"

definition wrong_type :: "redis_db \<Rightarrow> 'a res \<times> redis_db" where
  "wrong_type db = (Inl (ErrExternal ''WRONGTYPE''), db)"

definition cmd_get :: "string \<Rightarrow> string command" where
  "cmd_get k now db = (case live now db k of
     None \<Rightarrow> (Inl RedisNil, db)
   | Some (RStr s) \<Rightarrow> (Inr s, db)
   | Some _ \<Rightarrow> wrong_type db)"

definition cmd_set :: "string \<Rightarrow> string \<Rightarrow> int \<Rightarrow> unit command" where
  "cmd_set k v ttl now db = (Inr (), db(k \<mapsto> (RStr v, ttl_at now ttl)))"

definition cmd_setnx :: "string \<Rightarrow> string \<Rightarrow> int \<Rightarrow> bool command" where
  "cmd_setnx k v ttl now db = (if live now db k = None then (Inr True, db(k \<mapsto> (RStr v, ttl_at now ttl)))
     else (Inr False, db))"

definition cmd_del :: "string \<Rightarrow> unit command" where
  "cmd_del k now db = (Inr (), db(k := None))"

definition cmd_exists :: "string \<Rightarrow> int command" where
  "cmd_exists k now db = (Inr (if live now db k = None then 0 else 1), db)"

definition cmd_mget :: "string list \<Rightarrow> string option list command" where
  "cmd_mget ks now db =
     (Inr (map (\<lambda>k. case live now db k of Some (RStr s) \<Rightarrow> Some s | _ \<Rightarrow> None) ks), db)"

definition cmd_expire :: "string \<Rightarrow> int \<Rightarrow> unit command" where
  "cmd_expire k ttl now db = (case live now db k of
     None \<Rightarrow> (Inr (), db)
   | Some v \<Rightarrow> (Inr (), db(k := if milliseconds ttl \<le> 0 then None else Some (v, Some (now + milliseconds ttl)))))"

text \<open>Sorted sets. A key that holds no member does not exist.\<close>

definition zset :: "int \<Rightarrow> redis_db \<Rightarrow> string \<Rightarrow> (int \<times> string) list option" where
  "zset now db k = (case live now db k of None \<Rightarrow> Some [] | Some (RZSet zs) \<Rightarrow> Some zs | Some _ \<Rightarrow> None)"

definition put_zset :: "int \<Rightarrow> string \<Rightarrow> (int \<times> string) list \<Rightarrow> redis_db \<Rightarrow> redis_db" where
  "put_zset now k zs db = db(k := if zs = [] then None else Some (RZSet zs, expiry now db k))"

definition zadd :: "int \<times> string \<Rightarrow> (int \<times> string) list \<Rightarrow> (int \<times> string) list" where
  "zadd z zs = insort z (filter (\<lambda>y. snd y \<noteq> snd z) zs)"

definition zscore :: "(int \<times> string) list \<Rightarrow> string \<Rightarrow> int option" where
  "zscore zs m = (case filter (\<lambda>z. snd z = m) zs of [] \<Rightarrow> None | z # _ \<Rightarrow> Some (fst z))"

definition rank_range :: "int \<Rightarrow> int \<Rightarrow> 'a list \<Rightarrow> 'a list" where
  "rank_range start stop xs =
     (let n = int (length xs);
          s = (if start < 0 then max 0 (start + n) else start);
          e = (if stop < 0 then stop + n else stop)
      in if s > e \<or> s \<ge> n then [] else take (nat (min e (n - 1) - s + 1)) (drop (nat s) xs))"

definition on_zset :: "string \<Rightarrow> ((int \<times> string) list \<Rightarrow> 'a \<times> (int \<times> string) list) \<Rightarrow> 'a command" where
  "on_zset k f now db = (case zset now db k of
     None \<Rightarrow> wrong_type db
   | Some zs \<Rightarrow> (case f zs of (r, zs') \<Rightarrow> (Inr r, if zs' = zs then db else put_zset now k zs' db)))"

definition cmd_zadd :: "string \<Rightarrow> (int \<times> string) list \<Rightarrow> unit command" where
  "cmd_zadd k ms = on_zset k (\<lambda>zs. ((), fold zadd ms zs))"

definition cmd_zincrby :: "string \<Rightarrow> int \<Rightarrow> string \<Rightarrow> unit command" where
  "cmd_zincrby k d m = on_zset k (\<lambda>zs. ((), zadd ((case zscore zs m of None \<Rightarrow> 0 | Some s \<Rightarrow> s) + d, m) zs))"

definition cmd_zremrangebyrank :: "string \<Rightarrow> int \<Rightarrow> int \<Rightarrow> unit command" where
  "cmd_zremrangebyrank k start stop = on_zset k (\<lambda>zs. ((), filter (\<lambda>z. z \<notin> set (rank_range start stop zs)) zs))"

definition cmd_zrange :: "string \<Rightarrow> int \<Rightarrow> int \<Rightarrow> (int \<times> string) list command" where
  "cmd_zrange k start stop = on_zset k (\<lambda>zs. (rank_range start stop zs, zs))"

definition cmd_zrevrange :: "string \<Rightarrow> int \<Rightarrow> int \<Rightarrow> string list command" where
  "cmd_zrevrange k start stop = on_zset k (\<lambda>zs. (map snd (rank_range start stop (rev zs)), zs))"

text \<open>The bounds of \<open>ZREVRANGEBYSCORE\<close>: \<open>+inf\<close>, \<open>-inf\<close>, a number, or \<open>(\<close> and a number to exclude it.\<close>

definition parse_score :: "string \<Rightarrow> int option" where
  "parse_score s = (case s of
     [] \<Rightarrow> None
   | c # cs \<Rightarrow> if c = CHR ''-'' then (if cs = [] then None else map_option (\<lambda>n. - int n) (parse_digits 0 cs))
       else map_option int (parse_digits 0 s))"

definition below_max :: "string \<Rightarrow> int \<Rightarrow> bool option" where
  "below_max b v = (if b = ''+inf'' then Some True else if b = ''-inf'' then Some False
     else case b of
       [] \<Rightarrow> None
     | c # cs \<Rightarrow> if c = CHR ''('' then map_option (\<lambda>n. v < n) (parse_score cs)
         else map_option (\<lambda>n. v \<le> n) (parse_score b))"

definition above_min :: "string \<Rightarrow> int \<Rightarrow> bool option" where
  "above_min b v = (if b = ''-inf'' then Some True else if b = ''+inf'' then Some False
     else case b of
       [] \<Rightarrow> None
     | c # cs \<Rightarrow> if c = CHR ''('' then map_option (\<lambda>n. n < v) (parse_score cs)
         else map_option (\<lambda>n. n \<le> v) (parse_score b))"

definition zrevrangebyscore :: "string \<Rightarrow> string \<Rightarrow> int \<Rightarrow> int \<Rightarrow> (int \<times> string) list \<Rightarrow> string list" where
  "zrevrangebyscore mx mn offset cnt zs =
     (let hits = filter (\<lambda>z. below_max mx (fst z) = Some True \<and> above_min mn (fst z) = Some True) (rev zs)
      in map snd ((if cnt < 0 then id else take (nat cnt)) (drop (nat offset) hits)))"

definition cmd_zrevrangebyscore :: "string \<Rightarrow> string \<Rightarrow> string \<Rightarrow> int \<Rightarrow> int \<Rightarrow> string list command" where
  "cmd_zrevrangebyscore k mx mn offset cnt now db =
     (if below_max mx 0 = None \<or> above_min mn 0 = None
      then (Inl (ErrExternal ''ERR min or max is not a float''), db)
      else on_zset k (\<lambda>zs. (zrevrangebyscore mx mn offset cnt zs, zs)) now db)"

text \<open>
  \<open>ZUNIONSTORE dst keys AGGREGATE SUM\<close> (the program uses no other): a member scores the sum over
  the keys that hold it; \<open>dst\<close> is replaced and does not expire.
\<close>

definition zunion :: "(int \<times> string) list list \<Rightarrow> (int \<times> string) list" where
  "zunion zss = fold (\<lambda>z acc. zadd ((case zscore acc (snd z) of None \<Rightarrow> 0 | Some s \<Rightarrow> s) + fst z, snd z) acc)
     (concat zss) []"

definition cmd_zunionstore_sum :: "string \<Rightarrow> string list \<Rightarrow> unit command" where
  "cmd_zunionstore_sum dst ks now db =
     (if \<exists>k \<in> set ks. zset now db k = None then wrong_type db
      else let zs = zunion (map (\<lambda>k. the (zset now db k)) ks) in
        (Inr (), db(dst := if zs = [] then None else Some (RZSet zs, None))))"

section \<open>go-redis\<close>

text \<open>
  A script runs on the server's state: its data, with the time at which the script runs. Its
  \<open>redis.call\<close>s are the fields of \<open>lua\<close>, and so is \<open>tostring\<close>.
\<close>

type_synonym srv = "redis_db \<times> int"

datatype lua_val = LInt int | LList "lua_val list"

record lua =
  call_GET :: "string \<Rightarrow> (srv, string option) state"
  call_DEL :: "string \<Rightarrow> (srv, int) state"
  call_INCR :: "string \<Rightarrow> (srv, int) state"
  call_PEXPIRE :: "string \<Rightarrow> int \<Rightarrow> (srv, int) state"
  call_ZREMRANGEBYSCORE :: "string \<Rightarrow> int \<Rightarrow> int \<Rightarrow> (srv, int) state"
  call_ZCARD :: "string \<Rightarrow> (srv, int) state"
  call_ZADD :: "string \<Rightarrow> int \<Rightarrow> string \<Rightarrow> (srv, int) state"
  tostring :: "int \<Rightarrow> string"

record 'x rdb =
  rdb_lua :: lua
  rdb_Run :: "(srv, lua_val) state \<Rightarrow> ('x, lua_val res) io"
  rdb_SetNX :: "string \<Rightarrow> string \<Rightarrow> int \<Rightarrow> ('x, bool res) io"
  rdb_Get :: "string \<Rightarrow> ('x, string res) io"
  rdb_Set :: "string \<Rightarrow> string \<Rightarrow> int \<Rightarrow> ('x, unit res) io"
  rdb_Del :: "string \<Rightarrow> ('x, unit res) io"
  rdb_MGet :: "string list \<Rightarrow> ('x, string option list res) io"
  rdb_Exists :: "string \<Rightarrow> ('x, int res) io"
  rdb_Expire :: "string \<Rightarrow> int \<Rightarrow> ('x, unit res) io"
  rdb_ZIncrBy :: "string \<Rightarrow> int \<Rightarrow> string \<Rightarrow> ('x, unit res) io"
  rdb_ZAdd :: "string \<Rightarrow> (int \<times> string) list \<Rightarrow> ('x, unit res) io"
  rdb_ZRemRangeByRank :: "string \<Rightarrow> int \<Rightarrow> int \<Rightarrow> ('x, unit res) io"
  rdb_ZRangeWithScores :: "string \<Rightarrow> int \<Rightarrow> int \<Rightarrow> ('x, (int \<times> string) list res) io"
  rdb_ZUnionStore :: "string \<Rightarrow> string list \<Rightarrow> string \<Rightarrow> ('x, unit res) io"
  rdb_ZRevRange :: "string \<Rightarrow> int \<Rightarrow> int \<Rightarrow> ('x, string list res) io"
  rdb_ZRevRangeByScore :: "string \<Rightarrow> string \<Rightarrow> string \<Rightarrow> int \<Rightarrow> int \<Rightarrow> ('x, string list res) io"
  rdb_Publish :: "string \<Rightarrow> string \<Rightarrow> ('x, unit res) io"

text \<open>
  A call runs its command at some moment between its start and its end; when the network fails
  it, the command had no effect or its whole effect.
\<close>

definition call_post :: "'a command \<Rightarrow> 'x world \<Rightarrow> 'a res \<Rightarrow> 'x world \<Rightarrow> bool" where
  "call_post f w r w' \<longleftrightarrow> redis_frame w w' \<and>
     (\<exists>now. rclock w \<le> now \<and> now \<le> rclock w' \<and>
       ((r, rds w') = f now (rds w) \<or>
        (\<exists>s. r = Inl (ErrExternal s) \<and> (rds w' = rds w \<or> rds w' = snd (f now (rds w))))))"

definition call_ok :: "'a command \<Rightarrow> ('x, 'a res) io \<Rightarrow> bool" where
  "call_ok f call \<longleftrightarrow> (\<forall>w. wp call (call_post f w) w)"

definition run_script :: "(srv, lua_val) state \<Rightarrow> lua_val command" where
  "run_script script now db = (case run_state script (db, now) of (v, (db', _)) \<Rightarrow> (Inr v, db'))"

definition is_zset :: "int \<Rightarrow> redis_db \<Rightarrow> string \<Rightarrow> bool" where
  "is_zset now db k \<longleftrightarrow> zset now db k \<noteq> None"

definition counter :: "int \<Rightarrow> redis_db \<Rightarrow> string \<Rightarrow> int option" where
  "counter now db k = (case live now db k of None \<Rightarrow> Some 0 | Some (RInt n) \<Rightarrow> Some n | Some _ \<Rightarrow> None)"

definition is_string :: "int \<Rightarrow> redis_db \<Rightarrow> string \<Rightarrow> bool" where
  "is_string now db k \<longleftrightarrow> (case live now db k of None \<Rightarrow> True | Some (RStr _) \<Rightarrow> True | _ \<Rightarrow> False)"

definition pexpire :: "string \<Rightarrow> int \<Rightarrow> int \<Rightarrow> redis_db \<Rightarrow> redis_db" where
  "pexpire k ttl now db = (case live now db k of
     None \<Rightarrow> db | Some v \<Rightarrow> db(k := if ttl \<le> 0 then None else Some (v, Some (now + ttl))))"

definition lua_ok :: "lua \<Rightarrow> bool" where
  "lua_ok L \<longleftrightarrow>
     (\<forall>k db now. is_string now db k \<longrightarrow> run_state (call_GET L k) (db, now) =
        (case live now db k of Some (RStr s) \<Rightarrow> Some s | _ \<Rightarrow> None, (db, now))) \<and>
     (\<forall>k db now. run_state (call_DEL L k) (db, now) =
        (if live now db k = None then 0 else 1, (db(k := None), now))) \<and>
     (\<forall>k db now n. counter now db k = Some n \<longrightarrow> run_state (call_INCR L k) (db, now) =
        (n + 1, (db(k \<mapsto> (RInt (n + 1), expiry now db k)), now))) \<and>
     (\<forall>k ttl db now. run_state (call_PEXPIRE L k ttl) (db, now) =
        (if live now db k = None then 0 else 1, (pexpire k ttl now db, now))) \<and>
     (\<forall>k lo hi db now zs. zset now db k = Some zs \<longrightarrow> run_state (call_ZREMRANGEBYSCORE L k lo hi) (db, now) =
        (int (length (filter (\<lambda>z. lo \<le> fst z \<and> fst z \<le> hi) zs)),
         (put_zset now k (filter (\<lambda>z. \<not> (lo \<le> fst z \<and> fst z \<le> hi)) zs) db, now))) \<and>
     (\<forall>k db now zs. zset now db k = Some zs \<longrightarrow> run_state (call_ZCARD L k) (db, now) = (int (length zs), (db, now))) \<and>
     (\<forall>k s m db now zs. zset now db k = Some zs \<longrightarrow> run_state (call_ZADD L k s m) (db, now) =
        (if zscore zs m = None then 1 else 0, (put_zset now k (zadd (s, m) zs) db, now))) \<and>
     (\<forall>n. 0 \<le> n \<and> n < 10 ^ 14 \<longrightarrow> tostring L n = FormatUint (nat n))"

text \<open>\<open>PUBLISH\<close> changes no key; the payload reaches the channel, unless the call fails, when it may not.\<close>

definition published_post :: "string \<times> string \<Rightarrow> 'x world \<Rightarrow> unit res \<Rightarrow> 'x world \<Rightarrow> bool" where
  "published_post m w r w' \<longleftrightarrow> tabs w' = tabs w \<and> mq w' = mq w \<and> rds w' = rds w \<and> rclock w \<le> rclock w' \<and> mem w' = mem w \<and>
     (pubs w' = pubs w @ [m] \<or> r \<noteq> Inr () \<and> pubs w' = pubs w)"

definition redis_ok :: "'x rdb \<Rightarrow> bool" where
  "redis_ok R \<longleftrightarrow> lua_ok (rdb_lua R) \<and>
     (\<forall>s. call_ok (run_script s) (rdb_Run R s)) \<and>
     (\<forall>k v t. call_ok (cmd_setnx k v t) (rdb_SetNX R k v t)) \<and>
     (\<forall>k. call_ok (cmd_get k) (rdb_Get R k)) \<and>
     (\<forall>k v t. call_ok (cmd_set k v t) (rdb_Set R k v t)) \<and>
     (\<forall>k. call_ok (cmd_del k) (rdb_Del R k)) \<and>
     (\<forall>ks. call_ok (cmd_mget ks) (rdb_MGet R ks)) \<and>
     (\<forall>k. call_ok (cmd_exists k) (rdb_Exists R k)) \<and>
     (\<forall>k t. call_ok (cmd_expire k t) (rdb_Expire R k t)) \<and>
     (\<forall>k d m. call_ok (cmd_zincrby k d m) (rdb_ZIncrBy R k d m)) \<and>
     (\<forall>k ms. call_ok (cmd_zadd k ms) (rdb_ZAdd R k ms)) \<and>
     (\<forall>k a b. call_ok (cmd_zremrangebyrank k a b) (rdb_ZRemRangeByRank R k a b)) \<and>
     (\<forall>k a b. call_ok (cmd_zrange k a b) (rdb_ZRangeWithScores R k a b)) \<and>
     (\<forall>k ks. call_ok (cmd_zunionstore_sum k ks) (rdb_ZUnionStore R k ks ''SUM'')) \<and>
     (\<forall>k a b. call_ok (cmd_zrevrange k a b) (rdb_ZRevRange R k a b)) \<and>
     (\<forall>k a b c d. call_ok (cmd_zrevrangebyscore k a b c d) (rdb_ZRevRangeByScore R k a b c d)) \<and>
     (\<forall>c b w. wp (rdb_Publish R c b) (published_post (c, b) w) w)"

section \<open>The client\<close>

record 'x Client =
  c_rdb :: "'x rdb option"
  c_keyPrefix :: string

text \<open>A \<open>*Client\<close>, which may be nil; \<open>rdb_of\<close> is what \<open>c == nil || c.rdb == nil\<close> tests.\<close>

type_synonym 'x cache = "'x Client option"

definition rdb_of :: "'x cache \<Rightarrow> 'x rdb option" where
  "rdb_of c = (case c of None \<Rightarrow> None | Some cl \<Rightarrow> c_rdb cl)"

definition DefaultKeyPrefix :: string where
  "DefaultKeyPrefix = ''v1:''"

definition NewClient :: "'x rdb \<Rightarrow> 'x cache" where
  "NewClient R = Some \<lparr>c_rdb = Some R, c_keyPrefix = DefaultKeyPrefix\<rparr>"

definition IsMiss :: "go_error \<Rightarrow> bool" where
  "IsMiss e \<longleftrightarrow> e = RedisNil"

text \<open>\<open>Key(format, args)\<close>, given the formatted text.\<close>

definition Key :: "'x cache \<Rightarrow> string \<Rightarrow> string" where
  "Key c s = (case c of None \<Rightarrow> '''' | Some cl \<Rightarrow> c_keyPrefix cl) @ s"

definition randToken :: "'x host \<Rightarrow> nat \<Rightarrow> ('x, string res) io" where
  "randToken H n = bindE (rand_Read H n) (\<lambda>b. ok (hex_EncodeToString b))"

text \<open>The token, whether the lock was taken, and the error.\<close>

definition Lock :: "'x host \<Rightarrow> 'x cache \<Rightarrow> string \<Rightarrow> int \<Rightarrow> ('x, string \<times> bool \<times> go_error option) io" where
  "Lock H c key ttl = (case rdb_of c of
     None \<Rightarrow> ret ('''', False, None)
   | Some R \<Rightarrow> do {
       t \<leftarrow> randToken H 16;
       (case t of
          Inl err \<Rightarrow> ret ('''', False, Some err)
        | Inr token \<Rightarrow> do {
            r \<leftarrow> rdb_SetNX R key token ttl;
            (case r of
               Inl err \<Rightarrow> ret (token, False, Some err)
             | Inr taken \<Rightarrow> ret (token, taken, None))})})"

definition unlockScript :: "lua \<Rightarrow> string \<Rightarrow> string \<Rightarrow> (srv, lua_val) state" where
  "unlockScript L key token = do {
     v \<leftarrow> call_GET L key;
     if v = Some token then do {n \<leftarrow> call_DEL L key; ret (LInt n)}
     else ret (LInt 0)}"

definition incrementWithExprScript :: "lua \<Rightarrow> string \<Rightarrow> int \<Rightarrow> (srv, lua_val) state" where
  "incrementWithExprScript L key expr = do {
     n \<leftarrow> call_INCR L key;
     _ \<leftarrow> (if n = 1 then do {_ \<leftarrow> call_PEXPIRE L key expr; ret ()} else ret ());
     ret (LInt n)}"

definition slidingWindowScript :: "lua \<Rightarrow> string \<Rightarrow> string \<Rightarrow> int \<Rightarrow> int \<Rightarrow> int \<Rightarrow> int \<Rightarrow> (srv, lua_val) state" where
  "slidingWindowScript L key seqKey now window limit ttl =
     (let minScore = now - window in do {
       _ \<leftarrow> call_ZREMRANGEBYSCORE L key 0 minScore;
       cnt \<leftarrow> call_ZCARD L key;
       (if cnt \<ge> limit then do {
          _ \<leftarrow> call_PEXPIRE L key ttl;
          _ \<leftarrow> call_PEXPIRE L seqKey ttl;
          ret (LList [LInt 0, LInt cnt])}
        else do {
          seq \<leftarrow> call_INCR L seqKey;
          (let member = tostring L now @ ''-'' @ tostring L seq in do {
            _ \<leftarrow> call_ZADD L key now member;
            _ \<leftarrow> call_PEXPIRE L key ttl;
            _ \<leftarrow> call_PEXPIRE L seqKey ttl;
            ret (LList [LInt 1, LInt (cnt + 1)])})})})"

definition Unlock :: "'x cache \<Rightarrow> string \<Rightarrow> string \<Rightarrow> ('x, unit res) io" where
  "Unlock c key token = (case rdb_of c of
     None \<Rightarrow> ok ()
   | Some R \<Rightarrow> bindE (rdb_Run R (unlockScript (rdb_lua R) key token)) (\<lambda>_. ok ()))"

definition IncrementWithExpr :: "'x cache \<Rightarrow> string \<Rightarrow> int \<Rightarrow> ('x, int res) io" where
  "IncrementWithExpr c key expr = (case rdb_of c of
     None \<Rightarrow> ok 0
   | Some R \<Rightarrow> bindE (rdb_Run R (incrementWithExprScript (rdb_lua R) key (milliseconds expr)))
       (\<lambda>v. case v of LInt n \<Rightarrow> ok n | _ \<Rightarrow> throw (ErrExternal ''unexpected type for Int64'')))"

text \<open>\<open>slidingWindowAllowAt\<close>: allowed, the number in the window, and the error.\<close>

definition window_answer :: "lua_val res \<Rightarrow> bool \<times> int \<times> go_error option" where
  "window_answer res = (case res of
     Inl err \<Rightarrow> (True, 0, Some err)
   | Inr v \<Rightarrow> (case v of
       LList values \<Rightarrow>
         (if length values \<noteq> 2 then (True, 0, Some (ErrNew ''unexpected sliding window result''))
          else (case values ! 0 of
              LInt allowed \<Rightarrow> (case values ! 1 of
                  LInt cnt \<Rightarrow> (allowed = 1, cnt, None)
                | LList _ \<Rightarrow> (True, 0, Some (ErrNew ''unexpected sliding window count value'')))
            | LList _ \<Rightarrow> (True, 0, Some (ErrNew ''unexpected sliding window allowed value''))))
     | LInt _ \<Rightarrow> (True, 0, Some (ErrNew ''unexpected sliding window result''))))"

definition slidingWindowAllowAt :: "'x cache \<Rightarrow> string \<Rightarrow> int \<Rightarrow> int \<Rightarrow> time \<Rightarrow> ('x, bool \<times> int \<times> go_error option) io" where
  "slidingWindowAllowAt c key maxRequests window now = (case rdb_of c of
     None \<Rightarrow> ret (True, 0, None)
   | Some R \<Rightarrow>
       if key = '''' \<or> maxRequests \<le> 0 \<or> window \<le> 0 then ret (True, 0, None)
       else (let ttl = window + 10 ^ 9 in do {
         res \<leftarrow> rdb_Run R (slidingWindowScript (rdb_lua R) key (key @ '':seq'') (UnixMilli now)
           (milliseconds window) maxRequests (milliseconds ttl));
         ret (window_answer res)}))"

definition SlidingWindowAllow :: "'x host \<Rightarrow> 'x cache \<Rightarrow> string \<Rightarrow> int \<Rightarrow> int \<Rightarrow> ('x, bool \<times> int \<times> go_error option) io" where
  "SlidingWindowAllow H c key maxRequests window = do {
     now \<leftarrow> time_Now H;
     slidingWindowAllowAt c key maxRequests window now}"

text \<open>\<open>cache.go\<close>: these four do not check for a nil client.\<close>

definition GetBytes :: "'x cache \<Rightarrow> string \<Rightarrow> ('x, string res) io" where
  "GetBytes c key = (case rdb_of c of None \<Rightarrow> throw PanicNil | Some R \<Rightarrow> rdb_Get R key)"

definition SetBytes :: "'x cache \<Rightarrow> string \<Rightarrow> string \<Rightarrow> int \<Rightarrow> ('x, unit res) io" where
  "SetBytes c key v ttl = (case rdb_of c of None \<Rightarrow> throw PanicNil | Some R \<Rightarrow> rdb_Set R key v ttl)"

definition Client_Delete :: "'x cache \<Rightarrow> string \<Rightarrow> ('x, unit res) io" where
  "Client_Delete c key = (case rdb_of c of None \<Rightarrow> throw PanicNil | Some R \<Rightarrow> rdb_Del R key)"

definition MGet :: "'x cache \<Rightarrow> string list \<Rightarrow> ('x, string option list res) io" where
  "MGet c keys = (case rdb_of c of None \<Rightarrow> throw PanicNil | Some R \<Rightarrow> rdb_MGet R keys)"

text \<open>\<open>zset.go\<close>.\<close>

definition ZIncrBy :: "'x cache \<Rightarrow> string \<Rightarrow> string \<Rightarrow> int \<Rightarrow> ('x, unit res) io" where
  "ZIncrBy c key member score = (case rdb_of c of None \<Rightarrow> ok () | Some R \<Rightarrow> rdb_ZIncrBy R key score member)"

definition ZAdd :: "'x cache \<Rightarrow> string \<Rightarrow> (int \<times> string) list \<Rightarrow> ('x, unit res) io" where
  "ZAdd c key members = (case rdb_of c of None \<Rightarrow> ok () | Some R \<Rightarrow> rdb_ZAdd R key members)"

definition ZRemRangeByRank :: "'x cache \<Rightarrow> string \<Rightarrow> int \<Rightarrow> int \<Rightarrow> ('x, unit res) io" where
  "ZRemRangeByRank c key start stop = (case rdb_of c of None \<Rightarrow> ok () | Some R \<Rightarrow> rdb_ZRemRangeByRank R key start stop)"

definition ZRangeWithScores :: "'x cache \<Rightarrow> string \<Rightarrow> int \<Rightarrow> int \<Rightarrow> ('x, (int \<times> string) list res) io" where
  "ZRangeWithScores c key start stop = (case rdb_of c of
     None \<Rightarrow> throw (ErrNew ''redis client not initialized'')
   | Some R \<Rightarrow> rdb_ZRangeWithScores R key start stop)"

definition Client_Expire :: "'x cache \<Rightarrow> string \<Rightarrow> int \<Rightarrow> ('x, unit res) io" where
  "Client_Expire c key ttl = (case rdb_of c of None \<Rightarrow> ok () | Some R \<Rightarrow> rdb_Expire R key ttl)"

definition ZUnionStore :: "'x cache \<Rightarrow> string \<Rightarrow> string list \<Rightarrow> string \<Rightarrow> ('x, unit res) io" where
  "ZUnionStore c dst keys aggregate = (case rdb_of c of None \<Rightarrow> ok () | Some R \<Rightarrow> rdb_ZUnionStore R dst keys aggregate)"

definition Client_Exists :: "'x cache \<Rightarrow> string \<Rightarrow> ('x, bool res) io" where
  "Client_Exists c key = (case rdb_of c of
     None \<Rightarrow> ok False
   | Some R \<Rightarrow> bindE (rdb_Exists R key) (\<lambda>n. ok (n > 0)))"

definition ZRevRange :: "'x cache \<Rightarrow> string \<Rightarrow> int \<Rightarrow> int \<Rightarrow> ('x, string list res) io" where
  "ZRevRange c key start stop = (case rdb_of c of None \<Rightarrow> ok [] | Some R \<Rightarrow> rdb_ZRevRange R key start stop)"

definition ZRevRangeByScore :: "'x cache \<Rightarrow> string \<Rightarrow> string \<Rightarrow> string \<Rightarrow> int \<Rightarrow> int \<Rightarrow> ('x, string list res) io" where
  "ZRevRangeByScore c key mx mn offset cnt = (case rdb_of c of
     None \<Rightarrow> ok [] | Some R \<Rightarrow> rdb_ZRevRangeByScore R key mx mn offset cnt)"

text \<open>\<open>pubsub.go\<close>: the payload as \<open>json.Marshal\<close> gave it.\<close>

definition Client_PublishJSON :: "'x cache \<Rightarrow> string \<Rightarrow> string res \<Rightarrow> ('x, unit res) io" where
  "Client_PublishJSON c ch payload = (case rdb_of c of
     None \<Rightarrow> throw (ErrNew ''redis client is not initialized'')
   | Some R \<Rightarrow>
       if ch = '''' then throw (ErrNew ''redis pubsub channel is required'')
       else bindE (ret payload) (\<lambda>bytes. rdb_Publish R ch bytes))"

section \<open>Rules for symbolic execution\<close>

lemma wp_call: "call_ok f call \<Longrightarrow> (\<And>r w'. call_post f w r w' \<Longrightarrow> Q r w') \<Longrightarrow> wp call Q w"
  by (rule wp_mono [where P = "call_post f w"]) (auto simp: call_ok_def)

text \<open>What the caller knows: nothing or the whole effect happened, and all of it if it got a value.\<close>

lemma call_postE:
  assumes "call_post f w r w'"
  obtains t where "rclock w \<le> t" "t \<le> rclock w'" "tabs w' = tabs w" "mq w' = mq w"
    "rds w' = rds w \<or> rds w' = snd (f t (rds w))" "\<And>a. r = Inr a \<Longrightarrow> f t (rds w) = (Inr a, rds w')"
    "\<And>e. r = Inl e \<Longrightarrow> (\<exists>s. e = ErrExternal s) \<or> f t (rds w) = (Inl e, rds w')"
proof -
  from assms obtain t where t: "rclock w \<le> t" "t \<le> rclock w'" "tabs w' = tabs w" "mq w' = mq w"
    and eff: "(r, rds w') = f t (rds w) \<or>
      (\<exists>s. r = Inl (ErrExternal s) \<and> (rds w' = rds w \<or> rds w' = snd (f t (rds w))))"
    by (auto simp: call_post_def redis_frame_def)
  then have "rds w' = rds w \<or> rds w' = snd (f t (rds w))" by (metis snd_conv)
  moreover from eff have "f t (rds w) = (Inr a, rds w')" if "r = Inr a" for a using that by auto
  moreover from eff have "(\<exists>s. e = ErrExternal s) \<or> f t (rds w) = (Inl e, rds w')" if "r = Inl e" for e using that by auto
  ultimately show ?thesis using that t by blast
qed

lemma redis_okD:
  assumes "redis_ok R"
  shows redis_lua: "lua_ok (rdb_lua R)"
    and redis_Run: "call_ok (run_script s) (rdb_Run R s)"
    and redis_SetNX: "call_ok (cmd_setnx k v t) (rdb_SetNX R k v t)"
    and redis_Get: "call_ok (cmd_get k) (rdb_Get R k)"
    and redis_Set: "call_ok (cmd_set k v t) (rdb_Set R k v t)"
    and redis_Del: "call_ok (cmd_del k) (rdb_Del R k)"
    and redis_MGet: "call_ok (cmd_mget ks) (rdb_MGet R ks)"
    and redis_Exists: "call_ok (cmd_exists k) (rdb_Exists R k)"
    and redis_Expire: "call_ok (cmd_expire k t) (rdb_Expire R k t)"
    and redis_ZIncrBy: "call_ok (cmd_zincrby k d m) (rdb_ZIncrBy R k d m)"
    and redis_ZAdd: "call_ok (cmd_zadd k ms) (rdb_ZAdd R k ms)"
    and redis_ZRemRangeByRank: "call_ok (cmd_zremrangebyrank k a b) (rdb_ZRemRangeByRank R k a b)"
    and redis_ZRangeWithScores: "call_ok (cmd_zrange k a b) (rdb_ZRangeWithScores R k a b)"
    and redis_ZUnionStore: "call_ok (cmd_zunionstore_sum k ks) (rdb_ZUnionStore R k ks ''SUM'')"
    and redis_ZRevRange: "call_ok (cmd_zrevrange k a b) (rdb_ZRevRange R k a b)"
    and redis_ZRevRangeByScore: "call_ok (cmd_zrevrangebyscore k mx mn a b) (rdb_ZRevRangeByScore R k mx mn a b)"
    and redis_Publish: "wp (rdb_Publish R c bytes) (published_post (c, bytes) w) w"
  using assms by (simp_all add: redis_ok_def)

lemma lua_okD:
  assumes "lua_ok L"
  shows call_GET: "is_string now db k \<Longrightarrow> run_state (call_GET L k) (db, now) =
        (case live now db k of Some (RStr s) \<Rightarrow> Some s | _ \<Rightarrow> None, (db, now))"
    and call_DEL: "run_state (call_DEL L k) (db, now) = (if live now db k = None then 0 else 1, (db(k := None), now))"
    and call_INCR: "counter now db k = Some n \<Longrightarrow> run_state (call_INCR L k) (db, now) =
        (n + 1, (db(k \<mapsto> (RInt (n + 1), expiry now db k)), now))"
    and call_PEXPIRE: "run_state (call_PEXPIRE L k ttl) (db, now) =
        (if live now db k = None then 0 else 1, (pexpire k ttl now db, now))"
    and call_ZREMRANGEBYSCORE: "zset now db k = Some zs \<Longrightarrow> run_state (call_ZREMRANGEBYSCORE L k lo hi) (db, now) =
        (int (length (filter (\<lambda>z. lo \<le> fst z \<and> fst z \<le> hi) zs)),
         (put_zset now k (filter (\<lambda>z. \<not> (lo \<le> fst z \<and> fst z \<le> hi)) zs) db, now))"
    and call_ZCARD: "zset now db k = Some zs \<Longrightarrow> run_state (call_ZCARD L k) (db, now) = (int (length zs), (db, now))"
    and call_ZADD: "zset now db k = Some zs \<Longrightarrow> run_state (call_ZADD L k s m) (db, now) =
        (if zscore zs m = None then 1 else 0, (put_zset now k (zadd (s, m) zs) db, now))"
    and lua_tostring: "0 \<le> n \<Longrightarrow> n < 10 ^ 14 \<Longrightarrow> tostring L n = FormatUint (nat n)"
  using assms by (simp_all add: lua_ok_def)

lemma live_upd: "live now (db(k := v)) k' = (if k' = k then
    (case v of None \<Rightarrow> None | Some (x, None) \<Rightarrow> Some x | Some (x, Some t) \<Rightarrow> if now < t then Some x else None)
    else live now db k')"
  by (simp add: live_def)

lemma expiry_live: "live now db k = Some v \<Longrightarrow> expiry now db k = Some t \<Longrightarrow> now < t"
  by (auto simp: expiry_def live_def split: option.splits if_splits prod.splits)

lemma live_put_zset: "live now (put_zset now k zs db) k' = (if k' = k then (if zs = [] then None else Some (RZSet zs))
    else live now db k')"
  by (auto simp: put_zset_def live_upd expiry_def live_def split: option.splits if_splits prod.splits)

lemma zset_put_zset [simp]: "zset now (put_zset now k zs db) k' = (if k' = k then Some zs else zset now db k')"
  by (simp add: zset_def live_put_zset)

lemma mset_zadd_new: "m \<notin> snd ` set zs \<Longrightarrow> mset (zadd (s, m) zs) = {#(s, m)#} + mset zs"
proof -
  assume "m \<notin> snd ` set zs"
  then have "filter (\<lambda>y. snd y \<noteq> m) zs = zs" by (auto simp: filter_id_conv)
  then show ?thesis by (simp add: zadd_def)
qed

text \<open>A cache whose Redis keeps its laws; nothing the client does touches the tables or the queues.\<close>

definition cache_redis_ok :: "'x cache \<Rightarrow> bool" where
  "cache_redis_ok c \<longleftrightarrow> (\<forall>R. rdb_of c = Some R \<longrightarrow> redis_ok R)"

lemma redis_frame_trans: "redis_frame u v \<Longrightarrow> redis_frame v w \<Longrightarrow> redis_frame u w"
  by (simp add: frame_defs)

lemma redis_frame_refl [simp]: "redis_frame w w"
  by (simp add: frame_defs)

lemma quiet_redis_frame: "quiet w w' \<Longrightarrow> redis_frame w w'"
  by (simp add: frame_defs)

lemma call_frame: "call_ok f call \<Longrightarrow> wp call (\<lambda>_ w'. redis_frame w w') w"
  by (rule wp_call) (auto simp: call_post_def)

lemma client_frame:
  assumes "cache_redis_ok c"
  shows "wp (Client_Delete c k) (\<lambda>_ w'. redis_frame w w') w"
    and "wp (ZIncrBy c k m d) (\<lambda>_ w'. redis_frame w w') w"
    and "wp (Client_Expire c k ttl) (\<lambda>_ w'. redis_frame w w') w"
    and "wp (GetBytes c k) (\<lambda>_ w'. redis_frame w w') w"
    and "wp (SetBytes c k v ttl) (\<lambda>_ w'. redis_frame w w') w"
    and "wp (ZAdd c k ms) (\<lambda>_ w'. redis_frame w w') w"
    and "wp (ZRemRangeByRank c k a b) (\<lambda>_ w'. redis_frame w w') w"
  using assms
  by (auto simp: cache_redis_ok_def Client_Delete_def ZIncrBy_def Client_Expire_def
      GetBytes_def SetBytes_def ZAdd_def ZRemRangeByRank_def wp_return intro!: call_frame redis_okD split: option.splits)

end
