(* ===== verification/Reference.thy ===== *)
theory Reference
  imports Redis
begin

text \<open>
  A reference instance of the parameters: a database, a host, a channel and a Redis that keep the
  laws \<open>gorm_ok\<close>, \<open>host_ok\<close>, \<open>channel_ok\<close> and \<open>redis_ok\<close> and compute, so that a property can be applied to
  concrete states. The hidden part of the world holds the host's clock, a seed, and the outcome
  of the next calls: fine, failed before the effect, or failed after it.
\<close>

section \<open>Outcomes\<close>

datatype fault = Fine | Fails string | Fails_after string

record ref_hid =
  faults :: "fault list"
  now_ns :: time
  seed :: nat

type_synonym ref_world = "ref_hid world"

definition next_world :: "ref_world \<Rightarrow> ref_world" where
  "next_world w = w\<lparr>hidden := (hidden w)\<lparr>faults := tl (faults (hidden w))\<rparr>\<rparr>"

definition ref_sql :: "(tables \<Rightarrow> 'a res \<times> tables) \<Rightarrow> (ref_hid, 'a res) io" where
  "ref_sql f = State (\<lambda>w. let (r, t) = f (tabs w) in
     case faults (hidden w) of
       [] \<Rightarrow> (r, w\<lparr>tabs := t\<rparr>)
     | Fine # _ \<Rightarrow> (r, (next_world w)\<lparr>tabs := t\<rparr>)
     | Fails s # _ \<Rightarrow> (Inl (ErrExternal s), next_world w)
     | Fails_after s # _ \<Rightarrow> (Inl (ErrExternal s), (next_world w)\<lparr>tabs := t\<rparr>))"

section \<open>The database\<close>

fun insert_by :: "('r \<Rightarrow> 'r \<Rightarrow> bool) \<Rightarrow> 'r \<Rightarrow> 'r list \<Rightarrow> 'r list" where
  "insert_by ord x [] = [x]"
| "insert_by ord x (y # ys) = (if ord x y then x # y # ys else y # insert_by ord x ys)"

fun sort_by :: "('r \<Rightarrow> 'r \<Rightarrow> bool) \<Rightarrow> 'r list \<Rightarrow> 'r list" where
  "sort_by ord [] = []"
| "sort_by ord (x # xs) = insert_by ord x (sort_by ord xs)"

definition ref_query :: "('r \<Rightarrow> bool) \<Rightarrow> ('r \<Rightarrow> 'r \<Rightarrow> bool) \<Rightarrow> int \<Rightarrow> 'r list \<Rightarrow> 'r list" where
  "ref_query P ord lim rs = limit_rows lim (sort_by ord (filter P rs))"

definition dup_error :: go_error where
  "dup_error = MySQLError 1062 ''Error 1062: Duplicate entry''"

definition ref_col_time :: "time \<Rightarrow> time" where
  "ref_col_time t = t div 10 ^ 6 * 10 ^ 6"

definition ref_create :: "'r schema \<Rightarrow> (tables \<Rightarrow> 'r list) \<Rightarrow> (('r list \<Rightarrow> 'r list) \<Rightarrow> tables \<Rightarrow> tables)
    \<Rightarrow> 'r \<Rightarrow> tables \<Rightarrow> 'r res \<times> tables" where
  "ref_create S get upd r t =
     (let rs = get t; r' = fill S (Suc (Max (insert 0 (row_id S ` set rs)))) 1000000000 r in
      if \<exists>x \<in> set rs. clash S x r' then (Inl dup_error, t)
      else (Inr r', upd (\<lambda>_. rs @ [col S ref_col_time r']) t))"

definition ref_updates :: "'r schema \<Rightarrow> (tables \<Rightarrow> 'r list) \<Rightarrow> (('r list \<Rightarrow> 'r list) \<Rightarrow> tables \<Rightarrow> tables)
    \<Rightarrow> ('r \<Rightarrow> bool) \<Rightarrow> ('r \<Rightarrow> 'r) \<Rightarrow> tables \<Rightarrow> int res \<times> tables" where
  "ref_updates S get upd P f t =
     (let g = (\<lambda>x. col S ref_col_time (f x)); t' = upd (update_rows P g) t in
      if table_wf S (get t) \<and> \<not> table_wf S (get t') then (Inl dup_error, t)
      else (Inr (changed_rows P g (get t)), t'))"

definition ref_table :: "'r schema \<Rightarrow> (tables \<Rightarrow> 'r list) \<Rightarrow> (('r list \<Rightarrow> 'r list) \<Rightarrow> tables \<Rightarrow> tables)
    \<Rightarrow> (ref_hid, 'r) table_ops" where
  "ref_table S get upd = \<lparr>
     db_find = (\<lambda>P ord lim. ref_sql (\<lambda>t. (Inr (ref_query P ord lim (get t)), t))),
     db_first = (\<lambda>P. ref_sql (\<lambda>t. (case sort_by (\<lambda>a b. row_id S a \<le> row_id S b) (filter P (get t)) of
        [] \<Rightarrow> Inl ErrRecordNotFound | x # _ \<Rightarrow> Inr x, t))),
     db_count = (\<lambda>P. ref_sql (\<lambda>t. (Inr (int (length (filter P (get t)))), t))),
     db_updates = (\<lambda>P f. ref_sql (ref_updates S get upd P f)),
     db_delete = (\<lambda>P. ref_sql (\<lambda>t. (Inr (int (length (filter P (get t)))), upd (delete_rows P) t))),
     db_create = (\<lambda>r. ref_sql (ref_create S get upd r))\<rparr>"

definition ref_transaction :: "(ref_hid, unit res) io \<Rightarrow> (ref_hid, unit res) io" where
  "ref_transaction body = State (\<lambda>w. case run_state body w of
     (Inl e, w1) \<Rightarrow> (Inl e, w1\<lparr>tabs := tabs w\<rparr>)
   | (Inr _, w1) \<Rightarrow> (Inr (), w1))"

definition ref_gorm :: "ref_hid gorm" where
  "ref_gorm = \<lparr>
     db_accounts = ref_table account_schema t_accounts t_accounts_update,
     db_videos = ref_table video_schema t_videos t_videos_update,
     db_outbox = ref_table outbox_schema t_outbox t_outbox_update,
     db_tags = ref_table tag_schema t_tags t_tags_update,
     db_video_tags = ref_table video_tag_schema t_video_tags t_video_tags_update,
     db_likes = ref_table like_schema t_likes t_likes_update,
     db_comments = ref_table comment_schema t_comments t_comments_update,
     db_socials = ref_table social_schema t_socials t_socials_update,
     db_messages = ref_table message_schema t_messages t_messages_update,
     db_notifications = ref_table notification_schema t_notifications t_notifications_update,
     db_videos_sub = (\<lambda>P ord lim. ref_sql (\<lambda>t. (Inr (ref_query (P t) ord lim (t_videos t)), t))),
     db_videos_likes = (\<lambda>P ord lim. ref_sql (\<lambda>t. (Inr (map fst (ref_query P ord lim (join_likes t))), t))),
     db_videos_tags = (\<lambda>P ord lim. ref_sql (\<lambda>t. (Inr (map fst (ref_query P ord lim (join_tags t))), t))),
     db_sum_likes = (\<lambda>P. ref_sql (\<lambda>t. (Inr (sum_list (map v_LikesCount (filter P (t_videos t)))), t))),
     db_scan_author = (\<lambda>P. ref_sql (\<lambda>t. (Inr (case filter P (t_videos t) of [] \<Rightarrow> 0 | v # _ \<Rightarrow> v_AuthorID v), t))),
     db_transaction = ref_transaction,
     db_col_time = ref_col_time\<rparr>"

section \<open>The database keeps its laws\<close>

lemma mset_insert_by [simp]: "mset (insert_by ord x ys) = {#x#} + mset ys"
  by (induction ys) auto

lemma mset_sort_by [simp]: "mset (sort_by ord xs) = mset xs"
  by (induction xs) auto

lemma sort_by_Nil [simp]: "sort_by ord xs = [] \<longleftrightarrow> xs = []"
  by (metis mset_sort_by mset_zero_iff)

lemma set_insert_by [simp]: "set (insert_by ord x ys) = insert x (set ys)"
  by (induction ys) auto

lemma sorted_insert_by:
  assumes "total_preorder ord" "sorted_wrt ord ys"
  shows "sorted_wrt ord (insert_by ord x ys)"
  using assms(2)
proof (induction ys)
  case (Cons y ys)
  have "ord x z" if "ord x y" "z \<in> set ys" for z
    using assms(1) Cons.prems that by (auto simp: total_preorder_def dest: transpD)
  moreover have "ord y x" if "\<not> ord x y" using assms(1) that by (auto simp: total_preorder_def)
  ultimately show ?case using Cons by auto
qed simp

lemma sorted_sort_by: "total_preorder ord \<Longrightarrow> sorted_wrt ord (sort_by ord xs)"
  by (induction xs) (auto intro: sorted_insert_by)

lemma ref_query_result: "total_preorder ord \<Longrightarrow> query_result P ord lim rs (ref_query P ord lim rs)"
  unfolding query_result_def ref_query_def
  by (rule exI [of _ "sort_by ord (filter P rs)"]) (simp add: sorted_sort_by)

lemma wp_ref_sql:
  "wp (ref_sql f) Q w \<longleftrightarrow> (case f (tabs w) of (r, t) \<Rightarrow> case faults (hidden w) of
     [] \<Rightarrow> Q r (w\<lparr>tabs := t\<rparr>)
   | Fine # _ \<Rightarrow> Q r ((next_world w)\<lparr>tabs := t\<rparr>)
   | Fails s # _ \<Rightarrow> Q (Inl (ErrExternal s)) (next_world w)
   | Fails_after s # _ \<Rightarrow> Q (Inl (ErrExternal s)) ((next_world w)\<lparr>tabs := t\<rparr>))"
  by (auto simp: wp_def ref_sql_def split: prod.splits list.splits fault.splits)

lemma wp_ref_sqlI:
  assumes "\<And>w'. sql_frame w w' \<Longrightarrow> tabs w' = snd (f (tabs w)) \<Longrightarrow> Q (fst (f (tabs w))) w'"
    and "\<And>s w'. sql_frame w w' \<Longrightarrow> tabs w' = tabs w \<or> tabs w' = snd (f (tabs w)) \<Longrightarrow> Q (Inl (ErrExternal s)) w'"
  shows "wp (ref_sql f) Q w"
proof (cases "f (tabs w)")
  case (Pair r t)
  then show ?thesis
    unfolding wp_ref_sql using assms
    by (auto simp: next_world_def frame_defs split: list.splits fault.splits)
qed

lemma ref_find_ok: "find_ok get (db_find (ref_table S get upd))"
  by (auto simp: find_ok_def ref_table_def quiet_iff ref_query_result intro!: wp_ref_sqlI)

lemma sort_by_head:
  assumes "sort_by (\<lambda>a b. row_id S a \<le> row_id S b) xs = x # ys" "y \<in> set xs"
  shows "row_id S x \<le> row_id S y"
proof -
  have "sorted_wrt (\<lambda>a b. row_id S a \<le> row_id S b) (x # ys)"
    unfolding assms(1) [symmetric] by (rule sorted_sort_by) auto
  moreover have "y \<in> set (x # ys)"
    using assms by (metis mset_eq_setD mset_sort_by)
  ultimately show ?thesis by auto
qed

lemma ref_first_ok: "first_ok S get (db_first (ref_table S get upd))"
  unfolding first_ok_def
proof (intro allI)
  fix P and w :: ref_world
  let ?xs = "sort_by (\<lambda>a b. row_id S a \<le> row_id S b) (filter P (get (tabs w)))"
  have set_xs: "set ?xs = {r \<in> set (get (tabs w)). P r}"
    using mset_eq_setD [OF mset_sort_by] by (metis set_filter)
  show "wp (db_first (ref_table S get upd) P) (\<lambda>r w'. quiet w w' \<and> (case r of
       Inr x \<Rightarrow> x \<in> set (get (tabs w)) \<and> P x \<and>
          (\<forall>y \<in> set (get (tabs w)). P y \<longrightarrow> row_id S x \<le> row_id S y)
     | Inl e \<Rightarrow> e = ErrRecordNotFound \<longrightarrow> (\<forall>y \<in> set (get (tabs w)). \<not> P y))) w"
  proof (cases ?xs)
    case Nil
    with set_xs have "\<forall>y \<in> set (get (tabs w)). \<not> P y" by auto
    with Nil show ?thesis by (auto simp: ref_table_def quiet_iff intro!: wp_ref_sqlI)
  next
    case (Cons x ys)
    with set_xs have "x \<in> set (get (tabs w))" "P x" by auto
    moreover have "\<forall>y \<in> set (get (tabs w)). P y \<longrightarrow> row_id S x \<le> row_id S y"
      using sort_by_head [OF Cons] by simp
    ultimately show ?thesis using Cons by (auto simp: ref_table_def quiet_iff intro!: wp_ref_sqlI)
  qed
qed

lemma ref_count_ok: "count_ok get (db_count (ref_table S get upd))"
  by (auto simp: count_ok_def ref_table_def quiet_iff intro!: wp_ref_sqlI)

lemma ref_updates_ok: "updates_ok ref_col_time S get upd (db_updates (ref_table S get upd))"
  unfolding updates_ok_def
  by (auto simp: ref_table_def updates_post_def ref_updates_def dup_error_def maybe_done_def Let_def
      intro!: wp_ref_sqlI split: if_splits)

lemma ref_delete_ok: "delete_ok get upd (db_delete (ref_table S get upd))"
  by (auto simp: delete_ok_def ref_table_def delete_post_def maybe_done_def Let_def intro!: wp_ref_sqlI)

lemma ref_create_inserted:
  assumes "ref_create S get upd r t = (Inr r', t')"
  shows "\<exists>rs'. inserted ref_col_time S (get t) r rs' r' \<and> t' = upd (\<lambda>_. rs') t"
proof -
  let ?i = "Suc (Max (insert 0 (row_id S ` set (get t))))"
  have "?i \<notin> row_id S ` set (get t)"
  proof
    assume "?i \<in> row_id S ` set (get t)"
    then have "?i \<le> Max (insert 0 (row_id S ` set (get t)))" by (intro Max_ge) auto
    then show False by simp
  qed
  moreover from assms have "r' = fill S ?i 1000000000 r" "\<forall>x \<in> set (get t). \<not> clash S x r'"
      "t' = upd (\<lambda>_. get t @ [col S ref_col_time r']) t"
    by (auto simp: ref_create_def Let_def split: if_splits)
  moreover have "\<not> IsZero 1000000000" by (simp add: IsZero_def time_zero_def)
  ultimately show ?thesis unfolding inserted_def by blast
qed

lemma ref_create_dup:
  assumes "ref_create S get upd r t = (Inl e, t')"
  shows "e = dup_error \<and> t' = t \<and> (\<exists>i u. \<exists>x \<in> set (get t). clash S x (fill S i u r))"
  using assms by (auto simp: ref_create_def Let_def split: if_splits)

lemma ref_create_ok:
  assumes "\<And>i t a b. clash S a (fill S i t b) = clash S a b"
  shows "create_ok ref_col_time S get upd (db_create (ref_table S get upd))"
  unfolding create_ok_def
proof (intro allI impI)
  fix r and w :: ref_world
  show "wp (db_create (ref_table S get upd) r) (\<lambda>res w'. sql_frame w w' \<and>
      create_post ref_col_time S get upd r (tabs w) res (tabs w')) w"
  proof (cases "ref_create S get upd r (tabs w)")
    case (Pair res t)
    show ?thesis
    proof (cases res)
      case (Inl e)
      with Pair ref_create_dup [of S get upd r "tabs w" e t] assms show ?thesis
        by (auto simp: ref_table_def create_post_def dup_error_def intro!: wp_ref_sqlI)
    next
      case (Inr r')
      with Pair ref_create_inserted [of S get upd r "tabs w" r' t] show ?thesis
        by (auto simp: ref_table_def create_post_def intro!: wp_ref_sqlI) blast
    qed
  qed
qed

lemma ref_table_ok:
  "(\<And>i t a b. clash S a (fill S i t b) = clash S a b) \<Longrightarrow>
   table_ok ref_col_time S get upd (ref_table S get upd)"
  by (simp add: table_ok_def ref_find_ok ref_first_ok ref_count_ok ref_updates_ok ref_delete_ok ref_create_ok)

lemma ref_transaction_ok: "transaction_ok ref_transaction"
  unfolding transaction_ok_def
proof (intro allI impI)
  fix body :: "(ref_hid, unit res) io" and Q w
  assume "\<forall>w0. quiet w w0 \<longrightarrow> wp body (\<lambda>r w1. \<forall>w'. sql_frame w1 w' \<longrightarrow> (case r of
         Inl e \<Rightarrow> tabs w' = tabs w \<longrightarrow> Q (Inl e) w'
       | Inr _ \<Rightarrow> (tabs w' = tabs w1 \<longrightarrow> Q (Inr ()) w') \<and>
           (\<forall>e. maybe_done (tabs w) (tabs w1) (tabs w') \<longrightarrow> Q (Inl e) w'))) w0"
  from this [rule_format, of w] have "wp body (\<lambda>r w1. \<forall>w'. sql_frame w1 w' \<longrightarrow> (case r of
         Inl e \<Rightarrow> tabs w' = tabs w \<longrightarrow> Q (Inl e) w'
       | Inr _ \<Rightarrow> (tabs w' = tabs w1 \<longrightarrow> Q (Inr ()) w') \<and>
           (\<forall>e. maybe_done (tabs w) (tabs w1) (tabs w') \<longrightarrow> Q (Inl e) w'))) w"
    by (simp add: frame_defs)
  then show "wp (ref_transaction body) Q w"
    by (auto simp: wp_def ref_transaction_def frame_defs split: prod.splits sum.splits)
qed

lemma ref_videos_queries_ok: "videos_queries_ok ref_gorm"
  unfolding videos_queries_ok_def ref_gorm_def
  by (auto simp: quiet_iff intro!: wp_ref_sqlI exI ref_query_result split: list.splits)

lemma ref_gorm_ok: "gorm_ok ref_gorm"
  unfolding gorm_ok_def Let_def
  by (intro conjI ref_videos_queries_ok)
    (simp_all add: ref_gorm_def ref_table_ok ref_transaction_ok schema_defs ref_col_time_def)

section \<open>The host and the channel\<close>

text \<open>A codec given by a list of values with their encodings.\<close>

definition table_codec :: "('e \<times> string) list \<Rightarrow> 'e codec" where
  "table_codec xs = \<lparr>
     Marshal = (\<lambda>e. case map_of xs e of None \<Rightarrow> Inl (ErrNew ''json'') | Some b \<Rightarrow> Inr b),
     Unmarshal = (\<lambda>b. map_of (map (\<lambda>(e, b). (b, e)) xs) b)\<rparr>"

lemma table_codec_ok: "distinct (map snd xs) \<Longrightarrow> codec_ok f (table_codec xs)"
proof -
  assume "distinct (map snd xs)"
  then have "map_of xs e = Some b \<Longrightarrow> map_of (map (\<lambda>(e, b). (b, e)) xs) b = Some e" for e b
    by (intro map_of_is_SomeI) (force simp: o_def case_prod_beta dest: map_of_SomeD)+
  then show ?thesis by (auto simp: codec_ok_def table_codec_def split: option.splits)
qed

definition ref_now :: "(ref_hid, time) io" where
  "ref_now = State (\<lambda>w. (now_ns (hidden w), w))"

definition ref_rand :: "nat \<Rightarrow> (ref_hid, 8 word list res) io" where
  "ref_rand n = State (\<lambda>w. (Inr (replicate n (of_nat (seed (hidden w)))),
     w\<lparr>hidden := (hidden w)\<lparr>seed := Suc (seed (hidden w))\<rparr>\<rparr>))"

definition ref_host :: "(like_event \<times> string) list \<Rightarrow> (comment_event \<times> string) list
    \<Rightarrow> (popularity_event \<times> string) list \<Rightarrow> (timeline_event \<times> string) list
    \<Rightarrow> (social_event \<times> string) list \<Rightarrow> (video \<times> string) list \<Rightarrow> ref_hid host" where
  "ref_host ls cs ps ts ss vs = \<lparr>time_Now = ref_now, rand_Read = ref_rand,
     json_like = table_codec ls, json_comment = table_codec cs, json_popularity = table_codec ps,
     json_timeline = table_codec ts, json_social = table_codec ss, json_video = table_codec vs\<rparr>"

lemma ref_host_ok:
  "distinct (map snd ls) \<Longrightarrow> distinct (map snd cs) \<Longrightarrow> distinct (map snd ps) \<Longrightarrow> distinct (map snd ts) \<Longrightarrow>
   distinct (map snd ss) \<Longrightarrow> host_ok (ref_host ls cs ps ts ss vs)"
  by (simp add: host_ok_def ref_host_def table_codec_ok wp_def ref_now_def ref_rand_def frame_defs)

definition ref_mq :: "(broker \<Rightarrow> broker) \<Rightarrow> (ref_hid, unit res) io" where
  "ref_mq f = State (\<lambda>w.
     case faults (hidden w) of
       [] \<Rightarrow> (Inr (), w\<lparr>mq := f (mq w)\<rparr>)
     | Fine # _ \<Rightarrow> (Inr (), (next_world w)\<lparr>mq := f (mq w)\<rparr>)
     | Fails s # _ \<Rightarrow> (Inl (ErrExternal s), next_world w)
     | Fails_after s # _ \<Rightarrow> (Inl (ErrExternal s), next_world w))"

definition ref_channel :: "(string \<Rightarrow> string \<Rightarrow> string list) \<Rightarrow> ref_hid channel" where
  "ref_channel bnd = \<lparr>
     ch_Publish = (\<lambda>x k p. ref_mq (routed (bnd x k) \<lparr>d_Pub = p, d_Exchange = x, d_RoutingKey = k\<rparr>)),
     ch_Ack = (\<lambda>q d. ref_mq (acked q d)),
     ch_Nack = (\<lambda>q d b. ref_mq (if b then requeued q d else dead_lettered q d)),
     ch_bound = bnd\<rparr>"

lemma ref_channel_ok: "channel_ok (ref_channel bnd)"
  by (auto simp: channel_ok_def ref_channel_def ref_mq_def wp_def publish_post_def next_world_def frame_defs
      split: list.splits fault.splits)

text \<open>A channel that never fails.\<close>

definition sure_channel :: "(string \<Rightarrow> string \<Rightarrow> string list) \<Rightarrow> ref_hid channel" where
  "sure_channel bnd = \<lparr>
     ch_Publish = (\<lambda>x k p. State (\<lambda>w. (Inr (), w\<lparr>mq := routed (bnd x k) \<lparr>d_Pub = p, d_Exchange = x,
        d_RoutingKey = k\<rparr> (mq w)\<rparr>))),
     ch_Ack = (\<lambda>q d. State (\<lambda>w. (Inr (), w\<lparr>mq := acked q d (mq w)\<rparr>))),
     ch_Nack = (\<lambda>q d b. State (\<lambda>w. (Inr (), w\<lparr>mq := (if b then requeued q d else dead_lettered q d) (mq w)\<rparr>))),
     ch_bound = bnd\<rparr>"

section \<open>Redis\<close>

definition ref_lua :: lua where
  "ref_lua = \<lparr>
     call_GET = (\<lambda>k. State (\<lambda>(db, now). (case live now db k of Some (RStr s) \<Rightarrow> Some s | _ \<Rightarrow> None, (db, now)))),
     call_DEL = (\<lambda>k. State (\<lambda>(db, now). (if live now db k = None then 0 else 1, (db(k := None), now)))),
     call_INCR = (\<lambda>k. State (\<lambda>(db, now). (let n = (case counter now db k of None \<Rightarrow> 0 | Some n \<Rightarrow> n) + 1 in
        (n, (db(k \<mapsto> (RInt n, expiry now db k)), now))))),
     call_PEXPIRE = (\<lambda>k ttl. State (\<lambda>(db, now). (if live now db k = None then 0 else 1, (pexpire k ttl now db, now)))),
     call_ZREMRANGEBYSCORE = (\<lambda>k lo hi. State (\<lambda>(db, now). (let zs = the (zset now db k) in
        (int (length (filter (\<lambda>z. lo \<le> fst z \<and> fst z \<le> hi) zs)),
         (put_zset now k (filter (\<lambda>z. \<not> (lo \<le> fst z \<and> fst z \<le> hi)) zs) db, now))))),
     call_ZCARD = (\<lambda>k. State (\<lambda>(db, now). (int (length (the (zset now db k))), (db, now)))),
     call_ZADD = (\<lambda>k s m. State (\<lambda>(db, now). (let zs = the (zset now db k) in
        (if zscore zs m = None then 1 else 0, (put_zset now k (zadd (s, m) zs) db, now))))),
     tostring = (\<lambda>n. FormatUint (nat n))\<rparr>"

lemma ref_lua_ok: "lua_ok ref_lua"
  by (simp add: lua_ok_def ref_lua_def Let_def)

definition ref_cmd :: "'a command \<Rightarrow> (ref_hid, 'a res) io" where
  "ref_cmd f = State (\<lambda>w. let (r, db) = f (rclock w) (rds w) in
     case faults (hidden w) of
       [] \<Rightarrow> (r, w\<lparr>rds := db\<rparr>)
     | Fine # _ \<Rightarrow> (r, (next_world w)\<lparr>rds := db\<rparr>)
     | Fails s # _ \<Rightarrow> (Inl (ErrExternal s), next_world w)
     | Fails_after s # _ \<Rightarrow> (Inl (ErrExternal s), (next_world w)\<lparr>rds := db\<rparr>))"

definition ref_publish :: "string \<Rightarrow> string \<Rightarrow> (ref_hid, unit res) io" where
  "ref_publish c b = State (\<lambda>w. case faults (hidden w) of
       [] \<Rightarrow> (Inr (), w\<lparr>pubs := pubs w @ [(c, b)]\<rparr>)
     | Fine # _ \<Rightarrow> (Inr (), (next_world w)\<lparr>pubs := pubs w @ [(c, b)]\<rparr>)
     | Fails s # _ \<Rightarrow> (Inl (ErrExternal s), next_world w)
     | Fails_after s # _ \<Rightarrow> (Inl (ErrExternal s), (next_world w)\<lparr>pubs := pubs w @ [(c, b)]\<rparr>))"

definition ref_redis :: "ref_hid rdb" where
  "ref_redis = \<lparr>rdb_lua = ref_lua,
     rdb_Run = (\<lambda>s. ref_cmd (run_script s)),
     rdb_SetNX = (\<lambda>k v t. ref_cmd (cmd_setnx k v t)),
     rdb_Get = (\<lambda>k. ref_cmd (cmd_get k)),
     rdb_Set = (\<lambda>k v t. ref_cmd (cmd_set k v t)),
     rdb_Del = (\<lambda>k. ref_cmd (cmd_del k)),
     rdb_MGet = (\<lambda>ks. ref_cmd (cmd_mget ks)),
     rdb_Exists = (\<lambda>k. ref_cmd (cmd_exists k)),
     rdb_Expire = (\<lambda>k t. ref_cmd (cmd_expire k t)),
     rdb_ZIncrBy = (\<lambda>k d m. ref_cmd (cmd_zincrby k d m)),
     rdb_ZAdd = (\<lambda>k ms. ref_cmd (cmd_zadd k ms)),
     rdb_ZRemRangeByRank = (\<lambda>k a b. ref_cmd (cmd_zremrangebyrank k a b)),
     rdb_ZRangeWithScores = (\<lambda>k a b. ref_cmd (cmd_zrange k a b)),
     rdb_ZUnionStore = (\<lambda>k ks agg. ref_cmd (cmd_zunionstore_sum k ks)),
     rdb_ZRevRange = (\<lambda>k a b. ref_cmd (cmd_zrevrange k a b)),
     rdb_ZRevRangeByScore = (\<lambda>k a b c d. ref_cmd (cmd_zrevrangebyscore k a b c d)),
     rdb_Publish = ref_publish\<rparr>"

lemma ref_cmd_ok: "call_ok f (ref_cmd f)"
proof -
  have "wp (ref_cmd f) (call_post f w) w" for w
    unfolding wp_def ref_cmd_def
    by (cases "f (rclock w) (rds w)")
      (auto simp: call_post_def next_world_def frame_defs intro!: exI [of _ "rclock w"]
        split: list.splits fault.splits)
  then show ?thesis by (simp add: call_ok_def)
qed

lemma ref_redis_ok: "redis_ok ref_redis"
  by (simp add: redis_ok_def ref_redis_def ref_lua_ok ref_cmd_ok)
    (auto simp: wp_def ref_publish_def published_post_def next_world_def split: list.splits fault.splits)

definition ref_cache :: "ref_hid cache" where
  "ref_cache = NewClient ref_redis"

lemma ref_cache_ok: "cache_redis_ok ref_cache" "cache_redis_ok None"
  by (simp_all add: cache_redis_ok_def ref_cache_def NewClient_def rdb_of_def ref_redis_ok)

text \<open>A Redis that is always reachable.\<close>

definition sure_cmd :: "'a command \<Rightarrow> (ref_hid, 'a res) io" where
  "sure_cmd f = State (\<lambda>w. let (r, db) = f (rclock w) (rds w) in (r, w\<lparr>rds := db\<rparr>))"

lemma sure_cmd_ok: "call_ok f (sure_cmd f)"
  by (auto simp: call_ok_def wp_def sure_cmd_def call_post_def frame_defs split: prod.splits)

definition sure_redis :: "ref_hid rdb" where
  "sure_redis = \<lparr>rdb_lua = ref_lua,
     rdb_Run = (\<lambda>s. sure_cmd (run_script s)),
     rdb_SetNX = (\<lambda>k v t. sure_cmd (cmd_setnx k v t)),
     rdb_Get = (\<lambda>k. sure_cmd (cmd_get k)),
     rdb_Set = (\<lambda>k v t. sure_cmd (cmd_set k v t)),
     rdb_Del = (\<lambda>k. sure_cmd (cmd_del k)),
     rdb_MGet = (\<lambda>ks. sure_cmd (cmd_mget ks)),
     rdb_Exists = (\<lambda>k. sure_cmd (cmd_exists k)),
     rdb_Expire = (\<lambda>k t. sure_cmd (cmd_expire k t)),
     rdb_ZIncrBy = (\<lambda>k d m. sure_cmd (cmd_zincrby k d m)),
     rdb_ZAdd = (\<lambda>k ms. sure_cmd (cmd_zadd k ms)),
     rdb_ZRemRangeByRank = (\<lambda>k a b. sure_cmd (cmd_zremrangebyrank k a b)),
     rdb_ZRangeWithScores = (\<lambda>k a b. sure_cmd (cmd_zrange k a b)),
     rdb_ZUnionStore = (\<lambda>k ks agg. sure_cmd (cmd_zunionstore_sum k ks)),
     rdb_ZRevRange = (\<lambda>k a b. sure_cmd (cmd_zrevrange k a b)),
     rdb_ZRevRangeByScore = (\<lambda>k a b c d. sure_cmd (cmd_zrevrangebyscore k a b c d)),
     rdb_Publish = ref_publish\<rparr>"

definition sure_cache :: "ref_hid cache" where
  "sure_cache = NewClient sure_redis"

lemma sure_redis_ok: "redis_ok sure_redis"
  by (simp add: redis_ok_def sure_redis_def ref_lua_ok sure_cmd_ok)
    (auto simp: wp_def ref_publish_def published_post_def next_world_def split: list.splits fault.splits)

lemma sure_cache_ok: "cache_redis_ok sure_cache"
  by (simp add: cache_redis_ok_def sure_cache_def NewClient_def rdb_of_def sure_redis_ok)

section \<open>States\<close>

definition no_tables :: tables where
  "no_tables = \<lparr>t_accounts = [], t_videos = [], t_outbox = [], t_tags = [], t_video_tags = [], t_likes = [],
     t_comments = [], t_socials = [], t_messages = [], t_notifications = []\<rparr>"

definition no_broker :: broker where
  "no_broker = \<lparr>bk_log = [], bk_ready = (\<lambda>_. []), bk_unacked = (\<lambda>_. []), bk_dead = (\<lambda>_. [])\<rparr>"

definition no_memory :: memory where
  "no_memory = \<lparr>local_videos = Map.empty, hub_clients = (\<lambda>_. []), hub_next = 0\<rparr>"

definition ref_start :: "fault list \<Rightarrow> tables \<Rightarrow> ref_world" where
  "ref_start fs t = \<lparr>tabs = t, rds = Map.empty, rclock = 0, mq = no_broker, pubs = [], mem = no_memory,
     hidden = \<lparr>faults = fs, now_ns = 1700000000000000000, seed = 0\<rparr>\<rparr>"

lemmas ref_defs = ref_gorm_def ref_table_def ref_sql_def ref_query_def ref_create_def ref_updates_def
  ref_transaction_def next_world_def ref_start_def no_tables_def no_broker_def dup_error_def ref_host_def
  ref_now_def ref_rand_def table_codec_def ref_mq_def ref_channel_def sure_channel_def
  ref_lua_def ref_cmd_def ref_redis_def ref_cache_def NewClient_def rdb_of_def
  limit_rows_def changed_rows_def delete_rows_def schema_defs auto_time_def ref_col_time_def

end
