(* ===== verification/Retry.thy ===== *)
theory Retry
  imports Reference
begin

text \<open>
  \<open>internal/worker/retry.go\<close>: the consumer loop every queue worker runs, with manual
  acknowledgement, a bounded number of retries counted in a message header, and dead-lettering.
\<close>

section \<open>Definitions\<close>

definition RetryHeader :: string where
  "RetryHeader = ''x-retry-count''"

text \<open>The header counts only when it holds an \<open>int32\<close>.\<close>

definition getRetryCount :: "delivery \<Rightarrow> int" where
  "getRetryCount d = (case map_of (p_Headers (d_Pub d)) RetryHeader of
     None \<Rightarrow> 0 | Some v \<Rightarrow> (case v of AInt32 cnts \<Rightarrow> sint cnts | AOther _ \<Rightarrow> 0))"

definition retry_publishing :: "publishing \<Rightarrow> int \<Rightarrow> publishing" where
  "retry_publishing p retryCount = \<lparr>
     p_Headers = AList.update RetryHeader (AInt32 (word_of_int retryCount)) (p_Headers p),
     p_ContentType = p_ContentType p, p_ContentEncoding = p_ContentEncoding p,
     p_DeliveryMode = p_DeliveryMode p, p_Priority = p_Priority p,
     p_CorrelationId = p_CorrelationId p, p_ReplyTo = p_ReplyTo p, p_Expiration = p_Expiration p,
     p_MessageId = p_MessageId p, p_Timestamp = p_Timestamp p, p_Type = p_Type p,
     p_UserId = p_UserId p, p_AppId = p_AppId p, p_Body = p_Body p\<rparr>"

definition republishForRetry :: "'x channel \<Rightarrow> delivery \<Rightarrow> int \<Rightarrow> ('x, unit res) io" where
  "republishForRetry ch d retryCount =
     ch_Publish ch (d_Exchange d) (d_RoutingKey d) (retry_publishing (d_Pub d) retryCount)"

definition handleMainDelivery ::
  "'x channel \<Rightarrow> string \<Rightarrow> (delivery \<Rightarrow> ('x, unit res) io) \<Rightarrow> delivery \<Rightarrow> ('x, unit) io" where
  "handleMainDelivery ch queue process d = do {
     r \<leftarrow> process d;
     case r of
       Inl err \<Rightarrow>
         (let retryCount = getRetryCount d in
          if retryCount \<ge> MaxRetryCount then do {_ \<leftarrow> ch_Nack ch queue d False; ret ()}
          else do {
            p \<leftarrow> republishForRetry ch d (retryCount + 1);
            (case p of
               Inl e \<Rightarrow> do {_ \<leftarrow> ch_Nack ch queue d True; ret ()}
             | Inr _ \<Rightarrow> do {_ \<leftarrow> ch_Ack ch queue d; ret ()})})
     | Inr _ \<Rightarrow> do {_ \<leftarrow> ch_Ack ch queue d; ret ()}}"

text \<open>
  \<open>consumeWithRetry\<close> selects between the end of the context and the deliveries channel. A
  finite run is given by what the \<open>select\<close> yields, in order; the result is the error the
  loop returns with, \<open>None\<close> while it is still running. \<open>consumed\<close> is what \<open>ch.Consume\<close> returned.
\<close>

datatype select_event = CtxDone go_error | Received delivery | DeliveriesClosed

fun consume_loop :: "'x channel \<Rightarrow> string \<Rightarrow> (delivery \<Rightarrow> ('x, unit res) io) \<Rightarrow> select_event list
    \<Rightarrow> ('x, go_error option) io" where
  "consume_loop ch queue process [] = ret None"
| "consume_loop ch queue process (CtxDone e # evs) = ret (Some e)"
| "consume_loop ch queue process (DeliveriesClosed # evs) = ret (Some (ErrNew ''deliveries channel closed''))"
| "consume_loop ch queue process (Received d # evs) =
     do {_ \<leftarrow> handleMainDelivery ch queue process d; consume_loop ch queue process evs}"

definition consumeWithRetry :: "'x channel \<Rightarrow> string \<Rightarrow> unit res \<Rightarrow> (delivery \<Rightarrow> ('x, unit res) io)
    \<Rightarrow> select_event list \<Rightarrow> ('x, go_error option) io" where
  "consumeWithRetry ch queue consumed process evs =
     (case consumed of Inl err \<Rightarrow> ret (Some err) | Inr _ \<Rightarrow> consume_loop ch queue process evs)"

section \<open>The broker delivering a message\<close>

text \<open>The broker moves the first ready message of a queue to the consumer.\<close>

definition delivered :: "string \<Rightarrow> delivery \<Rightarrow> 'x world \<Rightarrow> 'x world" where
  "delivered q d w = w\<lparr>mq := (mq w)\<lparr>bk_ready := (bk_ready (mq w))(q := tl (bk_ready (mq w) q)),
     bk_unacked := (bk_unacked (mq w))(q := bk_unacked (mq w) q @ [d])\<rparr>\<rparr>"

fun drain :: "'x channel \<Rightarrow> string \<Rightarrow> (delivery \<Rightarrow> ('x, unit res) io) \<Rightarrow> nat \<Rightarrow> 'x world \<Rightarrow> 'x world" where
  "drain ch q process 0 w = w"
| "drain ch q process (Suc n) w =
     (case bk_ready (mq w) q of
        [] \<Rightarrow> w
      | d # ds \<Rightarrow> drain ch q process n
          (snd (run_state (handleMainDelivery ch q process d) (delivered q d w))))"

section \<open>The retry count\<close>

lemma getRetryCount_retry:
  assumes "- (2 ^ 31) \<le> n" "n < 2 ^ 31"
  shows "getRetryCount \<lparr>d_Pub = retry_publishing p n, d_Exchange = x, d_RoutingKey = k\<rparr> = n"
proof -
  have "sint (word_of_int n :: 32 word) = n"
    using assms by (simp add: sint_sbintrunc' signed_take_bit_int_eq_self)
  then show ?thesis by (simp add: getRetryCount_def retry_publishing_def update_conv)
qed

lemma getRetryCount_bounds: "- (2 ^ 31) \<le> getRetryCount d \<and> getRetryCount d < 2 ^ 31"
proof -
  have "- (2 ^ 31) \<le> sint (c :: 32 word) \<and> sint c < 2 ^ 31" for c
    using sint_range_size [of c] by (simp add: word_size)
  then show ?thesis by (auto simp: getRetryCount_def split: option.splits amqp_val.splits)
qed

text \<open>A republished message differs from the original in the retry header only.\<close>

lemma retry_publishing_eq: "retry_publishing p n = p\<lparr>p_Headers := AList.update RetryHeader (AInt32 (word_of_int n)) (p_Headers p)\<rparr>"
  by (simp add: retry_publishing_def)

definition retry_copy :: "delivery \<Rightarrow> delivery" where
  "retry_copy d = d\<lparr>d_Pub := retry_publishing (d_Pub d) (getRetryCount d + 1)\<rparr>"

lemma getRetryCount_copy:
  assumes "getRetryCount d < MaxRetryCount"
  shows "getRetryCount (retry_copy d) = getRetryCount d + 1"
proof -
  have "getRetryCount \<lparr>d_Pub = retry_publishing (d_Pub d) (getRetryCount d + 1),
      d_Exchange = d_Exchange d, d_RoutingKey = d_RoutingKey d\<rparr> = getRetryCount d + 1"
    by (rule getRetryCount_retry) (use assms getRetryCount_bounds [of d] in \<open>auto simp: MaxRetryCount_def\<close>)
  then show ?thesis by (simp add: retry_copy_def getRetryCount_def)
qed

section \<open>One delivery\<close>

text \<open>
  Where a message can be after it was handled, in terms of the broker \<open>b\<close> the processing left.
  The acknowledgement itself may not get through, and the message is then still unacknowledged.
\<close>

definition handled_ok :: "string \<Rightarrow> delivery \<Rightarrow> broker \<Rightarrow> broker \<Rightarrow> bool" where
  "handled_ok q d b b' \<longleftrightarrow> b' = acked q d b \<or> b' = b"

definition handled_err :: "string list \<Rightarrow> string \<Rightarrow> delivery \<Rightarrow> broker \<Rightarrow> broker \<Rightarrow> bool" where
  "handled_err qs q d b b' \<longleftrightarrow>
     (let copies = {handed (retry_copy d) b, routed qs (retry_copy d) b} in
      if getRetryCount d \<ge> MaxRetryCount then b' = dead_lettered q d b \<or> b' = b
      else (\<exists>c \<in> copies. b' = acked q d c \<or> b' = c) \<or>
           (\<exists>c \<in> insert b copies. b' = requeued q d c \<or> b' = c))"

lemma retry_copy_eq:
  "\<lparr>d_Pub = retry_publishing (d_Pub d) (getRetryCount d + 1), d_Exchange = d_Exchange d,
    d_RoutingKey = d_RoutingKey d\<rparr> = retry_copy d"
  by (simp add: retry_copy_def)

lemma wp_republish:
  assumes "channel_ok ch" "\<And>r w'. mq_frame w w' \<Longrightarrow>
    publish_post (ch_bound ch (d_Exchange d) (d_RoutingKey d)) (retry_copy d) (mq w) r (mq w') \<Longrightarrow> Q r w'"
  shows "wp (republishForRetry ch d (getRetryCount d + 1)) Q w"
  unfolding republishForRetry_def
  by (rule wp_Publish [OF assms(1)]) (use assms(2) in \<open>simp add: retry_copy_eq\<close>)

lemma wp_handle_err:
  assumes "channel_ok ch"
  shows "wp (if getRetryCount d \<ge> MaxRetryCount then do {_ \<leftarrow> ch_Nack ch q d False; ret ()}
      else do {p \<leftarrow> republishForRetry ch d (getRetryCount d + 1);
        (case p of Inl e \<Rightarrow> do {_ \<leftarrow> ch_Nack ch q d True; ret ()}
         | Inr _ \<Rightarrow> do {_ \<leftarrow> ch_Ack ch q d; ret ()})})
    (\<lambda>_ w'. mq_frame w w' \<and>
       handled_err (ch_bound ch (d_Exchange d) (d_RoutingKey d)) q d (mq w) (mq w')) w"
proof (cases "getRetryCount d \<ge> MaxRetryCount")
  case True
  then show ?thesis
    by (auto simp: wp_simps handled_err_def intro!: wp_Nack [OF assms] split: if_splits)
next
  case False
  let ?Q = "\<lambda>w'. mq_frame w w' \<and>
       handled_err (ch_bound ch (d_Exchange d) (d_RoutingKey d)) q d (mq w) (mq w')"
  have "wp (republishForRetry ch d (getRetryCount d + 1)) (\<lambda>p. wp (case p of
          Inl e \<Rightarrow> do {_ \<leftarrow> ch_Nack ch q d True; ret ()} | Inr _ \<Rightarrow> do {_ \<leftarrow> ch_Ack ch q d; ret ()})
          (\<lambda>_. ?Q)) w"
  proof (rule wp_republish [OF assms])
    fix r w1
    assume w1: "mq_frame w w1"
      and post: "publish_post (ch_bound ch (d_Exchange d) (d_RoutingKey d)) (retry_copy d) (mq w) r (mq w1)"
    show "wp (case r of Inl e \<Rightarrow> do {_ \<leftarrow> ch_Nack ch q d True; ret ()}
        | Inr _ \<Rightarrow> do {_ \<leftarrow> ch_Ack ch q d; ret ()}) (\<lambda>_. ?Q) w1"
    proof (cases r)
      case (Inl e)
      with post False w1 show ?thesis
        by (auto simp: wp_simps publish_post_def handled_err_def Let_def
            intro!: wp_Nack [OF assms] elim: mq_frame_trans)
    next
      case (Inr u)
      with post False w1 show ?thesis
        by (auto simp: wp_simps publish_post_def handled_err_def Let_def
            intro!: wp_Ack [OF assms] elim: mq_frame_trans)
    qed
  qed
  with False show ?thesis by (simp add: wp_simps)
qed

lemma wp_handle_ok:
  assumes "channel_ok ch"
  shows "wp (do {_ \<leftarrow> ch_Ack ch q d; ret ()}) (\<lambda>_ w'. mq_frame w w' \<and> handled_ok q d (mq w) (mq w')) w"
  by (auto simp: wp_simps handled_ok_def intro!: wp_Ack [OF assms] split: if_splits)

lemma handleMainDelivery_post:
  assumes "channel_ok ch" "run_state (process d) w = (r, w1)"
  shows "wp (handleMainDelivery ch q process d) (\<lambda>_ w'. mq_frame w1 w' \<and> (case r of
      Inr _ \<Rightarrow> handled_ok q d (mq w1) (mq w')
    | Inl _ \<Rightarrow> handled_err (ch_bound ch (d_Exchange d) (d_RoutingKey d)) q d (mq w1) (mq w'))) w"
proof -
  have run: "wp (process d) Q w = Q r w1" for Q
    by (simp add: wp_def assms(2))
  show ?thesis
    unfolding handleMainDelivery_def wp_bind run Let_def
    by (cases r) (simp_all only: sum.case wp_handle_err [OF assms(1)] wp_handle_ok [OF assms(1)])
qed

section \<open>A message that always fails\<close>

text \<open>A channel and a broker that do what they are asked.\<close>

definition reliable :: "'x channel \<Rightarrow> bool" where
  "reliable ch \<longleftrightarrow>
     (\<forall>x k p w. wp (ch_Publish ch x k p) (\<lambda>r w'. r = Inr () \<and>
        mq w' = routed (ch_bound ch x k) \<lparr>d_Pub = p, d_Exchange = x, d_RoutingKey = k\<rparr> (mq w)) w) \<and>
     (\<forall>q d w. wp (ch_Ack ch q d) (\<lambda>r w'. r = Inr () \<and> mq w' = acked q d (mq w)) w) \<and>
     (\<forall>q d b w. wp (ch_Nack ch q d b) (\<lambda>r w'. r = Inr () \<and>
        mq w' = (if b then requeued q d (mq w) else dead_lettered q d (mq w))) w)"

lemma wp_reliable:
  assumes "reliable ch"
  shows wp_reliable_Publish: "(\<And>w'. mq w' = routed (ch_bound ch x k) \<lparr>d_Pub = p, d_Exchange = x,
      d_RoutingKey = k\<rparr> (mq w) \<Longrightarrow> Q (Inr ()) w') \<Longrightarrow> wp (ch_Publish ch x k p) Q w"
    and wp_reliable_Ack: "(\<And>w'. mq w' = acked q d (mq w) \<Longrightarrow> Q (Inr ()) w') \<Longrightarrow> wp (ch_Ack ch q d) Q w"
    and wp_reliable_Nack: "(\<And>w'. mq w' = (if b then requeued q d (mq w) else dead_lettered q d (mq w)) \<Longrightarrow>
      Q (Inr ()) w') \<Longrightarrow> wp (ch_Nack ch q d b) Q w"
  using assms unfolding reliable_def wp_def by (fastforce split: prod.splits)+

lemma reliable_handle_err:
  assumes "reliable ch" "run_state (process d) w = (Inl e, w1)"
  shows "wp (handleMainDelivery ch q process d) (\<lambda>_ w'. mq w' =
     (if getRetryCount d \<ge> MaxRetryCount then dead_lettered q d (mq w1)
      else acked q d (routed (ch_bound ch (d_Exchange d) (d_RoutingKey d)) (retry_copy d) (mq w1)))) w"
proof -
  have run: "wp (process d) Q w = Q (Inl e) w1" for Q
    by (simp add: wp_def assms(2))
  show ?thesis
    unfolding handleMainDelivery_def wp_bind run Let_def republishForRetry_def
    by (auto simp: wp_simps retry_copy_eq
        intro!: wp_reliable_Publish [OF assms(1)] wp_reliable_Ack [OF assms(1)] wp_reliable_Nack [OF assms(1)])
qed

lemma drain_always_failing:
  assumes ch: "reliable ch" and fails: "\<And>d w. \<exists>e w'. run_state (process d) w = (Inl e, w') \<and> mq w' = mq w"
    and "ch_bound ch (d_Exchange d) (d_RoutingKey d) = [q]"
    and "bk_ready (mq w) q = [d]" "bk_unacked (mq w) q = []"
    and "getRetryCount d + int n = MaxRetryCount"
  shows "let b = mq (drain ch q process (Suc n) w) in
    bk_ready b q = [] \<and> bk_unacked b q = [] \<and> bk_dead b q = bk_dead (mq w) q @ [(retry_copy ^^ n) d]"
  using assms(3-)
proof (induction n arbitrary: d w)
  case 0
  obtain e w1 where p: "run_state (process d) (delivered q d w) = (Inl e, w1)" "mq w1 = mq (delivered q d w)"
    using fails by blast
  have "mq (snd (run_state (handleMainDelivery ch q process d) (delivered q d w))) =
      dead_lettered q d (mq (delivered q d w))"
    using reliable_handle_err [of ch process d, OF ch p(1), of q] 0 p(2) by (simp add: wp_def split: prod.splits)
  with 0 show ?case by (simp add: delivered_def dead_lettered_def acked_def Let_def)
next
  case (Suc n)
  let ?w1 = "snd (run_state (handleMainDelivery ch q process d) (delivered q d w))"
  obtain e w1 where p: "run_state (process d) (delivered q d w) = (Inl e, w1)" "mq w1 = mq (delivered q d w)"
    using fails by blast
  have mq1: "mq ?w1 = acked q d (routed [q] (retry_copy d) (mq (delivered q d w)))"
    using reliable_handle_err [of ch process d, OF ch p(1), of q] Suc.prems p(2) by (simp add: wp_def split: prod.splits)
  have "let b = mq (drain ch q process (Suc n) ?w1) in
    bk_ready b q = [] \<and> bk_unacked b q = [] \<and> bk_dead b q = bk_dead (mq ?w1) q @ [(retry_copy ^^ n) (retry_copy d)]"
    by (rule Suc.IH) (use Suc.prems getRetryCount_copy [of d] mq1 in
      \<open>simp_all add: retry_copy_def delivered_def acked_def routed_def handed_def\<close>)
  with Suc.prems mq1 show ?case
    by (simp add: Let_def funpow_swap1 delivered_def acked_def routed_def handed_def)
qed

section \<open>Properties\<close>


definition sample_delivery :: delivery where
  "sample_delivery = \<lparr>d_Pub = json_publishing 0 ''body'', d_Exchange = ''like.events'', d_RoutingKey = ''like.like''\<rparr>"

definition failing_process :: "delivery \<Rightarrow> (ref_hid, unit res) io" where
  "failing_process d = throw (ErrExternal ''down'')"

definition ready_world :: "delivery \<Rightarrow> ref_world" where
  "ready_world d = (ref_start [] no_tables)\<lparr>mq := no_broker\<lparr>bk_ready := (\<lambda>q. if q = ''q'' then [d] else [])\<rparr>\<rparr>"



lemma sure_channel_reliable: "reliable (sure_channel bnd)"
  by (simp add: reliable_def sure_channel_def wp_def)


text \<open>
  C25. A retry goes back through the exchange, so every other queue bound to it with a matching key
  receives the message again although its own consumer has not failed.
\<close>

theorem retry_reaches_sibling_queues:
  assumes "reliable ch" "run_state (process d) w = (Inl e, w1)" "getRetryCount d < MaxRetryCount"
    and "sib \<in> set (ch_bound ch (d_Exchange d) (d_RoutingKey d))" "sib \<noteq> q"
    and "run_state (handleMainDelivery ch q process d) w = (u, w')"
  shows "bk_ready (mq w') sib = bk_ready (mq w1) sib @ [retry_copy d]"
proof -
  have "mq w' = acked q d (routed (ch_bound ch (d_Exchange d) (d_RoutingKey d)) (retry_copy d) (mq w1))"
    using wp_runD [OF reliable_handle_err [of ch process d, OF assms(1,2)] assms(6)] assms(3) by simp
  with assms(4) show ?thesis by (simp add: acked_def routed_def handed_def)
qed

theorem retry_reaches_sibling_queues_witness:
  "bk_ready (mq (snd (run_state (handleMainDelivery (sure_channel (\<lambda>_ _. [''notification.like'', ''like.events'']))
       ''notification.like'' failing_process sample_delivery) (ref_start [] no_tables)))) ''like.events''
     = [retry_copy sample_delivery]"
proof -
  let ?ch = "sure_channel (\<lambda>_ _. [''notification.like'', ''like.events''])" and ?w = "ref_start [] no_tables"
  obtain u w' where run:
    "run_state (handleMainDelivery ?ch ''notification.like'' failing_process sample_delivery) ?w = (u, w')"
    by (rule prod.exhaust)
  have "bk_ready (mq w') ''like.events'' = bk_ready (mq ?w) ''like.events'' @ [retry_copy sample_delivery]"
    by (rule retry_reaches_sibling_queues [OF sure_channel_reliable _ _ _ _ run])
      (simp_all add: failing_process_def sure_channel_def getRetryCount_def sample_delivery_def
        json_publishing_def MaxRetryCount_def)
  with run show ?thesis by (simp add: ref_start_def no_broker_def)
qed

end
