(* ===== verification/Outbox.thy ===== *)
theory Outbox
  imports Reference
begin

text \<open>
  \<open>internal/worker/outbox_worker.go\<close>: the worker that moves \<open>outbox_msgs\<close> rows to the
  timeline exchange. Rows go from \<open>pending\<close> to \<open>processing\<close> (claimed by one node), then to
  \<open>published\<close>, back to \<open>pending\<close> with a higher retry count, or to \<open>failed\<close>; rows that
  stayed in \<open>processing\<close> too long are reset. The functions are followed by a step relation for
  several nodes whose statements interleave.
\<close>

section \<open>Definitions\<close>

definition defaultOutboxBatchSize :: int where "defaultOutboxBatchSize = 100"
definition defaultOutboxInterval :: int where "defaultOutboxInterval = 10 ^ 9"
definition defaultOutboxProcessingTimeout :: int where "defaultOutboxProcessingTimeout = 5 * 60 * 10 ^ 9"
definition maxOutboxRetry :: int where "maxOutboxRetry = 3"
definition maxOutboxErrorLength :: nat where "maxOutboxErrorLength = 512"

definition OutboxStatusPending :: string where "OutboxStatusPending = ''pending''"
definition OutboxStatusProcessing :: string where "OutboxStatusProcessing = ''processing''"
definition OutboxStatusPublished :: string where "OutboxStatusPublished = ''published''"
definition OutboxStatusFailed :: string where "OutboxStatusFailed = ''failed''"

lemmas outbox_status_defs = OutboxStatusPending_def OutboxStatusProcessing_def OutboxStatusPublished_def
  OutboxStatusFailed_def

record 'x outbox_worker =
  ow_db :: "'x gorm"
  ow_timelineMQ :: "'x mq_ptr"
  ow_batchSize :: int
  ow_interval :: int
  ow_timeout :: int

definition NewOutboxWorker :: "'x gorm \<Rightarrow> 'x mq_ptr \<Rightarrow> 'x outbox_worker" where
  "NewOutboxWorker db timelineMQ = \<lparr>ow_db = db, ow_timelineMQ = timelineMQ,
     ow_batchSize = defaultOutboxBatchSize, ow_interval = defaultOutboxInterval,
     ow_timeout = defaultOutboxProcessingTimeout\<rparr>"

text \<open>\<open>.Error\<close> of a statement.\<close>

definition err_of :: "'a res \<Rightarrow> unit res" where
  "err_of r = (case r of Inl e \<Rightarrow> Inl e | Inr _ \<Rightarrow> Inr ())"

definition truncateOutboxError :: "go_error option \<Rightarrow> string" where
  "truncateOutboxError err = (case err of
     None \<Rightarrow> ''''
   | Some e \<Rightarrow> (let msg = TrimSpace (error_text e) in
       if length msg \<le> maxOutboxErrorLength then msg else take maxOutboxErrorLength msg))"

text \<open>The statement of \<open>resetExpiredProcessing\<close> for given readings of the clock, and the whole.\<close>

definition reset_at :: "'x outbox_worker \<Rightarrow> time \<Rightarrow> time \<Rightarrow> ('x, unit res) io" where
  "reset_at w deadline now = do {
     res \<leftarrow> db_updates (db_outbox (ow_db w))
       (\<lambda>m. o_Status m = OutboxStatusProcessing \<and> o_UpdatedAt m < deadline)
       (\<lambda>m. m\<lparr>o_Status := OutboxStatusPending, o_UpdatedAt := now\<rparr>);
     ret (err_of res)}"

definition resetExpiredProcessing :: "'x host \<Rightarrow> 'x outbox_worker \<Rightarrow> ('x, unit res) io" where
  "resetExpiredProcessing H w = do {
     t \<leftarrow> time_Now H;
     now \<leftarrow> time_Now H;
     reset_at w (t - ow_timeout w) now}"

definition claim :: "'x host \<Rightarrow> 'x outbox_worker \<Rightarrow> uint \<Rightarrow> ('x, bool res) io" where
  "claim H w i =
     (if i = 0 then ok False
      else do {
        now \<leftarrow> time_Now H;
        bindE (db_updates (db_outbox (ow_db w))
            (\<lambda>m. o_ID m = i \<and> o_Status m = OutboxStatusPending)
            (\<lambda>m. m\<lparr>o_Status := OutboxStatusProcessing, o_UpdatedAt := now\<rparr>))
          (\<lambda>rowsAffected. ok (rowsAffected = 1))})"

definition markPublished :: "'x host \<Rightarrow> 'x outbox_worker \<Rightarrow> uint \<Rightarrow> ('x, unit res) io" where
  "markPublished H w i =
     (if i = 0 then ok ()
      else do {
        now \<leftarrow> time_Now H;
        res \<leftarrow> db_updates (db_outbox (ow_db w)) (\<lambda>m. o_ID m = i)
          (\<lambda>m. m\<lparr>o_Status := OutboxStatusPublished, o_LastError := '''', o_PublishedAt := Some now,
                 o_UpdatedAt := now\<rparr>);
        ret (err_of res)})"

definition markPublishFailed :: "'x host \<Rightarrow> 'x outbox_worker \<Rightarrow> outbox_msg \<Rightarrow> go_error \<Rightarrow> ('x, unit res) io" where
  "markPublishFailed H w msg publishErr =
     (if o_ID msg = 0 then ok ()
      else
        (let nextRetry = o_RetryCount msg + 1;
             nextStatus = (if nextRetry > maxOutboxRetry then OutboxStatusFailed else OutboxStatusPending)
         in do {
           now \<leftarrow> time_Now H;
           res \<leftarrow> db_updates (db_outbox (ow_db w)) (\<lambda>m. o_ID m = o_ID msg)
             (\<lambda>m. m\<lparr>o_Status := nextStatus, o_RetryCount := nextRetry,
                    o_LastError := truncateOutboxError (Some publishErr), o_UpdatedAt := now\<rparr>);
           ret (err_of res)}))"

definition publishOne :: "'x host \<Rightarrow> 'x outbox_worker \<Rightarrow> outbox_msg \<Rightarrow> ('x, unit res) io" where
  "publishOne H w msg =
     (if o_VideoID msg = 0 then ok ()
      else bindE (claim H w (o_ID msg)) (\<lambda>claimed.
        if \<not> claimed then ok ()
        else do {
          p \<leftarrow> TimelineMQ_Publish H (ow_timelineMQ w) (o_VideoID msg) (o_CreateTime msg);
          (case p of
             Inl err \<Rightarrow> do {_ \<leftarrow> markPublishFailed H w msg err; throw err}
           | Inr _ \<Rightarrow> markPublished H w (o_ID msg))}))"

definition pending_query :: "'x outbox_worker \<Rightarrow> ('x, outbox_msg list res) io" where
  "pending_query w = db_find (db_outbox (ow_db w)) (\<lambda>m. o_Status m = OutboxStatusPending)
     (\<lambda>a b. o_CreateTime a \<le> o_CreateTime b) (ow_batchSize w)"

definition pollOnce :: "'x host \<Rightarrow> 'x outbox_worker \<Rightarrow> ('x, unit res) io" where
  "pollOnce H w =
     bindE (resetExpiredProcessing H w) (\<lambda>_.
     bindE (pending_query w) (\<lambda>messages. do {
       _ \<leftarrow> for_each (publishOne H w) messages;
       ok ()}))"

text \<open>
  \<open>Run\<close>: the initial checks, the defaults, and a poll before each wait. A finite run is given
  by what ends each wait: a tick, or the end of the context with its error.
\<close>

definition with_defaults :: "'x outbox_worker \<Rightarrow> 'x outbox_worker" where
  "with_defaults w = w\<lparr>
     ow_batchSize := (if ow_batchSize w \<le> 0 then defaultOutboxBatchSize else ow_batchSize w),
     ow_interval := (if ow_interval w \<le> 0 then defaultOutboxInterval else ow_interval w),
     ow_timeout := (if ow_timeout w \<le> 0 then defaultOutboxProcessingTimeout else ow_timeout w)\<rparr>"

fun outbox_loop :: "'x host \<Rightarrow> 'x outbox_worker \<Rightarrow> go_error option list \<Rightarrow> ('x, go_error option) io" where
  "outbox_loop H w [] = ret None"
| "outbox_loop H w (wait # waits) = do {
     _ \<leftarrow> pollOnce H w;
     (case wait of Some e \<Rightarrow> ret (Some e) | None \<Rightarrow> outbox_loop H w waits)}"

definition OutboxWorker_Run :: "'x host \<Rightarrow> 'x outbox_worker \<Rightarrow> go_error option list \<Rightarrow> ('x, go_error option) io" where
  "OutboxWorker_Run H w waits =
     (case ow_timelineMQ w of
        Some (Some base) \<Rightarrow>
          (case Ch base of
             Some _ \<Rightarrow> outbox_loop H (with_defaults w) waits
           | None \<Rightarrow> ret (Some (ErrNew ''outbox worker is not initialized'')))
      | _ \<Rightarrow> ret (Some (ErrNew ''outbox worker is not initialized'')))"

section \<open>What a row may look like\<close>

text \<open>
  A row is waiting or being worked on with at most \<open>maxOutboxRetry\<close> failures behind it, or done,
  or given up after one failure more; its error text fits its column. The timeline event of a
  published row has been handed to the broker.
\<close>

definition outbox_row_ok :: "outbox_msg \<Rightarrow> bool" where
  "outbox_row_ok m \<longleftrightarrow> length (o_LastError m) \<le> maxOutboxErrorLength \<and>
     (if o_Status m = OutboxStatusPending \<or> o_Status m = OutboxStatusProcessing
      then 0 \<le> o_RetryCount m \<and> o_RetryCount m \<le> maxOutboxRetry
      else if o_Status m = OutboxStatusPublished
      then 0 \<le> o_RetryCount m \<and> o_RetryCount m \<le> maxOutboxRetry \<and> o_PublishedAt m \<noteq> None
      else o_Status m = OutboxStatusFailed \<and> o_RetryCount m = maxOutboxRetry + 1)"

definition announced :: "'x host \<Rightarrow> broker \<Rightarrow> outbox_msg \<Rightarrow> bool" where
  "announced H b m \<longleftrightarrow> (\<exists>d \<in> set (bk_log b). \<exists>e. d_Exchange d = TimelineExchange \<and>
     d_RoutingKey d = TimelineRoutingKeyPublish \<and> Marshal (json_timeline H) e = Inr (p_Body (d_Pub d)) \<and>
     te_VideoID e = o_VideoID m \<and> te_CreateTime e = UnixMilli (o_CreateTime m))"

definition outbox_good :: "'x host \<Rightarrow> (time \<Rightarrow> time) \<Rightarrow> broker \<Rightarrow> outbox_msg \<Rightarrow> bool" where
  "outbox_good H ct b m \<longleftrightarrow> outbox_row_ok m \<and> ct (o_CreateTime m) = o_CreateTime m \<and>
     (o_Status m = OutboxStatusPublished \<longrightarrow> announced H b m)"

definition outbox_ok :: "'x host \<Rightarrow> (time \<Rightarrow> time) \<Rightarrow> 'x world \<Rightarrow> bool" where
  "outbox_ok H ct w \<longleftrightarrow> table_wf outbox_schema (t_outbox (tabs w)) \<and>
     (\<forall>m \<in> set (t_outbox (tabs w)). outbox_good H ct (mq w) m)"

text \<open>What no statement of the worker changes: which rows there are, and what they announce.\<close>

definition okey :: "outbox_msg \<Rightarrow> uint \<times> uint \<times> time" where
  "okey m = (o_ID m, o_VideoID m, o_CreateTime m)"

definition same_keys :: "'x world \<Rightarrow> 'x world \<Rightarrow> bool" where
  "same_keys w w' \<longleftrightarrow> map okey (t_outbox (tabs w')) = map okey (t_outbox (tabs w))"

lemma truncateOutboxError_length: "length (truncateOutboxError e) \<le> maxOutboxErrorLength"
  by (simp add: truncateOutboxError_def Let_def split: option.splits)

lemma announced_mono: "announced H b m \<Longrightarrow> set (bk_log b) \<subseteq> set (bk_log b') \<Longrightarrow> okey m' = okey m \<Longrightarrow> announced H b' m'"
  unfolding announced_def okey_def by auto

lemma okey_col [simp]: "ct (o_CreateTime m) = o_CreateTime m \<Longrightarrow>
  okey (col outbox_schema ct (m\<lparr>o_Status := s, o_RetryCount := n, o_LastError := e, o_UpdatedAt := t, o_PublishedAt := p\<rparr>)) = okey m"
  by (simp add: okey_def outbox_schema_def)

lemma same_keys_trans: "same_keys u v \<Longrightarrow> same_keys v w \<Longrightarrow> same_keys u w"
  by (simp add: same_keys_def)

lemma table_wf_okey:
  "map okey ms' = map okey ms \<Longrightarrow> table_wf outbox_schema ms' = table_wf outbox_schema ms"
proof -
  have eq: "table_wf outbox_schema xs = (distinct (map fst (map okey xs)) \<and> 0 \<notin> set (map fst (map okey xs)))" for xs
    by (simp add: table_wf_def outbox_schema_def okey_def o_def)
  show "map okey ms' = map okey ms \<Longrightarrow> ?thesis" by (simp only: eq)
qed

text \<open>One statement on the outbox: it is enough that it keeps each row it touches good.\<close>

lemma wp_outbox_updates:
  assumes G: "gorm_ok G" and inv: "outbox_ok H (db_col_time G) w"
    and row: "\<And>m. m \<in> set (t_outbox (tabs w)) \<Longrightarrow> P m \<Longrightarrow> outbox_good H (db_col_time G) (mq w) m \<Longrightarrow>
      okey (col outbox_schema (db_col_time G) (f m)) = okey m \<and>
      outbox_good H (db_col_time G) (mq w) (col outbox_schema (db_col_time G) (f m))"
    and post: "\<And>r w'. outbox_ok H (db_col_time G) w' \<Longrightarrow> same_keys w w' \<Longrightarrow> mq w' = mq w \<Longrightarrow>
      (\<forall>n. r = Inr n \<longrightarrow> n = changed_rows P (\<lambda>x. col outbox_schema (db_col_time G) (f x)) (t_outbox (tabs w)) \<and>
        t_outbox (tabs w') = update_rows P (\<lambda>x. col outbox_schema (db_col_time G) (f x)) (t_outbox (tabs w))) \<Longrightarrow>
      Q r w'"
  shows "wp (db_updates (db_outbox G) P f) Q w"
proof -
  let ?g = "\<lambda>x. col outbox_schema (db_col_time G) (f x)"
  have T: "table_ok (db_col_time G) outbox_schema t_outbox t_outbox_update (db_outbox G)"
    using G by (simp add: gorm_ok_def Let_def)
  have keys: "map okey (update_rows P ?g (t_outbox (tabs w))) = map okey (t_outbox (tabs w))"
    using row inv by (auto simp: update_rows_def outbox_ok_def)
  have good: "\<forall>m \<in> set (update_rows P ?g (t_outbox (tabs w))). outbox_good H (db_col_time G) (mq w) m"
    using row inv by (auto simp: set_update_rows outbox_ok_def)
  have effect: "outbox_ok H (db_col_time G) w' \<and> same_keys w w'"
    if "mq w' = mq w" "tabs w' = t_outbox_update (update_rows P ?g) (tabs w)" for w'
    using that keys good inv table_wf_okey [OF keys] by (simp add: outbox_ok_def same_keys_def)
  have same: "outbox_ok H (db_col_time G) w' \<and> same_keys w w'" if "mq w' = mq w" "tabs w' = tabs w" for w'
    using that inv by (simp add: outbox_ok_def same_keys_def)
  show ?thesis
    by (rule wp_updates_simple [OF T])
      (use effect same in \<open>auto simp: maybe_done_def sql_frame_def intro!: post\<close>)
qed


section \<open>One worker, any faults\<close>

lemma outbox_ok_idD:
  "outbox_ok H ct w \<Longrightarrow> a \<in> set (t_outbox (tabs w)) \<Longrightarrow> b \<in> set (t_outbox (tabs w)) \<Longrightarrow> o_ID a = o_ID b \<Longrightarrow> a = b"
  using table_wf_idD [of outbox_schema] by (auto simp: outbox_ok_def outbox_schema_def)

lemma outbox_ok_quiet: "outbox_ok H ct w \<Longrightarrow> quiet w w' \<Longrightarrow> outbox_ok H ct w' \<and> same_keys w w'"
  by (simp add: outbox_ok_def same_keys_def frame_defs)

lemma outbox_good_mono: "outbox_good H ct b m \<Longrightarrow> set (bk_log b) \<subseteq> set (bk_log b') \<Longrightarrow> outbox_good H ct b' m"
  unfolding outbox_good_def by (auto intro: announced_mono)

lemma resetExpiredProcessing_keeps:
  assumes H: "host_ok H" and G: "gorm_ok (ow_db wk)" and inv: "outbox_ok H (db_col_time (ow_db wk)) w"
  shows "wp (resetExpiredProcessing H wk) (\<lambda>_ w'. outbox_ok H (db_col_time (ow_db wk)) w' \<and> same_keys w w') w"
proof -
  let ?I = "\<lambda>_ w'. outbox_ok H (db_col_time (ow_db wk)) w' \<and> same_keys w w'"
  have "wp (reset_at wk d now) ?I w2" if q: "quiet w w1" "quiet w1 w2" for d now w1 w2
  proof -
    have i: "outbox_ok H (db_col_time (ow_db wk)) w2 \<and> same_keys w w2"
      using q inv by (auto simp: outbox_ok_def same_keys_def frame_defs)
    show ?thesis
      unfolding reset_at_def wp_simps
      by (rule wp_outbox_updates [OF G i [THEN conjunct1]])
        (use i in \<open>auto simp: outbox_good_def outbox_row_ok_def outbox_schema_def okey_def outbox_status_defs
          intro: same_keys_trans split: if_splits\<close>)
  qed
  then show ?thesis
    unfolding resetExpiredProcessing_def wp_simps by (intro wp_time_Now [OF H]) auto
qed

text \<open>The claim: when it answers true, the row is this worker's.\<close>

definition won :: "uint \<Rightarrow> 'x world \<Rightarrow> 'x world \<Rightarrow> bool" where
  "won i w w' \<longleftrightarrow> i \<noteq> 0 \<and> (\<exists>m \<in> set (t_outbox (tabs w)). o_ID m = i \<and> o_Status m = OutboxStatusPending) \<and>
     (\<forall>m \<in> set (t_outbox (tabs w')). o_ID m = i \<longrightarrow> o_Status m = OutboxStatusProcessing)"

lemma won_rows:
  assumes inv: "outbox_ok H ct w" and "i \<noteq> 0"
    and g: "\<And>m. o_ID (g m) = o_ID m \<and> o_Status (g m) = OutboxStatusProcessing"
    and n: "changed_rows (\<lambda>m. o_ID m = i \<and> o_Status m = OutboxStatusPending) g (t_outbox (tabs w)) = 1"
    and t: "t_outbox (tabs w') = update_rows (\<lambda>m. o_ID m = i \<and> o_Status m = OutboxStatusPending) g (t_outbox (tabs w))"
  shows "won i w w'"
proof -
  let ?P = "\<lambda>m. o_ID m = i \<and> o_Status m = OutboxStatusPending"
  have "filter (\<lambda>r. ?P r \<and> g r \<noteq> r) (t_outbox (tabs w)) \<noteq> []"
    using n by (auto simp: changed_rows_def)
  then obtain m where m: "m \<in> set (t_outbox (tabs w))" "?P m"
    by (auto simp: filter_empty_conv)
  have "o_Status r' = OutboxStatusProcessing" if r': "r' \<in> set (t_outbox (tabs w'))" "o_ID r' = i" for r'
  proof -
    from r' obtain r where r: "r \<in> set (t_outbox (tabs w))" "r' = (if ?P r then g r else r)"
      using t by (auto simp: set_update_rows)
    with g r'(2) have "o_ID r = i" by (auto split: if_splits)
    with outbox_ok_idD [OF inv r(1) m(1)] m(2) r(2) g show ?thesis by auto
  qed
  with m assms(2) show ?thesis by (auto simp: won_def)
qed

lemma claim_post:
  assumes H: "host_ok H" and G: "gorm_ok (ow_db wk)" and inv: "outbox_ok H (db_col_time (ow_db wk)) w"
  shows "wp (claim H wk i) (\<lambda>r w'. outbox_ok H (db_col_time (ow_db wk)) w' \<and> same_keys w w' \<and> mq w' = mq w \<and>
    (r = Inr True \<longrightarrow> won i w w')) w"
proof (cases "i = 0")
  case True
  with inv show ?thesis by (simp add: claim_def wp_simps same_keys_def)
next
  case False
  let ?ct = "db_col_time (ow_db wk)"
  let ?f = "\<lambda>now m. m\<lparr>o_Status := OutboxStatusProcessing, o_UpdatedAt := now\<rparr>"
  let ?upd = "\<lambda>now. db_updates (db_outbox (ow_db wk)) (\<lambda>m. o_ID m = i \<and> o_Status m = OutboxStatusPending) (?f now)"
  let ?Q = "\<lambda>r w'. outbox_ok H ?ct w' \<and> same_keys w w' \<and> mq w' = mq w \<and> (r = Inr True \<longrightarrow> won i w w')"
  have "wp (?upd now) (\<lambda>r w'. case r of Inl e \<Rightarrow> ?Q (Inl e) w' | Inr v \<Rightarrow> ?Q (Inr (v = 1)) w') w1"
    if q: "quiet w w1" for now w1
  proof (rule wp_outbox_updates [OF G])
    show "outbox_ok H ?ct w1" using outbox_ok_quiet [OF inv q] by simp
  qed (use q False won_rows [OF inv False, of "\<lambda>x. col outbox_schema ?ct (?f now x)"] in
      \<open>auto simp: outbox_good_def outbox_row_ok_def outbox_schema_def okey_def outbox_status_defs same_keys_def
        frame_defs split: sum.splits\<close>)
  then have "wp (time_Now H) (\<lambda>now. wp (?upd now) (\<lambda>r w'. case r of Inl e \<Rightarrow> ?Q (Inl e) w' | Inr v \<Rightarrow> ?Q (Inr (v = 1)) w')) w"
    by (rule wp_time_Now [OF H])
  with False show ?thesis by (simp add: claim_def wp_simps cong: sum.case_cong)
qed

lemma markPublished_keeps:
  assumes H: "host_ok H" and G: "gorm_ok (ow_db wk)" and inv: "outbox_ok H (db_col_time (ow_db wk)) w"
    and mine: "\<And>m. m \<in> set (t_outbox (tabs w)) \<Longrightarrow> o_ID m = i \<Longrightarrow>
      o_Status m = OutboxStatusProcessing \<and> announced H (mq w) m"
  shows "wp (markPublished H wk i) (\<lambda>_ w'. outbox_ok H (db_col_time (ow_db wk)) w' \<and> same_keys w w') w"
proof -
  let ?ct = "db_col_time (ow_db wk)"
  let ?f = "\<lambda>now m. m\<lparr>o_Status := OutboxStatusPublished, o_LastError := '''', o_PublishedAt := Some now, o_UpdatedAt := now\<rparr>"
  have "wp (db_updates (db_outbox (ow_db wk)) (\<lambda>m. o_ID m = i) (?f now))
      (\<lambda>_ w'. outbox_ok H ?ct w' \<and> same_keys w w') w1" if q: "quiet w w1" for now w1
  proof (rule wp_outbox_updates [OF G])
    show "outbox_ok H ?ct w1" using outbox_ok_quiet [OF inv q] by simp
  next
    fix m assume m: "m \<in> set (t_outbox (tabs w1))" "o_ID m = i" "outbox_good H ?ct (mq w1) m"
    let ?m = "col outbox_schema ?ct (?f now m)"
    have k: "okey ?m = okey m" using m(3) by (simp add: okey_def outbox_schema_def outbox_good_def)
    from q mine [of m] m have mine': "o_Status m = OutboxStatusProcessing" "announced H (mq w1) m"
      by (auto simp: frame_defs)
    with k have "announced H (mq w1) ?m" by (blast intro: announced_mono)
    with m mine'(1) k show "okey ?m = okey m \<and> outbox_good H ?ct (mq w1) ?m"
      by (auto simp: outbox_good_def outbox_row_ok_def outbox_schema_def outbox_status_defs)
  qed (use q in \<open>auto simp: same_keys_def frame_defs\<close>)
  with inv H show ?thesis
    by (auto simp: markPublished_def wp_simps same_keys_def intro!: wp_time_Now [OF H])
qed

lemma markPublishFailed_keeps:
  assumes H: "host_ok H" and G: "gorm_ok (ow_db wk)" and inv: "outbox_ok H (db_col_time (ow_db wk)) w"
    and rc: "0 \<le> o_RetryCount msg" "o_RetryCount msg \<le> maxOutboxRetry"
  shows "wp (markPublishFailed H wk msg e) (\<lambda>_ w'. outbox_ok H (db_col_time (ow_db wk)) w' \<and> same_keys w w') w"
proof -
  let ?ct = "db_col_time (ow_db wk)" and ?n = "o_RetryCount msg + 1"
  let ?s = "if ?n > maxOutboxRetry then OutboxStatusFailed else OutboxStatusPending"
  let ?f = "\<lambda>now m. m\<lparr>o_Status := ?s, o_RetryCount := ?n,
    o_LastError := truncateOutboxError (Some e), o_UpdatedAt := now\<rparr>"
  have "wp (db_updates (db_outbox (ow_db wk)) (\<lambda>m. o_ID m = o_ID msg) (?f now))
      (\<lambda>_ w'. outbox_ok H ?ct w' \<and> same_keys w w') w1" if q: "quiet w w1" for now w1
  proof (rule wp_outbox_updates [OF G])
    show "outbox_ok H ?ct w1" using outbox_ok_quiet [OF inv q] by simp
  qed (use q rc truncateOutboxError_length [of "Some e"] in
    \<open>auto simp: same_keys_def frame_defs okey_def outbox_good_def outbox_row_ok_def outbox_schema_def outbox_status_defs\<close>)
  with inv H show ?thesis
    by (auto simp: markPublishFailed_def Let_def wp_simps same_keys_def intro!: wp_time_Now [OF H])
qed

lemma TimelineMQ_Publish_announces:
  assumes "host_ok H" "mq_ptr_ok q" "outbox_ok H ct w"
  shows "wp (TimelineMQ_Publish H q v t) (\<lambda>r w'. outbox_ok H ct w' \<and> same_keys w w' \<and> tabs w' = tabs w \<and>
    (r = Inr () \<longrightarrow> (\<forall>m. o_VideoID m = v \<longrightarrow> o_CreateTime m = t \<longrightarrow> announced H (mq w') m))) w"
  by (rule wp_mono [OF TimelineMQ_Publish_post [OF assms(1,2)]])
    (use assms(3) in \<open>auto simp: sent_post_def outbox_ok_def same_keys_def frame_defs announced_def
      intro: outbox_good_mono dest: set_mono_prefix\<close>)

lemma publishOne_keeps:
  assumes H: "host_ok H" and G: "gorm_ok (ow_db wk)" and q: "mq_ptr_ok (ow_timelineMQ wk)"
    and inv: "outbox_ok H (db_col_time (ow_db wk)) w" "same_keys w0 w"
    and msg: "msg \<in> set (t_outbox (tabs w0))" "0 \<le> o_RetryCount msg" "o_RetryCount msg \<le> maxOutboxRetry"
  shows "wp (publishOne H wk msg) (\<lambda>_ w'. outbox_ok H (db_col_time (ow_db wk)) w' \<and> same_keys w0 w') w"
proof -
  let ?ct = "db_col_time (ow_db wk)"
  let ?I = "\<lambda>w'. outbox_ok H ?ct w' \<and> same_keys w0 w'"
  have row: "okey m = okey msg" if "same_keys w0 v" "outbox_ok H ?ct v" "m \<in> set (t_outbox (tabs v))" "o_ID m = o_ID msg" for m v
  proof -
    have "okey msg \<in> set (map okey (t_outbox (tabs v)))"
      using that(1) msg(1) by (auto simp: same_keys_def)
    then obtain m' where m': "m' \<in> set (t_outbox (tabs v))" "okey m' = okey msg" by auto
    with that(4) have "o_ID m' = o_ID m" by (simp add: okey_def)
    with outbox_ok_idD [OF that(2) m'(1) that(3)] m'(2) show ?thesis by simp
  qed
  have mark: "wp (case p of Inl e \<Rightarrow> do {_ \<leftarrow> markPublishFailed H wk msg e; throw e} | Inr _ \<Rightarrow> markPublished H wk (o_ID msg))
      (\<lambda>_. ?I) w2"
    if w2: "?I w2" "p = Inr () \<Longrightarrow> \<forall>m \<in> set (t_outbox (tabs w2)). o_ID m = o_ID msg \<longrightarrow> o_Status m = OutboxStatusProcessing"
      "p = Inr () \<Longrightarrow> \<forall>m. o_VideoID m = o_VideoID msg \<longrightarrow> o_CreateTime m = o_CreateTime msg \<longrightarrow> announced H (mq w2) m"
    for p :: "unit res" and w2
  proof (cases p)
    case (Inl e)
    show ?thesis
      unfolding Inl sum.case wp_simps
      by (rule wp_mono [OF markPublishFailed_keeps [OF H G _ msg(2,3)]]) (use w2(1) in \<open>auto intro: same_keys_trans\<close>)
  next
    case (Inr u)
    have "o_Status m = OutboxStatusProcessing \<and> announced H (mq w2) m"
      if m: "m \<in> set (t_outbox (tabs w2))" "o_ID m = o_ID msg" for m
      using w2(2,3) row [of w2 m] w2(1) m Inr by (auto simp: okey_def)
    then show ?thesis
      unfolding Inr sum.case
      by (intro wp_mono [OF markPublished_keeps [OF H G]]) (use w2(1) in \<open>auto intro: same_keys_trans\<close>)
  qed
  have send: "wp (TimelineMQ_Publish H (ow_timelineMQ wk) (o_VideoID msg) (o_CreateTime msg)) (\<lambda>p. wp (case p of
        Inl e \<Rightarrow> do {_ \<leftarrow> markPublishFailed H wk msg e; throw e} | Inr _ \<Rightarrow> markPublished H wk (o_ID msg)) (\<lambda>_. ?I)) w1"
    if w1: "?I w1" "won (o_ID msg) w w1" for w1
    by (rule wp_mono [OF TimelineMQ_Publish_announces [OF H q w1(1) [THEN conjunct1]]], rule mark)
      (use w1 in \<open>auto simp: won_def intro: same_keys_trans\<close>)
  have "wp (claim H wk (o_ID msg)) (\<lambda>r w1. case r of Inl e \<Rightarrow> ?I w1 | Inr claimed \<Rightarrow> if \<not> claimed then ?I w1
      else wp (TimelineMQ_Publish H (ow_timelineMQ wk) (o_VideoID msg) (o_CreateTime msg)) (\<lambda>p. wp (case p of
        Inl e \<Rightarrow> do {_ \<leftarrow> markPublishFailed H wk msg e; throw e} | Inr _ \<Rightarrow> markPublished H wk (o_ID msg)) (\<lambda>_. ?I)) w1) w"
    by (rule wp_mono [OF claim_post [OF H G inv(1)]])
      (use inv(2) send in \<open>auto intro: same_keys_trans split: sum.splits\<close>)
  then show ?thesis
    unfolding publishOne_def
    by (simp only: wp_bind wp_bindE wp_return wp_if) (use inv in auto)
qed

lemma pollOnce_keeps:
  assumes H: "host_ok H" and G: "gorm_ok (ow_db wk)" and q: "mq_ptr_ok (ow_timelineMQ wk)"
    and size: "0 < ow_batchSize wk" and inv: "outbox_ok H (db_col_time (ow_db wk)) w"
  shows "wp (pollOnce H wk) (\<lambda>_ w'. outbox_ok H (db_col_time (ow_db wk)) w' \<and> same_keys w w') w"
proof -
  let ?I = "\<lambda>w0 w'. outbox_ok H (db_col_time (ow_db wk)) w' \<and> same_keys w0 w'"
  have T: "table_ok (db_col_time (ow_db wk)) outbox_schema t_outbox t_outbox_update (db_outbox (ow_db wk))"
    using G by (simp add: gorm_ok_def Let_def)
  have batch: "wp (for_each (publishOne H wk) messages) (\<lambda>_ w'. ?I w w') w2"
    if w2: "?I w w2" and res: "query_result (\<lambda>m. o_Status m = OutboxStatusPending)
        (\<lambda>a b. o_CreateTime a \<le> o_CreateTime b) (ow_batchSize wk) (t_outbox (tabs w2)) messages" for messages w2
  proof -
    have "wp (for_each (publishOne H wk) messages) (\<lambda>_ w'. ?I w2 w') w2"
    proof (rule wp_for_each)
      fix msg w3 assume "msg \<in> set messages" and w3: "?I w2 w3"
      with query_result_set [OF res] have "msg \<in> set (t_outbox (tabs w2))" "o_Status msg = OutboxStatusPending"
        by auto
      moreover from this w2 have "outbox_row_ok msg" by (auto simp: outbox_ok_def outbox_good_def)
      ultimately show "wp (publishOne H wk msg) (\<lambda>_ w'. ?I w2 w') w3"
        by (intro publishOne_keeps [OF H G q]) (use w3 in \<open>auto simp: outbox_row_ok_def\<close>)
    qed (use w2 in \<open>simp add: same_keys_def\<close>)
    then show ?thesis by (rule wp_mono) (use w2 in \<open>auto intro: same_keys_trans\<close>)
  qed
  have query: "wp (bindE (pending_query wk) (\<lambda>messages. do {_ \<leftarrow> for_each (publishOne H wk) messages; ok ()}))
      (\<lambda>_ w'. ?I w w') w1"
    if w1: "?I w w1" for w1
    unfolding pending_query_def wp_bindE
    by (rule wp_find [OF T]) (use w1 size in \<open>auto simp: wp_simps intro!: batch dest: outbox_ok_quiet intro: same_keys_trans\<close>)
  show ?thesis
    unfolding pollOnce_def
    by (subst wp_bindE, rule wp_mono [OF resetExpiredProcessing_keeps [OF H G inv]])
      (use query in \<open>auto split: sum.splits\<close>)
qed

lemma outbox_loop_keeps:
  assumes "host_ok H" "gorm_ok (ow_db wk)" "mq_ptr_ok (ow_timelineMQ wk)" "0 < ow_batchSize wk"
    and "outbox_ok H (db_col_time (ow_db wk)) w"
  shows "wp (outbox_loop H wk waits) (\<lambda>_ w'. outbox_ok H (db_col_time (ow_db wk)) w' \<and> same_keys w w') w"
  using assms(5)
proof (induction waits arbitrary: w)
  case Nil
  then show ?case by (simp add: wp_simps same_keys_def)
next
  case (Cons wait waits)
  have "wp (outbox_loop H wk waits) (\<lambda>_ w'. outbox_ok H (db_col_time (ow_db wk)) w' \<and> same_keys w w') w1"
    if "outbox_ok H (db_col_time (ow_db wk)) w1 \<and> same_keys w w1" for w1
    by (rule wp_mono [OF Cons.IH]) (use that in \<open>auto intro: same_keys_trans\<close>)
  then show ?case
    by (simp only: outbox_loop.simps wp_bind, intro wp_mono [OF pollOnce_keeps [OF assms(1-4) Cons.prems]])
      (auto simp: wp_simps split: option.splits)
qed

section \<open>Properties\<close>

text \<open>
  C1. Whatever statements and publishes fail, before or after their effect, and however long the
  outbox worker runs: every row keeps to the states the design gives it (waiting or claimed with
  at most three failures, published with a publication time, or failed after the fourth), its
  error text fits its column, no row is lost or added or announces something else, and a row is
  marked published only if its timeline event (its video, its creation time) was handed to the
  broker.
\<close>

theorem OutboxWorker_Run_keeps_outbox:
  assumes "host_ok H" "gorm_ok (ow_db wk)" "mq_ptr_ok (ow_timelineMQ wk)"
    and "outbox_ok H (db_col_time (ow_db wk)) w"
    and "run_state (OutboxWorker_Run H wk waits) w = (r, w')"
  shows "outbox_ok H (db_col_time (ow_db wk)) w' \<and> same_keys w w'"
proof -
  have "wp (outbox_loop H (with_defaults wk) waits) (\<lambda>_ w'. outbox_ok H (db_col_time (ow_db wk)) w' \<and> same_keys w w') w"
    using outbox_loop_keeps [of H "with_defaults wk" w waits] assms
    by (simp add: with_defaults_def defaultOutboxBatchSize_def)
  then have "wp (OutboxWorker_Run H wk waits) (\<lambda>_ w'. outbox_ok H (db_col_time (ow_db wk)) w' \<and> same_keys w w') w"
    using assms(4) by (auto simp: OutboxWorker_Run_def wp_simps same_keys_def split: option.splits)
  from wp_runD [OF this assms(5)] show ?thesis .
qed

definition sample_row :: outbox_msg where
  "sample_row = \<lparr>o_ID = 1, o_VideoID = 7, o_EventType = ''video_published'', o_CreateTime = 5000000, o_Status = ''pending'',
     o_RetryCount = 0, o_LastError = '''', o_UpdatedAt = 5000000, o_PublishedAt = None\<rparr>"

definition sample_event :: "nat \<Rightarrow> timeline_event" where
  "sample_event n = \<lparr>te_EventID = hex_EncodeToString (replicate 16 (of_nat n)), te_Action = ''publish'', te_VideoID = 7,
     te_CreateTime = 5, te_OccurredAt = 1700000000000000000\<rparr>"

definition sample_host :: "ref_hid host" where
  "sample_host = ref_host [] [] [] [(sample_event 0, ''e0''), (sample_event 1, ''e1'')] [] []"

definition sample_worker :: "ref_hid outbox_worker" where
  "sample_worker = NewOutboxWorker ref_gorm (Some (Some \<lparr>Conn = True, Ch = Some (ref_channel (\<lambda>_ _. [''q'']))\<rparr>))"

text \<open>Two polls: the query of the first one fails.\<close>

definition sample_run :: "go_error option \<times> ref_world" where
  "sample_run = run_state (OutboxWorker_Run sample_host sample_worker [None, Some (ErrExternal ''ctx'')])
     (ref_start [Fine, Fails ''deadlock''] (no_tables\<lparr>t_outbox := [sample_row]\<rparr>))"

lemma sample_run_rows: "map (\<lambda>m. (o_Status m, o_RetryCount m)) (t_outbox (tabs (snd sample_run))) = [(''published'', 0)]"
  by (simp add: sample_run_def sample_worker_def NewOutboxWorker_def OutboxWorker_Run_def with_defaults_def
     pollOnce_def resetExpiredProcessing_def reset_at_def pending_query_def ref_defs bindE_def update_rows_def table_wf_def
     err_of_def sample_host_def sample_row_def outbox_status_defs defaultOutboxBatchSize_def publishOne_def claim_def
     TimelineMQ_Publish_def TimelineMQ_publish_def RandHex_def PublishJSON_def UnixMilli_def sample_event_def
     TimelineExchange_def TimelineRoutingKeyPublish_def markPublished_def markPublishFailed_def
     defaultOutboxInterval_def defaultOutboxProcessingTimeout_def Let_def)

theorem OutboxWorker_Run_keeps_outbox_witness:
  "outbox_ok sample_host ref_col_time (snd sample_run) \<and>
   map (\<lambda>m. (o_Status m, o_RetryCount m)) (t_outbox (tabs (snd sample_run))) = [(''published'', 0)]"
proof -
  let ?w = "ref_start [Fine, Fails ''deadlock''] (no_tables\<lparr>t_outbox := [sample_row]\<rparr>)"
  have "host_ok sample_host" unfolding sample_host_def by (rule ref_host_ok) auto
  moreover have "gorm_ok (ow_db sample_worker)" "db_col_time (ow_db sample_worker) = ref_col_time"
    using ref_gorm_ok by (simp_all add: sample_worker_def NewOutboxWorker_def ref_gorm_def)
  moreover have "mq_ptr_ok (ow_timelineMQ sample_worker)"
    by (simp add: sample_worker_def NewOutboxWorker_def mq_ptr_ok_def ref_channel_ok)
  moreover have "outbox_ok sample_host ref_col_time ?w"
    by (simp add: outbox_ok_def outbox_good_def outbox_row_ok_def table_wf_def ref_defs sample_row_def outbox_status_defs maxOutboxRetry_def)
  ultimately have "outbox_ok sample_host ref_col_time (snd sample_run)"
    using OutboxWorker_Run_keeps_outbox [of sample_host sample_worker ?w]
    by (simp add: sample_run_def)  (metis prod.exhaust_sel)
  with sample_run_rows show ?thesis by blast
qed

end
