(* ===== verification/Http.thy ===== *)
theory Http
  imports Redis
begin

text \<open>
  What the handlers and middlewares share: gin's request context (the values a middleware stores
  for the handlers), the accessors of \<open>internal/middleware/jwt\<close>, and what a middleware can decide.
  gin itself is not part of the sources: what it read from the request is an argument.
\<close>

datatype gin_val = GUint uint | GString string | GOther

text \<open>\<open>c.Set\<close> and \<open>c.Get\<close> on the request's keys.\<close>

type_synonym gin_ctx = "string \<rightharpoonup> gin_val"

definition GetAccountID :: "gin_ctx \<Rightarrow> uint res" where
  "GetAccountID c = (case c ''accountID'' of
     None \<Rightarrow> Inl (ErrNew ''accountID not found'')
   | Some (GUint i) \<Rightarrow> Inr i
   | Some _ \<Rightarrow> Inl (ErrNew ''accountID has invalid type''))"

definition GetUsername :: "gin_ctx \<Rightarrow> string res" where
  "GetUsername c = (case c ''username'' of
     None \<Rightarrow> Inl (ErrNew ''username not found'')
   | Some (GString s) \<Rightarrow> Inr s
   | Some _ \<Rightarrow> Inl (ErrNew ''username has invalid type''))"

text \<open>A middleware passes the request on, with the keys it has set, or aborts it.\<close>

datatype decision = Next gin_ctx | Abort nat string

text \<open>
  A handler's answer: a status with \<open>{"error": text}\<close>, or status 200 with the value it sends. What
  \<open>ShouldBindJSON\<close> made of the request's body, the struct or an error, is an argument.
\<close>

datatype 'a reply = Fail nat string | Sent 'a

definition classified :: "go_error \<Rightarrow> 'a reply" where
  "classified e = Fail (ClassifyHttpStatus (Some e)) (error_text e)"

end
