(* ===== verification/RateLimit.thy ===== *)
theory RateLimit
  imports Http Reference
begin

text \<open>
  \<open>internal/middleware/ratelimit/ratelimit.go\<close> on top of the sliding window of the Redis client:
  over any sequence of requests, of which some calls may fail, never more than the limit are
  allowed in a window, and a request is refused only when the window holds that many.
\<close>

section \<open>Definitions\<close>

definition buildKey :: "string \<Rightarrow> string \<Rightarrow> string" where
  "buildKey keyPrefix subject =
     (let p = TrimSpace keyPrefix; p = (if p = '''' then ''default'' else p)
      in ''govideo:ratelimit:'' @ p @ '':'' @ TrimSpace subject)"

text \<open>The key functions; \<open>c.ClientIP()\<close> is gin's.\<close>

definition KeyByIP :: "string \<Rightarrow> gin_ctx \<Rightarrow> string \<times> bool" where
  "KeyByIP clientIP c = (let ip = TrimSpace clientIP in if ip = '''' then ('''', False) else (ip, True))"

definition KeyByAccount :: "gin_ctx \<Rightarrow> string \<times> bool" where
  "KeyByAccount c = (case GetAccountID c of
     Inl _ \<Rightarrow> ('''', False)
   | Inr accountID \<Rightarrow> if accountID = 0 then ('''', False) else (FormatUint accountID, True))"

definition Limit :: "'x host \<Rightarrow> 'x cache \<Rightarrow> string \<Rightarrow> int \<Rightarrow> int \<Rightarrow> (gin_ctx \<Rightarrow> string \<times> bool) option
    \<Rightarrow> gin_ctx \<Rightarrow> ('x, decision) io" where
  "Limit H cache keyPrefix maxRequests window keyFunc c =
     (case keyFunc of
        None \<Rightarrow> ret (Next c)
      | Some kf \<Rightarrow>
          if cache = None \<or> maxRequests \<le> 0 \<or> window \<le> 0 then ret (Next c)
          else (case kf c of (subject, found) \<Rightarrow>
            if \<not> found then ret (Next c)
            else do {
              r \<leftarrow> SlidingWindowAllow H cache (buildKey keyPrefix subject) maxRequests window;
              (case r of (allowed, _, err) \<Rightarrow>
                 if err \<noteq> None then ret (Next c)
                 else if \<not> allowed then ret (Abort 429 ''too many requests'')
                 else ret (Next c))}))"

section \<open>The script\<close>

text \<open>What one run of the script makes of the window \<open>zs\<close> and the sequence number \<open>n\<close>.\<close>

definition pruned :: "int \<Rightarrow> int \<Rightarrow> (int \<times> string) list \<Rightarrow> (int \<times> string) list" where
  "pruned now window zs = filter (\<lambda>z. \<not> (0 \<le> fst z \<and> fst z \<le> now - window)) zs"

definition request_member :: "int \<Rightarrow> int \<Rightarrow> string" where
  "request_member now n = FormatUint (nat now) @ ''-'' @ FormatUint (nat n)"

definition window_step :: "int \<Rightarrow> int \<Rightarrow> int \<Rightarrow> (int \<times> string) list \<times> int \<Rightarrow> bool \<times> (int \<times> string) list \<times> int" where
  "window_step now window limit s = (case s of (zs, n) \<Rightarrow>
     (let zs' = pruned now window zs in
      if int (length zs') \<ge> limit then (False, zs', n)
      else (True, zadd (now, request_member now (n + 1)) zs', n + 1)))"

definition holds :: "int \<Rightarrow> redis_db \<Rightarrow> string \<Rightarrow> (int \<times> string) list \<Rightarrow> int \<Rightarrow> bool" where
  "holds now db key zs n \<longleftrightarrow> zset now db key = Some zs \<and> counter now db (key @ '':seq'') = Some n"

text \<open>Both keys are there with the same expiry.\<close>

definition stored :: "redis_db \<Rightarrow> string \<Rightarrow> (int \<times> string) list \<Rightarrow> int \<Rightarrow> int \<Rightarrow> bool" where
  "stored db key zs n e \<longleftrightarrow> db key = Some (RZSet zs, Some e) \<and> db (key @ '':seq'') = Some (RInt n, Some e)"

lemma key_seq [simp]: "key @ '':seq'' \<noteq> key" "key \<noteq> key @ '':seq''"
  by auto

lemma counter_put_zset [simp]: "k' \<noteq> k \<Longrightarrow> counter now (put_zset now k zs db) k' = counter now db k'"
  by (simp add: counter_def live_put_zset)

lemma zset_counter_upd [simp]: "k' \<noteq> k \<Longrightarrow> zset now (db(k := v)) k' = zset now db k'"
  by (simp add: zset_def live_upd)

lemma zset_live: "zset now db k = Some zs \<Longrightarrow> zs \<noteq> [] \<Longrightarrow> live now db k = Some (RZSet zs)"
  by (auto simp: zset_def split: option.splits redis_val.splits)

lemma counter_live: "counter now db k = Some n \<Longrightarrow> live now db k \<noteq> None \<Longrightarrow> live now db k = Some (RInt n)"
  by (auto simp: counter_def split: option.splits redis_val.splits)

lemma zadd_nonempty [simp]: "zadd z zs \<noteq> []"
  by (simp add: zadd_def)

lemma live_incr: "live now (db(k \<mapsto> (v, expiry now db k))) k = Some v"
  by (auto simp: live_def expiry_def split: option.splits if_splits prod.splits)

lemma script_refused:
  assumes L: "lua_ok L" and h: "holds t db key zs n" and seq: "zs \<noteq> [] \<Longrightarrow> live t db (key @ '':seq'') \<noteq> None"
    and "0 < limit" "0 < ttl" and full: "int (length (pruned now window zs)) \<ge> limit"
  shows "\<exists>db'. run_state (slidingWindowScript L key (key @ '':seq'') now window limit ttl) (db, t) =
      (LList [LInt 0, LInt (int (length (pruned now window zs)))], (db', t)) \<and>
    stored db' key (pruned now window zs) n (t + ttl)"
proof -
  let ?zs = "pruned now window zs" and ?seq = "key @ '':seq''"
  have z: "zset t db key = Some zs" and c: "counter t db ?seq = Some n" using h by (simp_all add: holds_def)
  have ne: "?zs \<noteq> []" using full assms(4) by auto
  then have "zs \<noteq> []" by (auto simp: pruned_def)
  with seq counter_live [OF c] have lseq: "live t db ?seq = Some (RInt n)" by simp
  have l1: "live t (put_zset t key ?zs db) key = Some (RZSet ?zs)" using ne by (simp add: live_put_zset)
  have l2: "live t (pexpire key ttl t (put_zset t key ?zs db)) ?seq = Some (RInt n)"
    using lseq l1 assms(5) by (simp add: pexpire_def live_upd live_put_zset)
  let ?db = "pexpire ?seq ttl t (pexpire key ttl t (put_zset t key ?zs db))"
  have "stored ?db key ?zs n (t + ttl)"
    using l1 l2 assms(5) by (simp add: stored_def pexpire_def)
  moreover have "run_state (slidingWindowScript L key ?seq now window limit ttl) (db, t) =
      (LList [LInt 0, LInt (int (length ?zs))], (?db, t))"
    using full call_ZREMRANGEBYSCORE [OF L z, of 0 "now - window"]
    by (simp add: slidingWindowScript_def pruned_def call_PEXPIRE [OF L]
        call_ZCARD [OF L, where zs = "filter (\<lambda>z. 0 \<le> fst z \<longrightarrow> \<not> fst z \<le> now - window) zs"])
  ultimately show ?thesis by blast
qed

lemma script_allowed:
  assumes L: "lua_ok L" and h: "holds t db key zs n"
    and "0 < ttl" "0 \<le> now" "now < 10 ^ 14" "0 \<le> n" "n + 1 < 10 ^ 14"
    and room: "int (length (pruned now window zs)) < limit"
  shows "\<exists>db'. run_state (slidingWindowScript L key (key @ '':seq'') now window limit ttl) (db, t) =
      (LList [LInt 1, LInt (int (length (pruned now window zs)) + 1)], (db', t)) \<and>
    stored db' key (zadd (now, request_member now (n + 1)) (pruned now window zs)) (n + 1) (t + ttl)"
proof -
  let ?zs = "pruned now window zs" and ?seq = "key @ '':seq''"
  let ?m = "request_member now (n + 1)"
  have z: "zset t db key = Some zs" and c: "counter t db ?seq = Some n" using h by (simp_all add: holds_def)
  let ?d1 = "put_zset t key ?zs db"
  let ?d2 = "?d1(?seq \<mapsto> (RInt (n + 1), expiry t ?d1 ?seq))"
  let ?d3 = "put_zset t key (zadd (now, ?m) ?zs) ?d2"
  let ?d4 = "pexpire key ttl t ?d3"
  have z2: "zset t ?d2 key = Some ?zs" and c1: "counter t ?d1 ?seq = Some n" using z c by simp_all
  have l2: "live t ?d2 ?seq = Some (RInt (n + 1))" by (rule live_incr)
  have l3: "live t ?d3 key = Some (RZSet (zadd (now, ?m) ?zs))" "live t ?d3 ?seq = Some (RInt (n + 1))"
    using l2 by (simp_all add: live_put_zset)
  have l4: "live t ?d4 ?seq = Some (RInt (n + 1))"
    using l3 assms(3) by (simp add: pexpire_def live_upd)
  have "stored (pexpire ?seq ttl t ?d4) key (zadd (now, ?m) ?zs) (n + 1) (t + ttl)"
    using l3(1) l4 assms(3) by (simp add: stored_def pexpire_def)
  moreover have "run_state (slidingWindowScript L key ?seq now window limit ttl) (db, t) =
      (LList [LInt 1, LInt (int (length ?zs) + 1)], (pexpire ?seq ttl t ?d4, t))"
    using room call_ZREMRANGEBYSCORE [OF L z, of 0 "now - window", folded pruned_def] assms(4-7)
      call_ZCARD [OF L, where zs = ?zs and db = ?d1 and k = key and now = t]
      call_INCR [OF L c1] call_ZADD [OF L z2, of now ?m]
    by (simp add: slidingWindowScript_def call_PEXPIRE [OF L] lua_tostring [OF L] request_member_def Let_def)
  ultimately show ?thesis by blast
qed

section \<open>Sequences of requests\<close>

text \<open>
  A request: the client's clock in milliseconds, Redis's clock when the call started, and whether
  it was allowed (not counting those let through because the call failed).
\<close>

type_synonym request = "int \<times> int \<times> bool"

definition counted :: "int \<Rightarrow> request list \<Rightarrow> int" where
  "counted x tr = int (length (filter (\<lambda>(n, s, a). a \<and> x < n) tr))"

definition sent :: "int \<Rightarrow> request list \<Rightarrow> int" where
  "sent x tr = int (length (filter (\<lambda>(n, s, a). x < n) tr))"

definition in_window :: "int \<Rightarrow> (int \<times> string) list \<Rightarrow> int" where
  "in_window x zs = int (length (filter (\<lambda>z. x < fst z) zs))"

definition allowed_within :: "int \<Rightarrow> int \<Rightarrow> request list \<Rightarrow> int" where
  "allowed_within window t tr = int (length (filter (\<lambda>(n, s, a). a \<and> t - window < n \<and> n \<le> t) tr))"

definition members_ok :: "int \<Rightarrow> int \<Rightarrow> (int \<times> string) list \<Rightarrow> bool" where
  "members_ok n0 k zs \<longleftrightarrow> (\<forall>z \<in> set zs. 0 \<le> fst z \<and> fst z \<le> n0 \<and>
     (\<exists>q. 0 < q \<and> q \<le> k \<and> snd z = request_member (fst z) q))"

text \<open>What the window and the sequence number have to do with the requests so far.\<close>

definition tracks :: "int \<Rightarrow> int \<Rightarrow> int \<Rightarrow> request list \<Rightarrow> (int \<times> string) list \<Rightarrow> int \<Rightarrow> bool" where
  "tracks window limit n0 tr zs k \<longleftrightarrow> members_ok n0 k zs \<and> 0 \<le> k \<and> k \<le> int (length tr) \<and>
     int (length zs) \<le> limit \<and> (\<forall>x \<ge> n0 - window. counted x tr \<le> in_window x zs) \<and>
     (\<forall>x. in_window x zs \<le> sent x tr)"

definition limiter_inv :: "string \<Rightarrow> int \<Rightarrow> int \<Rightarrow> request list \<Rightarrow> redis_db \<Rightarrow> bool" where
  "limiter_inv key window limit tr db \<longleftrightarrow>
     (\<forall>t. allowed_within window t tr \<le> limit) \<and>
     (db key = None \<and> db (key @ '':seq'') = None \<and> (\<forall>(n, s, a) \<in> set tr. \<not> a) \<or>
      (\<exists>zs k e n0 s0 a0. stored db key zs k e \<and> (n0, s0, a0) \<in> set tr \<and> e \<ge> s0 + window + 1000 \<and>
        (\<forall>(n, s, a) \<in> set tr. a \<longrightarrow> n \<le> n0) \<and> tracks window limit n0 tr zs k))"

text \<open>
  The host's clock does not go back from one request to the next, and between two requests
  Redis's clock does not run ahead of the host's by more than the second the code adds to the
  life of the keys.
\<close>

definition in_step :: "request list \<Rightarrow> int \<Rightarrow> int \<Rightarrow> bool" where
  "in_step tr now clock \<longleftrightarrow> (\<forall>(n, s, a) \<in> set tr. n \<le> now \<and> clock - s \<le> now - n + 1000)"

lemma limiter_invI:
  assumes "\<And>t. allowed_within window t tr \<le> limit" "stored db key zs k e" "(n0, s0, a0) \<in> set tr"
    and "s0 + window + 1000 \<le> e" "\<And>n s a. (n, s, a) \<in> set tr \<Longrightarrow> a \<Longrightarrow> n \<le> n0" "tracks window limit n0 tr zs k"
  shows "limiter_inv key window limit tr db"
  unfolding limiter_inv_def using assms by blast

lemma counted_none: "(\<And>n s a. (n, s, a) \<in> set tr \<Longrightarrow> a \<Longrightarrow> n \<le> x) \<Longrightarrow> counted x tr = 0"
  by (force simp: counted_def filter_empty_conv)

lemma in_step_mono: "in_step tr now c \<Longrightarrow> c' \<le> c \<Longrightarrow> in_step tr now c'"
  by (force simp: in_step_def)

text \<open>What a script that runs at \<open>t\<close> finds.\<close>

lemma limiter_view:
  assumes inv: "limiter_inv key window limit tr db" and step: "in_step tr now t" and pos: "0 < limit" "0 < window"
  shows "\<exists>zs k. holds t db key zs k \<and> (zs \<noteq> [] \<longrightarrow> live t db (key @ '':seq'') \<noteq> None) \<and>
    tracks window limit now tr zs k"
  using inv [unfolded limiter_inv_def, THEN conjunct2]
proof (elim disjE exE conjE)
  assume none: "db key = None" "db (key @ '':seq'') = None" "\<forall>(n, s, a) \<in> set tr. \<not> a"
  then have "counted x tr = 0" for x by (intro counted_none) auto
  with none pos have "holds t db key [] 0" "tracks window limit now tr [] 0"
    by (auto simp: holds_def zset_def counter_def live_def tracks_def members_ok_def in_window_def sent_def)
  then show ?thesis by (intro exI [of _ "[]"] exI [of _ 0]) simp
next
  fix zs k e n0 s0 a0
  assume st: "stored db key zs k e" and eff: "(n0, s0, a0) \<in> set tr" "e \<ge> s0 + window + 1000"
    and upto: "\<forall>(n, s, a) \<in> set tr. a \<longrightarrow> n \<le> n0" and tr: "tracks window limit n0 tr zs k"
  have n0: "n0 \<le> now" "t - s0 \<le> now - n0 + 1000" using step eff(1) by (auto simp: in_step_def)
  show ?thesis
  proof (cases "t < e")
    case True
    then have "holds t db key zs k" "live t db (key @ '':seq'') \<noteq> None"
      using st by (simp_all add: stored_def holds_def zset_def counter_def live_def)
    moreover have "tracks window limit now tr zs k"
      using tr n0(1) by (force simp: tracks_def members_ok_def)
    ultimately show ?thesis by blast
  next
    case False
    then have gone: "live t db key = None" "live t db (key @ '':seq'') = None"
      using st by (simp_all add: stored_def live_def)
    have "counted x tr = 0" if "x \<ge> now - window" for x
      using that n0 eff(2) False upto by (intro counted_none) force
    with gone pos have "holds t db key [] 0" "tracks window limit now tr [] 0"
      by (auto simp: holds_def zset_def counter_def tracks_def members_ok_def in_window_def sent_def)
    then show ?thesis by (intro exI [of _ "[]"] exI [of _ 0]) simp
  qed
qed

lemma in_window_pruned: "x \<ge> now - window \<Longrightarrow> in_window x (pruned now window zs) = in_window x zs"
  by (simp add: in_window_def pruned_def) (rule arg_cong [where f = length], rule filter_cong, auto)

lemma request_member_inj: "request_member a q = request_member a r \<Longrightarrow> 0 \<le> q \<Longrightarrow> 0 \<le> r \<Longrightarrow> q = r"
  by (auto simp: request_member_def dest: FormatUint_inj)

lemma in_window_mset: "in_window x zs = int (size (filter_mset (\<lambda>z. x < fst z) (mset zs)))"
  by (simp add: in_window_def flip: mset_filter)

lemma FormatUint_no_dash: "CHR ''-'' \<notin> set (FormatUint n)"
proof (induction n rule: FormatUint.induct)
  case (1 n)
  have "char_of (48 + d) \<noteq> CHR ''-''" if "d < 10" for d :: nat
  proof
    assume "char_of (48 + d) = CHR ''-''"
    then have "digit_val (char_of (48 + d)) = digit_val (CHR ''-'')" by (rule arg_cong)
    moreover have "digit_val (CHR ''-'') = None" by (simp add: digit_val_def)
    ultimately show False using that by simp
  qed
  from this [of n] this [of "n mod 10"] 1 show ?case by (subst FormatUint.simps) auto
qed

lemma request_member_new:
  assumes "members_ok n0 k zs" "0 \<le> k"
  shows "request_member now (k + 1) \<notin> snd ` set zs"
proof
  assume "request_member now (k + 1) \<in> snd ` set zs"
  then obtain z q where q: "0 < q" "q \<le> k" "request_member now (k + 1) = request_member (fst z) q"
    using assms(1) by (auto simp: members_ok_def)
  then have "FormatUint (nat (k + 1)) = FormatUint (nat q)"
    using FormatUint_no_dash by (simp add: request_member_def append_Cons_eq_iff)
  with FormatUint_inj have "nat (k + 1) = nat q" by blast
  with q assms(2) show False by simp
qed

lemma in_window_zadd:
  assumes "m \<notin> snd ` set zs"
  shows "in_window x (zadd (s, m) zs) = in_window x zs + (if x < s then 1 else 0)"
    "length (zadd (s, m) zs) = Suc (length zs)" "set (zadd (s, m) zs) = insert (s, m) (set zs)"
proof -
  have m: "mset (zadd (s, m) zs) = {#(s, m)#} + mset zs" by (rule mset_zadd_new [OF assms])
  show "in_window x (zadd (s, m) zs) = in_window x zs + (if x < s then 1 else 0)"
    by (simp add: in_window_mset m)
  show "length (zadd (s, m) zs) = Suc (length zs)"
    using arg_cong [OF m, of size] by (simp flip: size_mset)
  show "set (zadd (s, m) zs) = insert (s, m) (set zs)"
    using arg_cong [OF m, of set_mset] by simp
qed

lemma pruned_subset: "set (pruned now window zs) \<subseteq> set zs" "length (pruned now window zs) \<le> length zs"
  by (auto simp: pruned_def)

lemma in_window_mono: "in_window x (pruned now window zs) \<le> in_window x zs"
proof -
  have "filter (\<lambda>z. x < fst z) (pruned now window zs) = pruned now window (filter (\<lambda>z. x < fst z) zs)"
    by (simp add: pruned_def conj_commute)
  with pruned_subset(2) [of now window "filter (\<lambda>z. x < fst z) zs"] show ?thesis by (simp add: in_window_def)
qed

lemma le_add_one: "a \<le> b \<Longrightarrow> a \<le> b + (1 :: int)"
  by simp

lemma counted_append: "counted x (tr @ [(n, s, a)]) = counted x tr + (if a \<and> x < n then 1 else 0)"
  by (simp add: counted_def)

lemma sent_append: "sent x (tr @ [(n, s, a)]) = sent x tr + (if x < n then 1 else 0)"
  by (simp add: sent_def)

text \<open>One run of the script, in terms of the requests.\<close>

lemma window_step_tracks:
  assumes tr: "tracks window limit now tr zs k" and pos: "0 < limit" "0 \<le> now"
    and step: "window_step now window limit (zs, k) = (ok', zs', k')" and a: "a \<longrightarrow> ok'"
  shows "tracks window limit now (tr @ [(now, s, a)]) zs' k' \<and>
    (\<not> ok' \<longrightarrow> limit \<le> sent (now - window) tr)"
proof -
  let ?p = "pruned now window zs"
  have m: "members_ok now k ?p"
    using tr pruned_subset(1) [of now window zs] unfolding tracks_def members_ok_def by blast
  have le: "in_window x ?p \<le> sent x tr" for x
    using tr in_window_mono [of x now window zs] unfolding tracks_def by (meson order_trans)
  have ge: "counted x tr \<le> in_window x ?p" if "x \<ge> now - window" for x
    using tr in_window_pruned [OF that] that by (simp add: tracks_def)
  show ?thesis
  proof (cases "int (length ?p) \<ge> limit")
    case True
    with step a have eq: "zs' = ?p" "k' = k" "\<not> ok'" "\<not> a" by (auto simp: window_step_def Let_def)
    have "\<forall>z \<in> set ?p. now - window < fst z" using m by (auto simp: pruned_def members_ok_def)
    then have "in_window (now - window) ?p = int (length ?p)" by (simp add: in_window_def)
    with True le [of "now - window"] have "limit \<le> sent (now - window) tr" by simp
    moreover have "tracks window limit now (tr @ [(now, s, a)]) zs' k'"
      using tr m pruned_subset(2) [of now window zs] eq(4) ge le le [THEN le_add_one]
      unfolding tracks_def counted_append sent_append eq(1,2) by simp
    ultimately show ?thesis by simp
  next
    case False
    with step have eq: "zs' = zadd (now, request_member now (k + 1)) ?p" "k' = k + 1" "ok'"
      by (auto simp: window_step_def Let_def)
    have k: "0 \<le> k" "k \<le> int (length tr)" using tr by (simp_all add: tracks_def)
    have new: "request_member now (k + 1) \<notin> snd ` set ?p" by (rule request_member_new [OF m k(1)])
    have "members_ok now (k + 1) ?p" using m by (force simp: members_ok_def)
    moreover have "\<exists>q > 0. q \<le> k + 1 \<and> request_member now (k + 1) = request_member now q"
      using k(1) by (intro exI [of _ "k + 1"]) simp
    ultimately have mem: "members_ok now (k + 1) zs'"
      using pos(2) unfolding eq members_ok_def in_window_zadd(3) [OF new] by simp
    show ?thesis
      using mem k False ge ge [THEN le_add_one] le eq(2,3) pos
      unfolding tracks_def counted_append sent_append eq(1) in_window_zadd(1,2) [OF new] by simp
  qed
qed

lemma allowed_within_step:
  assumes "\<forall>t. allowed_within window t tr \<le> limit" "\<And>n s a. (n, s, a) \<in> set tr \<Longrightarrow> n \<le> now"
    and "counted (now - window) (tr @ [(now, c, a)]) \<le> limit"
  shows "allowed_within window t (tr @ [(now, c, a)]) \<le> limit"
proof (cases "now \<le> t")
  case True
  then have "allowed_within window t (tr @ [(now, c, a)]) \<le> counted (now - window) (tr @ [(now, c, a)])"
    unfolding allowed_within_def counted_def
    by (intro of_nat_mono length_filter_mono) (auto split: prod.splits)
  with assms(3) show ?thesis by simp
next
  case False
  with assms(1) show ?thesis by (simp add: allowed_within_def)
qed

text \<open>The script keeps the invariant, whether its answer arrives (\<open>a\<close> is the answer) or not.\<close>

lemma script_keeps:
  assumes L: "lua_ok L" and inv: "limiter_inv key window limit tr db" and step: "in_step tr now t"
    and pos: "0 < limit" "0 < window" "0 \<le> now" "now < 10 ^ 14" "int (length tr) + 1 < 10 ^ 14" and c: "c \<le> t"
  shows "\<exists>b n db'. run_state (slidingWindowScript L key (key @ '':seq'') now window limit (window + 1000)) (db, t) =
      (LList [LInt (if b then 1 else 0), LInt n], (db', t)) \<and>
    (\<forall>a. (a \<longrightarrow> b) \<longrightarrow> limiter_inv key window limit (tr @ [(now, c, a)]) db') \<and>
    (\<not> b \<longrightarrow> limit \<le> sent (now - window) tr)"
proof -
  obtain zs k where view: "holds t db key zs k" "zs \<noteq> [] \<longrightarrow> live t db (key @ '':seq'') \<noteq> None"
      and tr: "tracks window limit now tr zs k"
    using limiter_view [OF inv step pos(1,2)] by blast
  obtain b zs' k' where ws: "window_step now window limit (zs, k) = (b, zs', k')"
    using prod_cases3 by blast
  have k: "0 \<le> k" "k + 1 < 10 ^ 14" using tr pos(5) by (simp_all add: tracks_def)
  have "\<exists>n db'. run_state (slidingWindowScript L key (key @ '':seq'') now window limit (window + 1000)) (db, t) =
      (LList [LInt (if b then 1 else 0), LInt n], (db', t)) \<and> stored db' key zs' k' (t + (window + 1000))"
  proof (cases "int (length (pruned now window zs)) \<ge> limit")
    case True
    with script_refused [OF L view(1) _ pos(1) _ True, of "window + 1000"] view(2) pos(2) ws show ?thesis
      by (fastforce simp: window_step_def Let_def)
  next
    case False
    with script_allowed [OF L view(1) _ pos(3,4) k, of "window + 1000" window limit] pos(2) ws show ?thesis
      by (fastforce simp: window_step_def Let_def)
  qed
  then obtain n db' where run: "run_state (slidingWindowScript L key (key @ '':seq'') now window limit (window + 1000)) (db, t) =
      (LList [LInt (if b then 1 else 0), LInt n], (db', t))" and st: "stored db' key zs' k' (t + (window + 1000))"
    by blast
  have "limiter_inv key window limit (tr @ [(now, c, a)]) db'" if a: "a \<longrightarrow> b" for a
  proof -
    from window_step_tracks [OF tr pos(1,3) ws a] have t': "tracks window limit now (tr @ [(now, c, a)]) zs' k'" by blast
    then have "counted (now - window) (tr @ [(now, c, a)]) \<le> in_window (now - window) zs'" "int (length zs') \<le> limit"
      by (simp_all add: tracks_def)
    moreover have "in_window (now - window) zs' \<le> int (length zs')" by (simp add: in_window_def)
    ultimately have "counted (now - window) (tr @ [(now, c, a)]) \<le> limit" by linarith
    with inv step have "allowed_within window u (tr @ [(now, c, a)]) \<le> limit" for u
      by (intro allowed_within_step) (auto simp: limiter_inv_def in_step_def)
    moreover have "\<forall>(n, s, a) \<in> set (tr @ [(now, c, a)]). a \<longrightarrow> n \<le> now" using step by (auto simp: in_step_def)
    ultimately show ?thesis
      using st t' c by (intro limiter_invI [where ?n0.0 = now and ?s0.0 = c and ?a0.0 = a]) auto
  qed
  moreover have "\<not> b \<longrightarrow> limit \<le> sent (now - window) tr"
    using window_step_tracks [OF tr pos(1,3) ws, of False] by blast
  ultimately show ?thesis using run by blast
qed

lemma limiter_inv_lost:
  assumes inv: "limiter_inv key window limit tr db"
  shows "limiter_inv key window limit (tr @ [(now, c, False)]) db"
proof -
  have within: "allowed_within window t (tr @ [(now, c, False)]) \<le> limit" for t
    using inv by (simp add: limiter_inv_def allowed_within_def)
  show ?thesis
    using inv [unfolded limiter_inv_def, THEN conjunct2]
  proof (elim disjE exE conjE)
    assume "db key = None" "db (key @ '':seq'') = None" "\<forall>(n, s, a) \<in> set tr. \<not> a"
    with within show ?thesis by (simp add: limiter_inv_def)
  next
    fix zs k e n0 s0 a0
    assume st: "stored db key zs k e" "(n0, s0, a0) \<in> set tr" "e \<ge> s0 + window + 1000"
      and upto: "\<forall>(n, s, a) \<in> set tr. a \<longrightarrow> n \<le> n0" and tr: "tracks window limit n0 tr zs k"
    have "tracks window limit n0 (tr @ [(now, c, False)]) zs k"
      using tr unfolding tracks_def counted_append sent_append by (auto intro: le_add_one)
    with within st upto show ?thesis by (intro limiter_invI [where ?n0.0 = n0 and ?s0.0 = s0 and ?a0.0 = a0]) auto
  qed
qed

lemma milliseconds_plus_second: "milliseconds (window + 10 ^ 9) = milliseconds window + 1000"
  by (simp add: milliseconds_def)

lemma slidingWindowAllowAt_keeps:
  assumes R: "redis_ok R" "rdb_of c = Some R" and args: "key \<noteq> ''''" "0 < limit" "0 < milliseconds window"
    and inv: "limiter_inv key (milliseconds window) limit tr (rds w)"
    and now: "0 \<le> UnixMilli now" "UnixMilli now < 10 ^ 14" "int (length tr) + 1 < 10 ^ 14"
  shows "wp (slidingWindowAllowAt c key limit window now) (\<lambda>(allowed, cnt, err) w'.
    in_step tr (UnixMilli now) (rclock w') \<longrightarrow>
      limiter_inv key (milliseconds window) limit (tr @ [(UnixMilli now, rclock w, allowed \<and> err = None)]) (rds w') \<and>
      (\<not> allowed \<longrightarrow> limit \<le> sent (UnixMilli now - milliseconds window) tr)) w"
proof -
  let ?W = "milliseconds window" and ?n = "UnixMilli now"
  let ?script = "slidingWindowScript (rdb_lua R) key (key @ '':seq'') ?n ?W limit (?W + 1000)"
  let ?Q = "\<lambda>(allowed, cnt, err) w'. in_step tr ?n (rclock w') \<longrightarrow>
      limiter_inv key ?W limit (tr @ [(?n, rclock w, allowed \<and> err = None)]) (rds w') \<and>
      (\<not> allowed \<longrightarrow> limit \<le> sent (?n - ?W) tr)"
  have "0 < window" using args(3) by (simp add: milliseconds_def pos_imp_zdiv_pos_iff)
  have L: "lua_ok (rdb_lua R)" and call: "call_ok (run_script ?script) (rdb_Run R ?script)"
    using R(1) by (simp_all add: redis_ok_def)
  have "wp (rdb_Run R ?script) (\<lambda>res. ?Q (window_answer res)) w"
  proof (rule wp_call [OF call])
    fix r w' assume post: "call_post (run_script ?script) w r w'"
    have "?Q (window_answer r) w'" if step: "in_step tr ?n (rclock w')"
    proof -
      from post obtain t where t: "rclock w \<le> t" "t \<le> rclock w'"
        and eff: "(r, rds w') = run_script ?script t (rds w) \<or>
          (\<exists>s. r = Inl (ErrExternal s) \<and> (rds w' = rds w \<or> rds w' = snd (run_script ?script t (rds w))))"
        by (auto simp: call_post_def)
      from script_keeps [OF L inv in_step_mono [OF step t(2)] args(2,3) now t(1)]
      obtain b n db' where run: "run_state ?script (rds w, t) = (LList [LInt (if b then 1 else 0), LInt n], (db', t))"
        and keeps: "\<And>a. (a \<longrightarrow> b) \<Longrightarrow> limiter_inv key ?W limit (tr @ [(?n, rclock w, a)]) db'"
        and full: "\<not> b \<longrightarrow> limit \<le> sent (?n - ?W) tr"
        by blast
      from run have script: "run_script ?script t (rds w) = (Inr (LList [LInt (if b then 1 else 0), LInt n]), db')"
        by (simp add: run_script_def)
      from eff script keeps [of b] keeps [of False] full limiter_inv_lost [OF inv, of ?n "rclock w"] show ?thesis
        by (auto simp: window_answer_def)
    qed
    then show "?Q (window_answer r) w'" by (auto split: prod.splits)
  qed
  with R(2) args(1,2) \<open>0 < window\<close> show ?thesis
    by (simp only: slidingWindowAllowAt_def Let_def milliseconds_plus_second) (simp add: wp_simps)
qed

text \<open>
  All the histories of one key: requests through \<open>slidingWindowAllowAt\<close>, from any host, and in
  between anything else that leaves the two keys of the limiter alone.
\<close>

inductive requests :: "'x cache \<Rightarrow> string \<Rightarrow> int \<Rightarrow> int \<Rightarrow> request list \<Rightarrow> 'x world \<Rightarrow> bool"
  for c key limit window where
  fresh: "rds w key = None \<Longrightarrow> rds w (key @ '':seq'') = None \<Longrightarrow> requests c key limit window [] w"
| other: "requests c key limit window tr w \<Longrightarrow> rds w' key = rds w key \<Longrightarrow>
    rds w' (key @ '':seq'') = rds w (key @ '':seq'') \<Longrightarrow> requests c key limit window tr w'"
| request: "requests c key limit window tr w \<Longrightarrow>
    run_state (slidingWindowAllowAt c key limit window now) w = ((allowed, cnt, err), w') \<Longrightarrow>
    0 \<le> UnixMilli now \<Longrightarrow> UnixMilli now < 10 ^ 14 \<Longrightarrow> in_step tr (UnixMilli now) (rclock w') \<Longrightarrow>
    requests c key limit window (tr @ [(UnixMilli now, rclock w, allowed \<and> err = None)]) w'"

lemma limiter_inv_cong:
  "db' key = db key \<Longrightarrow> db' (key @ '':seq'') = db (key @ '':seq'') \<Longrightarrow>
   limiter_inv key window limit tr db \<Longrightarrow> limiter_inv key window limit tr db'"
  by (simp add: limiter_inv_def stored_def)

lemma requests_inv:
  assumes "requests c key limit window tr w" "redis_ok R" "rdb_of c = Some R" "key \<noteq> ''''" "0 < limit"
    and "0 < milliseconds window" "int (length tr) < 10 ^ 14"
  shows "limiter_inv key (milliseconds window) limit tr (rds w)"
  using assms
proof (induction rule: requests.induct)
  case (fresh w)
  then show ?case by (simp add: limiter_inv_def allowed_within_def)
next
  case (other tr w w')
  then show ?case by (auto intro: limiter_inv_cong [of "rds w'" key "rds w"])
next
  case (request tr w now allowed cnt err w')
  then have "limiter_inv key (milliseconds window) limit tr (rds w)" by simp
  from wp_runD [OF slidingWindowAllowAt_keeps [OF request.prems(1-5) this request.hyps(3,4)] request.hyps(2)]
    request.prems(6) request.hyps(5)
  show ?case by simp
qed

section \<open>Properties\<close>



text \<open>Two requests at the same moment under a limit of one.\<close>

definition limit_world :: ref_world where
  "limit_world = ref_start [] no_tables"

definition first_request :: "(bool \<times> int \<times> go_error option) \<times> ref_world" where
  "first_request = run_state (slidingWindowAllowAt ref_cache ''k'' 1 60000000000 1700000000000000000) limit_world"

definition second_request :: "(bool \<times> int \<times> go_error option) \<times> ref_world" where
  "second_request = run_state (slidingWindowAllowAt ref_cache ''k'' 1 60000000000 1700000000000000000) (snd first_request)"

lemmas limit_example_defs = limit_world_def first_request_def second_request_def slidingWindowAllowAt_def
  slidingWindowScript_def run_script_def zset_def live_def counter_def put_zset_def zadd_def zscore_def pexpire_def
  expiry_def milliseconds_def UnixMilli_def window_answer_def

lemma limit_example: "fst first_request = (True, 1, None)" "fst second_request = (False, 1, None)"
  "rclock (snd first_request) = 0" "rclock (snd second_request) = 0"
  by (simp_all add: limit_example_defs ref_defs Let_def)

abbreviation example_history :: "request list" where
  "example_history \<equiv> [(1700000000000, 0, True)]"

lemma example_requests:
  "requests ref_cache ''k'' 1 60000000000 example_history (snd first_request)"
proof -
  have "requests ref_cache ''k'' 1 60000000000 [] limit_world"
    by (rule fresh) (simp_all add: limit_world_def ref_start_def)
  moreover have "run_state (slidingWindowAllowAt ref_cache ''k'' 1 60000000000 1700000000000000000) limit_world =
      ((True, 1, None), snd first_request)"
    using limit_example(1) by (simp add: first_request_def prod_eq_iff)
  ultimately show ?thesis
    using request [of ref_cache "''k''" 1 60000000000 "[]" limit_world 1700000000000000000 True 1 None "snd first_request"]
    by (simp add: UnixMilli_def in_step_def limit_world_def ref_start_def)
qed



end
