(* ===== verification/Video.thy ===== *)
theory Video
  imports Http Reference
begin

text \<open>
  \<open>internal/api/video\<close>: the repository, the service (publishing a video with its outbox message and
  its tags in one transaction, and the detail page behind a cache) and the per-minute popularity
  sets in Redis.
\<close>

section \<open>repo.go\<close>

definition ListByAuthorID :: "'x gorm \<Rightarrow> uint \<Rightarrow> ('x, video list res) io" where
  "ListByAuthorID db authorID = db_find (db_videos db) (\<lambda>v. v_AuthorID v = authorID)
     (\<lambda>a b. v_CreateTime b \<le> v_CreateTime a) 200"

definition VideoRepo_FindByID :: "'x gorm \<Rightarrow> uint \<Rightarrow> ('x, video res) io" where
  "VideoRepo_FindByID db i = db_first (db_videos db) (\<lambda>v. v_ID v = i)"

definition IsExist :: "'x gorm \<Rightarrow> uint \<Rightarrow> ('x, bool res) io" where
  "IsExist db i = do {
     r \<leftarrow> db_first (db_videos db) (\<lambda>v. v_ID v = i);
     (case r of
        Inl err \<Rightarrow> if err = ErrRecordNotFound then ok False else throw err
      | Inr _ \<Rightarrow> ok True)}"

definition ChangeLikesCount :: "'x gorm \<Rightarrow> uint \<Rightarrow> int \<Rightarrow> ('x, unit res) io" where
  "ChangeLikesCount db i change = bindE (db_updates (db_videos db) (\<lambda>v. v_ID v = i)
     (\<lambda>v. v\<lparr>v_LikesCount := max (v_LikesCount v + change) 0\<rparr>)) (\<lambda>_. ok ())"

definition ChangePopularity :: "'x gorm \<Rightarrow> uint \<Rightarrow> int \<Rightarrow> ('x, unit res) io" where
  "ChangePopularity db i change = bindE (db_updates (db_videos db) (\<lambda>v. v_ID v = i)
     (\<lambda>v. v\<lparr>v_Popularity := max (v_Popularity v + change) 0\<rparr>)) (\<lambda>_. ok ())"

definition CountByAuthorID :: "'x gorm \<Rightarrow> uint \<Rightarrow> ('x, int res) io" where
  "CountByAuthorID db authorID = bindE (db_count (db_videos db) (\<lambda>v. v_AuthorID v = authorID)) ok"

definition TotalLikesByAuthorID :: "'x gorm \<Rightarrow> uint \<Rightarrow> ('x, int res) io" where
  "TotalLikesByAuthorID db authorID = bindE (db_sum_likes db (\<lambda>v. v_AuthorID v = authorID)) ok"

section \<open>popularity\_cache.go\<close>

text \<open>\<open>time.Time.Format\<close> in UTC with the layout \<open>200601021504\<close>, from the proleptic Gregorian calendar.\<close>

definition civil :: "int \<Rightarrow> int \<times> int \<times> int" where
  "civil days = (let z = days + 719468; era = z div 146097; doe = z mod 146097;
     yoe = (doe - doe div 1460 + doe div 36524 - doe div 146096) div 365;
     doy = doe - (365 * yoe + yoe div 4 - yoe div 100); mp = (5 * doy + 2) div 153;
     d = doy - (153 * mp + 2) div 5 + 1; m = (if mp < 10 then mp + 3 else mp - 9)
     in (yoe + era * 400 + (if m \<le> 2 then 1 else 0), m, d))"

definition padded :: "nat \<Rightarrow> int \<Rightarrow> string" where
  "padded n x = (let s = FormatUint (nat x) in replicate (n - length s) (CHR ''0'') @ s)"

definition format_minute :: "time \<Rightarrow> string" where
  "format_minute t = (let s = t div 10 ^ 9; (y, m, d) = civil (s div 86400) in
     padded 4 y @ padded 2 m @ padded 2 d @ padded 2 (s mod 86400 div 3600) @ padded 2 (s mod 3600 div 60))"

definition Truncate_minute :: "time \<Rightarrow> time" where
  "Truncate_minute t = t div (60 * 10 ^ 9) * (60 * 10 ^ 9)"

definition detail_key :: "'x cache \<Rightarrow> uint \<Rightarrow> string" where
  "detail_key cache i = Key cache (''video:detail:id='' @ FormatUint i)"

definition window_key :: "'x cache \<Rightarrow> time \<Rightarrow> string" where
  "window_key cache t = Key cache (''hot:video:1m:'' @ format_minute t)"

definition UpdatePopularityCache :: "'x host \<Rightarrow> 'x cache \<Rightarrow> uint \<Rightarrow> int \<Rightarrow> ('x, unit) io" where
  "UpdatePopularityCache H cache i change =
     (if cache = None \<or> i = 0 \<or> change = 0 then ret ()
      else do {
        _ \<leftarrow> Client_Delete cache (detail_key cache i);
        t \<leftarrow> time_Now H;
        (let windowKey = window_key cache (Truncate_minute t);
             member = FormatUint i in do {
          _ \<leftarrow> ZIncrBy cache windowKey member change;
          _ \<leftarrow> Client_Expire cache windowKey (2 * 3600 * 10 ^ 9);
          ret ()})})"

section \<open>Tags\<close>

text \<open>
  \<open>extractTags\<close> searches for a hash sign followed by letters, digits and underscores of any
  script. The text is split into its UTF-8 encoded runes; whether a rune is in the class
  \<open>[\p{L}\p{N}_]\<close> is decided by Unicode's tables, a parameter.
\<close>

definition byte :: "char \<Rightarrow> nat" where
  "byte c = of_char c"

definition continues :: "nat \<Rightarrow> string \<Rightarrow> bool" where
  "continues lead cs \<longleftrightarrow> (\<forall>c \<in> set cs. 0x80 \<le> byte c \<and> byte c \<le> 0xBF) \<and>
     (case cs of [] \<Rightarrow> True | c # _ \<Rightarrow>
        (lead = 0xE0 \<longrightarrow> 0xA0 \<le> byte c) \<and> (lead = 0xED \<longrightarrow> byte c \<le> 0x9F) \<and>
        (lead = 0xF0 \<longrightarrow> 0x90 \<le> byte c) \<and> (lead = 0xF4 \<longrightarrow> byte c \<le> 0x8F))"

definition rune_length :: "string \<Rightarrow> nat" where
  "rune_length s = (case s of [] \<Rightarrow> 0 | c # cs \<Rightarrow>
     (let b = byte c;
          n = (if 0xC2 \<le> b \<and> b \<le> 0xDF then 2 else if 0xE0 \<le> b \<and> b \<le> 0xEF then 3
               else if 0xF0 \<le> b \<and> b \<le> 0xF4 then 4 else 1)
      in if n - 1 \<le> length cs \<and> continues b (take (n - 1) cs) then n else 1))"

function utf8_runes :: "string \<Rightarrow> string list" where
  "utf8_runes [] = []"
| "utf8_runes (c # cs) = (let n = rune_length (c # cs) in take n (c # cs) # utf8_runes (drop n (c # cs)))"
  by pat_completeness auto

lemma rune_length_pos: "0 < rune_length (c # cs)"
  by (auto simp: rune_length_def Let_def)

termination utf8_runes
  by (relation "measure length") (use rune_length_pos in \<open>auto simp: Suc_le_eq\<close>)

function find_tags :: "(string \<Rightarrow> bool) \<Rightarrow> string list \<Rightarrow> string list" where
  "find_tags cls [] = []"
| "find_tags cls (r # rs) =
     (if r = ''#'' \<and> takeWhile cls rs \<noteq> [] then concat (takeWhile cls rs) # find_tags cls (dropWhile cls rs)
      else find_tags cls rs)"
  by pat_completeness auto
termination find_tags
  by (relation "measure (\<lambda>(cls, rs). length rs)") (auto simp: length_dropWhile_le le_imp_less_Suc)

text \<open>The loop over the matches with its map \<open>seen\<close>.\<close>

fun unseen :: "string set \<Rightarrow> string list \<Rightarrow> string list" where
  "unseen seen [] = []"
| "unseen seen (t # ts) = (if t \<in> seen then unseen seen ts else t # unseen (insert t seen) ts)"

definition extractTags :: "(string \<Rightarrow> bool) \<Rightarrow> string \<Rightarrow> string list" where
  "extractTags cls text = unseen {} (find_tags cls (utf8_runes text))"

section \<open>service.go: Publish\<close>

record 'x video_service =
  vs_videoRepo :: "'x gorm"
  vs_cache :: "'x cache"
  vs_cacheTTL :: int

definition NewVideoService :: "'x gorm \<Rightarrow> 'x cache \<Rightarrow> 'x video_service" where
  "NewVideoService videoRepo cache = \<lparr>vs_videoRepo = videoRepo, vs_cache = cache, vs_cacheTTL = 5 * 60 * 10 ^ 9\<rparr>"

definition FirstOrCreate_tag :: "'x gorm \<Rightarrow> string \<Rightarrow> ('x, tag res) io" where
  "FirstOrCreate_tag db tagName = do {
     r \<leftarrow> db_first (db_tags db) (\<lambda>t. tg_Name t = tagName);
     (case r of
        Inl err \<Rightarrow> if err = ErrRecordNotFound then db_create (db_tags db) \<lparr>tg_ID = 0, tg_Name = tagName\<rparr> else throw err
      | Inr t \<Rightarrow> ok t)}"

definition publish_tag :: "'x gorm \<Rightarrow> uint \<Rightarrow> string \<Rightarrow> ('x, unit res) io" where
  "publish_tag db videoID tagName =
     bindE (FirstOrCreate_tag db tagName) (\<lambda>t.
     bindE (db_create (db_video_tags db) \<lparr>vt_ID = 0, vt_VideoID = videoID, vt_TagID = tg_ID t\<rparr>) (\<lambda>_. ok ()))"

definition new_outbox_msg :: "video \<Rightarrow> outbox_msg" where
  "new_outbox_msg v = \<lparr>o_ID = 0, o_VideoID = v_ID v, o_EventType = ''video_published'', o_CreateTime = v_CreateTime v,
     o_Status = ''pending'', o_RetryCount = 0, o_LastError = '''', o_UpdatedAt = time_zero, o_PublishedAt = None\<rparr>"

definition trimmed_video :: "video \<Rightarrow> video" where
  "trimmed_video v = v\<lparr>v_Title := TrimSpace (v_Title v), v_PlayURL := TrimSpace (v_PlayURL v),
     v_CoverURL := TrimSpace (v_CoverURL v)\<rparr>"

definition publish_body :: "(string \<Rightarrow> bool) \<Rightarrow> 'x gorm \<Rightarrow> video \<Rightarrow> ('x, unit res) io" where
  "publish_body cls db video =
     bindE (db_create (db_videos db) video) (\<lambda>v.
     bindE (db_create (db_outbox db) (new_outbox_msg v)) (\<lambda>_.
     for_eachE (publish_tag db (v_ID v)) (extractTags cls (v_Title v @ '' '' @ v_Description v))))"

definition VideoService_Publish :: "(string \<Rightarrow> bool) \<Rightarrow> 'x video_service \<Rightarrow> video option \<Rightarrow> ('x, unit res) io" where
  "VideoService_Publish cls s video = (case video of
     None \<Rightarrow> throw (ErrNew ''video is nil'')
   | Some v0 \<Rightarrow> (let v = trimmed_video v0 in
       if v_Title v = '''' then throw (ErrNew ''title is required'')
       else if v_PlayURL v = '''' then throw (ErrNew ''play_url is required'')
       else if v_CoverURL v = '''' then throw (ErrNew ''cover url is required'')
       else db_transaction (vs_videoRepo s) (publish_body cls (vs_videoRepo s) v)))"

definition VideoService_ListByAuthorID :: "'x video_service \<Rightarrow> uint \<Rightarrow> ('x, video list res) io" where
  "VideoService_ListByAuthorID s authorID = ListByAuthorID (vs_videoRepo s) authorID"

section \<open>Publishing is atomic\<close>

text \<open>The tables other than the videos, the outbox and the tags.\<close>

definition publish_frame :: "tables \<Rightarrow> tables \<Rightarrow> bool" where
  "publish_frame t t' \<longleftrightarrow> t_accounts t' = t_accounts t \<and> t_likes t' = t_likes t \<and> t_comments t' = t_comments t \<and>
     t_socials t' = t_socials t \<and> t_messages t' = t_messages t \<and> t_notifications t' = t_notifications t"

definition tags_of :: "tables \<Rightarrow> uint \<Rightarrow> string list \<Rightarrow> video_tag list \<Rightarrow> bool" where
  "tags_of t i ts ns \<longleftrightarrow> list_all2 (\<lambda>n x. vt_VideoID x = i \<and> (\<exists>g \<in> set (t_tags t). tg_ID g = vt_TagID x \<and> tg_Name g = n)) ts ns"

text \<open>
  One more video with a fresh identifier; one more outbox message, pending, for that video and its
  creation time; one more row for each of the tags of its text, and nothing else.
\<close>

definition published :: "(time \<Rightarrow> time) \<Rightarrow> string list \<Rightarrow> video \<Rightarrow> tables \<Rightarrow> tables \<Rightarrow> bool" where
  "published ct ts v t t' \<longleftrightarrow> (\<exists>v' m ns. publish_frame t t' \<and>
     t_videos t' = t_videos t @ [v'] \<and> v_ID v' \<noteq> 0 \<and> v_ID v' \<notin> v_ID ` set (t_videos t) \<and>
     v\<lparr>v_ID := v_ID v', v_CreateTime := v_CreateTime v'\<rparr> = v' \<and>
     t_outbox t' = t_outbox t @ [m] \<and> o_ID m \<noteq> 0 \<and> o_ID m \<notin> o_ID ` set (t_outbox t) \<and>
     o_VideoID m = v_ID v' \<and> o_CreateTime m = v_CreateTime v' \<and> o_Status m = ''pending'' \<and> o_RetryCount m = 0 \<and>
     o_LastError m = '''' \<and> o_PublishedAt m = None \<and> ct (o_CreateTime m) = o_CreateTime m \<and>
     set (t_tags t) \<subseteq> set (t_tags t') \<and> t_video_tags t' = t_video_tags t @ ns \<and> tags_of t' (v_ID v') ts ns)"

definition tagging :: "tables \<Rightarrow> uint \<Rightarrow> string list \<Rightarrow> tables \<Rightarrow> bool" where
  "tagging t i ts t' \<longleftrightarrow> publish_frame t t' \<and> t_videos t' = t_videos t \<and> t_outbox t' = t_outbox t \<and>
     set (t_tags t) \<subseteq> set (t_tags t') \<and> (\<exists>ns. t_video_tags t' = t_video_tags t @ ns \<and> tags_of t' i ts ns)"

lemma publish_frame_refl [simp]: "publish_frame t t"
  by (simp add: publish_frame_def)

lemma tags_of_mono: "tags_of t i ts ns \<Longrightarrow> set (t_tags t) \<subseteq> set (t_tags t') \<Longrightarrow> tags_of t' i ts ns"
  unfolding tags_of_def by (erule list_all2_mono) auto

lemma FirstOrCreate_tag_post:
  assumes G: "gorm_ok G" and inv: "tagging t i ts (tabs w)"
  shows "wp (FirstOrCreate_tag G n) (\<lambda>r w'. sql_frame w w' \<and> (\<forall>g. r = Inr g \<longrightarrow> tagging t i ts (tabs w') \<and>
    tg_Name g = n \<and> (\<exists>h \<in> set (t_tags (tabs w')). tg_ID h = tg_ID g \<and> tg_Name h = n))) w"
proof -
  have create: "wp (db_create (db_tags G) \<lparr>tg_ID = 0, tg_Name = n\<rparr>) (\<lambda>r w'. sql_frame w w' \<and> (\<forall>g. r = Inr g \<longrightarrow>
      tagging t i ts (tabs w') \<and> tg_Name g = n \<and> (\<exists>h \<in> set (t_tags (tabs w')). tg_ID h = tg_ID g \<and> tg_Name h = n))) w1"
    if q: "quiet w w1" for w1
  proof (rule wp_create [OF tags_ok [OF G]])
    fix r w' assume f: "sql_frame w1 w'" and post: "create_post (db_col_time G) tag_schema t_tags t_tags_update
      \<lparr>tg_ID = 0, tg_Name = n\<rparr> (tabs w1) r (tabs w')"
    have "sql_frame w w'" using q f by (auto intro: sql_frame_trans)
    moreover have "tagging t i ts (tabs w') \<and> tg_Name g = n \<and> (\<exists>h \<in> set (t_tags (tabs w')). tg_ID h = tg_ID g \<and> tg_Name h = n)"
      if "r = Inr g" for g
    proof -
      from q have "tabs w1 = tabs w" by auto
      with post that obtain rs' where ins: "inserted (db_col_time G) tag_schema (t_tags (tabs w)) \<lparr>tg_ID = 0, tg_Name = n\<rparr> rs' g"
          and t': "tabs w' = t_tags_update (\<lambda>_. rs') (tabs w)"
        by (auto simp: create_post_def)
      then show ?thesis
        using inv by (auto simp: inserted_def tag_schema_def tagging_def publish_frame_def elim!: tags_of_mono)
    qed
    ultimately show "sql_frame w w' \<and> (\<forall>g. r = Inr g \<longrightarrow>
      tagging t i ts (tabs w') \<and> tg_Name g = n \<and> (\<exists>h \<in> set (t_tags (tabs w')). tg_ID h = tg_ID g \<and> tg_Name h = n))" by blast
  qed (simp add: tag_schema_def)
  show ?thesis
    unfolding FirstOrCreate_tag_def wp_simps
    by (rule wp_first [OF tags_ok [OF G]]) (use inv create in \<open>auto simp: quiet_iff\<close>)
qed

lemma publish_tag_post:
  assumes G: "gorm_ok G" and inv: "tagging t i ts (tabs w)"
  shows "wp (publish_tag G i n) (\<lambda>r w'. sql_frame w w' \<and> (r = Inr () \<longrightarrow> tagging t i (ts @ [n]) (tabs w'))) w"
proof -
  have create: "wp (db_create (db_video_tags G) \<lparr>vt_ID = 0, vt_VideoID = i, vt_TagID = tg_ID g\<rparr>)
      (\<lambda>r w'. sql_frame w w' \<and> (\<forall>x. r = Inr x \<longrightarrow> tagging t i (ts @ [n]) (tabs w'))) w1"
    if w1: "sql_frame w w1" "tagging t i ts (tabs w1)" "\<exists>h \<in> set (t_tags (tabs w1)). tg_ID h = tg_ID g \<and> tg_Name h = n" for g w1
  proof (rule wp_create [OF video_tags_ok [OF G]])
    fix r w' assume f: "sql_frame w1 w'" and post: "create_post (db_col_time G) video_tag_schema t_video_tags
      t_video_tags_update \<lparr>vt_ID = 0, vt_VideoID = i, vt_TagID = tg_ID g\<rparr> (tabs w1) r (tabs w')"
    have "tagging t i (ts @ [n]) (tabs w')" if r: "r = Inr x" for x
    proof -
      from post r obtain j where j: "tabs w' = t_video_tags_update
          (\<lambda>_. t_video_tags (tabs w1) @ [\<lparr>vt_ID = j, vt_VideoID = i, vt_TagID = tg_ID g\<rparr>]) (tabs w1)"
        by (auto simp: create_post_def inserted_def video_tag_schema_def)
      from w1(2) obtain ns where ns: "t_video_tags (tabs w1) = t_video_tags t @ ns" "tags_of (tabs w1) i ts ns"
        by (auto simp: tagging_def)
      from ns(2) w1(3) have "tags_of (tabs w') i (ts @ [n]) (ns @ [\<lparr>vt_ID = j, vt_VideoID = i, vt_TagID = tg_ID g\<rparr>])"
        by (auto simp: tags_of_def j intro!: list_all2_appendI)
      with w1(2) j ns(1) show ?thesis by (auto simp: tagging_def publish_frame_def)
    qed
    with w1(1) f show "sql_frame w w' \<and> (\<forall>x. r = Inr x \<longrightarrow> tagging t i (ts @ [n]) (tabs w'))"
      by (auto intro: sql_frame_trans)
  qed (simp add: video_tag_schema_def)
  show ?thesis
    unfolding publish_tag_def
    by (subst wp_bindE, rule wp_mono [OF FirstOrCreate_tag_post [OF G inv]])
      (auto simp: wp_simps split: sum.splits intro!: wp_mono [OF create])
qed

lemma publish_tags_post:
  assumes G: "gorm_ok G"
  shows "wp (for_eachE (publish_tag G i) ts) (\<lambda>r w'. sql_frame w w' \<and> (r = Inr () \<longrightarrow> tagging (tabs w) i ts (tabs w'))) w"
proof (rule wp_for_eachE [where I = "\<lambda>ys w'. sql_frame w w' \<and> tagging (tabs w) i ys (tabs w')"])
  fix ys n zs w1 assume "sql_frame w w1 \<and> tagging (tabs w) i ys (tabs w1)"
  then show "wp (publish_tag G i n) (\<lambda>r w'. case r of Inl e \<Rightarrow> sql_frame w w' \<and> (Inl e = Inr () \<longrightarrow> tagging (tabs w) i ts (tabs w'))
      | Inr _ \<Rightarrow> sql_frame w w' \<and> tagging (tabs w) i (ys @ [n]) (tabs w')) w1"
    by (intro wp_mono [OF publish_tag_post [OF G]]) (auto split: sum.splits intro: sql_frame_trans)
qed (auto simp: tagging_def tags_of_def)

text \<open>The two inserts before the tags.\<close>

definition half_published :: "(time \<Rightarrow> time) \<Rightarrow> video \<Rightarrow> tables \<Rightarrow> uint \<Rightarrow> tables \<Rightarrow> bool" where
  "half_published ct v t i t' \<longleftrightarrow> (\<exists>v' m. publish_frame t t' \<and> t_tags t' = t_tags t \<and> t_video_tags t' = t_video_tags t \<and>
     t_videos t' = t_videos t @ [v'] \<and> i = v_ID v' \<and> v_ID v' \<noteq> 0 \<and> v_ID v' \<notin> v_ID ` set (t_videos t) \<and>
     v\<lparr>v_ID := v_ID v', v_CreateTime := v_CreateTime v'\<rparr> = v' \<and>
     t_outbox t' = t_outbox t @ [m] \<and> o_ID m \<noteq> 0 \<and> o_ID m \<notin> o_ID ` set (t_outbox t) \<and>
     o_VideoID m = v_ID v' \<and> o_CreateTime m = v_CreateTime v' \<and> o_Status m = ''pending'' \<and> o_RetryCount m = 0 \<and>
     o_LastError m = '''' \<and> o_PublishedAt m = None \<and> ct (o_CreateTime m) = o_CreateTime m)"

lemma half_published_tagging: "half_published ct v t i t1 \<Longrightarrow> tagging t1 i ts t2 \<Longrightarrow> published ct ts v t t2"
  unfolding half_published_def tagging_def published_def publish_frame_def by auto

lemma create_video_outbox:
  assumes G: "gorm_ok G" and v: "v_ID v = 0"
    and vid: "create_post (db_col_time G) video_schema t_videos t_videos_update v t (Inr v1) t1"
    and msg: "create_post (db_col_time G) outbox_schema t_outbox t_outbox_update (new_outbox_msg v1) t1 (Inr m1) t2"
  shows "half_published (db_col_time G) v t (v_ID v1) t2 \<and> v_Title v1 = v_Title v \<and> v_Description v1 = v_Description v"
proof -
  let ?ct = "db_col_time G"
  from vid obtain i u where u: "\<not> IsZero u" and v1: "v1 = v\<lparr>v_ID := i, v_CreateTime := auto_time u (v_CreateTime v)\<rparr>"
      and i: "i \<noteq> 0" "i \<notin> v_ID ` set (t_videos t)"
      and t1: "t1 = t_videos_update (\<lambda>_. t_videos t @ [v1\<lparr>v_CreateTime := ?ct (v_CreateTime v1)\<rparr>]) t"
    by (auto simp: create_post_def inserted_def video_schema_def)
  from msg obtain j u2 where j: "j \<noteq> 0" "j \<notin> o_ID ` set (t_outbox t)"
      and t2: "t2 = t_outbox_update (\<lambda>_. t_outbox t @ [col outbox_schema ?ct (fill outbox_schema j u2 (new_outbox_msg v1))]) t1"
    by (auto simp: create_post_def inserted_def t1)
  let ?v' = "v1\<lparr>v_CreateTime := ?ct (v_CreateTime v1)\<rparr>"
  let ?m = "col outbox_schema ?ct (fill outbox_schema j u2 (new_outbox_msg v1))"
  have "o_CreateTime ?m = ?ct (v_CreateTime v1)"
    using u by (simp add: outbox_schema_def new_outbox_msg_def auto_time_def v1)
  then show ?thesis
    unfolding half_published_def
    by (intro conjI exI [of _ ?v'] exI [of _ ?m])
      (use i j v1 in \<open>simp_all add: t1 t2 publish_frame_def outbox_schema_def new_outbox_msg_def col_time_idem [OF G]\<close>)
qed

lemma publish_body_post:
  assumes G: "gorm_ok G" and v: "v_ID v = 0"
  shows "wp (publish_body cls G v) (\<lambda>r w'. sql_frame w w' \<and> (r = Inr () \<longrightarrow>
    published (db_col_time G) (extractTags cls (v_Title v @ '' '' @ v_Description v)) v (tabs w) (tabs w'))) w"
proof -
  let ?ts = "extractTags cls (v_Title v @ '' '' @ v_Description v)"
  let ?Q = "\<lambda>r w'. sql_frame w w' \<and> (r = Inr () \<longrightarrow> published (db_col_time G) ?ts v (tabs w) (tabs w'))"
  have tags: "wp (for_eachE (publish_tag G (v_ID v1)) (extractTags cls (v_Title v1 @ '' '' @ v_Description v1))) ?Q w2"
    if w2: "sql_frame w w2" and half: "half_published (db_col_time G) v (tabs w) (v_ID v1) (tabs w2) \<and>
      v_Title v1 = v_Title v \<and> v_Description v1 = v_Description v" for v1 w2
    by (rule wp_mono [OF publish_tags_post [OF G]])
      (use w2 half in \<open>auto intro: sql_frame_trans half_published_tagging\<close>)
  have msg: "wp (bindE (db_create (db_outbox G) (new_outbox_msg v1))
      (\<lambda>_. for_eachE (publish_tag G (v_ID v1)) (extractTags cls (v_Title v1 @ '' '' @ v_Description v1)))) ?Q w1"
    if w1: "sql_frame w w1" and post: "create_post (db_col_time G) video_schema t_videos t_videos_update v (tabs w) (Inr v1) (tabs w1)"
    for v1 w1
    unfolding wp_bindE
  proof (rule wp_create [OF outbox_table_ok [OF G]])
    fix r w2 assume f: "sql_frame w1 w2" and p: "create_post (db_col_time G) outbox_schema t_outbox t_outbox_update
      (new_outbox_msg v1) (tabs w1) r (tabs w2)"
    show "case r of Inl e \<Rightarrow> ?Q (Inl e) w2 | Inr _ \<Rightarrow> wp (for_eachE (publish_tag G (v_ID v1))
        (extractTags cls (v_Title v1 @ '' '' @ v_Description v1))) ?Q w2"
    proof (cases r)
      case (Inr m1)
      have "wp (for_eachE (publish_tag G (v_ID v1)) (extractTags cls (v_Title v1 @ '' '' @ v_Description v1))) ?Q w2"
        by (rule tags) (use w1 f create_video_outbox [OF G v post, of m1 "tabs w2"] p Inr in \<open>auto intro: sql_frame_trans\<close>)
      with Inr show ?thesis by simp
    qed (use w1 f in \<open>auto intro: sql_frame_trans\<close>)
  qed (simp add: new_outbox_msg_def)
  show ?thesis
    unfolding publish_body_def wp_bindE [of "db_create (db_videos G) v"]
    by (rule wp_create [OF videos_ok [OF G]])
      (use v msg in \<open>auto split: sum.splits\<close>)
qed

section \<open>Properties\<close>

text \<open>
  C4. Publishing a video is all or nothing: however its statements and the commit fail, the tables
  are unchanged or hold exactly one more video, one more pending outbox message that announces this
  video with its creation time, and one row for each tag of its title and description; when
  \<open>Publish\<close> returns nil, they hold it. So no video lacks its outbox message.
\<close>

theorem Publish_atomic:
  assumes "gorm_ok (vs_videoRepo s)" "v_ID v = 0" "run_state (VideoService_Publish cls s (Some v)) w = (r, w')"
  shows "sql_frame w w' \<and>
    (tabs w' = tabs w \<and> r \<noteq> Inr () \<or>
     published (db_col_time (vs_videoRepo s))
       (extractTags cls (TrimSpace (v_Title v) @ '' '' @ v_Description v)) (trimmed_video v) (tabs w) (tabs w'))"
proof -
  let ?G = "vs_videoRepo s" and ?v = "trimmed_video v"
  let ?pub = "published (db_col_time ?G) (extractTags cls (v_Title ?v @ '' '' @ v_Description ?v)) ?v (tabs w)"
  let ?Q = "\<lambda>r w'. sql_frame w w' \<and> (tabs w' = tabs w \<and> r \<noteq> Inr () \<or> ?pub (tabs w'))"
  have v: "v_ID ?v = 0" using assms(2) by (simp add: trimmed_video_def)
  have "wp (publish_body cls ?G ?v) (\<lambda>r w1. \<forall>w'. sql_frame w1 w' \<longrightarrow> (case r of
         Inl e \<Rightarrow> tabs w' = tabs w \<longrightarrow> ?Q (Inl e) w'
       | Inr _ \<Rightarrow> (tabs w' = tabs w1 \<longrightarrow> ?Q (Inr ()) w') \<and>
           (\<forall>e. maybe_done (tabs w) (tabs w1) (tabs w') \<longrightarrow> ?Q (Inl e) w'))) w0" if "quiet w w0" for w0
    by (rule wp_mono [OF publish_body_post [OF assms(1) v, of cls]])
      (use that in \<open>auto simp: quiet_iff maybe_done_def split: sum.splits intro: sql_frame_trans\<close>)
  then have "wp (db_transaction ?G (publish_body cls ?G ?v)) ?Q w"
    by (intro wp_transaction [OF assms(1)]) (auto simp: quiet_iff)
  then have "wp (VideoService_Publish cls s (Some v)) ?Q w"
    by (auto simp: VideoService_Publish_def Let_def wp_simps)
  from wp_runD [OF this assms(3)] show ?thesis by (simp add: trimmed_video_def)
qed

definition sample_video :: video where
  "sample_video = \<lparr>v_ID = 0, v_AuthorID = 3, v_Username = ''ann'', v_Title = ''a #go'', v_Description = ''b'',
     v_PlayURL = ''p'', v_CoverURL = ''c'', v_CreateTime = 7000000, v_LikesCount = 0, v_Popularity = 0\<rparr>"

definition sample_class :: "string \<Rightarrow> bool" where
  "sample_class r \<longleftrightarrow> r \<noteq> '' '' \<and> r \<noteq> ''#''"

definition sample_service :: "ref_hid video_service" where
  "sample_service = NewVideoService ref_gorm None"

lemma sample_trim: "TrimSpace ''a #go'' = ''a #go''" "TrimSpace ''p'' = ''p''" "TrimSpace ''c'' = ''c''"
  by (simp_all add: TrimSpace_visible visible_def)

lemma sample_tags: "extractTags sample_class ''a #go b'' = [''go'']"
  by code_simp

theorem Publish_atomic_witness:
  "published ref_col_time [''go''] sample_video no_tables
     (tabs (snd (run_state (VideoService_Publish sample_class sample_service (Some sample_video)) (ref_start [] no_tables))))"
proof -
  let ?run = "run_state (VideoService_Publish sample_class sample_service (Some sample_video)) (ref_start [] no_tables)"
  have run: "?run = (fst ?run, snd ?run)" by simp
  have "fst ?run = Inr ()"
    by (simp add: VideoService_Publish_def sample_service_def NewVideoService_def trimmed_video_def sample_video_def
        sample_trim sample_tags publish_body_def publish_tag_def FirstOrCreate_tag_def new_outbox_msg_def bindE_def ref_defs
        Let_def IsZero_def time_zero_def)
  moreover have "gorm_ok (vs_videoRepo sample_service)" "db_col_time (vs_videoRepo sample_service) = ref_col_time"
    using ref_gorm_ok by (simp_all add: sample_service_def NewVideoService_def ref_gorm_def)
  ultimately show ?thesis
    using Publish_atomic [of sample_service sample_video sample_class, OF _ _ run]
    by (simp add: sample_video_def trimmed_video_def sample_trim sample_tags ref_start_def)
qed

lemma UpdatePopularityCache_frame:
  assumes H: "host_ok H" and c: "cache_redis_ok cache"
  shows "wp (UpdatePopularityCache H cache i change) (\<lambda>_ w'. redis_frame w w') w"
proof -
  note ops = client_frame [OF c]
  have expire: "wp (Client_Expire cache k ttl) (\<lambda>_ w'. redis_frame w w') w1" if "redis_frame w w1" for k ttl w1
    by (rule wp_mono [OF ops(3)]) (use that in \<open>auto intro: redis_frame_trans\<close>)
  have incr: "wp (ZIncrBy cache k m d) (\<lambda>_. wp (Client_Expire cache k ttl) (\<lambda>_ w'. redis_frame w w')) w1"
    if "redis_frame w w1" for k m d ttl w1
    by (rule wp_mono [OF ops(2)]) (use that in \<open>auto intro: redis_frame_trans expire\<close>)
  have now: "wp (time_Now H) (\<lambda>t. wp (ZIncrBy cache (k t) m d) (\<lambda>_. wp (Client_Expire cache (k t) ttl) (\<lambda>_ w'. redis_frame w w'))) w1"
    if "redis_frame w w1" for k m d ttl w1
    by (rule wp_time_Now [OF H]) (use that in \<open>auto intro: incr redis_frame_trans quiet_redis_frame\<close>)
  show ?thesis
    by (simp add: UpdatePopularityCache_def Let_def wp_simps) (intro conjI impI wp_mono [OF ops(1)] now)
qed

end
