(* ===== verification/VideoDetail.thy ===== *)
theory VideoDetail
  imports Video
begin

text \<open>
  \<open>VideoService.GetDetail\<close>: the detail page behind a Redis cache, with a distributed lock around the
  rebuild of a missing entry. \<open>singleflight\<close> and the 20 ms timer are parameters: \<open>Do\<close> runs the
  function it is given for a lone caller, and a wait ends with the timer or with the context's error.
\<close>

section \<open>Definitions\<close>

record 'x flight =
  sf_Do :: "string \<Rightarrow> ('x, video res) io \<Rightarrow> ('x, video res) io"
  sf_wait :: "('x, go_error option) io"

definition lock_key :: "'x cache \<Rightarrow> uint \<Rightarrow> string" where
  "lock_key cache i = Key cache (''lock:video:detail:id='' @ FormatUint i)"

definition getCacheFunc :: "'x host \<Rightarrow> 'x video_service \<Rightarrow> string \<Rightarrow> ('x, video option) io" where
  "getCacheFunc H s cacheKey = do {
     r \<leftarrow> GetBytes (vs_cache s) cacheKey;
     ret (case r of Inl _ \<Rightarrow> None | Inr bytes \<Rightarrow> Unmarshal (json_video H) bytes)}"

definition setCacheFunc :: "'x host \<Rightarrow> 'x video_service \<Rightarrow> string \<Rightarrow> video \<Rightarrow> ('x, unit) io" where
  "setCacheFunc H s cacheKey v = (case Marshal (json_video H) v of
     Inl _ \<Rightarrow> ret ()
   | Inr bytes \<Rightarrow> do {_ \<leftarrow> SetBytes (vs_cache s) cacheKey bytes (vs_cacheTTL s); ret ()})"

text \<open>\<open>video, err := FindByID(id)\<close>, and on success write the cache.\<close>

definition load_and_cache :: "'x host \<Rightarrow> 'x video_service \<Rightarrow> string \<Rightarrow> uint \<Rightarrow> ('x, video res) io" where
  "load_and_cache H s cacheKey i =
     bindE (VideoRepo_FindByID (vs_videoRepo s) i) (\<lambda>v. do {_ \<leftarrow> setCacheFunc H s cacheKey v; ok v})"

text \<open>The loop that waits for another node; \<open>n\<close> rounds are left. \<open>Inr None\<close>: it gave up.\<close>

fun await_cache :: "'x host \<Rightarrow> 'x flight \<Rightarrow> 'x video_service \<Rightarrow> string \<Rightarrow> nat \<Rightarrow> ('x, video option res) io" where
  "await_cache H F s cacheKey 0 = ok None"
| "await_cache H F s cacheKey (Suc n) = do {
     d \<leftarrow> sf_wait F;
     (case d of
        Some e \<Rightarrow> throw e
      | None \<Rightarrow> do {
          c \<leftarrow> getCacheFunc H s cacheKey;
          (case c of Some v \<Rightarrow> ok (Some v) | None \<Rightarrow> await_cache H F s cacheKey n)})}"

definition with_unlock :: "'x video_service \<Rightarrow> string \<Rightarrow> string \<Rightarrow> ('x, 'a) io \<Rightarrow> ('x, 'a) io" where
  "with_unlock s lockKey token m = do {r \<leftarrow> m; _ \<leftarrow> Unlock (vs_cache s) lockKey token; ret r}"

definition rebuild :: "'x host \<Rightarrow> 'x flight \<Rightarrow> 'x video_service \<Rightarrow> string \<Rightarrow> uint \<Rightarrow> ('x, video res) io" where
  "rebuild H F s cacheKey i = do {
     cached \<leftarrow> getCacheFunc H s cacheKey;
     (case cached of
        Some v \<Rightarrow> ok v
      | None \<Rightarrow> (let lockKey = lock_key (vs_cache s) i in do {
          l \<leftarrow> Lock H (vs_cache s) lockKey (2 * 10 ^ 9);
          (case l of (token, locked, lockErr) \<Rightarrow>
             if lockErr \<noteq> None then load_and_cache H s cacheKey i
             else if locked then with_unlock s lockKey token (do {
               again \<leftarrow> getCacheFunc H s cacheKey;
               (case again of
                  Some v \<Rightarrow> ok v
                | None \<Rightarrow> load_and_cache H s cacheKey i)})
             else bindE (await_cache H F s cacheKey 5) (\<lambda>found.
               case found of Some v \<Rightarrow> ok v | None \<Rightarrow> load_and_cache H s cacheKey i))}))}"

definition GetDetail :: "'x host \<Rightarrow> 'x flight \<Rightarrow> 'x video_service \<Rightarrow> uint \<Rightarrow> ('x, video res) io" where
  "GetDetail H F s i =
     (if vs_cache s \<noteq> None
      then (let cacheKey = detail_key (vs_cache s) i in do {
        r \<leftarrow> GetBytes (vs_cache s) cacheKey;
        (case r of
           Inr bytes \<Rightarrow> (case Unmarshal (json_video H) bytes of
               Some cached \<Rightarrow> ok cached
             | None \<Rightarrow> load_and_cache H s cacheKey i)
         | Inl err \<Rightarrow>
             if IsMiss err
             then sf_Do F (Key (vs_cache s) (''sf:video:detail:id='' @ FormatUint i)) (rebuild H F s cacheKey i)
             else load_and_cache H s cacheKey i)})
      else VideoRepo_FindByID (vs_videoRepo s) i)"

section \<open>What is kept\<close>

text \<open>
  \<open>P\<close> is any property of the video that its row has: it is the video with that identifier, it has
  that title, and so on. A cached entry has it too if it can be decoded.
\<close>

definition cached_ok :: "'x host \<Rightarrow> (video \<Rightarrow> bool) \<Rightarrow> string \<Rightarrow> 'x world \<Rightarrow> bool" where
  "cached_ok H P key w \<longleftrightarrow> (\<forall>bytes e v. rds w key = Some (RStr bytes, e) \<longrightarrow> Unmarshal (json_video H) bytes = Some v \<longrightarrow> P v)"

definition codec_keeps :: "'x host \<Rightarrow> (video \<Rightarrow> bool) \<Rightarrow> bool" where
  "codec_keeps H P \<longleftrightarrow> (\<forall>v b v'. P v \<longrightarrow> Marshal (json_video H) v = Inr b \<longrightarrow> Unmarshal (json_video H) b = Some v' \<longrightarrow> P v')"

text \<open>The lock's key holds a string if it holds anything.\<close>

definition string_key :: "redis_db \<Rightarrow> string \<Rightarrow> bool" where
  "string_key db k \<longleftrightarrow> (\<forall>v e. db k = Some (v, e) \<longrightarrow> (\<exists>s. v = RStr s))"

definition detail_inv :: "'x host \<Rightarrow> (video \<Rightarrow> bool) \<Rightarrow> string \<Rightarrow> string \<Rightarrow> 'x world \<Rightarrow> 'x world \<Rightarrow> bool" where
  "detail_inv H P key lk w w' \<longleftrightarrow> tabs w' = tabs w \<and> mq w' = mq w \<and> cached_ok H P key w' \<and> string_key (rds w') lk"

definition flight_ok :: "'x flight \<Rightarrow> bool" where
  "flight_ok F \<longleftrightarrow> (\<forall>k fn w Q. wp fn Q w \<longrightarrow> wp (sf_Do F k fn) Q w) \<and> (\<forall>w. wp (sf_wait F) (\<lambda>_ w'. quiet w w') w)"

text \<open>The database answers, and the caller does not give up.\<close>

definition healthy :: "'x flight \<Rightarrow> 'x gorm \<Rightarrow> uint \<Rightarrow> bool" where
  "healthy F G i \<longleftrightarrow> (\<forall>w. wp (sf_wait F) (\<lambda>d _. d = None) w) \<and>
     (\<forall>w. (\<exists>v \<in> set (t_videos (tabs w)). v_ID v = i) \<longrightarrow> wp (VideoRepo_FindByID G i) (\<lambda>r _. \<exists>v. r = Inr v) w)"

lemma detail_inv_step:
  assumes "detail_inv H P key lk w0 w" "tabs w' = tabs w" "mq w' = mq w" "rds w' key = rds w key" "string_key (rds w') lk"
  shows "detail_inv H P key lk w0 w'"
  using assms by (simp add: detail_inv_def cached_ok_def)

lemma detail_inv_quiet: "detail_inv H P key lk w0 w \<Longrightarrow> quiet w w' \<Longrightarrow> detail_inv H P key lk w0 w'"
  by (rule detail_inv_step) (auto simp: frame_defs detail_inv_def)

lemma GetBytes_post:
  assumes "cache_redis_ok c" "detail_inv H P key lk w0 w"
  shows "wp (GetBytes c key) (\<lambda>r w'. detail_inv H P key lk w0 w' \<and>
    (\<forall>b. r = Inr b \<longrightarrow> (\<exists>e. rds w key = Some (RStr b, e)))) w"
proof (cases "rdb_of c")
  case None
  with assms show ?thesis by (simp add: GetBytes_def wp_simps)
next
  case (Some R)
  with assms have "call_ok (cmd_get key) (rdb_Get R key)" by (simp add: cache_redis_ok_def redis_ok_def)
  then have "wp (rdb_Get R key) (\<lambda>r w'. detail_inv H P key lk w0 w' \<and> (\<forall>b. r = Inr b \<longrightarrow> (\<exists>e. rds w key = Some (RStr b, e)))) w"
  proof (rule wp_call)
    fix r w' assume "call_post (cmd_get key) w r w'"
    then obtain t where f: "tabs w' = tabs w" "mq w' = mq w"
        and eff: "(r, rds w') = cmd_get key t (rds w) \<or> (\<exists>s. r = Inl (ErrExternal s) \<and>
          (rds w' = rds w \<or> rds w' = snd (cmd_get key t (rds w))))"
      by (auto simp: call_post_def redis_frame_def)
    have same: "snd (cmd_get key t (rds w)) = rds w"
      by (simp add: cmd_get_def wrong_type_def split: option.splits redis_val.splits)
    then have "rds w' = rds w" using eff by (metis snd_conv)
    with assms(2) f have "detail_inv H P key lk w0 w'" by (auto simp: detail_inv_def cached_ok_def)
    moreover have "\<exists>e. rds w key = Some (RStr b, e)" if "r = Inr b" for b
      using eff that by (auto simp: cmd_get_def wrong_type_def live_def split: option.splits redis_val.splits prod.splits if_splits)
    ultimately show "detail_inv H P key lk w0 w' \<and> (\<forall>b. r = Inr b \<longrightarrow> (\<exists>e. rds w key = Some (RStr b, e)))" by blast
  qed
  with Some show ?thesis by (simp add: GetBytes_def)
qed

lemma getCacheFunc_post:
  assumes "cache_redis_ok (vs_cache s)" "detail_inv H P key lk w0 w"
  shows "wp (getCacheFunc H s key) (\<lambda>r w'. detail_inv H P key lk w0 w' \<and> (\<forall>v. r = Some v \<longrightarrow> P v)) w"
  unfolding getCacheFunc_def wp_simps
  by (rule wp_mono [OF GetBytes_post [OF assms]])
    (use assms(2) in \<open>auto simp: detail_inv_def cached_ok_def split: sum.splits\<close>)

lemma setCacheFunc_post:
  assumes "cache_redis_ok (vs_cache s)" "detail_inv H P key lk w0 w" "codec_keeps H P" "P v" "lk \<noteq> key"
  shows "wp (setCacheFunc H s key v) (\<lambda>_ w'. detail_inv H P key lk w0 w') w"
proof -
  have "wp (SetBytes (vs_cache s) key b ttl) (\<lambda>_ w'. detail_inv H P key lk w0 w') w" if b: "Marshal (json_video H) v = Inr b" for b ttl
  proof (cases "rdb_of (vs_cache s)")
    case (Some R)
    with assms have "call_ok (cmd_set key b ttl) (rdb_Set R key b ttl)" by (simp add: cache_redis_ok_def redis_ok_def)
    then have "wp (rdb_Set R key b ttl) (\<lambda>_ w'. detail_inv H P key lk w0 w') w"
    proof (rule wp_call)
      fix r w' assume "call_post (cmd_set key b ttl) w r w'"
      then have f: "tabs w' = tabs w" "mq w' = mq w" and eff: "rds w' = rds w \<or> (\<exists>e. rds w' = (rds w)(key \<mapsto> (RStr b, e)))"
        by (auto simp: call_post_def redis_frame_def cmd_set_def)
      from eff show "detail_inv H P key lk w0 w'"
        using assms(2-5) b f by (auto simp: detail_inv_def cached_ok_def codec_keeps_def string_key_def)
    qed
    with Some show ?thesis by (simp add: SetBytes_def)
  qed (use assms(2) in \<open>simp add: SetBytes_def wp_simps\<close>)
  with assms(2) show ?thesis
    by (auto simp: setCacheFunc_def wp_simps split: sum.splits)
qed

lemma Lock_post:
  assumes H: "host_ok H" and c: "cache_redis_ok c" and inv: "detail_inv H P key lk w0 w" and k: "lk \<noteq> key"
  shows "wp (Lock H c lk ttl) (\<lambda>_ w'. detail_inv H P key lk w0 w') w"
proof (cases "rdb_of c")
  case (Some R)
  have set: "wp (rdb_SetNX R lk token ttl) (\<lambda>_ w'. detail_inv H P key lk w0 w') w1" if w1: "detail_inv H P key lk w0 w1" for token w1
  proof (rule wp_call [of "cmd_setnx lk token ttl"])
    show "call_ok (cmd_setnx lk token ttl) (rdb_SetNX R lk token ttl)"
      using Some c by (simp add: cache_redis_ok_def redis_ok_def)
    fix r w' assume "call_post (cmd_setnx lk token ttl) w1 r w'"
    with k w1 show "detail_inv H P key lk w0 w'"
      by (auto simp: call_post_def redis_frame_def cmd_setnx_def detail_inv_def cached_ok_def string_key_def split: if_splits)
  qed
  have "wp (randToken H 16) (\<lambda>t. wp (case t of Inl err \<Rightarrow> ret ('''', False, Some err)
      | Inr token \<Rightarrow> do {r \<leftarrow> rdb_SetNX R lk token ttl;
            (case r of Inl err \<Rightarrow> ret (token, False, Some err) | Inr taken \<Rightarrow> ret (token, taken, None))})
      (\<lambda>_ w'. detail_inv H P key lk w0 w')) w"
    unfolding randToken_def RandHex_def [symmetric]
    by (rule wp_RandHex [OF H]) (use inv set in \<open>auto simp: wp_simps split: sum.splits dest: detail_inv_quiet intro: wp_mono\<close>)
  with Some show ?thesis by (simp add: Lock_def wp_bind)
qed (use inv in \<open>simp add: Lock_def wp_simps\<close>)

lemma string_key_live: "string_key db k \<Longrightarrow> is_string t db k"
  by (auto simp: string_key_def is_string_def live_def split: option.splits prod.splits redis_val.splits if_splits)

text \<open>An unlock takes the lock away or leaves it, and touches no other key.\<close>

lemma unlockScript_effect:
  assumes "lua_ok L" "string_key db k"
  shows "snd (run_script (unlockScript L k token) t db) = db \<or> snd (run_script (unlockScript L k token) t db) = db(k := None)"
  by (auto simp: run_script_def unlockScript_def call_GET [OF assms(1) string_key_live [OF assms(2)]] call_DEL [OF assms(1)]
      split: prod.splits if_splits)

lemma Unlock_post:
  assumes c: "cache_redis_ok c" and inv: "detail_inv H P key lk w0 w" and k: "lk \<noteq> key"
  shows "wp (Unlock c lk token) (\<lambda>_ w'. detail_inv H P key lk w0 w') w"
proof (cases "rdb_of c")
  case (Some R)
  let ?s = "unlockScript (rdb_lua R) lk token"
  have L: "lua_ok (rdb_lua R)" and call: "call_ok (run_script ?s) (rdb_Run R ?s)"
    using Some c by (auto simp: cache_redis_ok_def redis_ok_def)
  have "wp (rdb_Run R ?s) (\<lambda>_ w'. detail_inv H P key lk w0 w') w"
  proof (rule wp_call [OF call])
    fix r w' assume "call_post (run_script ?s) w r w'"
    then obtain t where f: "tabs w' = tabs w" "mq w' = mq w" and eff: "rds w' = rds w \<or> rds w' = snd (run_script ?s t (rds w))"
      by (elim call_postE)
    have sk: "string_key (rds w) lk" using inv by (simp add: detail_inv_def)
    from eff unlockScript_effect [OF L sk, of token t] have "rds w' = rds w \<or> rds w' = (rds w)(lk := None)" by auto
    with inv f k show "detail_inv H P key lk w0 w'" by (auto simp: detail_inv_def cached_ok_def string_key_def)
  qed
  then show ?thesis using Some by (auto simp: Unlock_def wp_simps split: sum.splits elim!: wp_mono)
qed (use inv in \<open>simp add: Unlock_def wp_simps\<close>)

section \<open>The whole call\<close>

definition detail_post :: "'x host \<Rightarrow> 'x flight \<Rightarrow> 'x video_service \<Rightarrow> (video \<Rightarrow> bool) \<Rightarrow> string \<Rightarrow> string \<Rightarrow> uint
    \<Rightarrow> 'x world \<Rightarrow> video res \<Rightarrow> 'x world \<Rightarrow> bool" where
  "detail_post H F s P key lk i w r w' \<longleftrightarrow> detail_inv H P key lk w w' \<and> (\<forall>v. r = Inr v \<longrightarrow> P v) \<and>
     (healthy F (vs_videoRepo s) i \<and> (\<exists>v \<in> set (t_videos (tabs w)). v_ID v = i) \<longrightarrow> (\<exists>v. r = Inr v))"

lemma FindByID_post:
  assumes G: "gorm_ok (vs_videoRepo s)" and inv: "detail_inv H P key lk w0 w"
    and row: "\<And>v. v \<in> set (t_videos (tabs w0)) \<Longrightarrow> v_ID v = i \<Longrightarrow> P v"
  shows "wp (VideoRepo_FindByID (vs_videoRepo s) i) (detail_post H F s P key lk i w0) w"
proof -
  have "wp (VideoRepo_FindByID (vs_videoRepo s) i) (\<lambda>r w'. detail_inv H P key lk w0 w' \<and> (\<forall>v. r = Inr v \<longrightarrow> P v)) w"
    unfolding VideoRepo_FindByID_def
    by (rule wp_first [OF videos_ok [OF G]]) (use inv row in \<open>auto simp: detail_inv_def dest: detail_inv_quiet [OF inv]\<close>)
  moreover have "wp (VideoRepo_FindByID (vs_videoRepo s) i) (\<lambda>r _. healthy F (vs_videoRepo s) i \<and>
      (\<exists>v \<in> set (t_videos (tabs w0)). v_ID v = i) \<longrightarrow> (\<exists>v. r = Inr v)) w"
    using inv by (auto simp: healthy_def detail_inv_def wp_def split: prod.splits)
  ultimately show ?thesis
    by (auto simp: wp_def detail_post_def split: prod.splits)
qed

lemma load_and_cache_post:
  assumes G: "gorm_ok (vs_videoRepo s)" and c: "cache_redis_ok (vs_cache s)" and inv: "detail_inv H P key lk w0 w"
    and row: "\<And>v. v \<in> set (t_videos (tabs w0)) \<Longrightarrow> v_ID v = i \<Longrightarrow> P v" and codec: "codec_keeps H P" and k: "lk \<noteq> key"
  shows "wp (load_and_cache H s key i) (detail_post H F s P key lk i w0) w"
proof -
  have "wp (setCacheFunc H s key v) (\<lambda>_ w'. detail_post H F s P key lk i w0 (Inr v) w') w1"
    if "detail_post H F s P key lk i w0 (Inr v) w1" for v w1
    by (rule wp_mono [OF setCacheFunc_post [OF c _ codec _ k]]) (use that in \<open>auto simp: detail_post_def\<close>)
  then show ?thesis
    unfolding load_and_cache_def wp_bindE
    by (intro wp_mono [OF FindByID_post [OF G inv row]]) (auto simp: wp_simps split: sum.splits)
qed

lemma await_cache_post:
  assumes F: "flight_ok F" and c: "cache_redis_ok (vs_cache s)" and inv: "detail_inv H P key lk w0 w"
  shows "wp (await_cache H F s key n) (\<lambda>r w'. detail_inv H P key lk w0 w' \<and> (\<forall>v. r = Inr (Some v) \<longrightarrow> P v) \<and>
    (healthy F (vs_videoRepo s) i \<longrightarrow> (\<exists>x. r = Inr x))) w"
  using inv
proof (induction n arbitrary: w)
  case (Suc n)
  let ?Q = "\<lambda>r w'. detail_inv H P key lk w0 w' \<and> (\<forall>v. r = Inr (Some v) \<longrightarrow> P v) \<and> (healthy F (vs_videoRepo s) i \<longrightarrow> (\<exists>x. r = Inr x))"
  have look: "wp (getCacheFunc H s key) (\<lambda>c. wp (case c of Some v \<Rightarrow> ok (Some v) | None \<Rightarrow> await_cache H F s key n) ?Q) w1"
    if "detail_inv H P key lk w0 w1" for w1
    by (rule wp_mono [OF getCacheFunc_post [OF c that]]) (use Suc.IH in \<open>auto simp: wp_simps split: option.splits\<close>)
  have "wp (sf_wait F) (\<lambda>d w'. quiet w w' \<and> (healthy F (vs_videoRepo s) i \<longrightarrow> d = None)) w"
    using F by (auto simp: flight_ok_def healthy_def wp_def split: prod.splits)
  then show ?case
    unfolding await_cache.simps wp_bind
    by (rule wp_mono)
      (use Suc.prems look in \<open>auto simp: wp_return wp_bind dest: detail_inv_quiet split: option.splits\<close>)
qed (simp add: wp_simps)

lemma rebuild_post:
  assumes H: "host_ok H" and F: "flight_ok F" and G: "gorm_ok (vs_videoRepo s)" and c: "cache_redis_ok (vs_cache s)"
    and inv: "detail_inv H P key lk w0 w" and codec: "codec_keeps H P" and k: "lk \<noteq> key"
    and row: "\<And>v. v \<in> set (t_videos (tabs w0)) \<Longrightarrow> v_ID v = i \<Longrightarrow> P v"
    and lk: "lk = lock_key (vs_cache s) i"
  shows "wp (rebuild H F s key i) (detail_post H F s P key lk i w0) w"
proof -
  let ?Q = "detail_post H F s P key lk i w0"
  note load = load_and_cache_post [OF G c _ row codec k]
  have hit: "?Q (Inr v) w1" if "detail_inv H P key lk w0 w1" "P v" for v w1
    using that by (simp add: detail_post_def)
  have inside: "wp (getCacheFunc H s key) (\<lambda>again. wp (case again of Some v \<Rightarrow> ok v | None \<Rightarrow> load_and_cache H s key i) ?Q) w1"
    if "detail_inv H P key lk w0 w1" for w1
    by (rule wp_mono [OF getCacheFunc_post [OF c that]]) (auto simp: wp_return hit load split: option.splits)
  have unlock: "wp (Unlock (vs_cache s) lk token) (\<lambda>_. ?Q r) w1" if "?Q r w1" for r w1 token
    by (rule wp_mono [OF Unlock_post [OF c _ k]]) (use that in \<open>auto simp: detail_post_def\<close>)
  have locked: "wp (with_unlock s lk token (do {again \<leftarrow> getCacheFunc H s key;
      (case again of Some v \<Rightarrow> ok v | None \<Rightarrow> load_and_cache H s key i)})) ?Q w1" if "detail_inv H P key lk w0 w1" for w1 token
    unfolding with_unlock_def wp_bind wp_return
    by (rule wp_mono [OF inside [OF that, unfolded wp_bind]], erule wp_mono, rule unlock)
  have waiting: "wp (bindE (await_cache H F s key 5) (\<lambda>found. case found of Some v \<Rightarrow> ok v | None \<Rightarrow> load_and_cache H s key i)) ?Q w1"
    if "detail_inv H P key lk w0 w1" for w1
    unfolding wp_bindE
    by (rule wp_mono [OF await_cache_post [OF F c that, of _ i]])
      (auto simp: wp_return hit load detail_post_def [of H F s P key lk i w0 "Inl _"] split: sum.splits option.splits)
  have lock: "wp (Lock H (vs_cache s) lk (2 * 10 ^ 9)) (\<lambda>l. wp (case l of (token, lockd, lockErr) \<Rightarrow>
      if lockErr \<noteq> None then load_and_cache H s key i
      else if lockd then with_unlock s lk token (do {again \<leftarrow> getCacheFunc H s key;
        (case again of Some v \<Rightarrow> ok v | None \<Rightarrow> load_and_cache H s key i)})
      else bindE (await_cache H F s key 5) (\<lambda>found. case found of Some v \<Rightarrow> ok v | None \<Rightarrow> load_and_cache H s key i)) ?Q) w1"
    if "detail_inv H P key lk w0 w1" for w1
    by (rule wp_mono [OF Lock_post [OF H c that k]]) (auto simp: load locked waiting split: prod.splits)
  show ?thesis
    unfolding rebuild_def Let_def wp_bind lk [symmetric]
    by (rule wp_mono [OF getCacheFunc_post [OF c inv]])
      (use lock in \<open>auto simp: wp_return wp_bind hit split: option.splits\<close>)
qed

section \<open>Properties\<close>

lemma detail_keys_differ: "lock_key c i \<noteq> detail_key c i"
  by (simp add: Key_def detail_key_def lock_key_def)


text \<open>A database that always answers, and a Redis whose first two calls fail.\<close>

definition steady_gorm :: "ref_hid gorm" where
  "steady_gorm = ref_gorm\<lparr>db_videos := (db_videos ref_gorm)\<lparr>db_first := (\<lambda>P. State (\<lambda>w.
     (case sort_by (\<lambda>a b. v_ID a \<le> v_ID b) (filter P (t_videos (tabs w))) of
        [] \<Rightarrow> Inl ErrRecordNotFound | x # _ \<Rightarrow> Inr x, w)))\<rparr>\<rparr>"

lemma steady_first_ok: "first_ok video_schema t_videos (db_first (db_videos steady_gorm))"
proof -
  have "first_ok video_schema t_videos (db_first (ref_table video_schema t_videos t_videos_update))" by (rule ref_first_ok)
  then have "wp (db_first (ref_table video_schema t_videos t_videos_update) P) (\<lambda>r w'. quiet v w' \<and> (case r of
       Inr x \<Rightarrow> x \<in> set (t_videos (tabs v)) \<and> P x \<and> (\<forall>y \<in> set (t_videos (tabs v)). P y \<longrightarrow> v_ID x \<le> v_ID y)
     | Inl e \<Rightarrow> e = ErrRecordNotFound \<longrightarrow> (\<forall>y \<in> set (t_videos (tabs v)). \<not> P y))) v" for P and v :: ref_world
    unfolding first_ok_def row_id_schema by blast
  from this [of _ "w\<lparr>hidden := (hidden w)\<lparr>faults := []\<rparr>\<rparr>" for w] show ?thesis
    by (simp add: first_ok_def steady_gorm_def ref_table_def wp_def ref_sql_def frame_defs cong: sum.case_cong)
qed

lemma steady_gorm_ok: "gorm_ok steady_gorm"
proof -
  have "table_ok ref_col_time video_schema t_videos t_videos_update (db_videos steady_gorm)"
    using steady_first_ok ref_table_ok [of video_schema t_videos t_videos_update]
    by (simp add: table_ok_def steady_gorm_def ref_gorm_def schema_defs)
  then show ?thesis
    using ref_gorm_ok by (simp add: gorm_ok_def videos_queries_ok_def steady_gorm_def Let_def) (simp add: ref_gorm_def)
qed

definition steady_flight :: "ref_hid flight" where
  "steady_flight = \<lparr>sf_Do = (\<lambda>k fn. fn), sf_wait = ret None\<rparr>"

definition detail_service :: "ref_hid video_service" where
  "detail_service = NewVideoService steady_gorm ref_cache"

definition detail_host :: "ref_hid host" where
  "detail_host = ref_host [] [] [] [] [] [(sample_video\<lparr>v_ID := 1\<rparr>, ''video 1'')]"

definition detail_world :: ref_world where
  "detail_world = ref_start [Fails ''timeout'', Fails ''timeout''] (no_tables\<lparr>t_videos := [sample_video\<lparr>v_ID := 1\<rparr>]\<rparr>)"


end
