(* ===== verification/Consumer.thy ===== *)
theory Consumer
  imports Retry
begin

text \<open>
  What at-least-once delivery asks of a queue worker, as an interface: a message whose processing
  has succeeded may be delivered again, and processing it again must not change the tables. The
  like, comment, social and notification workers are shown to provide it.
\<close>

text \<open>Processing the same message again, any number of times, with any outcome.\<close>

inductive redelivered :: "('x, 'a) io \<Rightarrow> 'x world \<Rightarrow> 'x world \<Rightarrow> bool" for m where
  none: "redelivered m w w"
| again: "redelivered m w w1 \<Longrightarrow> tabs w2 = tabs w1 \<Longrightarrow> run_state m w2 = (r, w3) \<Longrightarrow> redelivered m w w3"

locale settling_consumer =
  fixes env_ok :: "'e \<Rightarrow> bool"
    and inv :: "tables \<Rightarrow> bool"
    and process :: "'e \<Rightarrow> string \<Rightarrow> ('x, unit res) io"
    and settled :: "'e \<Rightarrow> string \<Rightarrow> tables \<Rightarrow> bool"
  assumes success_settles_inv: "env_ok E \<Longrightarrow> inv (tabs w) \<Longrightarrow> run_state (process E b) w = (Inr (), w') \<Longrightarrow> settled E b (tabs w')"
    and settled_stays: "env_ok E \<Longrightarrow> settled E b (tabs w) \<Longrightarrow> run_state (process E b) w = (r, w') \<Longrightarrow> tabs w' = tabs w"
begin

lemma redelivered_settled:
  assumes "env_ok E" "settled E b (tabs w)" "redelivered (process E b) w w'"
  shows "tabs w' = tabs w"
  using assms(3,2)
proof (induction rule: redelivered.induct)
  case (again w w1 w2 r w3)
  then have "settled E b (tabs w2)" by simp
  from settled_stays [OF assms(1) this again.hyps(3)] again show ?case by simp
qed simp

lemma redelivery_after_success:
  assumes "env_ok E" "inv (tabs w)" "run_state (process E b) w = (Inr (), w1)" "redelivered (process E b) w1 w'"
  shows "tabs w' = tabs w1"
  using redelivered_settled [OF assms(1) success_settles_inv [OF assms(1-3)] assms(4)] .

end

text \<open>Most workers need nothing of the tables.\<close>

locale idempotent_consumer =
  fixes env_ok :: "'e \<Rightarrow> bool"
    and process :: "'e \<Rightarrow> string \<Rightarrow> ('x, unit res) io"
    and settled :: "'e \<Rightarrow> string \<Rightarrow> tables \<Rightarrow> bool"
  assumes success_settles: "env_ok E \<Longrightarrow> run_state (process E b) w = (Inr (), w') \<Longrightarrow> settled E b (tabs w')"
    and settled_keeps: "env_ok E \<Longrightarrow> settled E b (tabs w) \<Longrightarrow> run_state (process E b) w = (r, w') \<Longrightarrow> tabs w' = tabs w"

sublocale idempotent_consumer \<subseteq> settling_consumer env_ok "\<lambda>_. True" process settled
  by unfold_locales (blast intro: success_settles settled_keeps)+

context idempotent_consumer
begin

lemma redelivery_is_harmless:
  assumes "env_ok E" "run_state (process E b) w = (Inr (), w1)" "redelivered (process E b) w1 w'"
  shows "tabs w' = tabs w1"
  using redelivery_after_success [OF assms(1) TrueI assms(2,3)] .

end

end
