(* ===== verification/Enqueue.thy ===== *)
theory Enqueue
  imports Video Consumer
begin

text \<open>
  What the like and the comment service share: they send an event and a popularity update to
  two queues, and do themselves what they could not send. The steps are the same lines in
  \<open>internal/api/like/service.go\<close> and \<open>internal/api/comment/service.go\<close>.
\<close>

text \<open>\<open>if mq != nil { if err := send; err == nil { enqueued = true } }\<close>\<close>

definition enqueued :: "'x mq_ptr \<Rightarrow> ('x, unit res) io \<Rightarrow> ('x, bool) io" where
  "enqueued q send = (if q = None then ret False else do {r \<leftarrow> send; ret (r = Inr ())})"

text \<open>The two publishes and the fallbacks, common to likes and comments.\<close>

definition enqueue_or_fallback :: "'x host \<Rightarrow> 'x mq_ptr \<Rightarrow> 'x mq_ptr \<Rightarrow> 'x cache \<Rightarrow> uint \<Rightarrow> int
    \<Rightarrow> ('x, unit res) io \<Rightarrow> ('x, unit res) io \<Rightarrow> ('x, unit res) io" where
  "enqueue_or_fallback H q popularityMQ cache videoID change send fallback = do {
     mysqlEnqueued \<leftarrow> enqueued q send;
     redisEnqueued \<leftarrow> enqueued popularityMQ (PopularityMQ_Update H popularityMQ videoID change);
     (if mysqlEnqueued \<and> redisEnqueued then ok ()
      else bindE (if \<not> mysqlEnqueued then fallback else ok ()) (\<lambda>_. do {
        _ \<leftarrow> (if \<not> redisEnqueued then UpdatePopularityCache H cache videoID change else ret ());
        ok ()}))}"

section \<open>Looking up a video\<close>

definition has_video :: "uint \<Rightarrow> tables \<Rightarrow> bool" where
  "has_video i t \<longleftrightarrow> (\<exists>v \<in> set (t_videos t). v_ID v = i)"

lemma has_video_image: "has_video i t \<longleftrightarrow> i \<in> v_ID ` set (t_videos t)"
  by (auto simp: has_video_def)

lemma wp_IsExist:
  assumes "gorm_ok G" "\<And>e w'. quiet w w' \<Longrightarrow> Q (Inl e) w'"
    and "\<And>w'. quiet w w' \<Longrightarrow> has_video i (tabs w) \<Longrightarrow> Q (Inr True) w'"
    and "\<And>w'. quiet w w' \<Longrightarrow> \<not> has_video i (tabs w) \<Longrightarrow> Q (Inr False) w'"
  shows "wp (IsExist G i) Q w"
  unfolding IsExist_def wp_bind
  by (rule wp_first [OF videos_ok [OF assms(1)]]) (use assms in \<open>auto simp: wp_simps has_video_def\<close>)

section \<open>The fallback keeps an invariant\<close>

lemma enqueued_tables:
  assumes "wp send (\<lambda>r w'. mq_frame w w') w"
  shows "wp (enqueued q send) (\<lambda>r w'. tabs w' = tabs w) w"
  using assms by (auto simp: enqueued_def wp_simps frame_defs intro: wp_mono)

text \<open>
  The fallback: with a transaction that keeps an invariant when it succeeds, the whole
  request keeps it, whichever of the queues, the database and the cache fail.
\<close>

lemma enqueue_or_fallback_keeps:
  assumes H: "host_ok H" and C: "cache_redis_ok cache" and P: "mq_ptr_ok p" and send: "\<And>w. wp send (\<lambda>r w'. mq_frame w w') w"
    and fallback: "\<And>w. I (tabs w) \<Longrightarrow> wp fallback (\<lambda>_ w'. I (tabs w')) w" and I: "I (tabs w)"
  shows "wp (enqueue_or_fallback H q p cache i c send fallback) (\<lambda>r w'. I (tabs w')) w"
proof -
  have pop: "wp (UpdatePopularityCache H cache i c) (\<lambda>_ w'. I (tabs w')) w1" if "I (tabs w1)" for w1
    by (rule wp_mono [OF UpdatePopularityCache_frame [OF H C]]) (use that in \<open>simp add: frame_defs\<close>)
  have upd: "wp (PopularityMQ_Update H p i c) (\<lambda>r w'. mq_frame w w') w" for w
    unfolding PopularityMQ_Update_def by (rule PopularityMQ_frame [OF H P])
  show ?thesis
    unfolding enqueue_or_fallback_def wp_bind
    by (rule wp_mono [OF enqueued_tables [OF send]], rule wp_mono [OF enqueued_tables [OF upd]])
      (use I in \<open>auto simp: wp_bindE wp_bind wp_return intro!: wp_mono [OF fallback] wp_mono [OF pop] split: sum.splits\<close>)
qed

section \<open>An accepted request is done or handed over\<close>

definition handed_over :: "string \<Rightarrow> string \<Rightarrow> (string \<Rightarrow> bool) \<Rightarrow> 'x world \<Rightarrow> 'x world \<Rightarrow> bool" where
  "handed_over x k P w w' \<longleftrightarrow> (\<exists>ds d es. bk_log (mq w') = bk_log (mq w) @ ds @ [d] @ es \<and>
     d_Exchange d = x \<and> d_RoutingKey d = k \<and> P (p_Body (d_Pub d)))"

definition accepted :: "string \<Rightarrow> string \<Rightarrow> (string \<Rightarrow> bool) \<Rightarrow> (tables \<Rightarrow> tables \<Rightarrow> bool) \<Rightarrow> 'x world \<Rightarrow> 'x world \<Rightarrow> bool" where
  "accepted x k P D w w' \<longleftrightarrow> handed_over x k P w w' \<and> tabs w' = tabs w \<or> D (tabs w) (tabs w')"

lemma handed_over_prefix: "handed_over x k P w w1 \<Longrightarrow> prefix (bk_log (mq w1)) (bk_log (mq w')) \<Longrightarrow> handed_over x k P w w'"
  unfolding handed_over_def prefix_def by force

lemma sent_post_handed: "sent_post x k P w (Inr ()) w' \<Longrightarrow> handed_over x k P w w'"
  unfolding sent_post_def handed_over_def by (metis append.left_neutral append_Nil2)

lemma enqueued_post:
  assumes "wp send (sent_post x k P w) w"
  shows "wp (enqueued q send) (\<lambda>b w'. mq_frame w w' \<and> prefix (bk_log (mq w)) (bk_log (mq w')) \<and> (b \<longrightarrow> handed_over x k P w w')) w"
  using assms
  by (auto simp: enqueued_def wp_simps sent_post_handed intro!: wp_mono [OF assms])
    (auto simp: sent_post_def)

lemma enqueue_or_fallback_accepts:
  assumes H: "host_ok H" and C: "cache_redis_ok cache" and p: "mq_ptr_ok p"
    and send: "\<And>w. wp send (sent_post x k P w) w"
    and fallback: "\<And>w. wp fallback (\<lambda>r w'. sql_frame w w' \<and> (r = Inr () \<longrightarrow> D (tabs w) (tabs w'))) w"
  shows "wp (enqueue_or_fallback H q p cache i c send fallback) (\<lambda>r w'. r = Inr () \<longrightarrow> accepted x k P D w w') w"
proof -
  have upd: "wp (PopularityMQ_Update H p i c) (sent_post PopularityExchange PopularityRoutingKeyUpdate (\<lambda>_. True) w) w" for w
    unfolding PopularityMQ_Update_def PopularityMQ_publish_def
    using H p by (auto simp: wp_return sent_post_throw frame_defs intro!: publisher_post split: option.splits)
  have pop: "wp (UpdatePopularityCache H cache i c) (\<lambda>_. accepted x k P D w) w1" if "accepted x k P D w w1" for w1
    by (rule wp_mono [OF UpdatePopularityCache_frame [OF H C]]) (use that in \<open>auto simp: accepted_def handed_over_def frame_defs\<close>)
  have sql: "wp fallback (\<lambda>r w'. r = Inr () \<longrightarrow> accepted x k P D w w') w1" if "tabs w1 = tabs w" for w1
    by (rule wp_mono [OF fallback]) (use that in \<open>auto simp: accepted_def\<close>)
  have go: "wp (if b1 \<and> b2 then ok () else bindE (if \<not> b1 then fallback else ok ()) (\<lambda>_. do {
        _ \<leftarrow> (if \<not> b2 then UpdatePopularityCache H cache i c else ret ()); ok ()})) (\<lambda>r w'. r = Inr () \<longrightarrow> accepted x k P D w w') w2"
    if "tabs w2 = tabs w" "b1 \<Longrightarrow> handed_over x k P w w2" for b1 b2 w2
    using that
    by (auto simp: accepted_def [of x k P D w w2] wp_bindE wp_bind wp_return intro!: wp_mono [OF sql] wp_mono [OF pop] split: sum.splits)
  show ?thesis
    unfolding enqueue_or_fallback_def wp_bind
    by (rule wp_mono [OF enqueued_post [OF send]], rule wp_mono [OF enqueued_post [OF upd]], rule go)
      (auto simp: mq_frame_def intro: handed_over_prefix)
qed

end
