(* ===== verification/Like.thy ===== *)
theory Like
  imports Enqueue
begin

text \<open>
  \<open>internal/api/like\<close> and \<open>internal/worker/like\_worker.go\<close>: likes are sent to a queue and applied by a
  worker; when a publish fails the service writes the tables itself in a transaction.
\<close>

section \<open>repo.go\<close>

definition is_like :: "uint \<Rightarrow> uint \<Rightarrow> like \<Rightarrow> bool" where
  "is_like videoID accountID l \<longleftrightarrow> l_VideoID l = videoID \<and> l_AccountID l = accountID"

definition LikeRepo_IsLiked :: "'x gorm \<Rightarrow> uint \<Rightarrow> uint \<Rightarrow> ('x, bool res) io" where
  "LikeRepo_IsLiked db videoID accountID =
     bindE (db_count (db_likes db) (is_like videoID accountID)) (\<lambda>n. ok (n > 0))"

definition LikeRepo_ListLikedVideos :: "'x gorm \<Rightarrow> uint \<Rightarrow> ('x, video list res) io" where
  "LikeRepo_ListLikedVideos db accountID =
     db_videos_likes db (\<lambda>(v, l). l_AccountID l = accountID)
       (\<lambda>a b. l_CreatedAt (snd b) \<le> l_CreatedAt (snd a)) 200"

definition GetBatchLiked :: "'x gorm \<Rightarrow> uint list \<Rightarrow> uint \<Rightarrow> ('x, (uint \<Rightarrow> bool) res) io" where
  "GetBatchLiked db videoIDs accountID =
     (if videoIDs = [] then ok (\<lambda>_. False)
      else if accountID = 0 then ok (\<lambda>_. False)
      else bindE (db_find (db_likes db) (\<lambda>l. l_VideoID l \<in> set videoIDs \<and> l_AccountID l = accountID) no_order no_limit)
        (\<lambda>likes. ok (\<lambda>i. i \<in> l_VideoID ` set likes)))"

definition LikeIgnoreDuplicate :: "'x gorm \<Rightarrow> like option \<Rightarrow> ('x, bool res) io" where
  "LikeIgnoreDuplicate db l = (case l of
     None \<Rightarrow> ok False
   | Some x \<Rightarrow>
       if l_VideoID x = 0 \<or> l_AccountID x = 0 then ok False
       else do {
         r \<leftarrow> db_create (db_likes db) x;
         (case r of
            Inr _ \<Rightarrow> ok True
          | Inl err \<Rightarrow> if IsDupKey err then ok False else throw err)})"

definition DeleteByVideoAndAccount :: "'x gorm \<Rightarrow> uint \<Rightarrow> uint \<Rightarrow> ('x, bool res) io" where
  "DeleteByVideoAndAccount db videoID accountID =
     (if videoID = 0 \<or> accountID = 0 then ok False
      else bindE (db_delete (db_likes db) (is_like videoID accountID)) (\<lambda>n. ok (n > 0)))"

section \<open>service.go\<close>

record 'x like_service =
  ls_likeRepo :: "'x gorm"
  ls_videoRepo :: "'x gorm option"
  ls_cache :: "'x cache"
  ls_likeMQ :: "'x mq_ptr"
  ls_popularityMQ :: "'x mq_ptr"

definition check_video :: "'x gorm option \<Rightarrow> uint \<Rightarrow> ('x, unit res) io" where
  "check_video repo videoID = (case repo of
     None \<Rightarrow> ok ()
   | Some db \<Rightarrow> bindE (IsExist db videoID) (\<lambda>exists. if exists then ok () else throw (ErrNew ''video not found'')))"

definition like_tx :: "'x gorm \<Rightarrow> like \<Rightarrow> ('x, unit res) io" where
  "like_tx tx l = do {
     r \<leftarrow> db_first (db_videos tx) (\<lambda>v. v_ID v = l_VideoID l);
     (case r of
        Inl err \<Rightarrow> if err = ErrRecordNotFound then throw (ErrNew ''video not found'') else throw err
      | Inr _ \<Rightarrow> do {
          c \<leftarrow> db_create (db_likes tx) l;
          (case c of
             Inl err \<Rightarrow> if IsDupKey err then throw (ErrNew ''user has liked this video'') else throw err
           | Inr _ \<Rightarrow>
               bindE (db_updates (db_videos tx) (\<lambda>v. v_ID v = l_VideoID l)
                   (\<lambda>v. v\<lparr>v_LikesCount := v_LikesCount v + 1\<rparr>)) (\<lambda>_.
               bindE (db_updates (db_videos tx) (\<lambda>v. v_ID v = l_VideoID l)
                   (\<lambda>v. v\<lparr>v_Popularity := v_Popularity v + 1\<rparr>)) (\<lambda>_. ok ())))})}"

definition unlike_tx :: "'x gorm \<Rightarrow> like \<Rightarrow> ('x, unit res) io" where
  "unlike_tx tx l =
     bindE (db_delete (db_likes tx) (is_like (l_VideoID l) (l_AccountID l))) (\<lambda>rowsAffected.
     if rowsAffected = 0 then throw (ErrNew ''user has not liked this video'')
     else
       bindE (db_updates (db_videos tx) (\<lambda>v. v_ID v = l_VideoID l \<and> v_LikesCount v > 0)
           (\<lambda>v. v\<lparr>v_LikesCount := v_LikesCount v - 1\<rparr>)) (\<lambda>_.
       bindE (db_updates (db_videos tx) (\<lambda>v. v_ID v = l_VideoID l \<and> v_Popularity v > 0)
           (\<lambda>v. v\<lparr>v_Popularity := v_Popularity v - 1\<rparr>)) (\<lambda>_. ok ())))"

definition like_or_fallback :: "'x host \<Rightarrow> 'x like_service \<Rightarrow> uint \<Rightarrow> int \<Rightarrow> ('x, unit res) io \<Rightarrow> ('x, unit res) io
    \<Rightarrow> ('x, unit res) io" where
  "like_or_fallback H s videoID change send tx =
     enqueue_or_fallback H (ls_likeMQ s) (ls_popularityMQ s) (ls_cache s) videoID change send (db_transaction (ls_likeRepo s) tx)"

definition LikeService_Like :: "'x host \<Rightarrow> 'x like_service \<Rightarrow> like option \<Rightarrow> ('x, unit res) io" where
  "LikeService_Like H s l0 = (case l0 of
     None \<Rightarrow> throw (ErrNew ''like is nil'')
   | Some l \<Rightarrow>
       if l_VideoID l = 0 \<or> l_AccountID l = 0 then throw (ErrNew ''video_id and account_id are required'')
       else
         bindE (check_video (ls_videoRepo s) (l_VideoID l)) (\<lambda>_.
         bindE (LikeRepo_IsLiked (ls_likeRepo s) (l_VideoID l) (l_AccountID l)) (\<lambda>isLiked.
         if isLiked then throw (ErrNew ''user has liked this video'')
         else do {
           now \<leftarrow> time_Now H;
           like_or_fallback H s (l_VideoID l) 1
             (LikeMQ_Like H (ls_likeMQ s) (l_AccountID l) (l_VideoID l))
             (like_tx (ls_likeRepo s) (l\<lparr>l_CreatedAt := now\<rparr>))})))"

definition LikeService_Unlike :: "'x host \<Rightarrow> 'x like_service \<Rightarrow> like option \<Rightarrow> ('x, unit res) io" where
  "LikeService_Unlike H s l0 = (case l0 of
     None \<Rightarrow> throw (ErrNew ''like is nil'')
   | Some l \<Rightarrow>
       if l_VideoID l = 0 \<or> l_AccountID l = 0 then throw (ErrNew ''video_id and account_id are required'')
       else
         bindE (check_video (ls_videoRepo s) (l_VideoID l)) (\<lambda>_.
         bindE (LikeRepo_IsLiked (ls_likeRepo s) (l_VideoID l) (l_AccountID l)) (\<lambda>isLiked.
         if \<not> isLiked then throw (ErrNew ''user has not liked this video'')
         else like_or_fallback H s (l_VideoID l) (- 1)
             (LikeMQ_Unlike H (ls_likeMQ s) (l_AccountID l) (l_VideoID l))
             (unlike_tx (ls_likeRepo s) l))))"

definition LikeService_IsLiked :: "'x like_service \<Rightarrow> uint \<Rightarrow> uint \<Rightarrow> ('x, bool res) io" where
  "LikeService_IsLiked s videoID accountID = LikeRepo_IsLiked (ls_likeRepo s) videoID accountID"

definition LikeService_ListLikedVideos :: "'x like_service \<Rightarrow> uint \<Rightarrow> ('x, video list res) io" where
  "LikeService_ListLikedVideos s accountID = LikeRepo_ListLikedVideos (ls_likeRepo s) accountID"

section \<open>like\_worker.go\<close>

record 'x like_worker =
  lw_ch :: "'x channel option"
  lw_likeRepo :: "'x gorm option"
  lw_videoRepo :: "'x gorm option"
  lw_queue :: string

definition applyLike :: "'x host \<Rightarrow> 'x gorm \<Rightarrow> 'x gorm \<Rightarrow> uint \<Rightarrow> uint \<Rightarrow> ('x, unit res) io" where
  "applyLike H likeRepo videoRepo userID videoID =
     bindE (IsExist videoRepo videoID) (\<lambda>exists.
     if \<not> exists then ok ()
     else do {
       now \<leftarrow> time_Now H;
       bindE (LikeIgnoreDuplicate likeRepo
           (Some \<lparr>l_ID = 0, l_VideoID = videoID, l_AccountID = userID, l_CreatedAt = now\<rparr>)) (\<lambda>created.
       if \<not> created then ok ()
       else bindE (ChangeLikesCount videoRepo videoID 1) (\<lambda>_. ChangePopularity videoRepo videoID 1))})"

definition applyUnlike :: "'x gorm \<Rightarrow> 'x gorm \<Rightarrow> uint \<Rightarrow> uint \<Rightarrow> ('x, unit res) io" where
  "applyUnlike likeRepo videoRepo userID videoID =
     bindE (IsExist videoRepo videoID) (\<lambda>exists.
     if \<not> exists then ok ()
     else
       bindE (DeleteByVideoAndAccount likeRepo videoID userID) (\<lambda>deleted.
       if \<not> deleted then ok ()
       else bindE (ChangeLikesCount videoRepo videoID (- 1)) (\<lambda>_. ChangePopularity videoRepo videoID (- 1))))"

definition LikeWorker_process :: "'x host \<Rightarrow> 'x gorm \<Rightarrow> 'x gorm \<Rightarrow> string \<Rightarrow> ('x, unit res) io" where
  "LikeWorker_process H likeRepo videoRepo body = (case Unmarshal (json_like H) body of
     None \<Rightarrow> ok ()
   | Some evt \<Rightarrow>
       if le_UserID evt = 0 \<or> le_VideoID evt = 0 then ok ()
       else if le_Action evt = ''like'' then applyLike H likeRepo videoRepo (le_UserID evt) (le_VideoID evt)
       else if le_Action evt = ''unlike'' then applyUnlike likeRepo videoRepo (le_UserID evt) (le_VideoID evt)
       else ok ())"

definition LikeWorker_Run :: "'x host \<Rightarrow> 'x like_worker \<Rightarrow> unit res \<Rightarrow> select_event list \<Rightarrow> ('x, go_error option) io" where
  "LikeWorker_Run H w consumed evs = (case (lw_ch w, lw_likeRepo w, lw_videoRepo w) of
     (Some ch, Some likeRepo, Some videoRepo) \<Rightarrow>
       if lw_queue w = '''' then ret (Some (ErrNew ''queue is required''))
       else consumeWithRetry ch (lw_queue w) consumed (\<lambda>d. LikeWorker_process H likeRepo videoRepo (p_Body (d_Pub d))) evs
   | _ \<Rightarrow> ret (Some (ErrNew ''like worker is not initialed'')))"

section \<open>handler.go\<close>

text \<open>The checks all three JSON handlers start with: the video of the request and the account.\<close>

definition like_request :: "uint res \<Rightarrow> gin_ctx \<Rightarrow> ('a reply) + (uint \<times> uint)" where
  "like_request bound c = (case bound of
     Inl err \<Rightarrow> Inl (classified err)
   | Inr videoID \<Rightarrow>
       if videoID = 0 then Inl (Fail 400 ''video_id is required'')
       else (case GetAccountID c of
           Inl err \<Rightarrow> Inl (classified err)
         | Inr accountID \<Rightarrow> Inr (videoID, accountID)))"

definition LikeHandler_Like :: "'x host \<Rightarrow> 'x like_service \<Rightarrow> uint res \<Rightarrow> gin_ctx \<Rightarrow> ('x, string reply) io" where
  "LikeHandler_Like H s bound c = (case like_request bound c of
     Inl answer \<Rightarrow> ret answer
   | Inr (videoID, accountID) \<Rightarrow> do {
       r \<leftarrow> LikeService_Like H s (Some \<lparr>l_ID = 0, l_VideoID = videoID, l_AccountID = accountID, l_CreatedAt = time_zero\<rparr>);
       ret (case r of Inl err \<Rightarrow> Fail 500 (error_text err) | Inr _ \<Rightarrow> Sent ''like success'')})"

definition LikeHandler_Unlike :: "'x host \<Rightarrow> 'x like_service \<Rightarrow> uint res \<Rightarrow> gin_ctx \<Rightarrow> ('x, string reply) io" where
  "LikeHandler_Unlike H s bound c = (case like_request bound c of
     Inl answer \<Rightarrow> ret answer
   | Inr (videoID, accountID) \<Rightarrow> do {
       r \<leftarrow> LikeService_Unlike H s (Some \<lparr>l_ID = 0, l_VideoID = videoID, l_AccountID = accountID, l_CreatedAt = time_zero\<rparr>);
       ret (case r of Inl err \<Rightarrow> Fail 500 (error_text err) | Inr _ \<Rightarrow> Sent ''unlike success'')})"

definition LikeHandler_IsLiked :: "'x like_service \<Rightarrow> uint res \<Rightarrow> gin_ctx \<Rightarrow> ('x, bool reply) io" where
  "LikeHandler_IsLiked s bound c = (case like_request bound c of
     Inl answer \<Rightarrow> ret answer
   | Inr (videoID, accountID) \<Rightarrow> do {
       r \<leftarrow> LikeService_IsLiked s videoID accountID;
       ret (case r of Inl err \<Rightarrow> Fail 500 (error_text err) | Inr isLiked \<Rightarrow> Sent isLiked)})"

definition LikeHandler_ListMyLikedVideos :: "'x like_service \<Rightarrow> gin_ctx \<Rightarrow> ('x, video list reply) io" where
  "LikeHandler_ListMyLikedVideos s c = (case GetAccountID c of
     Inl err \<Rightarrow> ret (classified err)
   | Inr accountID \<Rightarrow> do {
       r \<leftarrow> LikeService_ListLikedVideos s accountID;
       ret (case r of Inl err \<Rightarrow> Fail 500 (error_text err) | Inr videos \<Rightarrow> Sent videos)})"

section \<open>Applying a like once and again\<close>

definition has_like :: "uint \<Rightarrow> uint \<Rightarrow> tables \<Rightarrow> bool" where
  "has_like i a t \<longleftrightarrow> (\<exists>l \<in> set (t_likes t). is_like i a l)"

text \<open>A statement on the videos alone: the likes stay, and so do the identifiers.\<close>

definition same_likes :: "tables \<Rightarrow> tables \<Rightarrow> bool" where
  "same_likes t t' \<longleftrightarrow> t_likes t' = t_likes t \<and> map v_ID (t_videos t') = map v_ID (t_videos t)"

lemma same_likes_trans: "same_likes t u \<Longrightarrow> same_likes u v \<Longrightarrow> same_likes t v"
  by (simp add: same_likes_def)

lemma video_update_post:
  assumes G: "gorm_ok G" and f: "\<And>v. v_ID (f v) = v_ID v"
  shows "wp (db_updates (db_videos G) P f) (\<lambda>r w'. sql_frame w w' \<and> same_likes (tabs w) (tabs w') \<and>
    (\<forall>n. r = Inr n \<longrightarrow> tabs w' = t_videos_update (update_rows P (\<lambda>v. col video_schema (db_col_time G) (f v))) (tabs w))) w"
proof -
  have "map v_ID (update_rows P (\<lambda>v. col video_schema (db_col_time G) (f v)) vs) = map v_ID vs" for vs
    by (rule map_update_rows) (simp add: video_schema_def f)
  then show ?thesis
    by (intro wp_updates_simple [OF videos_ok [OF G]]) (auto simp: maybe_done_def same_likes_def)
qed

lemma Change_posts:
  assumes G: "gorm_ok G"
  shows ChangeLikesCount_post: "wp (ChangeLikesCount G i d) (\<lambda>r w'. sql_frame w w' \<and> same_likes (tabs w) (tabs w') \<and>
      (r = Inr () \<longrightarrow> tabs w' = t_videos_update (update_rows (\<lambda>v. v_ID v = i) (\<lambda>v. col video_schema (db_col_time G)
        (v\<lparr>v_LikesCount := max (v_LikesCount v + d) 0\<rparr>))) (tabs w))) w"
    and ChangePopularity_post: "wp (ChangePopularity G i d) (\<lambda>r w'. sql_frame w w' \<and> same_likes (tabs w) (tabs w') \<and>
      (r = Inr () \<longrightarrow> tabs w' = t_videos_update (update_rows (\<lambda>v. v_ID v = i) (\<lambda>v. col video_schema (db_col_time G)
        (v\<lparr>v_Popularity := max (v_Popularity v + d) 0\<rparr>))) (tabs w))) w"
  unfolding ChangeLikesCount_def ChangePopularity_def wp_bindE
  by (rule wp_mono [OF video_update_post [OF G]]; auto simp: wp_return split: sum.splits)+

text \<open>The two updates of the counters after the likes table was changed.\<close>

definition recounted :: "(time \<Rightarrow> time) \<Rightarrow> uint \<Rightarrow> int \<Rightarrow> int \<Rightarrow> tables \<Rightarrow> tables" where
  "recounted ct i d e t =
     t_videos_update (update_rows (\<lambda>v. v_ID v = i) (\<lambda>v. col video_schema ct (v\<lparr>v_Popularity := max (v_Popularity v + e) 0\<rparr>)))
       (t_videos_update (update_rows (\<lambda>v. v_ID v = i) (\<lambda>v. col video_schema ct
         (v\<lparr>v_LikesCount := max (v_LikesCount v + d) 0\<rparr>))) t)"

lemma counters_post:
  assumes G: "gorm_ok G"
  shows "wp (bindE (ChangeLikesCount G i d) (\<lambda>_. ChangePopularity G i e))
    (\<lambda>r w'. sql_frame w w' \<and> same_likes (tabs w) (tabs w') \<and> (r = Inr () \<longrightarrow> tabs w' = recounted (db_col_time G) i d e (tabs w))) w"
  unfolding wp_bindE recounted_def
  by (rule wp_mono [OF ChangeLikesCount_post [OF G]])
    (auto split: sum.splits intro!: wp_mono [OF ChangePopularity_post [OF G]] intro: sql_frame_trans same_likes_trans)

definition like_settled :: "uint \<Rightarrow> uint \<Rightarrow> tables \<Rightarrow> bool" where
  "like_settled i a t \<longleftrightarrow> (has_video i t \<longrightarrow> has_like i a t)"

definition unlike_settled :: "uint \<Rightarrow> uint \<Rightarrow> tables \<Rightarrow> bool" where
  "unlike_settled i a t \<longleftrightarrow> (has_video i t \<longrightarrow> \<not> has_like i a t)"

lemma same_likes_has:
  assumes "same_likes t t'"
  shows "has_video i t' = has_video i t" "has_like i a t' = has_like i a t"
proof -
  from assms have "v_ID ` set (t_videos t') = v_ID ` set (t_videos t)" by (metis list.set_map same_likes_def)
  then show "has_video i t' = has_video i t" by (simp add: has_video_image)
  show "has_like i a t' = has_like i a t" using assms by (simp add: has_like_def same_likes_def)
qed

text \<open>The insert: it happened and was new, or the like was there.\<close>

definition like_added :: "(time \<Rightarrow> time) \<Rightarrow> uint \<Rightarrow> uint \<Rightarrow> tables \<Rightarrow> tables \<Rightarrow> bool" where
  "like_added ct i a t t' \<longleftrightarrow> \<not> has_like i a t \<and> (\<exists>x. is_like i a x \<and> l_ID x \<noteq> 0 \<and> l_ID x \<notin> l_ID ` set (t_likes t) \<and>
     t' = t_likes_update (\<lambda>_. t_likes t @ [x]) t)"

lemma row_added_like:
  assumes "row_added ct like_schema t_likes t_likes_update l t u"
  shows "like_added ct (l_VideoID l) (l_AccountID l) t u"
proof -
  from assms obtain i now where i: "i \<noteq> 0" "i \<notin> l_ID ` set (t_likes t)"
    and u: "u = t_likes_update (\<lambda>_. t_likes t @ [col like_schema ct (fill like_schema i now l)]) t"
    and new: "\<not> has_like (l_VideoID l) (l_AccountID l) t"
    by (auto simp: row_added_def inserted_def has_like_def) (auto simp: like_schema_def is_like_def)
  from i u new show ?thesis
    unfolding like_added_def
    by (intro conjI exI [of _ "col like_schema ct (fill like_schema i now l)"]) (auto simp: like_schema_def is_like_def)
qed

lemma like_added_has:
  assumes "like_added ct i a t t'"
  shows "has_like i a t'" "has_video j t' = has_video j t" "\<not> has_like i a t"
  using assms by (auto simp: like_added_def has_like_def has_video_def)

lemma wp_create_like:
  assumes G: "gorm_ok G" and l: "l_ID l = 0"
    and "\<And>e w'. sql_frame w w' \<Longrightarrow> IsDupKey e \<Longrightarrow> tabs w' = tabs w \<Longrightarrow> has_like (l_VideoID l) (l_AccountID l) (tabs w) \<Longrightarrow> Q (Inl e) w'"
    and "\<And>e w'. sql_frame w w' \<Longrightarrow> \<not> IsDupKey e \<Longrightarrow>
      tabs w' = tabs w \<or> like_added (db_col_time G) (l_VideoID l) (l_AccountID l) (tabs w) (tabs w') \<Longrightarrow> Q (Inl e) w'"
    and "\<And>x w'. sql_frame w w' \<Longrightarrow> like_added (db_col_time G) (l_VideoID l) (l_AccountID l) (tabs w) (tabs w') \<Longrightarrow> Q (Inr x) w'"
  shows "wp (db_create (db_likes G) l) Q w"
proof (rule wp_create_cases [OF likes_ok [OF G]])
  show "Q (Inl e) w'" if "sql_frame w w'" "IsDupKey e" "tabs w' = tabs w" "\<exists>y \<in> set (t_likes (tabs w)). clash like_schema y l" for e w'
    using assms(3) [OF that(1-3)] that(4) by (auto simp: has_like_def like_schema_def is_like_def)
qed (use assms(4,5) l in \<open>auto dest: row_added_like\<close>)

lemma wp_LikeIgnoreDuplicate:
  assumes G: "gorm_ok G" and l: "l_ID l = 0" "l_VideoID l = i" "l_AccountID l = a" "i \<noteq> 0" "a \<noteq> 0"
    and "\<And>e w'. sql_frame w w' \<Longrightarrow> tabs w' = tabs w \<or> like_added (db_col_time G) i a (tabs w) (tabs w') \<Longrightarrow> Q (Inl e) w'"
    and "\<And>w'. sql_frame w w' \<Longrightarrow> tabs w' = tabs w \<Longrightarrow> has_like i a (tabs w) \<Longrightarrow> Q (Inr False) w'"
    and "\<And>w'. sql_frame w w' \<Longrightarrow> like_added (db_col_time G) i a (tabs w) (tabs w') \<Longrightarrow> Q (Inr True) w'"
  shows "wp (LikeIgnoreDuplicate G (Some l)) Q w"
proof -
  have "wp (db_create (db_likes G) l) (\<lambda>r. wp (case r of Inr _ \<Rightarrow> ok True | Inl err \<Rightarrow> if IsDupKey err then ok False else throw err) Q) w"
    by (rule wp_create_like [OF G l(1)]) (use assms in \<open>simp_all add: wp_return\<close>)
  with l show ?thesis by (simp add: LikeIgnoreDuplicate_def wp_bind)
qed

text \<open>
  What one attempt does to the tables: nothing, because the like is settled or because it
  failed at once; or the like was added, and the counters follow if the attempt succeeds.
\<close>

definition like_applied :: "(time \<Rightarrow> time) \<Rightarrow> uint \<Rightarrow> uint \<Rightarrow> tables \<Rightarrow> unit res \<Rightarrow> tables \<Rightarrow> bool" where
  "like_applied ct i a t r t' \<longleftrightarrow>
     t' = t \<and> (r = Inr () \<longrightarrow> like_settled i a t) \<or>
     has_video i t \<and> (\<exists>t1. like_added ct i a t t1 \<and> same_likes t1 t' \<and> (r = Inr () \<longrightarrow> t' = recounted ct i 1 1 t1))"

lemma like_applied_settles: "like_applied ct i a t (Inr ()) t' \<Longrightarrow> like_settled i a t'"
  by (auto simp: like_applied_def like_settled_def same_likes_has like_added_has)

lemma like_applied_again: "like_applied ct i a t r t' \<Longrightarrow> like_settled i a t \<Longrightarrow> t' = t"
  by (auto simp: like_applied_def like_settled_def like_added_has)

lemma like_applied_same: "t' = t \<Longrightarrow> (r = Inr () \<Longrightarrow> like_settled i a t) \<Longrightarrow> like_applied ct i a t r t'"
  by (simp add: like_applied_def)

lemma like_applied_added:
  "has_video i t \<Longrightarrow> like_added ct i a t t1 \<Longrightarrow> same_likes t1 t' \<Longrightarrow> (r = Inr () \<Longrightarrow> t' = recounted ct i 1 1 t1) \<Longrightarrow>
   like_applied ct i a t r t'"
  by (auto simp: like_applied_def)

lemma same_likes_refl [simp]: "same_likes t t"
  by (simp add: same_likes_def)

lemma applyLike_post:
  assumes H: "host_ok H" and G: "gorm_ok G" and ids: "i \<noteq> 0" "a \<noteq> 0"
  shows "wp (applyLike H G G a i) (\<lambda>r w'. sql_frame w w' \<and> like_applied (db_col_time G) i a (tabs w) r (tabs w')) w"
    (is "wp _ ?Q w")
proof -
  have count: "wp (bindE (ChangeLikesCount G i 1) (\<lambda>_. ChangePopularity G i 1)) ?Q w2"
    if "sql_frame w w2" "has_video i (tabs w)" "like_added (db_col_time G) i a (tabs w) (tabs w2)" for w2
    by (rule wp_mono [OF counters_post [OF G]])
      (use that in \<open>auto intro: sql_frame_trans like_applied_added [OF that(2,3)]\<close>)
  have create: "wp (bindE (LikeIgnoreDuplicate G (Some \<lparr>l_ID = 0, l_VideoID = i, l_AccountID = a, l_CreatedAt = now\<rparr>)) (\<lambda>created.
      if \<not> created then ok () else bindE (ChangeLikesCount G i 1) (\<lambda>_. ChangePopularity G i 1))) ?Q w1"
    if q: "sql_frame w w1" "tabs w1 = tabs w" and v: "has_video i (tabs w)" for now w1
    unfolding wp_bindE [of "LikeIgnoreDuplicate G _"]
  proof (rule wp_LikeIgnoreDuplicate [OF G _ _ _ ids])
    fix e w' assume f: "sql_frame w1 w'" and t: "tabs w' = tabs w1 \<or> like_added (db_col_time G) i a (tabs w1) (tabs w')"
    have "like_applied (db_col_time G) i a (tabs w) (Inl e) (tabs w')"
      using t q(2) v by (auto intro: like_applied_same like_applied_added)
    with q(1) f show "case Inl e of Inl e \<Rightarrow> ?Q (Inl e) w' | Inr v \<Rightarrow> wp (if \<not> v then ok ()
        else bindE (ChangeLikesCount G i 1) (\<lambda>_. ChangePopularity G i 1)) ?Q w'"
      by (auto intro: sql_frame_trans)
  next
    fix w' assume "sql_frame w1 w'" "tabs w' = tabs w1" "has_like i a (tabs w1)"
    with q show "case Inr False of Inl e \<Rightarrow> ?Q (Inl e) w' | Inr v \<Rightarrow> wp (if \<not> v then ok ()
        else bindE (ChangeLikesCount G i 1) (\<lambda>_. ChangePopularity G i 1)) ?Q w'"
      by (auto simp: wp_return like_settled_def intro: sql_frame_trans like_applied_same)
  next
    fix w' assume "sql_frame w1 w'" "like_added (db_col_time G) i a (tabs w1) (tabs w')"
    with q v have "wp (bindE (ChangeLikesCount G i 1) (\<lambda>_. ChangePopularity G i 1)) ?Q w'"
      by (intro count) (auto intro: sql_frame_trans)
    then show "case Inr True of Inl e \<Rightarrow> ?Q (Inl e) w' | Inr v \<Rightarrow> wp (if \<not> v then ok ()
        else bindE (ChangeLikesCount G i 1) (\<lambda>_. ChangePopularity G i 1)) ?Q w'"
      by simp
  qed simp_all
  show ?thesis
    unfolding applyLike_def wp_bindE [of "IsExist G i"]
  proof (rule wp_IsExist [OF G], goal_cases)
    case (1 e w')
    then show ?case by (auto simp: quiet_iff intro: like_applied_same)
  next
    case (2 w')
    then show ?case
      by (simp add: wp_bind quiet_iff) (rule wp_time_Now [OF H], rule create, auto simp: quiet_iff intro: sql_frame_trans)
  next
    case (3 w')
    then show ?case by (auto simp: wp_return quiet_iff like_settled_def intro: like_applied_same)
  qed
qed

definition like_removed :: "uint \<Rightarrow> uint \<Rightarrow> tables \<Rightarrow> tables \<Rightarrow> bool" where
  "like_removed i a t t' \<longleftrightarrow> has_like i a t \<and> t' = t_likes_update (delete_rows (is_like i a)) t"

lemma like_removed_has:
  assumes "like_removed i a t t'"
  shows "\<not> has_like i a t'" "has_video j t' = has_video j t" "has_like i a t"
  using assms by (auto simp: like_removed_def has_like_def has_video_def delete_rows_def)

lemma delete_like_none: "\<not> has_like i a t \<Longrightarrow> t_likes_update (delete_rows (is_like i a)) t = t"
proof -
  assume "\<not> has_like i a t"
  then have "delete_rows (is_like i a) (t_likes t) = t_likes t" by (auto simp: delete_rows_def filter_id_conv has_like_def)
  then show ?thesis by (cases t) simp
qed

lemma wp_delete_like:
  assumes G: "gorm_ok G"
    and "\<And>e w'. sql_frame w w' \<Longrightarrow> tabs w' = tabs w \<or> like_removed i a (tabs w) (tabs w') \<Longrightarrow> Q (Inl e) w'"
    and "\<And>w'. sql_frame w w' \<Longrightarrow> tabs w' = tabs w \<Longrightarrow> \<not> has_like i a (tabs w) \<Longrightarrow> Q (Inr 0) w'"
    and "\<And>n w'. sql_frame w w' \<Longrightarrow> n > 0 \<Longrightarrow> like_removed i a (tabs w) (tabs w') \<Longrightarrow> Q (Inr n) w'"
  shows "wp (db_delete (db_likes G) (is_like i a)) Q w"
proof (rule wp_delete_cases [OF likes_ok [OF G]])
  fix e w' assume f: "sql_frame w w'" and m: "maybe_done (tabs w) (t_likes_update (delete_rows (is_like i a)) (tabs w)) (tabs w')"
  then have "tabs w' = tabs w \<or> like_removed i a (tabs w) (tabs w')"
    unfolding maybe_done_def by (metis delete_like_none like_removed_def)
  with assms(2) f show "Q (Inl e) w'" by simp
next
  fix w' assume f: "sql_frame w w'" and t: "tabs w' = t_likes_update (delete_rows (is_like i a)) (tabs w)"
  have num: "int (length (filter (is_like i a) (t_likes (tabs w)))) > 0 \<longleftrightarrow> has_like i a (tabs w)"
    by (auto simp: has_like_def filter_empty_conv)
  show "Q (Inr (int (length (filter (is_like i a) (t_likes (tabs w)))))) w'"
  proof (cases "has_like i a (tabs w)")
    case True
    with num t assms(4) f show ?thesis unfolding like_removed_def by blast
  next
    case False
    with num t assms(3) f delete_like_none show ?thesis by simp
  qed
qed

definition unlike_applied :: "(time \<Rightarrow> time) \<Rightarrow> uint \<Rightarrow> uint \<Rightarrow> tables \<Rightarrow> unit res \<Rightarrow> tables \<Rightarrow> bool" where
  "unlike_applied ct i a t r t' \<longleftrightarrow>
     t' = t \<and> (r = Inr () \<longrightarrow> unlike_settled i a t) \<or>
     has_video i t \<and> (\<exists>t1. like_removed i a t t1 \<and> same_likes t1 t' \<and> (r = Inr () \<longrightarrow> t' = recounted ct i (- 1) (- 1) t1))"

lemma unlike_applied_settles: "unlike_applied ct i a t (Inr ()) t' \<Longrightarrow> unlike_settled i a t'"
  by (auto simp: unlike_applied_def unlike_settled_def same_likes_has like_removed_has)

lemma unlike_applied_again: "unlike_applied ct i a t r t' \<Longrightarrow> unlike_settled i a t \<Longrightarrow> t' = t"
  by (auto simp: unlike_applied_def unlike_settled_def like_removed_has)

lemma unlike_applied_same: "t' = t \<Longrightarrow> (r = Inr () \<Longrightarrow> unlike_settled i a t) \<Longrightarrow> unlike_applied ct i a t r t'"
  by (simp add: unlike_applied_def)

lemma unlike_applied_removed:
  "has_video i t \<Longrightarrow> like_removed i a t t1 \<Longrightarrow> same_likes t1 t' \<Longrightarrow> (r = Inr () \<Longrightarrow> t' = recounted ct i (- 1) (- 1) t1) \<Longrightarrow>
   unlike_applied ct i a t r t'"
  by (auto simp: unlike_applied_def)

lemma applyUnlike_post:
  assumes G: "gorm_ok G" and ids: "i \<noteq> 0" "a \<noteq> 0"
  shows "wp (applyUnlike G G a i) (\<lambda>r w'. sql_frame w w' \<and> unlike_applied (db_col_time G) i a (tabs w) r (tabs w')) w"
    (is "wp _ ?Q w")
proof -
  let ?next = "bindE (ChangeLikesCount G i (- 1)) (\<lambda>_. ChangePopularity G i (- 1))"
  have count: "wp ?next ?Q w2"
    if "sql_frame w w2" "has_video i (tabs w)" "like_removed i a (tabs w) (tabs w2)" for w2
    by (rule wp_mono [OF counters_post [OF G]])
      (use that in \<open>auto intro: sql_frame_trans unlike_applied_removed [OF that(2,3)]\<close>)
  have delete: "wp (bindE (DeleteByVideoAndAccount G i a) (\<lambda>deleted. if \<not> deleted then ok () else ?next)) ?Q w1"
    if q: "sql_frame w w1" "tabs w1 = tabs w" and v: "has_video i (tabs w)" for w1
  proof -
    have "wp (db_delete (db_likes G) (is_like i a)) (\<lambda>r s. case r of Inl e \<Rightarrow> ?Q (Inl e) s
        | Inr n \<Rightarrow> if \<not> n > 0 then ?Q (Inr ()) s else wp ?next ?Q s) w1"
    proof (rule wp_delete_like [OF G], goal_cases)
      case (1 e w')
      with q v show ?case by (auto intro: sql_frame_trans unlike_applied_same unlike_applied_removed)
    next
      case (2 w')
      with q show ?case by (auto simp: unlike_settled_def intro: sql_frame_trans unlike_applied_same)
    next
      case (3 n w')
      with q v have "wp ?next ?Q w'" by (intro count) (auto intro: sql_frame_trans)
      with 3 show ?case by simp
    qed
    with ids show ?thesis
      by (simp add: DeleteByVideoAndAccount_def wp_bindE wp_return wp_if cong: sum.case_cong if_cong)
  qed
  show ?thesis
    unfolding applyUnlike_def wp_bindE [of "IsExist G i"]
  proof (rule wp_IsExist [OF G], goal_cases)
    case (1 e w')
    then show ?case by (auto simp: quiet_iff intro: unlike_applied_same)
  next
    case (2 w')
    then have "wp (bindE (DeleteByVideoAndAccount G i a) (\<lambda>deleted. if \<not> deleted then ok () else ?next)) ?Q w'"
      by (intro delete) (auto simp: quiet_iff)
    then show ?case by simp
  next
    case (3 w')
    then show ?case by (auto simp: wp_return quiet_iff unlike_settled_def intro: unlike_applied_same)
  qed
qed

text \<open>The whole message.\<close>

definition like_env_ok :: "'x host \<times> 'x gorm \<Rightarrow> bool" where
  "like_env_ok E \<longleftrightarrow> host_ok (fst E) \<and> gorm_ok (snd E)"

definition like_message :: "'x host \<Rightarrow> string \<Rightarrow> (string \<times> uint \<times> uint) option" where
  "like_message H b = (case Unmarshal (json_like H) b of
     None \<Rightarrow> None
   | Some e \<Rightarrow> if le_UserID e = 0 \<or> le_VideoID e = 0 \<or> le_Action e \<notin> {''like'', ''unlike''} then None
       else Some (le_Action e, le_VideoID e, le_UserID e))"

definition like_message_settled :: "'x host \<times> 'x gorm \<Rightarrow> string \<Rightarrow> tables \<Rightarrow> bool" where
  "like_message_settled E b t = (case like_message (fst E) b of
     None \<Rightarrow> True | Some (act, i, a) \<Rightarrow> if act = ''like'' then like_settled i a t else unlike_settled i a t)"

lemma LikeWorker_process_post:
  assumes "host_ok H" "gorm_ok G"
  shows "wp (LikeWorker_process H G G b) (\<lambda>r w'. sql_frame w w' \<and> (case like_message H b of
      None \<Rightarrow> tabs w' = tabs w
    | Some (act, i, a) \<Rightarrow> if act = ''like'' then like_applied (db_col_time G) i a (tabs w) r (tabs w')
        else unlike_applied (db_col_time G) i a (tabs w) r (tabs w'))) w"
  using assms
  by (auto simp: LikeWorker_process_def like_message_def wp_return split: option.splits
      intro!: wp_mono [OF applyLike_post] wp_mono [OF applyUnlike_post])

interpretation like_worker: idempotent_consumer like_env_ok "\<lambda>E. LikeWorker_process (fst E) (snd E) (snd E)"
    like_message_settled
proof
  fix E :: "'x host \<times> 'x gorm" and b w r w'
  assume "like_env_ok E"
  note post = LikeWorker_process_post [of "fst E" "snd E" b]
  show "like_message_settled E b (tabs w')" if "run_state (LikeWorker_process (fst E) (snd E) (snd E) b) w = (Inr (), w')"
    using wp_runD [OF post that] \<open>like_env_ok E\<close>
    by (auto simp: like_env_ok_def like_message_settled_def split: option.splits if_splits
        dest: like_applied_settles unlike_applied_settles)
  show "tabs w' = tabs w" if "like_message_settled E b (tabs w)" "run_state (LikeWorker_process (fst E) (snd E) (snd E) b) w = (r, w')"
    using wp_runD [OF post that(2)] that(1) \<open>like_env_ok E\<close>
    by (auto simp: like_env_ok_def like_message_settled_def split: option.splits if_splits
        dest: like_applied_again unlike_applied_again)
qed

section \<open>The counters agree with the likes\<close>

definition count_likes :: "uint \<Rightarrow> tables \<Rightarrow> int" where
  "count_likes i t = int (length (filter (\<lambda>l. l_VideoID l = i) (t_likes t)))"

definition likes_consistent :: "tables \<Rightarrow> bool" where
  "likes_consistent t \<longleftrightarrow> table_wf like_schema (t_likes t) \<and>
     (\<forall>v \<in> set (t_videos t). v_LikesCount v = count_likes (v_ID v) t)"

lemma like_added_count:
  assumes "like_added ct i a t t'"
  shows "count_likes j t' = count_likes j t + (if j = i then 1 else 0)" "t_videos t' = t_videos t"
    "table_wf like_schema (t_likes t) \<Longrightarrow> table_wf like_schema (t_likes t')"
proof -
  from assms obtain x where x: "is_like i a x" "l_ID x \<noteq> 0" "l_ID x \<notin> l_ID ` set (t_likes t)"
      "t' = t_likes_update (\<lambda>_. t_likes t @ [x]) t" "\<forall>l \<in> set (t_likes t). \<not> is_like i a l"
    by (auto simp: like_added_def has_like_def)
  then show "count_likes j t' = count_likes j t + (if j = i then 1 else 0)" "t_videos t' = t_videos t"
    by (auto simp: count_likes_def is_like_def)
  show "table_wf like_schema (t_likes t')" if "table_wf like_schema (t_likes t)"
    unfolding x(4) using that x(1-3,5) by (simp, intro table_wf_snoc) (auto simp: like_schema_def is_like_def)
qed

lemma one_like:
  assumes "table_wf like_schema ls"
  shows "length (filter (is_like i a) ls) \<le> 1"
proof -
  have d: "distinct (filter (is_like i a) ls)" using table_wf_distinct [OF assms] by simp
  have "x = y" if "x \<in> set (filter (is_like i a) ls)" "y \<in> set (filter (is_like i a) ls)" for x y
    using that table_wf_clashD [OF assms, of x y] by (auto simp: like_schema_def is_like_def)
  then have "card (set (filter (is_like i a) ls)) \<le> 1" by (simp add: card_le_Suc0_iff_eq)
  with distinct_card [OF d] show ?thesis by simp
qed

lemma like_removed_count:
  assumes "like_removed i a t t'" "table_wf like_schema (t_likes t)"
  shows "count_likes j t' = count_likes j t - (if j = i then 1 else 0)" "t_videos t' = t_videos t"
    "table_wf like_schema (t_likes t')"
proof -
  from assms(1) have t': "t' = t_likes_update (delete_rows (is_like i a)) t" and "has_like i a t"
    by (auto simp: like_removed_def)
  then have "filter (is_like i a) (t_likes t) \<noteq> []" by (auto simp: has_like_def filter_empty_conv)
  with one_like [OF assms(2), of i a] have one: "length (filter (is_like i a) (t_likes t)) = 1"
    by (cases "filter (is_like i a) (t_likes t)") auto
  have "length (filter (\<lambda>l. l_VideoID l = j) ls) =
      length (filter (\<lambda>l. l_VideoID l = j) (delete_rows (is_like i a) ls)) + (if j = i then length (filter (is_like i a) ls) else 0)" for ls
    by (induction ls) (auto simp: delete_rows_def is_like_def [abs_def])
  from this [of "t_likes t"] one show "count_likes j t' = count_likes j t - (if j = i then 1 else 0)"
    by (simp add: t' count_likes_def split: if_splits)
  show "t_videos t' = t_videos t" by (simp add: t')
  show "table_wf like_schema (t_likes t')" by (simp add: t' table_wf_delete assms(2))
qed

lemma recounted_consistent:
  assumes "table_wf like_schema (t_likes t)" "\<And>v. v \<in> set (t_videos t) \<Longrightarrow> v_LikesCount v + (if v_ID v = i then d else 0) = count_likes (v_ID v) t"
  shows "likes_consistent (recounted ct i d e t)"
proof -
  have pos: "max (v_LikesCount v + d) 0 = count_likes i t" if "v \<in> set (t_videos t)" "v_ID v = i" for v
    using assms(2) [OF that(1)] that(2) by (simp add: count_likes_def)
  have other: "v_LikesCount v = count_likes (v_ID v) t" if "v \<in> set (t_videos t)" "v_ID v \<noteq> i" for v
    using assms(2) [OF that(1)] that(2) by simp
  have same: "count_likes j (recounted ct i d e t) = count_likes j t" for j
    by (simp add: count_likes_def recounted_def)
  show ?thesis
    unfolding likes_consistent_def same
    using assms(1) pos other by (simp add: recounted_def ball_update_rows video_schema_def)
qed

lemma like_applied_consistent:
  assumes "likes_consistent t" "like_applied ct i a t (Inr ()) t'"
  shows "likes_consistent t'"
  using assms(2) unfolding like_applied_def
proof (elim disjE conjE exE)
  fix t1 assume add: "like_added ct i a t t1" and t': "Inr () = Inr () \<longrightarrow> t' = recounted ct i 1 1 t1"
  have "likes_consistent (recounted ct i 1 1 t1)"
    by (rule recounted_consistent) (use assms(1) like_added_count [OF add] in \<open>auto simp: likes_consistent_def\<close>)
  with t' show ?thesis by simp
qed (use assms(1) in simp)

lemma unlike_applied_consistent:
  assumes "likes_consistent t" "unlike_applied ct i a t (Inr ()) t'"
  shows "likes_consistent t'"
  using assms(2) unfolding unlike_applied_def
proof (elim disjE conjE exE)
  fix t1 assume rm: "like_removed i a t t1" and t': "Inr () = Inr () \<longrightarrow> t' = recounted ct i (- 1) (- 1) t1"
  have "table_wf like_schema (t_likes t)" using assms(1) by (simp add: likes_consistent_def)
  note c = like_removed_count [OF rm this]
  have "likes_consistent (recounted ct i (- 1) (- 1) t1)"
    by (rule recounted_consistent) (use assms(1) c in \<open>auto simp: likes_consistent_def\<close>)
  with t' show ?thesis by simp
qed (use assms(1) in simp)

section \<open>Properties of the worker\<close>

text \<open>
  C21. Processing a like or unlike message to the end keeps the counters right: if every video's
  likes count was the number of its likes, and nobody likes a video twice, then so it is after the
  worker has returned nil, whatever the message.
\<close>

theorem LikeWorker_keeps_counts:
  assumes "host_ok H" "gorm_ok G" "likes_consistent (tabs w)"
    and "run_state (LikeWorker_process H G G b) w = (Inr (), w')"
  shows "likes_consistent (tabs w')"
  using wp_runD [OF LikeWorker_process_post [OF assms(1,2)] assms(4)] assms(3)
  by (auto split: option.splits if_splits intro: like_applied_consistent unlike_applied_consistent)

text \<open>
  The like worker is idempotent: once a message was processed successfully, processing it
  again, any number of times and with any failures, changes no table.
\<close>

theorem LikeWorker_idempotent:
  assumes "host_ok H" "gorm_ok G" "run_state (LikeWorker_process H G G b) w = (Inr (), w1)"
    and "redelivered (LikeWorker_process H G G b) w1 w'"
  shows "tabs w' = tabs w1"
  using like_worker.redelivery_is_harmless [of "(H, G)" b w w1 w'] assms by (simp add: like_env_ok_def)

section \<open>The service\<close>

lemma videos_update_consistent:
  assumes "table_wf like_schema (t_likes t)" "\<And>v. v_ID (f v) = v_ID v"
    and "\<And>v. v \<in> set (t_videos t) \<Longrightarrow> (if P v then v_LikesCount (f v) else v_LikesCount v) = count_likes (v_ID v) t"
  shows "likes_consistent (t_videos_update (update_rows P (\<lambda>v. col video_schema ct (f v))) t)"
proof -
  have same: "count_likes j (t_videos_update (update_rows P (\<lambda>v. col video_schema ct (f v))) t) = count_likes j t" for j
    by (simp add: count_likes_def)
  have step: "v_LikesCount (f v) = count_likes (v_ID v) t" if "v \<in> set (t_videos t)" "P v" for v
    using assms(3) [OF that(1)] that(2) by simp
  have keep: "v_LikesCount v = count_likes (v_ID v) t" if "v \<in> set (t_videos t)" "\<not> P v" for v
    using assms(3) [OF that(1)] that(2) by simp
  show ?thesis
    unfolding likes_consistent_def same
    using assms(1) step keep by (simp add: ball_update_rows video_schema_def assms(2))
qed

lemma wp_video_update:
  assumes G: "gorm_ok G" and f: "\<And>v. v_ID (f v) = v_ID v"
    and "\<And>e w'. sql_frame w w' \<Longrightarrow> Q (Inl e) w'"
    and "\<And>n w'. sql_frame w w' \<Longrightarrow> tabs w' = t_videos_update (update_rows P (\<lambda>v. col video_schema (db_col_time G) (f v))) (tabs w) \<Longrightarrow> Q (Inr n) w'"
  shows "wp (db_updates (db_videos G) P f) Q w"
proof (rule wp_mono [OF video_update_post [OF G f]])
  fix r :: "int res" and w' assume "sql_frame w w' \<and> same_likes (tabs w) (tabs w') \<and> (\<forall>n. r = Inr n \<longrightarrow>
    tabs w' = t_videos_update (update_rows P (\<lambda>v. col video_schema (db_col_time G) (f v))) (tabs w))"
  then show "Q r w'" using assms(3,4) by (cases r) auto
qed

lemma popularity_step:
  assumes G: "gorm_ok G" and f: "\<And>v. v_ID (f v) = v_ID v \<and> v_LikesCount (f v) = v_LikesCount v"
    and w1: "sql_frame w w1" "likes_consistent (tabs w1)"
  shows "wp (bindE (db_updates (db_videos G) P f) (\<lambda>_. ok ())) (\<lambda>r w'. sql_frame w w' \<and> (r = Inr () \<longrightarrow> likes_consistent (tabs w'))) w1"
proof -
  have "likes_consistent (t_videos_update (update_rows P (\<lambda>v. col video_schema (db_col_time G) (f v))) (tabs w1))"
    by (rule videos_update_consistent) (use w1(2) f in \<open>auto simp: likes_consistent_def\<close>)
  then show ?thesis
    unfolding wp_bindE by (intro wp_video_update [OF G]) (use f w1 in \<open>auto simp: wp_return intro: sql_frame_trans\<close>)
qed

lemma like_tx_post:
  assumes G: "gorm_ok G" and l: "l_ID l = 0" and c: "likes_consistent (tabs w)"
  shows "wp (like_tx G l) (\<lambda>r w'. sql_frame w w' \<and> (r = Inr () \<longrightarrow> likes_consistent (tabs w'))) w" (is "wp _ ?Q w")
proof -
  let ?i = "l_VideoID l" and ?a = "l_AccountID l"
  let ?pop = "bindE (db_updates (db_videos G) (\<lambda>v. v_ID v = ?i) (\<lambda>v. v\<lparr>v_Popularity := v_Popularity v + 1\<rparr>)) (\<lambda>_. ok ())"
  let ?cnt = "bindE (db_updates (db_videos G) (\<lambda>v. v_ID v = ?i) (\<lambda>v. v\<lparr>v_LikesCount := v_LikesCount v + 1\<rparr>)) (\<lambda>_. ?pop)"
  have wf: "table_wf like_schema (t_likes (tabs w))" using c by (simp add: likes_consistent_def)
  have cnt: "wp ?cnt ?Q w2" if w2: "sql_frame w w2" "like_added (db_col_time G) ?i ?a (tabs w) (tabs w2)" for w2
  proof -
    note added = like_added_count [OF w2(2)]
    have "likes_consistent (t_videos_update (update_rows (\<lambda>v. v_ID v = ?i) (\<lambda>v. col video_schema (db_col_time G)
        (v\<lparr>v_LikesCount := v_LikesCount v + 1\<rparr>))) (tabs w2))"
      by (rule videos_update_consistent) (use added wf c in \<open>auto simp: likes_consistent_def\<close>)
    then show ?thesis
      unfolding wp_bindE [of "db_updates (db_videos G) (\<lambda>v. v_ID v = ?i) (\<lambda>v. v\<lparr>v_LikesCount := v_LikesCount v + 1\<rparr>)"]
      by (intro wp_video_update [OF G]) (use w2(1) in \<open>auto intro!: popularity_step [OF G] intro: sql_frame_trans\<close>)
  qed
  have create: "wp (db_create (db_likes G) l) (\<lambda>r. wp (case r of
      Inl err \<Rightarrow> if IsDupKey err then throw (ErrNew ''user has liked this video'') else throw err | Inr _ \<Rightarrow> ?cnt) ?Q) w1"
    if w1: "sql_frame w w1" "tabs w1 = tabs w" for w1
    by (rule wp_create_like [OF G l]) (use w1 cnt in \<open>auto simp: wp_return intro: sql_frame_trans\<close>)
  show ?thesis
    unfolding like_tx_def wp_bind
    by (rule wp_first [OF videos_ok [OF G]]) (use create in \<open>auto simp: wp_return wp_bind quiet_iff\<close>)
qed

lemma unlike_tx_post:
  assumes G: "gorm_ok G" and c: "likes_consistent (tabs w)"
  shows "wp (unlike_tx G l) (\<lambda>r w'. sql_frame w w' \<and> (r = Inr () \<longrightarrow> likes_consistent (tabs w'))) w" (is "wp _ ?Q w")
proof -
  let ?i = "l_VideoID l" and ?a = "l_AccountID l"
  let ?pop = "bindE (db_updates (db_videos G) (\<lambda>v. v_ID v = ?i \<and> v_Popularity v > 0) (\<lambda>v. v\<lparr>v_Popularity := v_Popularity v - 1\<rparr>)) (\<lambda>_. ok ())"
  let ?upd = "db_updates (db_videos G) (\<lambda>v. v_ID v = ?i \<and> v_LikesCount v > 0) (\<lambda>v. v\<lparr>v_LikesCount := v_LikesCount v - 1\<rparr>)"
  have wf: "table_wf like_schema (t_likes (tabs w))" using c by (simp add: likes_consistent_def)
  have cnt: "wp (bindE ?upd (\<lambda>_. ?pop)) ?Q w2" if w2: "sql_frame w w2" "like_removed ?i ?a (tabs w) (tabs w2)" for w2
  proof -
    note removed = like_removed_count [OF w2(2) wf]
    have "0 \<le> count_likes ?i (tabs w2)" by (simp add: count_likes_def)
    with removed(1) [of ?i] have "count_likes ?i (tabs w) > 0" by simp
    with removed c have "likes_consistent (t_videos_update (update_rows (\<lambda>v. v_ID v = ?i \<and> v_LikesCount v > 0) (\<lambda>v. col video_schema (db_col_time G)
        (v\<lparr>v_LikesCount := v_LikesCount v - 1\<rparr>))) (tabs w2))"
      by (intro videos_update_consistent) (auto simp: likes_consistent_def)
    then show ?thesis
      unfolding wp_bindE [of ?upd]
      by (intro wp_video_update [OF G]) (use w2(1) in \<open>auto intro!: popularity_step [OF G] intro: sql_frame_trans\<close>)
  qed
  show ?thesis
    unfolding unlike_tx_def wp_bindE [of "db_delete (db_likes G) (is_like ?i ?a)"]
    by (rule wp_delete_like [OF G]) (use cnt in \<open>auto simp: wp_return\<close>)
qed

lemma fallback_keeps:
  assumes H: "host_ok H" and G: "gorm_ok (ls_likeRepo s)" and C: "cache_redis_ok (ls_cache s)"
    and P: "mq_ptr_ok (ls_popularityMQ s)" and send: "\<And>w. wp send (\<lambda>r w'. mq_frame w w') w"
    and tx: "\<And>w. I (tabs w) \<Longrightarrow> wp tx (\<lambda>r w'. r = Inr () \<longrightarrow> I (tabs w')) w" and I: "I (tabs w)"
  shows "wp (like_or_fallback H s i c send tx) (\<lambda>r w'. I (tabs w')) w"
  unfolding like_or_fallback_def
  by (rule enqueue_or_fallback_keeps [where I = I, OF H C P send _ I], rule wp_transaction_keeps [where I = I, OF G tx])

definition like_service_ok :: "'x like_service \<Rightarrow> bool" where
  "like_service_ok s \<longleftrightarrow> gorm_ok (ls_likeRepo s) \<and> (\<forall>db. ls_videoRepo s = Some db \<longrightarrow> gorm_ok db) \<and>
     cache_redis_ok (ls_cache s) \<and> mq_ptr_ok (ls_likeMQ s) \<and> mq_ptr_ok (ls_popularityMQ s)"

lemma wp_check_video:
  assumes "\<And>db. repo = Some db \<Longrightarrow> gorm_ok db" "\<And>r w'. quiet w w' \<Longrightarrow> Q r w'"
  shows "wp (check_video repo i) Q w"
  using assms
  by (auto simp: check_video_def wp_return wp_bindE quiet_iff intro!: wp_IsExist split: option.splits)

lemma wp_IsLiked:
  assumes "gorm_ok G" "\<And>r w'. quiet w w' \<Longrightarrow> Q r w'"
  shows "wp (LikeRepo_IsLiked G i a) Q w"
  unfolding LikeRepo_IsLiked_def wp_bindE
  by (rule wp_count [OF likes_ok [OF assms(1)]]) (use assms in \<open>auto simp: wp_return split: sum.splits\<close>)

text \<open>What both requests share: whatever happens, the counters agree with the likes.\<close>

lemma like_request_keeps:
  assumes s: "like_service_ok s" and c: "likes_consistent (tabs w)"
    and go: "\<And>isLiked w'. likes_consistent (tabs w') \<Longrightarrow> wp (body isLiked) (\<lambda>_ w'. likes_consistent (tabs w')) w'"
  shows "wp (bindE (check_video (ls_videoRepo s) i) (\<lambda>_. bindE (LikeRepo_IsLiked (ls_likeRepo s) i a) body))
    (\<lambda>_ w'. likes_consistent (tabs w')) w"
  unfolding wp_bindE
  by (rule wp_check_video, use s in \<open>simp add: like_service_ok_def\<close>)
    (use s c go in \<open>auto simp: like_service_ok_def quiet_iff intro!: wp_IsLiked split: sum.splits\<close>)

lemma like_tx_keeps: "gorm_ok G \<Longrightarrow> l_ID l = 0 \<Longrightarrow> likes_consistent (tabs w) \<Longrightarrow>
    wp (like_tx G l) (\<lambda>r w'. r = Inr () \<longrightarrow> likes_consistent (tabs w')) w"
  by (rule wp_mono [OF like_tx_post]) auto

lemma unlike_tx_keeps: "gorm_ok G \<Longrightarrow> likes_consistent (tabs w) \<Longrightarrow>
    wp (unlike_tx G l) (\<lambda>r w'. r = Inr () \<longrightarrow> likes_consistent (tabs w')) w"
  by (rule wp_mono [OF unlike_tx_post]) auto

lemma LikeService_Like_keeps:
  assumes H: "host_ok H" and s: "like_service_ok s" and l: "\<And>x. l = Some x \<Longrightarrow> l_ID x = 0" and c: "likes_consistent (tabs w)"
  shows "wp (LikeService_Like H s l) (\<lambda>_ w'. likes_consistent (tabs w')) w"
proof (cases l)
  case None
  with c show ?thesis by (simp add: LikeService_Like_def wp_return)
next
  case (Some x)
  note k = s [unfolded like_service_ok_def]
  have send: "wp (LikeMQ_Like H (ls_likeMQ s) u v) (\<lambda>r w'. mq_frame w w') w" for u v w
    unfolding LikeMQ_Like_def using k by (intro LikeMQ_frame [OF H]) simp
  have go: "wp (if isLiked then throw (ErrNew ''user has liked this video'') else do {
           now \<leftarrow> time_Now H;
           like_or_fallback H s (l_VideoID x) 1 (LikeMQ_Like H (ls_likeMQ s) (l_AccountID x) (l_VideoID x))
             (like_tx (ls_likeRepo s) (x\<lparr>l_CreatedAt := now\<rparr>))}) (\<lambda>_ w'. likes_consistent (tabs w')) w1"
    if "likes_consistent (tabs w1)" for isLiked w1
  proof (cases isLiked)
    case True
    with that show ?thesis by (simp add: wp_return)
  next
    case False
    have "wp (time_Now H) (\<lambda>now. wp (like_or_fallback H s (l_VideoID x) 1 (LikeMQ_Like H (ls_likeMQ s) (l_AccountID x) (l_VideoID x))
        (like_tx (ls_likeRepo s) (x\<lparr>l_CreatedAt := now\<rparr>))) (\<lambda>_ w'. likes_consistent (tabs w'))) w1"
      by (rule wp_time_Now [OF H], rule fallback_keeps [OF H _ _ _ send], simp_all add: k l Some like_tx_keeps that quiet_iff)
    with False show ?thesis by (simp add: wp_bind)
  qed
  show ?thesis
    using like_request_keeps [OF s c go] c by (simp add: Some LikeService_Like_def wp_return)
qed

lemma LikeService_Unlike_keeps:
  assumes H: "host_ok H" and s: "like_service_ok s" and c: "likes_consistent (tabs w)"
  shows "wp (LikeService_Unlike H s l) (\<lambda>_ w'. likes_consistent (tabs w')) w"
proof (cases l)
  case None
  with c show ?thesis by (simp add: LikeService_Unlike_def wp_return)
next
  case (Some x)
  note k = s [unfolded like_service_ok_def]
  have send: "wp (LikeMQ_Unlike H (ls_likeMQ s) u v) (\<lambda>r w'. mq_frame w w') w" for u v w
    unfolding LikeMQ_Unlike_def using k by (intro LikeMQ_frame [OF H]) simp
  have go: "wp (if \<not> isLiked then throw (ErrNew ''user has not liked this video'')
      else like_or_fallback H s (l_VideoID x) (- 1) (LikeMQ_Unlike H (ls_likeMQ s) (l_AccountID x) (l_VideoID x))
        (unlike_tx (ls_likeRepo s) x)) (\<lambda>_ w'. likes_consistent (tabs w')) w1"
    if "likes_consistent (tabs w1)" for isLiked w1
    using that k by (auto simp: wp_return unlike_tx_keeps intro!: fallback_keeps [OF H _ _ _ send])
  show ?thesis
    using like_request_keeps [OF s c go] c by (simp add: Some LikeService_Unlike_def wp_return)
qed

text \<open>
  C20. A like or unlike request keeps every video's likes count equal to the number of its likes,
  whichever of the two queues, the transaction or the cache fail on the way, and whatever the
  request is.
\<close>

theorem LikeHandler_keeps_counts:
  assumes "host_ok H" "like_service_ok s" "likes_consistent (tabs w)"
    and "run_state (LikeHandler_Like H s bound c) w = (r, w') \<or> run_state (LikeHandler_Unlike H s bound c) w = (r, w')"
  shows "likes_consistent (tabs w')"
proof -
  have "wp (LikeHandler_Like H s bound c) (\<lambda>_ w'. likes_consistent (tabs w')) w"
    using assms(3) by (auto simp: LikeHandler_Like_def wp_simps intro!: wp_mono [OF LikeService_Like_keeps [OF assms(1,2)]] split: sum.splits)
  moreover have "wp (LikeHandler_Unlike H s bound c) (\<lambda>_ w'. likes_consistent (tabs w')) w"
    using assms(3) by (auto simp: LikeHandler_Unlike_def wp_simps intro!: wp_mono [OF LikeService_Unlike_keeps [OF assms(1,2)]] split: sum.splits)
  ultimately show ?thesis using assms(4) by (auto dest: wp_runD)
qed

section \<open>Examples\<close>

definition liked_video :: video where
  "liked_video = sample_video\<lparr>v_ID := 1\<rparr>"

definition like_evt :: like_event where
  "like_evt = \<lparr>le_EventID = ''e'', le_Action = ''like'', le_UserID = 5, le_VideoID = 1, le_OccurredAt = 0\<rparr>"

definition like_host :: "ref_hid host" where
  "like_host = ref_host [(like_evt, ''L'')] [] [] [] [] []"

lemma like_host_ok: "host_ok like_host"
  unfolding like_host_def by (rule ref_host_ok) auto

text \<open>The worker's run on this message from a state with one video and no like.\<close>

definition like_world :: "fault list \<Rightarrow> ref_world" where
  "like_world fs = ref_start fs (no_tables\<lparr>t_videos := [liked_video]\<rparr>)"

definition like_run :: "ref_world \<Rightarrow> unit res \<times> ref_world" where
  "like_run = run_state (LikeWorker_process like_host ref_gorm ref_gorm ''L'')"

lemmas like_run_defs = like_run_def LikeWorker_process_def applyLike_def IsExist_def LikeIgnoreDuplicate_def
  ChangeLikesCount_def ChangePopularity_def bindE_def like_world_def like_host_def like_evt_def ref_defs Let_def
  liked_video_def sample_video_def update_rows_def table_wf_def IsZero_def time_zero_def

lemma like_world_consistent: "likes_consistent (tabs (like_world fs))"
  by (simp add: likes_consistent_def count_likes_def table_wf_def like_world_def ref_start_def no_tables_def
      liked_video_def sample_video_def)

lemma like_run_fine: "fst (like_run (like_world [])) = Inr ()"
  by (simp add: like_run_defs)

theorem LikeWorker_keeps_counts_witness:
  "likes_consistent (tabs (snd (like_run (like_world []))))"
  using LikeWorker_keeps_counts [OF like_host_ok ref_gorm_ok like_world_consistent, of "''L''" "[]" "snd (like_run (like_world []))"]
    like_run_fine prod.collapse [of "like_run (like_world [])"] by (simp add: like_run_def)

theorem LikeWorker_idempotent_witness:
  "tabs (snd (like_run (snd (like_run (like_world []))))) = tabs (snd (like_run (like_world [])))"
proof -
  let ?w1 = "snd (like_run (like_world []))"
  have run: "run_state (LikeWorker_process like_host ref_gorm ref_gorm ''L'') (like_world []) = (Inr (), ?w1)"
    using like_run_fine prod.collapse [of "like_run (like_world [])"] by (simp add: like_run_def)
  have "redelivered (LikeWorker_process like_host ref_gorm ref_gorm ''L'') ?w1 (snd (like_run ?w1))"
    by (rule redelivered.again [OF redelivered.none refl, of _ _ "fst (like_run ?w1)"]) (simp add: like_run_def)
  from LikeWorker_idempotent [OF like_host_ok ref_gorm_ok run this] show ?thesis .
qed


definition like_service_sample :: "ref_hid like_service" where
  "like_service_sample = \<lparr>ls_likeRepo = ref_gorm, ls_videoRepo = Some ref_gorm, ls_cache = ref_cache, ls_likeMQ = None,
     ls_popularityMQ = None\<rparr>"

text \<open>The second update of the transaction fails, and the like is rolled back.\<close>

theorem LikeHandler_keeps_counts_witness:
  "let w' = snd (run_state (LikeHandler_Like like_host like_service_sample (Inr 1) [''accountID'' \<mapsto> GUint 5])
     (like_world [Fine, Fine, Fine, Fine, Fails ''gone''])) in likes_consistent (tabs w')"
proof -
  have "like_service_ok like_service_sample"
    by (simp add: like_service_ok_def like_service_sample_def ref_gorm_ok ref_cache_ok mq_ptr_ok_def)
  from LikeHandler_keeps_counts [OF like_host_ok this like_world_consistent] show ?thesis
    by (metis prod.collapse)
qed

end
