(* ===== verification/Comment.thy ===== *)
theory Comment
  imports Like
begin

text \<open>
  \<open>internal/api/comment\<close> and \<open>internal/worker/comment\_worker.go\<close>: a comment is sent to a queue and
  stored by a worker, which tells deliveries apart by the event identifier; when the publish fails
  the service stores the comment itself.
\<close>

section \<open>repo.go\<close>

definition CommentRepo_FindByID :: "'x gorm \<Rightarrow> uint \<Rightarrow> ('x, comment option res) io" where
  "CommentRepo_FindByID db commentID = do {
     r \<leftarrow> db_first (db_comments db) (\<lambda>c. c_ID c = commentID);
     (case r of
        Inl err \<Rightarrow> if err = ErrRecordNotFound then ok None else throw err
      | Inr c \<Rightarrow> ok (Some c))}"

text \<open>\<open>db.Delete(comment)\<close>: by the primary key, which must not be zero.\<close>

definition CommentRepo_DeleteComment :: "'x gorm \<Rightarrow> comment \<Rightarrow> ('x, unit res) io" where
  "CommentRepo_DeleteComment db comment =
     (if c_ID comment = 0 then throw (ErrNew ''WHERE conditions required'')
      else bindE (db_delete (db_comments db) (\<lambda>c. c_ID c = c_ID comment)) (\<lambda>_. ok ()))"

definition CommentRepo_ListAllComments :: "'x gorm \<Rightarrow> uint \<Rightarrow> ('x, comment list res) io" where
  "CommentRepo_ListAllComments db videoID =
     db_find (db_comments db) (\<lambda>c. c_VideoID c = videoID) (\<lambda>a b. c_CreatedAt b \<le> c_CreatedAt a) 200"

definition CommentRepo_CreateComment :: "'x gorm \<Rightarrow> comment \<Rightarrow> ('x, unit res) io" where
  "CommentRepo_CreateComment db comment = bindE (db_create (db_comments db) comment) (\<lambda>_. ok ())"

definition CreateCommentIgnoreDuplicate :: "'x gorm \<Rightarrow> comment option \<Rightarrow> ('x, bool res) io" where
  "CreateCommentIgnoreDuplicate db c = (case c of
     None \<Rightarrow> ok False
   | Some comment \<Rightarrow>
       if c_EventID comment = '''' then ok False
       else do {
         r \<leftarrow> db_create (db_comments db) comment;
         (case r of
            Inr _ \<Rightarrow> ok True
          | Inl err \<Rightarrow> if IsDupKey err then ok False else throw err)})"

definition CommentRepo_GetByID :: "'x gorm \<Rightarrow> uint \<Rightarrow> ('x, comment option res) io" where
  "CommentRepo_GetByID db i = do {
     r \<leftarrow> db_first (db_comments db) (\<lambda>c. c_ID c = i);
     (case r of
        Inl err \<Rightarrow> if err = ErrRecordNotFound then ok None else throw err
      | Inr c \<Rightarrow> ok (Some c))}"

section \<open>service.go\<close>

record 'x comment_service =
  cs_commentRepo :: "'x gorm"
  cs_videoRepo :: "'x gorm"
  cs_cache :: "'x cache"
  cs_commentMQ :: "'x mq_ptr"
  cs_popularityMQ :: "'x mq_ptr"

definition comment_tx :: "'x gorm \<Rightarrow> comment \<Rightarrow> ('x, unit res) io" where
  "comment_tx tx comment = do {
     r \<leftarrow> db_first (db_videos tx) (\<lambda>v. v_ID v = c_VideoID comment);
     (case r of
        Inl err \<Rightarrow> if err = ErrRecordNotFound then throw (ErrNew ''video not found'') else throw err
      | Inr _ \<Rightarrow>
          bindE (db_create (db_comments tx) comment) (\<lambda>_.
          bindE (db_updates (db_videos tx) (\<lambda>v. v_ID v = c_VideoID comment)
              (\<lambda>v. v\<lparr>v_Popularity := v_Popularity v + 1\<rparr>)) (\<lambda>_. ok ())))}"

definition comment_fallback :: "'x host \<Rightarrow> 'x gorm \<Rightarrow> comment \<Rightarrow> ('x, unit res) io" where
  "comment_fallback H db comment =
     bindE (RandHex H 16) (\<lambda>eventID. db_transaction db (comment_tx db (comment\<lparr>c_EventID := ''mock:'' @ eventID\<rparr>)))"

definition CommentService_Publish :: "'x host \<Rightarrow> 'x comment_service \<Rightarrow> comment option \<Rightarrow> ('x, unit res) io" where
  "CommentService_Publish H s c0 = (case c0 of
     None \<Rightarrow> throw (ErrNew ''comment is nil'')
   | Some c1 \<Rightarrow>
       let comment = c1\<lparr>c_Username := TrimSpace (c_Username c1), c_Content := TrimSpace (c_Content c1)\<rparr> in
       if c_VideoID comment = 0 \<or> c_AuthorID comment = 0 then throw (ErrNew ''video_id and author_id are required'')
       else if c_Content comment = '''' then throw (ErrNew ''content is required'')
       else
         bindE (IsExist (cs_videoRepo s) (c_VideoID comment)) (\<lambda>exists.
         if \<not> exists then throw (ErrNew ''video not found'')
         else enqueue_or_fallback H (cs_commentMQ s) (cs_popularityMQ s) (cs_cache s) (c_VideoID comment) 1
           (CommentMQ_Publish H (cs_commentMQ s) (c_Username comment) (c_VideoID comment) (c_AuthorID comment) (c_Content comment))
           (comment_fallback H (cs_commentRepo s) comment)))"

definition CommentService_Delete :: "'x host \<Rightarrow> 'x comment_service \<Rightarrow> uint \<Rightarrow> uint \<Rightarrow> ('x, unit res) io" where
  "CommentService_Delete H s commentID accountID =
     bindE (CommentRepo_FindByID (cs_commentRepo s) commentID) (\<lambda>found. (case found of
       None \<Rightarrow> throw (ErrNew ''comment not found'')
     | Some comment \<Rightarrow>
         if c_AuthorID comment \<noteq> accountID then throw ErrUnauthorized
         else do {
           sent \<leftarrow> enqueued (cs_commentMQ s) (CommentMQ_Delete H (cs_commentMQ s) commentID);
           (if sent then ok () else CommentRepo_DeleteComment (cs_commentRepo s) comment)}))"

definition CommentService_ListAll :: "'x comment_service \<Rightarrow> uint \<Rightarrow> ('x, comment list res) io" where
  "CommentService_ListAll s videoID =
     bindE (IsExist (cs_videoRepo s) videoID) (\<lambda>exists.
     if \<not> exists then throw (ErrNew ''video not found'')
     else CommentRepo_ListAllComments (cs_commentRepo s) videoID)"

section \<open>comment\_worker.go\<close>

record 'x comment_worker =
  cw_ch :: "'x channel option"
  cw_commentRepo :: "'x gorm option"
  cw_videoRepo :: "'x gorm option"
  cw_queue :: string

definition event_comment :: "comment_event \<Rightarrow> comment" where
  "event_comment evt = \<lparr>c_ID = 0, c_EventID = ce_EventID evt, c_Username = TrimSpace (ce_Username evt),
     c_VideoID = ce_VideoID evt, c_AuthorID = ce_AuthorID evt, c_Content = TrimSpace (ce_Content evt), c_CreatedAt = time_zero\<rparr>"

definition applyPublish :: "'x gorm \<Rightarrow> 'x gorm \<Rightarrow> comment_event \<Rightarrow> ('x, unit res) io" where
  "applyPublish commentRepo videoRepo evt =
     (if ce_EventID evt = '''' \<or> ce_VideoID evt = 0 \<or> ce_AuthorID evt = 0 \<or> TrimSpace (ce_Content evt) = '''' then ok ()
      else
        bindE (IsExist videoRepo (ce_VideoID evt)) (\<lambda>exists.
        if \<not> exists then ok ()
        else
          bindE (CreateCommentIgnoreDuplicate commentRepo (Some (event_comment evt))) (\<lambda>created.
          if \<not> created then ok ()
          else ChangePopularity videoRepo (ce_VideoID evt) 1)))"

definition applyDelete :: "'x gorm \<Rightarrow> comment_event \<Rightarrow> ('x, unit res) io" where
  "applyDelete commentRepo evt =
     (if ce_CommentID evt = 0 then ok ()
      else bindE (CommentRepo_GetByID commentRepo (ce_CommentID evt)) (\<lambda>c. (case c of
          None \<Rightarrow> ok ()
        | Some comment \<Rightarrow> CommentRepo_DeleteComment commentRepo comment)))"

definition CommentWorker_process :: "'x host \<Rightarrow> 'x gorm \<Rightarrow> 'x gorm \<Rightarrow> string \<Rightarrow> ('x, unit res) io" where
  "CommentWorker_process H commentRepo videoRepo body = (case Unmarshal (json_comment H) body of
     None \<Rightarrow> ok ()
   | Some evt \<Rightarrow>
       if ce_Action evt = ''publish'' then applyPublish commentRepo videoRepo evt
       else if ce_Action evt = ''delete'' then applyDelete commentRepo evt
       else ok ())"

definition CommentWorker_Run :: "'x host \<Rightarrow> 'x comment_worker \<Rightarrow> unit res \<Rightarrow> select_event list \<Rightarrow> ('x, go_error option) io" where
  "CommentWorker_Run H w consumed evs = (case (cw_ch w, cw_commentRepo w, cw_videoRepo w) of
     (Some ch, Some commentRepo, Some videoRepo) \<Rightarrow>
       if cw_queue w = '''' then ret (Some (ErrNew ''queue is required''))
       else consumeWithRetry ch (cw_queue w) consumed
         (\<lambda>d. CommentWorker_process H commentRepo videoRepo (p_Body (d_Pub d))) evs
   | _ \<Rightarrow> ret (Some (ErrNew ''comment worker is not initialized'')))"

section \<open>handler.go\<close>

text \<open>The bound request is the video with the content, the comment, or the video.\<close>

definition CommentHandler_PublishComment :: "'x host \<Rightarrow> 'x comment_service \<Rightarrow> (uint \<times> string) res \<Rightarrow> gin_ctx
    \<Rightarrow> ('x, string reply) io" where
  "CommentHandler_PublishComment H s bound c = (case bound of
     Inl err \<Rightarrow> ret (classified err)
   | Inr (videoID, content) \<Rightarrow>
       if content = '''' then ret (Fail 400 ''content is required'')
       else if videoID = 0 then ret (Fail 400 ''video_id is required'')
       else (case GetAccountID c of
         Inl err \<Rightarrow> ret (classified err)
       | Inr authorID \<Rightarrow> (case GetUsername c of
           Inl err \<Rightarrow> ret (classified err)
         | Inr username \<Rightarrow> do {
             r \<leftarrow> CommentService_Publish H s (Some \<lparr>c_ID = 0, c_EventID = '''', c_Username = username, c_VideoID = videoID,
               c_AuthorID = authorID, c_Content = content, c_CreatedAt = time_zero\<rparr>);
             ret (case r of Inl err \<Rightarrow> classified err | Inr _ \<Rightarrow> Sent ''comment published successfully'')})))"

definition CommentHandler_DeleteComment :: "'x host \<Rightarrow> 'x comment_service \<Rightarrow> uint res \<Rightarrow> gin_ctx \<Rightarrow> ('x, string reply) io" where
  "CommentHandler_DeleteComment H s bound c = (case bound of
     Inl err \<Rightarrow> ret (classified err)
   | Inr commentID \<Rightarrow> (case GetAccountID c of
       Inl err \<Rightarrow> ret (classified err)
     | Inr accountID \<Rightarrow>
         if commentID = 0 then ret (Fail 400 ''comment_id is required'')
         else do {
           r \<leftarrow> CommentService_Delete H s commentID accountID;
           ret (case r of Inl err \<Rightarrow> classified err | Inr _ \<Rightarrow> Sent ''comment deleted successfully'')}))"

definition CommentHandler_ListAllComments :: "'x comment_service \<Rightarrow> uint res \<Rightarrow> ('x, comment list reply) io" where
  "CommentHandler_ListAllComments s bound = (case bound of
     Inl err \<Rightarrow> ret (classified err)
   | Inr videoID \<Rightarrow>
       if videoID = 0 then ret (Fail 400 ''video_id is required'')
       else do {
         r \<leftarrow> CommentService_ListAll s videoID;
         ret (case r of Inl err \<Rightarrow> classified err | Inr comments \<Rightarrow> Sent comments)})"

section \<open>Storing a comment once\<close>

definition has_event :: "string \<Rightarrow> tables \<Rightarrow> bool" where
  "has_event e t \<longleftrightarrow> (\<exists>c \<in> set (t_comments t). c_EventID c = e)"

definition same_comment :: "comment \<Rightarrow> comment \<Rightarrow> bool" where
  "same_comment c x \<longleftrightarrow> c_EventID x = c_EventID c \<and> c_Username x = c_Username c \<and> c_VideoID x = c_VideoID c \<and>
     c_AuthorID x = c_AuthorID c \<and> c_Content x = c_Content c"

definition comment_added :: "comment \<Rightarrow> tables \<Rightarrow> tables \<Rightarrow> bool" where
  "comment_added c t t' \<longleftrightarrow> \<not> has_event (c_EventID c) t \<and> (\<exists>x. same_comment c x \<and> c_ID x \<noteq> 0 \<and>
     c_ID x \<notin> c_ID ` set (t_comments t) \<and> t' = t_comments_update (\<lambda>_. t_comments t @ [x]) t)"

lemma row_added_comment:
  assumes "row_added ct comment_schema t_comments t_comments_update c t t'"
  shows "comment_added c t t'"
proof -
  from assms obtain i now where i: "i \<noteq> 0" "i \<notin> c_ID ` set (t_comments t)"
    and u: "t' = t_comments_update (\<lambda>_. t_comments t @ [col comment_schema ct (fill comment_schema i now c)]) t"
    and new: "\<not> has_event (c_EventID c) t"
    by (auto simp: row_added_def inserted_def has_event_def) (auto simp: comment_schema_def)
  from i u new show ?thesis
    unfolding comment_added_def
    by (intro conjI exI [of _ "col comment_schema ct (fill comment_schema i now c)"]) (auto simp: comment_schema_def same_comment_def)
qed

lemma comment_added_has:
  assumes "comment_added c t t'"
  shows "has_event (c_EventID c) t'" "\<not> has_event (c_EventID c) t" "has_video i t' = has_video i t"
  using assms by (auto simp: comment_added_def has_event_def has_video_def same_comment_def)

lemma wp_create_comment:
  assumes G: "gorm_ok G" and c: "c_ID c = 0"
    and "\<And>e w'. sql_frame w w' \<Longrightarrow> IsDupKey e \<Longrightarrow> tabs w' = tabs w \<Longrightarrow> has_event (c_EventID c) (tabs w) \<Longrightarrow> Q (Inl e) w'"
    and "\<And>e w'. sql_frame w w' \<Longrightarrow> \<not> IsDupKey e \<Longrightarrow> tabs w' = tabs w \<or> comment_added c (tabs w) (tabs w') \<Longrightarrow> Q (Inl e) w'"
    and "\<And>x w'. sql_frame w w' \<Longrightarrow> comment_added c (tabs w) (tabs w') \<Longrightarrow> Q (Inr x) w'"
  shows "wp (db_create (db_comments G) c) Q w"
proof (rule wp_create_cases [OF comments_ok [OF G]])
  show "Q (Inl e) w'" if "sql_frame w w'" "IsDupKey e" "tabs w' = tabs w" "\<exists>y \<in> set (t_comments (tabs w)). clash comment_schema y c" for e w'
    using assms(3) [OF that(1-3)] that(4) by (auto simp: has_event_def comment_schema_def)
qed (use assms(4,5) c in \<open>auto dest: row_added_comment\<close>)

text \<open>The popularity of a video after a comment.\<close>

definition more_popular :: "(time \<Rightarrow> time) \<Rightarrow> uint \<Rightarrow> tables \<Rightarrow> tables" where
  "more_popular ct i t = t_videos_update (update_rows (\<lambda>v. v_ID v = i) (\<lambda>v. col video_schema ct
     (v\<lparr>v_Popularity := max (v_Popularity v + 1) 0\<rparr>))) t"

definition same_comments :: "tables \<Rightarrow> tables \<Rightarrow> bool" where
  "same_comments t t' \<longleftrightarrow> t_comments t' = t_comments t \<and> map v_ID (t_videos t') = map v_ID (t_videos t)"

lemma same_comments_has:
  assumes "same_comments t t'"
  shows "has_event e t' = has_event e t" "has_video i t' = has_video i t"
proof -
  from assms have "v_ID ` set (t_videos t') = v_ID ` set (t_videos t)" by (metis list.set_map same_comments_def)
  then show "has_video i t' = has_video i t" by (simp add: has_video_image)
  show "has_event e t' = has_event e t" using assms by (simp add: has_event_def same_comments_def)
qed

lemma more_popular_post:
  assumes G: "gorm_ok G"
  shows "wp (ChangePopularity G i 1) (\<lambda>r w'. sql_frame w w' \<and> same_comments (tabs w) (tabs w') \<and>
    (r = Inr () \<longrightarrow> tabs w' = more_popular (db_col_time G) i (tabs w))) w"
proof -
  have "map v_ID (update_rows P (\<lambda>v. col video_schema ct (v\<lparr>v_Popularity := f v\<rparr>)) vs) = map v_ID vs" for P f vs ct
    by (rule map_update_rows) (simp add: video_schema_def)
  then show ?thesis
    unfolding ChangePopularity_def wp_bindE more_popular_def
    by (intro wp_updates_simple [OF videos_ok [OF G]]) (auto simp: wp_return maybe_done_def same_comments_def)
qed

text \<open>
  One attempt at a publish event: the tables are as before, and if it succeeded because the
  comment is there or the video is not; or the comment was stored, and if the attempt succeeded
  the popularity follows.
\<close>

definition publish_settled :: "comment_event \<Rightarrow> tables \<Rightarrow> bool" where
  "publish_settled evt t \<longleftrightarrow> (has_video (ce_VideoID evt) t \<longrightarrow> has_event (ce_EventID evt) t)"

definition publish_applied :: "(time \<Rightarrow> time) \<Rightarrow> comment_event \<Rightarrow> tables \<Rightarrow> unit res \<Rightarrow> tables \<Rightarrow> bool" where
  "publish_applied ct evt t r t' \<longleftrightarrow>
     t' = t \<and> (r = Inr () \<longrightarrow> publish_settled evt t) \<or>
     has_video (ce_VideoID evt) t \<and> (\<exists>t1. comment_added (event_comment evt) t t1 \<and> same_comments t1 t' \<and>
       (r = Inr () \<longrightarrow> t' = more_popular ct (ce_VideoID evt) t1))"

definition publish_valid :: "comment_event \<Rightarrow> bool" where
  "publish_valid evt \<longleftrightarrow> ce_EventID evt \<noteq> '''' \<and> ce_VideoID evt \<noteq> 0 \<and> ce_AuthorID evt \<noteq> 0 \<and> TrimSpace (ce_Content evt) \<noteq> ''''"

lemma publish_applied_settles: "publish_applied ct evt t (Inr ()) t' \<Longrightarrow> publish_settled evt t'"
proof -
  have "c_EventID (event_comment evt) = ce_EventID evt" by (simp add: event_comment_def)
  then show "publish_applied ct evt t (Inr ()) t' \<Longrightarrow> publish_settled evt t'"
    by (auto simp: publish_applied_def publish_settled_def same_comments_has dest: comment_added_has)
qed

lemma publish_applied_again: "publish_applied ct evt t r t' \<Longrightarrow> publish_settled evt t \<Longrightarrow> t' = t"
proof -
  have "c_EventID (event_comment evt) = ce_EventID evt" by (simp add: event_comment_def)
  then show "publish_applied ct evt t r t' \<Longrightarrow> publish_settled evt t \<Longrightarrow> t' = t"
    by (auto simp: publish_applied_def publish_settled_def dest: comment_added_has)
qed

lemma publish_applied_same: "t' = t \<Longrightarrow> (r = Inr () \<Longrightarrow> publish_settled evt t) \<Longrightarrow> publish_applied ct evt t r t'"
  by (simp add: publish_applied_def)

lemma publish_applied_added:
  "has_video (ce_VideoID evt) t \<Longrightarrow> comment_added (event_comment evt) t t1 \<Longrightarrow> same_comments t1 t' \<Longrightarrow>
   (r = Inr () \<Longrightarrow> t' = more_popular ct (ce_VideoID evt) t1) \<Longrightarrow> publish_applied ct evt t r t'"
  by (auto simp: publish_applied_def)

lemma same_comments_refl [simp]: "same_comments t t"
  by (simp add: same_comments_def)

lemma applyPublish_post:
  assumes G: "gorm_ok G" and v: "publish_valid evt"
  shows "wp (applyPublish G G evt) (\<lambda>r w'. sql_frame w w' \<and> publish_applied (db_col_time G) evt (tabs w) r (tabs w')) w"
    (is "wp _ ?Q w")
proof -
  let ?i = "ce_VideoID evt" and ?c = "event_comment evt"
  have pop: "wp (ChangePopularity G ?i 1) ?Q w2"
    if "sql_frame w w2" "has_video ?i (tabs w)" "comment_added ?c (tabs w) (tabs w2)" for w2
    by (rule wp_mono [OF more_popular_post [OF G]]) (use that in \<open>auto intro: sql_frame_trans publish_applied_added [OF that(2,3)]\<close>)
  have create: "wp (db_create (db_comments G) ?c) (\<lambda>r s. case r of
      Inr _ \<Rightarrow> wp (ChangePopularity G ?i 1) ?Q s | Inl err \<Rightarrow> if IsDupKey err then ?Q (Inr ()) s else ?Q (Inl err) s) w1"
    if w1: "sql_frame w w1" "tabs w1 = tabs w" and hv: "has_video ?i (tabs w)" for w1
  proof (rule wp_create_comment [OF G], goal_cases)
    case 1
    show ?case by (simp add: event_comment_def)
  next
    case (2 e w')
    with w1 show ?case by (auto simp: publish_settled_def event_comment_def intro: sql_frame_trans publish_applied_same)
  next
    case (3 e w')
    with w1 hv show ?case by (auto intro: sql_frame_trans publish_applied_same publish_applied_added)
  next
    case (4 x w')
    with w1 hv show ?case by (auto intro!: pop intro: sql_frame_trans)
  qed
  have body: "wp (bindE (CreateCommentIgnoreDuplicate G (Some ?c)) (\<lambda>created. if \<not> created then ok () else ChangePopularity G ?i 1)) ?Q w1"
    if "sql_frame w w1" "tabs w1 = tabs w" "has_video ?i (tabs w)" for w1
  proof -
    have "c_EventID ?c \<noteq> ''''" using v by (simp add: event_comment_def publish_valid_def)
    then show ?thesis
      using create [OF that] by (simp add: CreateCommentIgnoreDuplicate_def wp_simps cong: sum.case_cong if_cong)
  qed
  have "wp (bindE (IsExist G ?i) (\<lambda>exists. if \<not> exists then ok () else bindE (CreateCommentIgnoreDuplicate G (Some ?c))
      (\<lambda>created. if \<not> created then ok () else ChangePopularity G ?i 1))) ?Q w"
    unfolding wp_bindE [of "IsExist G ?i"]
  proof (rule wp_IsExist [OF G], goal_cases)
    case (1 e w')
    then show ?case by (auto simp: quiet_iff intro: publish_applied_same)
  next
    case (2 w')
    then show ?case by (simp add: quiet_iff body)
  next
    case (3 w')
    then show ?case by (auto simp: wp_return quiet_iff publish_settled_def intro: publish_applied_same)
  qed
  with v show ?thesis by (simp add: applyPublish_def publish_valid_def)
qed

section \<open>Deleting a comment\<close>

definition without_comment :: "uint \<Rightarrow> tables \<Rightarrow> tables" where
  "without_comment i t = t_comments_update (delete_rows (\<lambda>c. c_ID c = i)) t"

definition delete_settled :: "uint \<Rightarrow> tables \<Rightarrow> bool" where
  "delete_settled i t \<longleftrightarrow> (\<forall>c \<in> set (t_comments t). c_ID c \<noteq> i)"

lemma without_comment_settled: "delete_settled i (without_comment i t)"
  by (auto simp: delete_settled_def without_comment_def delete_rows_def)

lemma DeleteComment_post:
  assumes "gorm_ok G"
  shows "wp (CommentRepo_DeleteComment G c) (\<lambda>r w'. sql_frame w w' \<and>
    (tabs w' = tabs w \<and> r \<noteq> Inr () \<or> tabs w' = without_comment (c_ID c) (tabs w))) w"
  unfolding CommentRepo_DeleteComment_def without_comment_def
  by (auto simp: wp_return wp_bindE maybe_done_def intro!: wp_delete_cases [OF comments_ok [OF assms]])

lemma wp_find_comment:
  assumes "gorm_ok G"
    and "\<And>e w'. quiet w w' \<Longrightarrow> Q (Inl e) w'"
    and "\<And>w'. quiet w w' \<Longrightarrow> delete_settled i (tabs w) \<Longrightarrow> Q (Inr None) w'"
    and "\<And>c w'. quiet w w' \<Longrightarrow> c \<in> set (t_comments (tabs w)) \<Longrightarrow> c_ID c = i \<Longrightarrow> Q (Inr (Some c)) w'"
  shows "wp (CommentRepo_FindByID G i) Q w" "wp (CommentRepo_GetByID G i) Q w"
  unfolding CommentRepo_FindByID_def CommentRepo_GetByID_def wp_bind
  by (rule wp_first [OF comments_ok [OF assms(1)]]; use assms in \<open>auto simp: wp_return delete_settled_def\<close>)+

definition delete_applied :: "uint \<Rightarrow> tables \<Rightarrow> unit res \<Rightarrow> tables \<Rightarrow> bool" where
  "delete_applied i t r t' \<longleftrightarrow> t' = t \<and> (r = Inr () \<longrightarrow> delete_settled i t) \<or> t' = without_comment i t \<and> \<not> delete_settled i t"

lemma applyDelete_post:
  assumes G: "gorm_ok G" and i: "ce_CommentID evt \<noteq> 0"
  shows "wp (applyDelete G evt) (\<lambda>r w'. sql_frame w w' \<and> delete_applied (ce_CommentID evt) (tabs w) r (tabs w')) w"
    (is "wp _ ?Q w")
proof -
  have del: "wp (CommentRepo_DeleteComment G c) ?Q w1"
    if "quiet w w1" "c \<in> set (t_comments (tabs w))" "c_ID c = ce_CommentID evt" for c w1
    by (rule wp_mono [OF DeleteComment_post [OF G]])
      (use that in \<open>auto simp: quiet_iff delete_applied_def delete_settled_def intro: sql_frame_trans\<close>)
  have "wp (CommentRepo_GetByID G (ce_CommentID evt)) (\<lambda>r s. case r of Inl e \<Rightarrow> ?Q (Inl e) s
      | Inr c \<Rightarrow> wp (case c of None \<Rightarrow> ok () | Some comment \<Rightarrow> CommentRepo_DeleteComment G comment) ?Q s) w"
    by (rule wp_find_comment(2) [OF G]) (use del in \<open>auto simp: wp_return quiet_iff delete_applied_def\<close>)
  with i show ?thesis by (simp add: applyDelete_def wp_bindE)
qed

section \<open>The worker\<close>

definition comment_message :: "'x host \<Rightarrow> string \<Rightarrow> (comment_event + uint) option" where
  "comment_message H b = (case Unmarshal (json_comment H) b of
     None \<Rightarrow> None
   | Some e \<Rightarrow>
       if ce_Action e = ''publish'' then if publish_valid e then Some (Inl e) else None
       else if ce_Action e = ''delete'' \<and> ce_CommentID e \<noteq> 0 then Some (Inr (ce_CommentID e))
       else None)"

definition comment_message_settled :: "'x host \<times> 'x gorm \<Rightarrow> string \<Rightarrow> tables \<Rightarrow> bool" where
  "comment_message_settled E b t = (case comment_message (fst E) b of
     None \<Rightarrow> True | Some (Inl e) \<Rightarrow> publish_settled e t | Some (Inr i) \<Rightarrow> delete_settled i t)"

lemma CommentWorker_process_post:
  assumes "gorm_ok G"
  shows "wp (CommentWorker_process H G G b) (\<lambda>r w'. sql_frame w w' \<and> (case comment_message H b of
      None \<Rightarrow> tabs w' = tabs w
    | Some (Inl e) \<Rightarrow> publish_applied (db_col_time G) e (tabs w) r (tabs w')
    | Some (Inr i) \<Rightarrow> delete_applied i (tabs w) r (tabs w'))) w"
proof (cases "Unmarshal (json_comment H) b")
  case None
  then show ?thesis by (simp add: CommentWorker_process_def comment_message_def wp_return)
next
  case (Some e)
  have "\<not> publish_valid e \<Longrightarrow> applyPublish G G e = ok ()" by (auto simp: applyPublish_def publish_valid_def)
  moreover have "ce_CommentID e = 0 \<Longrightarrow> applyDelete G e = ok ()" by (simp add: applyDelete_def)
  ultimately show ?thesis
    using Some applyPublish_post [OF assms, of e w] applyDelete_post [OF assms, of e w]
    by (auto simp: CommentWorker_process_def comment_message_def wp_return)
qed

interpretation comment_worker: idempotent_consumer like_env_ok "\<lambda>E. CommentWorker_process (fst E) (snd E) (snd E)"
    comment_message_settled
proof
  fix E :: "'x host \<times> 'x gorm" and b w r w'
  assume "like_env_ok E"
  then have "gorm_ok (snd E)" by (simp add: like_env_ok_def)
  note post = CommentWorker_process_post [OF this, of "fst E" b]
  show "comment_message_settled E b (tabs w')" if "run_state (CommentWorker_process (fst E) (snd E) (snd E) b) w = (Inr (), w')"
    using wp_runD [OF post that]
    by (auto simp: comment_message_settled_def delete_applied_def without_comment_settled split: option.splits sum.splits
        dest: publish_applied_settles)
  show "tabs w' = tabs w" if "comment_message_settled E b (tabs w)" "run_state (CommentWorker_process (fst E) (snd E) (snd E) b) w = (r, w')"
    using wp_runD [OF post that(2)] that(1)
    by (auto simp: comment_message_settled_def delete_applied_def split: option.splits sum.splits dest: publish_applied_again)
qed

text \<open>
  The comment worker is idempotent: once a publish or delete message was processed
  successfully, processing it again, any number of times and with any failures, changes no table;
  a comment that is delivered twice is stored once.
\<close>

theorem CommentWorker_idempotent:
  assumes "host_ok H" "gorm_ok G" "run_state (CommentWorker_process H G G b) w = (Inr (), w1)"
    and "redelivered (CommentWorker_process H G G b) w1 w'"
  shows "tabs w' = tabs w1"
  using comment_worker.redelivery_is_harmless [of "(H, G)" b w w1 w'] assms by (simp add: like_env_ok_def)


section \<open>The service\<close>

definition comment_service_ok :: "'x comment_service \<Rightarrow> bool" where
  "comment_service_ok s \<longleftrightarrow> gorm_ok (cs_commentRepo s) \<and> gorm_ok (cs_videoRepo s) \<and> cache_redis_ok (cs_cache s) \<and>
     mq_ptr_ok (cs_commentMQ s) \<and> mq_ptr_ok (cs_popularityMQ s)"

lemma CommentMQ_post:
  assumes "host_ok H" "mq_ptr_ok q"
  shows "wp (CommentMQ_publish H q act k evt) (sent_post CommentExchange k
    (\<lambda>b. \<exists>id now. Marshal (json_comment H) (evt\<lparr>ce_EventID := id, ce_Action := act, ce_OccurredAt := now\<rparr>) = Inr b) w) w"
  using assms
  by (auto simp: CommentMQ_publish_def wp_return sent_post_throw frame_defs intro!: publisher_post split: option.splits)

text \<open>The effect of the fallback: one comment under a fresh identifier, one more popularity.\<close>

definition comment_stored :: "(time \<Rightarrow> time) \<Rightarrow> string \<Rightarrow> uint \<Rightarrow> uint \<Rightarrow> string \<Rightarrow> tables \<Rightarrow> tables \<Rightarrow> bool" where
  "comment_stored ct username videoID authorID content t t' \<longleftrightarrow> has_video videoID t \<and>
     (\<exists>c t1. prefix ''mock:'' (c_EventID c) \<and> c_Username c = username \<and> c_VideoID c = videoID \<and> c_AuthorID c = authorID \<and>
        c_Content c = content \<and> comment_added c t t1 \<and>
        t' = t_videos_update (update_rows (\<lambda>v. v_ID v = videoID) (\<lambda>v. col video_schema ct (v\<lparr>v_Popularity := v_Popularity v + 1\<rparr>))) t1)"

lemma comment_tx_post:
  assumes G: "gorm_ok G" and c: "c_ID c = 0" "prefix ''mock:'' (c_EventID c)"
  shows "wp (comment_tx G c) (\<lambda>r w'. sql_frame w w' \<and>
    (r = Inr () \<longrightarrow> comment_stored (db_col_time G) (c_Username c) (c_VideoID c) (c_AuthorID c) (c_Content c) (tabs w) (tabs w'))) w"
    (is "wp _ ?Q w")
proof -
  let ?upd = "db_updates (db_videos G) (\<lambda>v. v_ID v = c_VideoID c) (\<lambda>v. v\<lparr>v_Popularity := v_Popularity v + 1\<rparr>)"
  have pop: "wp ?upd (\<lambda>r s. case r of Inl e \<Rightarrow> ?Q (Inl e) s | Inr _ \<Rightarrow> ?Q (Inr ()) s) w2"
    if "sql_frame w w2" "has_video (c_VideoID c) (tabs w)" "comment_added c (tabs w) (tabs w2)" for w2
    by (rule wp_updates_simple [OF videos_ok [OF G]])
      (use that c in \<open>auto simp: comment_stored_def intro: sql_frame_trans\<close>)
  have create: "wp (db_create (db_comments G) c) (\<lambda>r s. case r of Inl e \<Rightarrow> ?Q (Inl e) s
      | Inr _ \<Rightarrow> wp ?upd (\<lambda>r s. case r of Inl e \<Rightarrow> ?Q (Inl e) s | Inr _ \<Rightarrow> ?Q (Inr ()) s) s) w1"
    if "sql_frame w w1" "tabs w1 = tabs w" "has_video (c_VideoID c) (tabs w)" for w1
    by (rule wp_create_comment [OF G c(1)]) (use that pop in \<open>auto intro: sql_frame_trans\<close>)
  show ?thesis
    unfolding comment_tx_def wp_bind
    by (rule wp_first [OF videos_ok [OF G]])
      (use create in \<open>auto simp: wp_return wp_bindE quiet_iff has_video_def cong: sum.case_cong\<close>)
qed

lemma comment_fallback_post:
  assumes H: "host_ok H" and G: "gorm_ok G" and c: "c_ID c = 0"
  shows "wp (comment_fallback H G c) (\<lambda>r w'. sql_frame w w' \<and>
    (r = Inr () \<longrightarrow> comment_stored (db_col_time G) (c_Username c) (c_VideoID c) (c_AuthorID c) (c_Content c) (tabs w) (tabs w'))) w"
    (is "wp _ ?Q w")
proof -
  have tx: "wp (db_transaction G (comment_tx G (c\<lparr>c_EventID := ''mock:'' @ e\<rparr>))) ?Q w1" if w1: "quiet w w1" for e w1
  proof (rule wp_transaction [OF G])
    show "?Q (Inl e) w'" if "quiet w1 w'" for e w' using w1 that by (auto simp: quiet_iff intro: sql_frame_trans)
    fix w0 assume "quiet w1 w0"
    then show "wp (comment_tx G (c\<lparr>c_EventID := ''mock:'' @ e\<rparr>)) (\<lambda>r w2. \<forall>w'. sql_frame w2 w' \<longrightarrow> (case r of
       Inl e \<Rightarrow> tabs w' = tabs w1 \<longrightarrow> ?Q (Inl e) w'
     | Inr _ \<Rightarrow> (tabs w' = tabs w2 \<longrightarrow> ?Q (Inr ()) w') \<and>
         (\<forall>e. maybe_done (tabs w1) (tabs w2) (tabs w') \<longrightarrow> ?Q (Inl e) w'))) w0"
      by (intro wp_mono [OF comment_tx_post [OF G]])
        (use w1 c in \<open>auto simp: quiet_iff split: sum.splits intro: sql_frame_trans\<close>)
  qed
  show ?thesis
    unfolding comment_fallback_def wp_bindE
    by (rule wp_RandHex [OF H]) (use tx in \<open>auto simp: quiet_iff\<close>)
qed

lemma accepted_quiet: "quiet w w1 \<Longrightarrow> accepted x k P D w1 w' \<Longrightarrow> accepted x k P D w w'"
  by (simp add: accepted_def handed_over_def quiet_def)

text \<open>The event of a comment, as the publisher encodes it.\<close>

definition comment_body :: "'x host \<Rightarrow> string \<Rightarrow> uint \<Rightarrow> uint \<Rightarrow> string \<Rightarrow> string \<Rightarrow> bool" where
  "comment_body H username videoID authorID content b \<longleftrightarrow> (\<exists>e. Marshal (json_comment H) e = Inr b \<and> ce_Action e = ''publish'' \<and>
     ce_Username e = username \<and> ce_VideoID e = videoID \<and> ce_AuthorID e = authorID \<and> ce_Content e = content)"

lemma CommentService_Publish_accepts:
  assumes H: "host_ok H" and s: "comment_service_ok s" and c: "c_ID c = 0"
  shows "wp (CommentService_Publish H s (Some c)) (\<lambda>r w'. r = Inr () \<longrightarrow>
    accepted CommentExchange CommentRoutingKeyPublish
      (comment_body H (TrimSpace (c_Username c)) (c_VideoID c) (c_AuthorID c) (TrimSpace (c_Content c)))
      (comment_stored (db_col_time (cs_commentRepo s)) (TrimSpace (c_Username c)) (c_VideoID c) (c_AuthorID c) (TrimSpace (c_Content c))) w w') w"
    (is "wp _ (\<lambda>r w'. r = Inr () \<longrightarrow> accepted ?x ?k ?P ?D w w') w")
proof -
  let ?c = "c\<lparr>c_Username := TrimSpace (c_Username c), c_Content := TrimSpace (c_Content c)\<rparr>"
  note k = s [unfolded comment_service_ok_def]
  have send: "wp (CommentMQ_Publish H (cs_commentMQ s) (c_Username ?c) (c_VideoID ?c) (c_AuthorID ?c) (c_Content ?c)) (sent_post ?x ?k ?P w) w" for w
    unfolding CommentMQ_Publish_def
    by (rule wp_mono [OF CommentMQ_post [OF H]]) (use k in \<open>force simp: sent_post_def comment_body_def\<close>)+
  have fb: "wp (comment_fallback H (cs_commentRepo s) ?c) (\<lambda>r w'. sql_frame w w' \<and> (r = Inr () \<longrightarrow> ?D (tabs w) (tabs w'))) w" for w
    using comment_fallback_post [OF H, of "cs_commentRepo s" ?c w] k c by simp
  have go: "wp (enqueue_or_fallback H (cs_commentMQ s) (cs_popularityMQ s) (cs_cache s) (c_VideoID ?c) 1
      (CommentMQ_Publish H (cs_commentMQ s) (c_Username ?c) (c_VideoID ?c) (c_AuthorID ?c) (c_Content ?c))
      (comment_fallback H (cs_commentRepo s) ?c)) (\<lambda>r w'. r = Inr () \<longrightarrow> accepted ?x ?k ?P ?D w w') w1" if "quiet w w1" for w1
    by (rule wp_mono [OF enqueue_or_fallback_accepts [OF H _ _ send fb]]) (use k that in \<open>auto intro: accepted_quiet\<close>)
  have "wp (bindE (IsExist (cs_videoRepo s) (c_VideoID c)) (\<lambda>exists. if \<not> exists then throw (ErrNew ''video not found'')
      else enqueue_or_fallback H (cs_commentMQ s) (cs_popularityMQ s) (cs_cache s) (c_VideoID ?c) 1
        (CommentMQ_Publish H (cs_commentMQ s) (c_Username ?c) (c_VideoID ?c) (c_AuthorID ?c) (c_Content ?c))
        (comment_fallback H (cs_commentRepo s) ?c))) (\<lambda>r w'. r = Inr () \<longrightarrow> accepted ?x ?k ?P ?D w w') w"
    unfolding wp_bindE by (rule wp_IsExist) (use k go in \<open>simp_all add: wp_return\<close>)
  then show ?thesis by (simp add: CommentService_Publish_def Let_def wp_return)
qed

text \<open>
  C33. No accepted comment is lost: when the handler answers with success, the account and the
  name came from the authenticated request, and either the comment's event, with the trimmed name
  and text, was handed to the broker and the tables are unchanged, or the comment is stored in
  the tables with one more popularity for its video.
\<close>

theorem CommentHandler_accepts:
  assumes "host_ok H" "comment_service_ok s"
    and "run_state (CommentHandler_PublishComment H s (Inr (videoID, content)) c) w = (Sent m, w')"
  shows "\<exists>authorID username. GetAccountID c = Inr authorID \<and> GetUsername c = Inr username \<and>
    accepted CommentExchange CommentRoutingKeyPublish
      (comment_body H (TrimSpace username) videoID authorID (TrimSpace content))
      (comment_stored (db_col_time (cs_commentRepo s)) (TrimSpace username) videoID authorID (TrimSpace content)) w w'"
proof -
  obtain authorID username where ids: "GetAccountID c = Inr authorID" "GetUsername c = Inr username"
    using assms(3) by (auto simp: CommentHandler_PublishComment_def classified_def split: if_splits sum.splits)
  let ?c = "\<lparr>c_ID = 0, c_EventID = '''', c_Username = username, c_VideoID = videoID, c_AuthorID = authorID,
    c_Content = content, c_CreatedAt = time_zero\<rparr>"
  obtain r where r: "run_state (CommentService_Publish H s (Some ?c)) w = (r, w')" and "r = Inr ()"
    using assms(3) ids by (auto simp: CommentHandler_PublishComment_def classified_def split: if_splits sum.splits prod.splits)
  with ids wp_runD [OF CommentService_Publish_accepts [OF assms(1,2), of ?c] r] show ?thesis by simp
qed

text \<open>
  C34. A comment is deleted by its author only: for any request to delete a comment that exists
  and belongs to somebody else, the handler answers with an error, no table changes and no event
  is sent. For its author it stays in the tables only if the handler answered with an error or
  a delete event for it was handed over.
\<close>

theorem CommentHandler_deletes_own_only:
  assumes "host_ok H" "comment_service_ok s" "table_wf comment_schema (t_comments (tabs w))"
    and "x \<in> set (t_comments (tabs w))"
    and "run_state (CommentHandler_DeleteComment H s (Inr (c_ID x)) c) w = (r, w')"
  shows "if GetAccountID c = Inr (c_AuthorID x)
    then (\<forall>m. r = Sent m \<longrightarrow>
      accepted CommentExchange CommentRoutingKeyDelete
        (\<lambda>b. \<exists>e. Marshal (json_comment H) e = Inr b \<and> ce_Action e = ''delete'' \<and> ce_CommentID e = c_ID x)
        (\<lambda>t t'. t' = without_comment (c_ID x) t) w w')
    else quiet w w' \<and> (\<forall>m. r \<noteq> Sent m)"
proof -
  let ?P = "\<lambda>b. \<exists>e. Marshal (json_comment H) e = Inr b \<and> ce_Action e = ''delete'' \<and> ce_CommentID e = c_ID x"
  let ?D = "\<lambda>t t'. t' = without_comment (c_ID x) t"
  note k = assms(2) [unfolded comment_service_ok_def]
  have x: "c_ID x \<noteq> 0" using assms(3,4) by (auto simp: table_wf_def)
  have only: "y = x" if "y \<in> set (t_comments (tabs w))" "c_ID y = c_ID x" for y
    using table_wf_idD [OF assms(3) that(1) assms(4)] that(2) by simp
  have send: "wp (CommentMQ_Delete H (cs_commentMQ s) (c_ID x)) (sent_post CommentExchange CommentRoutingKeyDelete ?P w1) w1" for w1
    unfolding CommentMQ_Delete_def
    by (rule wp_mono [OF CommentMQ_post [OF assms(1)]]) (use k in \<open>force simp: sent_post_def\<close>)+
  have del: "wp (CommentRepo_DeleteComment (cs_commentRepo s) x) (\<lambda>r w'. r = Inr () \<longrightarrow> accepted CommentExchange CommentRoutingKeyDelete ?P ?D w w') w2"
    if "tabs w2 = tabs w" for w2
    by (rule wp_mono [OF DeleteComment_post]) (use k that in \<open>auto simp: accepted_def\<close>)
  have own: "wp (do {sent \<leftarrow> enqueued (cs_commentMQ s) (CommentMQ_Delete H (cs_commentMQ s) (c_ID x));
      (if sent then ok () else CommentRepo_DeleteComment (cs_commentRepo s) x)})
      (\<lambda>r w'. r = Inr () \<longrightarrow> accepted CommentExchange CommentRoutingKeyDelete ?P ?D w w') w1" if "quiet w w1" for w1
    unfolding wp_bind
  proof (rule wp_mono [OF enqueued_post [OF send]])
    fix b w2 assume b: "mq_frame w1 w2 \<and> prefix (bk_log (mq w1)) (bk_log (mq w2)) \<and>
      (b \<longrightarrow> handed_over CommentExchange CommentRoutingKeyDelete ?P w1 w2)"
    then have "b \<Longrightarrow> accepted CommentExchange CommentRoutingKeyDelete ?P ?D w w2"
      using that by (simp add: accepted_def handed_over_def frame_defs)
    moreover have "tabs w2 = tabs w" using that b by (simp add: frame_defs)
    ultimately show "wp (if b then ok () else CommentRepo_DeleteComment (cs_commentRepo s) x)
        (\<lambda>r w'. r = Inr () \<longrightarrow> accepted CommentExchange CommentRoutingKeyDelete ?P ?D w w') w2"
      using del by (simp add: wp_return)
  qed
  have svc: "wp (CommentService_Delete H s (c_ID x) a) (\<lambda>r w'. if a = c_AuthorID x
      then r = Inr () \<longrightarrow> accepted CommentExchange CommentRoutingKeyDelete ?P ?D w w' else quiet w w' \<and> r \<noteq> Inr ()) w" for a
    unfolding CommentService_Delete_def wp_bindE
    by (rule wp_find_comment(1)) (use k own assms(4) in \<open>auto simp: wp_return delete_settled_def dest!: only\<close>)
  have "wp (CommentHandler_DeleteComment H s (Inr (c_ID x)) c) (\<lambda>r w'. if GetAccountID c = Inr (c_AuthorID x)
      then (\<forall>m. r = Sent m \<longrightarrow> accepted CommentExchange CommentRoutingKeyDelete ?P ?D w w') else quiet w w' \<and> (\<forall>m. r \<noteq> Sent m)) w"
    using x by (auto simp: CommentHandler_DeleteComment_def classified_def wp_simps frame_defs split: sum.splits if_splits
        intro!: wp_mono [OF svc])
  from wp_runD [OF this assms(5)] show ?thesis .
qed

section \<open>Examples\<close>

definition publish_evt :: comment_event where
  "publish_evt = \<lparr>ce_EventID = ''e1'', ce_Action = ''publish'', ce_CommentID = 0, ce_Username = ''ann'', ce_VideoID = 1,
     ce_AuthorID = 5, ce_Content = ''hi'', ce_OccurredAt = 0\<rparr>"

definition delete_evt :: comment_event where
  "delete_evt = empty_comment_event\<lparr>ce_EventID := ''e2'', ce_Action := ''delete'', ce_CommentID := 1\<rparr>"

definition comment_host :: "ref_hid host" where
  "comment_host = ref_host [] [(publish_evt, ''P''), (delete_evt, ''D'')] [] [] [] []"

lemma comment_host_ok: "host_ok comment_host"
  unfolding comment_host_def by (rule ref_host_ok) auto

lemma trim_words: "TrimSpace ''ann'' = ''ann''" "TrimSpace ''hi'' = ''hi''"
  by (simp_all add: TrimSpace_visible visible_def)

definition comment_run :: "string \<Rightarrow> ref_world \<Rightarrow> unit res \<times> ref_world" where
  "comment_run b = run_state (CommentWorker_process comment_host ref_gorm ref_gorm b)"

lemma comment_codec: "Unmarshal (json_comment comment_host) ''P'' = Some publish_evt"
    "Unmarshal (json_comment comment_host) ''D'' = Some delete_evt"
  by (simp_all add: comment_host_def ref_host_def table_codec_def)

lemmas comment_run_defs = comment_run_def CommentWorker_process_def comment_codec publish_evt_def delete_evt_def
  empty_comment_event_def applyPublish_def applyDelete_def CommentRepo_GetByID_def CommentRepo_DeleteComment_def event_comment_def
  CreateCommentIgnoreDuplicate_def IsExist_def ChangePopularity_def bindE_def like_world_def ref_defs Let_def
  liked_video_def sample_video_def update_rows_def table_wf_def IsZero_def time_zero_def trim_words

lemma comment_run_fine: "fst (comment_run ''P'' (like_world [])) = Inr ()"
  by (simp add: comment_run_defs)

lemma publish_evt_valid: "publish_valid publish_evt"
  by (simp add: publish_valid_def publish_evt_def trim_words)

theorem CommentWorker_idempotent_witness:
  "tabs (snd (comment_run ''P'' (snd (comment_run ''P'' (like_world []))))) = tabs (snd (comment_run ''P'' (like_world [])))"
proof -
  let ?w1 = "snd (comment_run ''P'' (like_world []))"
  have run: "run_state (CommentWorker_process comment_host ref_gorm ref_gorm ''P'') (like_world []) = (Inr (), ?w1)"
    using comment_run_fine prod.collapse [of "comment_run ''P'' (like_world [])"] by (simp add: comment_run_def)
  have "redelivered (CommentWorker_process comment_host ref_gorm ref_gorm ''P'') ?w1 (snd (comment_run ''P'' ?w1))"
    by (rule redelivered.again [OF redelivered.none refl, of _ _ "fst (comment_run ''P'' ?w1)"]) (simp add: comment_run_def)
  from CommentWorker_idempotent [OF comment_host_ok ref_gorm_ok run this] show ?thesis .
qed


text \<open>
  The event identifier protects against a second delivery only while the comment is there:
  when a publish message is delivered again after the comment was deleted, the comment returns.
\<close>

theorem deleted_comment_returns:
  "let w1 = snd (comment_run ''P'' (like_world [])); w2 = snd (comment_run ''D'' w1); w3 = snd (comment_run ''P'' w2)
   in map c_EventID (t_comments (tabs w1)) = [''e1''] \<and> t_comments (tabs w2) = [] \<and> map c_EventID (t_comments (tabs w3)) = [''e1'']"
  by (simp add: comment_run_defs)

definition comment_service_sample :: "ref_hid comment_service" where
  "comment_service_sample = \<lparr>cs_commentRepo = ref_gorm, cs_videoRepo = ref_gorm, cs_cache = None, cs_commentMQ = None,
     cs_popularityMQ = None\<rparr>"

lemma comment_service_sample_ok: "comment_service_ok comment_service_sample"
  by (simp add: comment_service_ok_def comment_service_sample_def ref_gorm_ok ref_cache_ok mq_ptr_ok_def)

definition commenter :: gin_ctx where
  "commenter = [''accountID'' \<mapsto> GUint 5, ''username'' \<mapsto> GString ''ann'']"

text \<open>There are no queues and no Redis: the comment goes to the database.\<close>

definition comment_request_run :: "string reply \<times> ref_world" where
  "comment_request_run = run_state (CommentHandler_PublishComment comment_host comment_service_sample (Inr (1, ''hi'')) commenter)
     (like_world [])"

lemma comment_request_sent: "fst comment_request_run = Sent ''comment published successfully''"
  by (simp add: comment_request_run_def CommentHandler_PublishComment_def commenter_def GetAccountID_def GetUsername_def
      CommentService_Publish_def comment_service_sample_def enqueue_or_fallback_def enqueued_def comment_fallback_def comment_tx_def
      RandHex_def comment_host_def UpdatePopularityCache_def comment_run_defs Client_Delete_def ZIncrBy_def Client_Expire_def
      detail_key_def window_key_def cmd_del_def cmd_zincrby_def on_zset_def cmd_expire_def wrong_type_def)

theorem CommentHandler_accepts_witness:
  "accepted CommentExchange CommentRoutingKeyPublish (comment_body comment_host ''ann'' 1 5 ''hi'')
     (comment_stored ref_col_time ''ann'' 1 5 ''hi'') (like_world []) (snd comment_request_run)"
proof -
  have run: "run_state (CommentHandler_PublishComment comment_host comment_service_sample (Inr (1, ''hi'')) commenter) (like_world [])
      = (Sent ''comment published successfully'', snd comment_request_run)"
    using comment_request_sent prod.collapse [of comment_request_run] by (simp add: comment_request_run_def)
  have "db_col_time (cs_commentRepo comment_service_sample) = ref_col_time"
    by (simp add: comment_service_sample_def ref_gorm_def)
  with CommentHandler_accepts [OF comment_host_ok comment_service_sample_ok run] show ?thesis
    by (simp add: commenter_def GetAccountID_def GetUsername_def trim_words)
qed

definition stored_comment :: comment where
  "stored_comment = (event_comment publish_evt)\<lparr>c_ID := 1\<rparr>"

theorem CommentHandler_deletes_own_only_witness:
  "quiet (ref_start [] (no_tables\<lparr>t_comments := [stored_comment]\<rparr>))
     (snd (run_state (CommentHandler_DeleteComment comment_host comment_service_sample (Inr 1) [''accountID'' \<mapsto> GUint 6])
       (ref_start [] (no_tables\<lparr>t_comments := [stored_comment]\<rparr>))))"
proof -
  let ?w = "ref_start [] (no_tables\<lparr>t_comments := [stored_comment]\<rparr>)"
  let ?run = "run_state (CommentHandler_DeleteComment comment_host comment_service_sample (Inr 1) [''accountID'' \<mapsto> GUint 6]) ?w"
  have id: "c_ID stored_comment = 1" "c_AuthorID stored_comment = 5" by (simp_all add: stored_comment_def event_comment_def publish_evt_def)
  have "table_wf comment_schema (t_comments (tabs ?w))" "stored_comment \<in> set (t_comments (tabs ?w))"
    by (simp_all add: table_wf_def ref_start_def id)
  moreover have "run_state (CommentHandler_DeleteComment comment_host comment_service_sample (Inr (c_ID stored_comment))
      [''accountID'' \<mapsto> GUint 6]) ?w = (fst ?run, snd ?run)" by (simp add: id)
  ultimately show ?thesis
    using CommentHandler_deletes_own_only [OF comment_host_ok comment_service_sample_ok] id
    by (fastforce simp: GetAccountID_def)
qed

end
