(* ===== verification/Auth.thy ===== *)
theory Auth
  imports Http Amqp
begin

text \<open>
  \<open>internal/auth/jwt.go\<close>: signed access tokens and random refresh tokens. The signature scheme and
  bcrypt are third-party code: they are parameters, with the laws the program relies on.
\<close>

record claims =
  cl_AccountID :: uint
  cl_Username :: string
  cl_ExpiresAt :: time
  cl_IssuedAt :: time
  cl_NotBefore :: time

text \<open>
  \<open>jwt_Sign secret claims\<close> is \<open>NewWithClaims(HS256, claims).SignedString(secret)\<close>. \<open>jwt_Parse token
  keyfunc\<close> is \<open>ParseWithClaims\<close>: the key function is given the algorithm of the token's header, if
  it names a known one; the result is the claims, if they have the program's type, and whether the
  token is valid. \<open>jwt_verified alg key token claims\<close> says that the token carries these claims and
  that its signature under this algorithm and key is right. \<open>NewNumericDate\<close> rounds a time.
\<close>

record 'x crypto =
  jwt_Sign :: "string \<Rightarrow> claims \<Rightarrow> string res"
  jwt_Parse :: "string \<Rightarrow> (string option \<Rightarrow> string res) \<Rightarrow> ('x, (claims option \<times> bool) res) io"
  jwt_verified :: "string option \<Rightarrow> string \<Rightarrow> string \<Rightarrow> claims \<Rightarrow> bool"
  NewNumericDate :: "time \<Rightarrow> time"
  bcrypt_Generate :: "string \<Rightarrow> ('x, string res) io"
  bcrypt_Compare :: "string \<Rightarrow> string \<Rightarrow> unit res"

definition crypto_ok :: "'x crypto \<Rightarrow> bool" where
  "crypto_ok K \<longleftrightarrow>
     (\<forall>tok kf w. wp (jwt_Parse K tok kf) (\<lambda>r w'. quiet w w' \<and>
        (\<forall>c v. r = Inr (Some c, v) \<longrightarrow> (\<exists>alg key. kf alg = Inr key \<and> jwt_verified K alg key tok c))) w) \<and>
     (\<forall>p w. wp (bcrypt_Generate K p) (\<lambda>r w'. quiet w w' \<and> (\<forall>h. r = Inr h \<longrightarrow> bcrypt_Compare K h p = Inr ())) w)"

section \<open>jwt.go\<close>

definition JWTExpire :: int where "JWTExpire = 15 * 60 * 10 ^ 9"

text \<open>\<open>jwtSigningSecret\<close> is a package variable: its new value, or the error.\<close>

definition SetJWTSecret :: "string \<Rightarrow> string res" where
  "SetJWTSecret secret =
     (let s = TrimSpace secret in if s = '''' then Inl (ErrNew ''jwt secret is required'') else Inr s)"

definition jwtSecret :: "string \<Rightarrow> string res" where
  "jwtSecret jwtSigningSecret =
     (if jwtSigningSecret = '''' then Inl (ErrNew ''jwt secret is not initialized'') else Inr jwtSigningSecret)"

definition GenerateToken :: "'x host \<Rightarrow> 'x crypto \<Rightarrow> string \<Rightarrow> uint \<Rightarrow> string \<Rightarrow> ('x, string res) io" where
  "GenerateToken H K secret accountID username = do {
     now \<leftarrow> time_Now H;
     let c = \<lparr>cl_AccountID = accountID, cl_Username = username, cl_ExpiresAt = NewNumericDate K (now + JWTExpire),
       cl_IssuedAt = NewNumericDate K now, cl_NotBefore = NewNumericDate K now\<rparr>;
     (case jwtSecret secret of
        Inl err \<Rightarrow> throw err
      | Inr s \<Rightarrow> ret (jwt_Sign K s c))}"

definition GenerateRefreshToken :: "'x host \<Rightarrow> uint \<Rightarrow> ('x, string res) io" where
  "GenerateRefreshToken H accountID = bindE (rand_Read H 32) (\<lambda>b. ok (hex_EncodeToString b))"

definition token_key :: "string \<Rightarrow> string option \<Rightarrow> string res" where
  "token_key secret alg = (if alg \<noteq> Some ''HS256'' then Inl (ErrNew ''unexpected signing method'') else jwtSecret secret)"

definition ParseToken :: "'x crypto \<Rightarrow> string \<Rightarrow> string \<Rightarrow> ('x, claims res) io" where
  "ParseToken K secret tokenStr =
     bindE (jwt_Parse K tokenStr (token_key secret)) (\<lambda>(cs, valid). (case cs of
       Some c \<Rightarrow> if valid then ok c else throw (ErrNew ''token has invalid claims'')
     | None \<Rightarrow> throw (ErrNew ''token has invalid claims'')))"

section \<open>What the tokens promise\<close>

lemma wp_ParseToken:
  assumes "crypto_ok K"
    and "\<And>e w'. quiet w w' \<Longrightarrow> Q (Inl e) w'"
    and "\<And>c w'. quiet w w' \<Longrightarrow> secret \<noteq> '''' \<Longrightarrow> jwt_verified K (Some ''HS256'') secret tok c \<Longrightarrow> Q (Inr c) w'"
  shows "wp (ParseToken K secret tok) Q w"
proof -
  have "wp (jwt_Parse K tok (token_key secret)) (\<lambda>r w'. quiet w w' \<and> (\<forall>c v. r = Inr (Some c, v) \<longrightarrow>
      (\<exists>alg key. token_key secret alg = Inr key \<and> jwt_verified K alg key tok c))) w"
    using assms(1) by (simp add: crypto_ok_def)
  then show ?thesis
    unfolding ParseToken_def wp_bindE
  proof (rule wp_mono)
    fix r :: "(claims option \<times> bool) res" and w' assume post: "quiet w w' \<and> (\<forall>c v. r = Inr (Some c, v) \<longrightarrow>
      (\<exists>alg key. token_key secret alg = Inr key \<and> jwt_verified K alg key tok c))"
    show "case r of Inl e \<Rightarrow> Q (Inl e) w' | Inr v \<Rightarrow> wp (case v of (cs, valid) \<Rightarrow> (case cs of
        Some c \<Rightarrow> if valid then ok c else throw (ErrNew ''token has invalid claims'')
      | None \<Rightarrow> throw (ErrNew ''token has invalid claims''))) Q w'"
    proof (cases r)
      case (Inr v)
      moreover obtain cs valid where "v = (cs, valid)" by fastforce
      ultimately show ?thesis
        using post assms(2,3) [of w'] by (auto simp: wp_return token_key_def jwtSecret_def split: option.splits if_splits)
    qed (use post assms(2) in simp)
  qed
qed

lemma wp_GenerateToken:
  assumes "host_ok H" "\<And>r w'. quiet w w' \<Longrightarrow> Q r w'"
  shows "wp (GenerateToken H K secret a u) Q w"
  unfolding GenerateToken_def wp_bind
  by (rule wp_time_Now [OF assms(1)]) (use assms(2) in \<open>auto simp: Let_def wp_return split: sum.splits\<close>)

lemma wp_GenerateRefreshToken:
  assumes "host_ok H" "\<And>e w'. quiet w w' \<Longrightarrow> Q (Inl e) w'" "\<And>s w'. quiet w w' \<Longrightarrow> length s = 64 \<Longrightarrow> Q (Inr s) w'"
  shows "wp (GenerateRefreshToken H a) Q w"
  unfolding GenerateRefreshToken_def RandHex_def [symmetric]
  by (rule wp_RandHex [OF assms(1)]) (use assms(2,3) in auto)

end
