(* ===== verification/Cache.thy ===== *)
theory Cache
  imports Redis
begin

text \<open>
  What a caller of the cache's string commands can rely on, whatever the network does: a value
  that was read is stored under the key; a write or a delete touches no other key and is done
  if it returned nil.
\<close>


lemma wp_GetBytes:
  assumes c: "cache_redis_ok c"
    and miss: "\<And>e w'. redis_frame w w' \<Longrightarrow> rds w' = rds w \<Longrightarrow> Q (Inl e) w'"
    and hit: "\<And>b e w'. redis_frame w w' \<Longrightarrow> rds w' = rds w \<Longrightarrow> rds w key = Some (RStr b, e) \<Longrightarrow> Q (Inr b) w'"
  shows "wp (GetBytes c key) Q w"
proof (cases "rdb_of c")
  case None
  with miss show ?thesis by (simp add: GetBytes_def wp_simps redis_frame_def)
next
  case (Some R)
  with c have "call_ok (cmd_get key) (rdb_Get R key)" by (simp add: cache_redis_ok_def redis_ok_def)
  then have "wp (rdb_Get R key) Q w"
  proof (rule wp_call)
    fix r w' assume p: "call_post (cmd_get key) w r w'"
    then have f: "redis_frame w w'" by (simp add: call_post_def)
    from p obtain t where eff: "rds w' = rds w \<or> rds w' = snd (cmd_get key t (rds w))"
        and val: "\<And>a. r = Inr a \<Longrightarrow> cmd_get key t (rds w) = (Inr a, rds w')"
      by (rule call_postE) blast
    have same: "snd (cmd_get key t (rds w)) = rds w"
      by (simp add: cmd_get_def wrong_type_def split: option.splits redis_val.splits)
    with eff have "rds w' = rds w" by auto
    moreover have "\<exists>e. rds w key = Some (RStr b, e)" if "r = Inr b" for b
      using val [OF that]
      by (auto simp: cmd_get_def wrong_type_def live_def split: option.splits redis_val.splits prod.splits if_splits)
    ultimately show "Q r w'" using f miss hit by (cases r) auto
  qed
  with Some show ?thesis by (simp add: GetBytes_def)
qed

lemma wp_SetBytes:
  assumes c: "cache_redis_ok c"
    and fail: "\<And>e w'. redis_frame w w' \<Longrightarrow> rds w' = rds w \<or> (\<exists>x. rds w' = (rds w)(key \<mapsto> (RStr b, x))) \<Longrightarrow> Q (Inl e) w'"
    and fine: "\<And>x w'. redis_frame w w' \<Longrightarrow> rds w' = (rds w)(key \<mapsto> (RStr b, x)) \<Longrightarrow> Q (Inr ()) w'"
  shows "wp (SetBytes c key b ttl) Q w"
proof (cases "rdb_of c")
  case None
  with fail show ?thesis by (simp add: SetBytes_def wp_simps redis_frame_def)
next
  case (Some R)
  with c have "call_ok (cmd_set key b ttl) (rdb_Set R key b ttl)" by (simp add: cache_redis_ok_def redis_ok_def)
  then have "wp (rdb_Set R key b ttl) Q w"
  proof (rule wp_call)
    fix r w' assume p: "call_post (cmd_set key b ttl) w r w'"
    then have f: "redis_frame w w'" by (simp add: call_post_def)
    from p show "Q r w'" using fail fine f by (cases r) (auto simp: call_post_def cmd_set_def)
  qed
  with Some show ?thesis by (simp add: SetBytes_def)
qed

lemma wp_Client_Delete:
  assumes c: "cache_redis_ok c"
    and fail: "\<And>e w'. redis_frame w w' \<Longrightarrow> rds w' = rds w \<or> rds w' = (rds w)(key := None) \<Longrightarrow> Q (Inl e) w'"
    and fine: "\<And>w'. redis_frame w w' \<Longrightarrow> rds w' = (rds w)(key := None) \<Longrightarrow> Q (Inr ()) w'"
  shows "wp (Client_Delete c key) Q w"
proof (cases "rdb_of c")
  case None
  with fail show ?thesis by (simp add: Client_Delete_def wp_simps redis_frame_def)
next
  case (Some R)
  with c have "call_ok (cmd_del key) (rdb_Del R key)" by (simp add: cache_redis_ok_def redis_ok_def)
  then have "wp (rdb_Del R key) Q w"
  proof (rule wp_call)
    fix r w' assume p: "call_post (cmd_del key) w r w'"
    then have f: "redis_frame w w'" by (simp add: call_post_def)
    from p show "Q r w'" using fail fine f by (cases r) (auto simp: call_post_def cmd_del_def)
  qed
  with Some show ?thesis by (simp add: Client_Delete_def)
qed

end
