(* ===== verification/Account.thy ===== *)
theory Account
  imports Auth Cache Reference
begin

text \<open>
  \<open>internal/api/account\<close>: accounts, their passwords and their sessions. An account has one session
  at a time: its access token and its refresh token are columns of its row and entries of the cache.
\<close>

section \<open>repo.go\<close>

definition AccountRepo_FindByID :: "'x gorm \<Rightarrow> uint \<Rightarrow> ('x, account res) io" where
  "AccountRepo_FindByID db i = db_first (db_accounts db) (\<lambda>a. a_ID a = i)"

definition AccountRepo_CreateAccount :: "'x gorm \<Rightarrow> account \<Rightarrow> ('x, unit res) io" where
  "AccountRepo_CreateAccount db a = bindE (db_create (db_accounts db) a) (\<lambda>_. ok ())"

definition AccountRepo_FindByUsername :: "'x gorm \<Rightarrow> string \<Rightarrow> ('x, account res) io" where
  "AccountRepo_FindByUsername db username = db_first (db_accounts db) (\<lambda>a. a_Username a = username)"

definition UpdateTokenAndRefreshToken :: "'x gorm \<Rightarrow> uint \<Rightarrow> string \<Rightarrow> string \<Rightarrow> ('x, unit res) io" where
  "UpdateTokenAndRefreshToken db accountID token refreshToken =
     bindE (db_updates (db_accounts db) (\<lambda>a. a_ID a = accountID) (\<lambda>a. a\<lparr>a_Token := token, a_RefreshToken := refreshToken\<rparr>)) (\<lambda>_. ok ())"

definition UpdateToken :: "'x gorm \<Rightarrow> uint \<Rightarrow> string \<Rightarrow> ('x, unit res) io" where
  "UpdateToken db accountID newToken =
     bindE (db_updates (db_accounts db) (\<lambda>a. a_ID a = accountID) (\<lambda>a. a\<lparr>a_Token := newToken\<rparr>)) (\<lambda>_. ok ())"

definition AccountRepo_FindAll :: "'x gorm \<Rightarrow> ('x, account list res) io" where
  "AccountRepo_FindAll db = db_find (db_accounts db) (\<lambda>_. True) no_order no_limit"

definition AccountRepo_FindByRefreshToken :: "'x gorm \<Rightarrow> string \<Rightarrow> ('x, account res) io" where
  "AccountRepo_FindByRefreshToken db refreshToken = db_first (db_accounts db) (\<lambda>a. a_RefreshToken a = refreshToken)"

definition rename_tx :: "'x gorm \<Rightarrow> uint \<Rightarrow> string \<Rightarrow> string \<Rightarrow> ('x, unit res) io" where
  "rename_tx tx accountID newUsername token =
     bindE (db_updates (db_accounts tx) (\<lambda>a. a_ID a = accountID) (\<lambda>a. a\<lparr>a_Username := newUsername\<rparr>)) (\<lambda>rowsAffected.
     if rowsAffected = 0 then throw ErrRecordNotFound
     else bindE (db_updates (db_accounts tx) (\<lambda>a. a_ID a = accountID) (\<lambda>a. a\<lparr>a_Token := token\<rparr>)) (\<lambda>_. ok ()))"

definition RenameWithToken :: "'x gorm \<Rightarrow> uint \<Rightarrow> string \<Rightarrow> string \<Rightarrow> ('x, unit res) io" where
  "RenameWithToken db accountID newUsername token = db_transaction db (rename_tx db accountID newUsername token)"

definition UpdatePassword :: "'x gorm \<Rightarrow> uint \<Rightarrow> string \<Rightarrow> ('x, unit res) io" where
  "UpdatePassword db accountID newHashPassword =
     bindE (db_updates (db_accounts db) (\<lambda>a. a_ID a = accountID) (\<lambda>a. a\<lparr>a_Password := newHashPassword\<rparr>)) (\<lambda>_. ok ())"

definition DeleteTokenAndRefreshToken :: "'x gorm \<Rightarrow> uint \<Rightarrow> ('x, unit res) io" where
  "DeleteTokenAndRefreshToken db accountID =
     bindE (db_updates (db_accounts db) (\<lambda>a. a_ID a = accountID) (\<lambda>a. a\<lparr>a_Token := '''', a_RefreshToken := ''''\<rparr>)) (\<lambda>_. ok ())"

definition AccountRepo_UpdateAvatar :: "'x gorm \<Rightarrow> uint \<Rightarrow> string \<Rightarrow> ('x, unit res) io" where
  "AccountRepo_UpdateAvatar db accountID avatarURL =
     bindE (db_updates (db_accounts db) (\<lambda>a. a_ID a = accountID) (\<lambda>a. a\<lparr>a_AvatarURL := avatarURL\<rparr>)) (\<lambda>_. ok ())"

definition UpdateAvatarAndProfile :: "'x gorm \<Rightarrow> uint \<Rightarrow> string \<Rightarrow> string \<Rightarrow> ('x, unit res) io" where
  "UpdateAvatarAndProfile db accountID avatarURL bio =
     bindE (db_updates (db_accounts db) (\<lambda>a. a_ID a = accountID) (\<lambda>a. a\<lparr>a_AvatarURL := avatarURL, a_Bio := bio\<rparr>)) (\<lambda>_. ok ())"

section \<open>service.go\<close>

definition ErrNewUsernameRequired :: go_error where "ErrNewUsernameRequired = ErrNew ''new_username is required''"
definition ErrUsernameTaken :: go_error where "ErrUsernameTaken = ErrNew ''username already exists''"
definition ErrIncorrectPassword :: go_error where "ErrIncorrectPassword = ErrNew ''incorrect password''"

record 'x account_service =
  as_accountRepo :: "'x gorm"
  as_cache :: "'x cache"

definition NewAccountService :: "'x gorm \<Rightarrow> 'x cache \<Rightarrow> 'x account_service" where
  "NewAccountService accountRepo cache = \<lparr>as_accountRepo = accountRepo, as_cache = cache\<rparr>"

text \<open>The three keys of a session: \<open>account:%d\<close>, \<open>account:%d:refresh\<close> and \<open>refresh:%s\<close>.\<close>

definition token_cache_key :: "'x cache \<Rightarrow> uint \<Rightarrow> string" where
  "token_cache_key c i = Key c (''account:'' @ FormatUint i)"

definition refresh_cache_key :: "'x cache \<Rightarrow> uint \<Rightarrow> string" where
  "refresh_cache_key c i = Key c (''account:'' @ FormatUint i @ '':refresh'')"

definition refresh_lookup_key :: "'x cache \<Rightarrow> string \<Rightarrow> string" where
  "refresh_lookup_key c t = Key c (''refresh:'' @ t)"

definition hours :: "int \<Rightarrow> int" where "hours n = n * 3600 * 10 ^ 9"

definition AccountService_CreateAccount :: "'x crypto \<Rightarrow> 'x account_service \<Rightarrow> account \<Rightarrow> ('x, unit res) io" where
  "AccountService_CreateAccount K s a =
     bindE (bcrypt_Generate K (a_Password a)) (\<lambda>passwordHash.
     bindE (AccountRepo_CreateAccount (as_accountRepo s) (a\<lparr>a_Password := passwordHash\<rparr>)) (\<lambda>_. ok ()))"

definition AccountService_FindByUsername :: "'x account_service \<Rightarrow> string \<Rightarrow> ('x, account res) io" where
  "AccountService_FindByUsername s username = AccountRepo_FindByUsername (as_accountRepo s) username"

definition cache_session :: "'x cache \<Rightarrow> uint \<Rightarrow> string \<Rightarrow> string \<Rightarrow> ('x, unit) io" where
  "cache_session c accountID token refreshToken = (if c = None then ret () else do {
     _ \<leftarrow> SetBytes c (token_cache_key c accountID) token (hours 24);
     _ \<leftarrow> SetBytes c (refresh_cache_key c accountID) refreshToken (hours (7 * 24));
     _ \<leftarrow> SetBytes c (refresh_lookup_key c refreshToken) (FormatUint accountID) (hours (7 * 24));
     ret ()})"

definition Login :: "'x host \<Rightarrow> 'x crypto \<Rightarrow> string \<Rightarrow> 'x account_service \<Rightarrow> string \<Rightarrow> string \<Rightarrow> ('x, (string \<times> string) res) io" where
  "Login H K secret s username password =
     bindE (AccountService_FindByUsername s username) (\<lambda>account.
     bindE (ret (bcrypt_Compare K (a_Password account) password)) (\<lambda>_.
     bindE (GenerateToken H K secret (a_ID account) (a_Username account)) (\<lambda>token.
     bindE (GenerateRefreshToken H (a_ID account)) (\<lambda>refreshToken.
     bindE (UpdateTokenAndRefreshToken (as_accountRepo s) (a_ID account) token refreshToken) (\<lambda>_. do {
       _ \<leftarrow> cache_session (as_cache s) (a_ID account) token refreshToken;
       ok (token, refreshToken)})))))"

definition AccountService_FindByID :: "'x account_service \<Rightarrow> uint \<Rightarrow> ('x, account res) io" where
  "AccountService_FindByID s i = AccountRepo_FindByID (as_accountRepo s) i"

definition AccountService_FindAll :: "'x account_service \<Rightarrow> ('x, account list res) io" where
  "AccountService_FindAll s = AccountRepo_FindAll (as_accountRepo s)"

definition AccountService_FindByRefreshToken :: "'x account_service \<Rightarrow> string \<Rightarrow> ('x, account res) io" where
  "AccountService_FindByRefreshToken s t = AccountRepo_FindByRefreshToken (as_accountRepo s) t"

text \<open>
  The lookup in the cache: the account whose identifier is stored under the refresh token, if
  the row still has this refresh token; anything else falls through to the database.
\<close>

definition cached_refresh :: "'x account_service \<Rightarrow> string \<Rightarrow> ('x, account option) io" where
  "cached_refresh s refreshToken = (if as_cache s = None then ret None else do {
     r \<leftarrow> GetBytes (as_cache s) (refresh_lookup_key (as_cache s) refreshToken);
     (case r of
        Inl _ \<Rightarrow> ret None
      | Inr idStr \<Rightarrow> (case ParseUint idStr of
          None \<Rightarrow> ret None
        | Some i \<Rightarrow> do {
            a \<leftarrow> AccountService_FindByID s i;
            (case a of
               Inl _ \<Rightarrow> ret None
             | Inr account \<Rightarrow> ret (if a_RefreshToken account = refreshToken then Some account else None))}))})"

definition RefreshToken :: "'x host \<Rightarrow> 'x crypto \<Rightarrow> string \<Rightarrow> 'x account_service \<Rightarrow> string
    \<Rightarrow> ('x, (string \<times> uint \<times> string) res) io" where
  "RefreshToken H K secret s refreshToken =
     (if refreshToken = '''' then throw (ErrNew ''refresh token is empty'')
      else do {
        found \<leftarrow> cached_refresh s refreshToken;
        (case found of
           Some account \<Rightarrow>
             bindE (GenerateToken H K secret (a_ID account) (a_Username account)) (\<lambda>newToken.
             bindE (UpdateToken (as_accountRepo s) (a_ID account) newToken) (\<lambda>_.
             bindE (SetBytes (as_cache s) (token_cache_key (as_cache s) (a_ID account)) newToken (hours 24)) (\<lambda>_.
             ok (newToken, a_ID account, a_Username account))))
         | None \<Rightarrow>
             bindE (AccountService_FindByRefreshToken s refreshToken) (\<lambda>account.
             bindE (GenerateToken H K secret (a_ID account) (a_Username account)) (\<lambda>newToken.
             bindE (UpdateToken (as_accountRepo s) (a_ID account) newToken) (\<lambda>_.
             ok (newToken, a_ID account, a_Username account)))))})"

definition Rename :: "'x host \<Rightarrow> 'x crypto \<Rightarrow> string \<Rightarrow> 'x account_service \<Rightarrow> uint \<Rightarrow> string \<Rightarrow> ('x, string res) io" where
  "Rename H K secret s accountID newUsername =
     (if newUsername = '''' then throw ErrNewUsernameRequired
      else bindE (GenerateToken H K secret accountID newUsername) (\<lambda>token. do {
        r \<leftarrow> RenameWithToken (as_accountRepo s) accountID newUsername token;
        (case r of
           Inl err \<Rightarrow> if IsDupKey err then throw ErrUsernameTaken else throw err
         | Inr _ \<Rightarrow> do {
             _ \<leftarrow> (if as_cache s = None then ok ()
                  else SetBytes (as_cache s) (token_cache_key (as_cache s) accountID) token (hours 24));
             ok token})}))"

definition ChangePassword :: "'x crypto \<Rightarrow> 'x account_service \<Rightarrow> string \<Rightarrow> string \<Rightarrow> string \<Rightarrow> ('x, unit res) io" where
  "ChangePassword K s username oldPassword newPassword =
     bindE (AccountService_FindByUsername s username) (\<lambda>account.
     (case bcrypt_Compare K (a_Password account) oldPassword of
        Inl _ \<Rightarrow> throw ErrIncorrectPassword
      | Inr _ \<Rightarrow>
          bindE (bcrypt_Generate K newPassword) (\<lambda>newHashPassword.
          UpdatePassword (as_accountRepo s) (a_ID account) newHashPassword)))"

definition uncache_session :: "'x cache \<Rightarrow> uint \<Rightarrow> string \<Rightarrow> ('x, unit) io" where
  "uncache_session c accountID refreshToken = (if c = None then ret () else do {
     _ \<leftarrow> Client_Delete c (token_cache_key c accountID);
     _ \<leftarrow> Client_Delete c (refresh_cache_key c accountID);
     _ \<leftarrow> (if refreshToken \<noteq> '''' then Client_Delete c (refresh_lookup_key c refreshToken) else ok ());
     ret ()})"

definition Logout :: "'x account_service \<Rightarrow> uint \<Rightarrow> ('x, unit res) io" where
  "Logout s accountID =
     bindE (AccountService_FindByID s accountID) (\<lambda>account.
     if a_Token account = '''' then ok ()
     else do {
       _ \<leftarrow> uncache_session (as_cache s) accountID (a_RefreshToken account);
       DeleteTokenAndRefreshToken (as_accountRepo s) (a_ID account)})"

definition AccountService_UpdateAvatar :: "'x account_service \<Rightarrow> uint \<Rightarrow> string \<Rightarrow> ('x, unit res) io" where
  "AccountService_UpdateAvatar s accountID avatarURL = AccountRepo_UpdateAvatar (as_accountRepo s) accountID avatarURL"

definition AccountService_UpdateProfile :: "'x account_service \<Rightarrow> uint \<Rightarrow> string \<Rightarrow> string \<Rightarrow> ('x, unit res) io" where
  "AccountService_UpdateProfile s accountID avatarURL bio =
     (if avatarURL = '''' \<and> bio = '''' then throw (ErrNew ''nothing to update'')
      else UpdateAvatarAndProfile (as_accountRepo s) accountID (TrimSpace avatarURL) (TrimSpace bio))"

section \<open>handler.go\<close>

definition getAccountID :: "gin_ctx \<Rightarrow> uint res" where
  "getAccountID c = (case c ''accountID'' of
     None \<Rightarrow> Inl (ErrNew ''accountID not found'')
   | Some (GUint i) \<Rightarrow> Inr i
   | Some _ \<Rightarrow> Inl (ErrNew ''accountID has invalid type''))"

text \<open>The fields of an account that are answered: the others have the tag \<open>json:"-"\<close>.\<close>

type_synonym account_json = "uint \<times> string \<times> string \<times> string"

definition account_json :: "account \<Rightarrow> account_json" where
  "account_json a = (a_ID a, a_Username a, a_AvatarURL a, a_Bio a)"

definition AccountHandler_CreateAccount :: "'x crypto \<Rightarrow> 'x account_service \<Rightarrow> (string \<times> string) res \<Rightarrow> ('x, string reply) io" where
  "AccountHandler_CreateAccount K s bound = (case bound of
     Inl err \<Rightarrow> ret (classified err)
   | Inr (username, password) \<Rightarrow> do {
       r \<leftarrow> AccountService_CreateAccount K s \<lparr>a_ID = 0, a_Username = username, a_Password = password, a_Token = '''',
         a_RefreshToken = '''', a_AvatarURL = '''', a_Bio = ''''\<rparr>;
       ret (case r of Inl err \<Rightarrow> Fail 500 (error_text err) | Inr _ \<Rightarrow> Sent ''account created'')})"

definition AccountHandler_Login :: "'x host \<Rightarrow> 'x crypto \<Rightarrow> string \<Rightarrow> 'x account_service \<Rightarrow> (string \<times> string) res
    \<Rightarrow> ('x, (string \<times> string \<times> uint \<times> string) reply) io" where
  "AccountHandler_Login H K secret s bound = (case bound of
     Inl err \<Rightarrow> ret (classified err)
   | Inr (username, password) \<Rightarrow> do {
       a \<leftarrow> AccountService_FindByUsername s username;
       (case a of
          Inl err \<Rightarrow> ret (Fail 500 (error_text err))
        | Inr account \<Rightarrow> do {
            r \<leftarrow> Login H K secret s username password;
            ret (case r of
                Inl err \<Rightarrow> Fail 500 (error_text err)
              | Inr (token, refreshToken) \<Rightarrow> Sent (token, refreshToken, a_ID account, a_Username account))})})"

definition AccountHandler_Refresh :: "'x host \<Rightarrow> 'x crypto \<Rightarrow> string \<Rightarrow> 'x account_service \<Rightarrow> string res
    \<Rightarrow> ('x, (string \<times> uint \<times> string) reply) io" where
  "AccountHandler_Refresh H K secret s bound = (case bound of
     Inl err \<Rightarrow> ret (classified err)
   | Inr refreshToken \<Rightarrow> do {
       r \<leftarrow> RefreshToken H K secret s refreshToken;
       ret (case r of
           Inl err \<Rightarrow> Fail (ClassifyHttpStatus (Some err)) ''invalid refresh token''
         | Inr answer \<Rightarrow> Sent answer)})"

definition AccountHandler_Rename :: "'x host \<Rightarrow> 'x crypto \<Rightarrow> string \<Rightarrow> 'x account_service \<Rightarrow> string res \<Rightarrow> gin_ctx
    \<Rightarrow> ('x, string reply) io" where
  "AccountHandler_Rename H K secret s bound c = (case bound of
     Inl err \<Rightarrow> ret (classified err)
   | Inr newUsername \<Rightarrow> (case getAccountID c of
       Inl err \<Rightarrow> ret (Fail 500 (error_text err))
     | Inr accountID \<Rightarrow> do {
         r \<leftarrow> Rename H K secret s accountID newUsername;
         ret (case r of
             Inr token \<Rightarrow> Sent token
           | Inl err \<Rightarrow>
               if err = ErrNewUsernameRequired then classified err
               else if err = ErrUsernameTaken then Fail 409 (error_text err)
               else if err = ErrRecordNotFound then Fail 404 ''account not found''
               else Fail 500 (error_text err))}))"

definition AccountHandler_ChangePassword :: "'x crypto \<Rightarrow> 'x account_service \<Rightarrow> (string \<times> string \<times> string) res
    \<Rightarrow> ('x, string reply) io" where
  "AccountHandler_ChangePassword K s bound = (case bound of
     Inl err \<Rightarrow> ret (classified err)
   | Inr (username, oldPassword, newPassword) \<Rightarrow> do {
       r \<leftarrow> ChangePassword K s username oldPassword newPassword;
       ret (case r of
           Inr _ \<Rightarrow> Sent ''password changed successfully''
         | Inl err \<Rightarrow> if err = ErrIncorrectPassword then Fail 400 ''incorrect password'' else Fail 500 ''failed to change password'')})"

definition AccountHandler_FindByID :: "'x account_service \<Rightarrow> uint res \<Rightarrow> ('x, account_json reply) io" where
  "AccountHandler_FindByID s bound = (case bound of
     Inl err \<Rightarrow> ret (classified err)
   | Inr i \<Rightarrow> do {
       r \<leftarrow> AccountService_FindByID s i;
       ret (case r of Inl err \<Rightarrow> Fail 500 (error_text err) | Inr account \<Rightarrow> Sent (account_json account))})"

definition AccountHandler_FindByUsername :: "'x account_service \<Rightarrow> string res \<Rightarrow> ('x, account_json reply) io" where
  "AccountHandler_FindByUsername s bound = (case bound of
     Inl err \<Rightarrow> ret (classified err)
   | Inr username \<Rightarrow> do {
       r \<leftarrow> AccountService_FindByUsername s username;
       ret (case r of Inl err \<Rightarrow> Fail 500 (error_text err) | Inr account \<Rightarrow> Sent (account_json account))})"

definition AccountHandler_Logout :: "'x account_service \<Rightarrow> gin_ctx \<Rightarrow> ('x, string reply) io" where
  "AccountHandler_Logout s c = (case getAccountID c of
     Inl err \<Rightarrow> ret (classified err)
   | Inr accountID \<Rightarrow> do {
       r \<leftarrow> Logout s accountID;
       ret (case r of Inl err \<Rightarrow> Fail 500 (error_text err) | Inr _ \<Rightarrow> Sent ''account logout successfully'')})"

definition AccountHandler_UpdateProfile :: "'x account_service \<Rightarrow> (string \<times> string) res \<Rightarrow> gin_ctx \<Rightarrow> ('x, string reply) io" where
  "AccountHandler_UpdateProfile s bound c = (case getAccountID c of
     Inl err \<Rightarrow> ret (classified err)
   | Inr accountID \<Rightarrow> (case bound of
       Inl err \<Rightarrow> ret (classified err)
     | Inr (avatarURL, bio) \<Rightarrow> do {
         r \<leftarrow> AccountService_UpdateProfile s accountID avatarURL bio;
         ret (case r of Inl err \<Rightarrow> classified err | Inr _ \<Rightarrow> Sent ''profile updated successfully'')}))"

section \<open>Symbolic execution of the repository\<close>

definition set_account :: "uint \<Rightarrow> (account \<Rightarrow> account) \<Rightarrow> tables \<Rightarrow> tables" where
  "set_account i f t = t_accounts_update (update_rows (\<lambda>a. a_ID a = i) f) t"

lemma wp_set_account:
  assumes G: "gorm_ok G"
    and "\<And>e w'. sql_frame w w' \<Longrightarrow> tabs w' = tabs w \<or> tabs w' = set_account i f (tabs w) \<Longrightarrow> Q (Inl e) w'"
    and "\<And>n w'. sql_frame w w' \<Longrightarrow> tabs w' = set_account i f (tabs w) \<Longrightarrow> Q (Inr n) w'"
  shows "wp (db_updates (db_accounts G) (\<lambda>a. a_ID a = i) f) Q w"
proof -
  have col: "col account_schema (db_col_time G) x = x" for x by (simp add: account_schema_def)
  show ?thesis
    by (rule wp_updates_simple [OF accounts_ok [OF G]]) (use assms(2,3) in \<open>auto simp: maybe_done_def col set_account_def\<close>)
qed

lemma token_updates:
  assumes G: "gorm_ok G"
    and "\<And>e w'. sql_frame w w' \<Longrightarrow> tabs w' = tabs w \<or> tabs w' = set_account i f (tabs w) \<Longrightarrow> Q (Inl e) w'"
    and "\<And>w'. sql_frame w w' \<Longrightarrow> tabs w' = set_account i f (tabs w) \<Longrightarrow> Q (Inr ()) w'"
  shows "wp (bindE (db_updates (db_accounts G) (\<lambda>a. a_ID a = i) f) (\<lambda>_. ok ())) Q w"
  unfolding wp_bindE by (rule wp_set_account [OF G]) (use assms(2,3) in \<open>auto simp: wp_return\<close>)

lemmas account_updates =
  token_updates [where f = "\<lambda>a. a\<lparr>a_Token := t, a_RefreshToken := u\<rparr>" for t u, folded UpdateTokenAndRefreshToken_def]
  token_updates [where f = "\<lambda>a. a\<lparr>a_Token := t\<rparr>" for t, folded UpdateToken_def]
  token_updates [where f = "\<lambda>a. a\<lparr>a_Password := t\<rparr>" for t, folded UpdatePassword_def]
  token_updates [where f = "\<lambda>a. a\<lparr>a_Token := '''', a_RefreshToken := ''''\<rparr>", folded DeleteTokenAndRefreshToken_def]
  token_updates [where f = "\<lambda>a. a\<lparr>a_AvatarURL := t\<rparr>" for t, folded AccountRepo_UpdateAvatar_def]
  token_updates [where f = "\<lambda>a. a\<lparr>a_AvatarURL := t, a_Bio := u\<rparr>" for t u, folded UpdateAvatarAndProfile_def]

lemma wp_find_account:
  assumes "gorm_ok G"
    and "\<And>e w'. quiet w w' \<Longrightarrow> Q (Inl e) w'"
    and "\<And>a w'. quiet w w' \<Longrightarrow> a \<in> set (t_accounts (tabs w)) \<Longrightarrow> P a \<Longrightarrow> Q (Inr a) w'"
  shows "wp (db_first (db_accounts G) P) Q w"
  by (rule wp_first [OF accounts_ok [OF assms(1)]]) (use assms(2,3) in auto)

lemmas account_finds =
  wp_find_account [where P = "\<lambda>a. a_ID a = i" for i, folded AccountRepo_FindByID_def]
  wp_find_account [where P = "\<lambda>a. a_Username a = u" for u, folded AccountRepo_FindByUsername_def]
  wp_find_account [where P = "\<lambda>a. a_RefreshToken a = u" for u, folded AccountRepo_FindByRefreshToken_def]

definition account_service_ok :: "'x account_service \<Rightarrow> bool" where
  "account_service_ok s \<longleftrightarrow> gorm_ok (as_accountRepo s) \<and> cache_redis_ok (as_cache s)"

lemma cache_session_frame:
  assumes "cache_redis_ok c"
  shows "wp (cache_session c i t u) (\<lambda>_ w'. redis_frame w w') w"
  using assms
  by (auto simp: cache_session_def wp_simps redis_frame_refl
      intro!: wp_SetBytes intro: redis_frame_trans)

lemma uncache_session_frame:
  assumes "cache_redis_ok c"
  shows "wp (uncache_session c i u) (\<lambda>_ w'. redis_frame w w') w"
  using assms
  by (auto simp: uncache_session_def wp_simps redis_frame_refl
      intro!: wp_Client_Delete intro: redis_frame_trans)

section \<open>Login, refresh and rename\<close>

definition logged_in :: "'x crypto \<Rightarrow> string \<Rightarrow> string \<Rightarrow> tables \<Rightarrow> string \<Rightarrow> string \<Rightarrow> tables \<Rightarrow> bool" where
  "logged_in K username password t token refreshToken t' \<longleftrightarrow> (\<exists>a \<in> set (t_accounts t). a_Username a = username \<and>
     bcrypt_Compare K (a_Password a) password = Inr () \<and> length refreshToken = 64 \<and>
     t' = set_account (a_ID a) (\<lambda>x. x\<lparr>a_Token := token, a_RefreshToken := refreshToken\<rparr>) t)"

lemma logged_inI: "a \<in> set (t_accounts t) \<Longrightarrow> a_Username a = u \<Longrightarrow> bcrypt_Compare K (a_Password a) p = Inr () \<Longrightarrow> length rt = 64 \<Longrightarrow>
    t' = set_account (a_ID a) (\<lambda>x. x\<lparr>a_Token := tok, a_RefreshToken := rt\<rparr>) t \<Longrightarrow> logged_in K u p t tok rt t'"
  by (auto simp: logged_in_def)

lemma Login_post:
  assumes H: "host_ok H" and s: "account_service_ok s"
  shows "wp (Login H K secret s u p) (\<lambda>r w'. mq w' = mq w \<and> (case r of
      Inr (t, rt) \<Rightarrow> logged_in K u p (tabs w) t rt (tabs w')
    | Inl e \<Rightarrow> tabs w' = tabs w \<or> (\<exists>t rt. logged_in K u p (tabs w) t rt (tabs w')))) w" (is "wp _ ?Q w")
proof -
  note k = s [unfolded account_service_ok_def]
  let ?G = "as_accountRepo s" and ?c = "as_cache s"
  have upd: "wp (bindE (UpdateTokenAndRefreshToken ?G (a_ID a) t rt) (\<lambda>_. do {
       _ \<leftarrow> cache_session ?c (a_ID a) t rt; ok (t, rt)})) ?Q w1"
    if "quiet w w1" "a \<in> set (t_accounts (tabs w))" "a_Username a = u" "bcrypt_Compare K (a_Password a) p = Inr ()" "length rt = 64"
    for a t rt w1
  proof -
    have cached: "wp (cache_session ?c (a_ID a) t rt) (\<lambda>_. ?Q (Inr (t, rt))) w2"
      if "logged_in K u p (tabs w) t rt (tabs w2)" "mq w2 = mq w" for w2
      by (rule wp_mono [OF cache_session_frame]) (use k that in \<open>auto simp: redis_frame_def\<close>)
    have "logged_in K u p (tabs w) t rt (set_account (a_ID a) (\<lambda>x. x\<lparr>a_Token := t, a_RefreshToken := rt\<rparr>) (tabs w))"
      using logged_inI [OF that(2-5) refl] .
    then show ?thesis
      unfolding wp_bindE
      by (intro account_updates(1)) (use k that(1) cached in \<open>auto simp: frame_defs wp_simps\<close>)
  qed
  have refresh: "wp (bindE (GenerateRefreshToken H (a_ID a)) (\<lambda>rt. bindE (UpdateTokenAndRefreshToken ?G (a_ID a) t rt) (\<lambda>_. do {
       _ \<leftarrow> cache_session ?c (a_ID a) t rt; ok (t, rt)}))) ?Q w1"
    if "quiet w w1" "a \<in> set (t_accounts (tabs w))" "a_Username a = u" "bcrypt_Compare K (a_Password a) p = Inr ()" for a t w1
    unfolding wp_bindE [of "GenerateRefreshToken H _"]
    by (rule wp_GenerateRefreshToken [OF H]) (use that upd in \<open>auto simp: frame_defs\<close>)
  have tok: "wp (bindE (GenerateToken H K secret (a_ID a) (a_Username a)) (\<lambda>t. bindE (GenerateRefreshToken H (a_ID a)) (\<lambda>rt.
      bindE (UpdateTokenAndRefreshToken ?G (a_ID a) t rt) (\<lambda>_. do {_ \<leftarrow> cache_session ?c (a_ID a) t rt; ok (t, rt)})))) ?Q w1"
    if "quiet w w1" "a \<in> set (t_accounts (tabs w))" "a_Username a = u" "bcrypt_Compare K (a_Password a) p = Inr ()" for a w1
    unfolding wp_bindE [of "GenerateToken H K secret _ _"]
    by (rule wp_GenerateToken [OF H]) (use that refresh in \<open>auto simp: frame_defs split: sum.splits\<close>)
  show ?thesis
    unfolding Login_def AccountService_FindByUsername_def wp_bindE [of "AccountRepo_FindByUsername _ _"]
    by (rule account_finds(2)) (use k tok in \<open>auto simp: frame_defs wp_bindE [of "ret _"] wp_return split: sum.splits\<close>)
qed


definition refreshed :: "string \<Rightarrow> tables \<Rightarrow> string \<Rightarrow> uint \<Rightarrow> string \<Rightarrow> tables \<Rightarrow> bool" where
  "refreshed refreshToken t token i u t' \<longleftrightarrow> (\<exists>a \<in> set (t_accounts t). a_RefreshToken a = refreshToken \<and> a_ID a = i \<and> a_Username a = u \<and>
     t' = set_account i (\<lambda>x. x\<lparr>a_Token := token\<rparr>) t)"

lemma wp_cached_refresh:
  assumes s: "account_service_ok s"
    and none: "\<And>w'. redis_frame w w' \<Longrightarrow> rds w' = rds w \<Longrightarrow> Q None w'"
    and some: "\<And>a w'. redis_frame w w' \<Longrightarrow> rds w' = rds w \<Longrightarrow> a \<in> set (t_accounts (tabs w)) \<Longrightarrow> a_RefreshToken a = rt \<Longrightarrow>
      as_cache s \<noteq> None \<Longrightarrow> Q (Some a) w'"
  shows "wp (cached_refresh s rt) Q w"
proof (cases "as_cache s = None")
  case True
  with none show ?thesis by (simp add: cached_refresh_def wp_return)
next
  case False
  note k = s [unfolded account_service_ok_def]
  have db: "wp (AccountService_FindByID s i) (\<lambda>a. wp (case a of Inl _ \<Rightarrow> ret None
      | Inr account \<Rightarrow> ret (if a_RefreshToken account = rt then Some account else None)) Q) w1"
    if "redis_frame w w1" "rds w1 = rds w" for i w1
    unfolding AccountService_FindByID_def
    by (rule account_finds(1)) (use that k none some False in \<open>auto simp: wp_return frame_defs\<close>)
  have get: "wp (GetBytes (as_cache s) (refresh_lookup_key (as_cache s) rt)) (\<lambda>r. wp (case r of
        Inl _ \<Rightarrow> ret None
      | Inr idStr \<Rightarrow> (case ParseUint idStr of
          None \<Rightarrow> ret None
        | Some i \<Rightarrow> do {
            a \<leftarrow> AccountService_FindByID s i;
            (case a of
               Inl _ \<Rightarrow> ret None
             | Inr account \<Rightarrow> ret (if a_RefreshToken account = rt then Some account else None))})) Q) w"
    by (rule wp_GetBytes) (use k db none in \<open>auto simp: wp_return wp_bind split: option.splits\<close>)
  with False show ?thesis by (auto simp: cached_refresh_def wp_bind)
qed

lemma RefreshToken_post:
  assumes H: "host_ok H" and s: "account_service_ok s"
  shows "wp (RefreshToken H K secret s rt) (\<lambda>r w'. mq w' = mq w \<and> (case r of
      Inr (t, i, u) \<Rightarrow> rt \<noteq> '''' \<and> refreshed rt (tabs w) t i u (tabs w')
    | Inl e \<Rightarrow> tabs w' = tabs w \<or> rt \<noteq> '''' \<and> (\<exists>t i u. refreshed rt (tabs w) t i u (tabs w')))) w" (is "wp _ ?Q w")
proof (cases "rt = ''''")
  case True
  then show ?thesis by (simp add: RefreshToken_def wp_return)
next
  case False
  note k = s [unfolded account_service_ok_def]
  let ?G = "as_accountRepo s" and ?c = "as_cache s"
  have eff: "refreshed rt (tabs w) t (a_ID a) (a_Username a) (set_account (a_ID a) (\<lambda>x. x\<lparr>a_Token := t\<rparr>) (tabs w))"
    if "a \<in> set (t_accounts (tabs w))" "a_RefreshToken a = rt" for a t
    using that by (auto simp: refreshed_def)
  have set: "wp (bindE (SetBytes ?c key t ttl) (\<lambda>_. ok (t, a_ID a, a_Username a))) ?Q w1"
    if "mq w1 = mq w" "refreshed rt (tabs w) t (a_ID a) (a_Username a) (tabs w1)" for key t ttl a w1
    unfolding wp_bindE by (rule wp_SetBytes) (use k that False in \<open>auto simp: wp_return redis_frame_def\<close>)
  have upd: "wp (bindE (UpdateToken ?G (a_ID a) t) (\<lambda>_. m)) ?Q w1"
    if "mq w1 = mq w" "tabs w1 = tabs w" "a \<in> set (t_accounts (tabs w))" "a_RefreshToken a = rt"
      "\<And>w2. mq w2 = mq w \<Longrightarrow> refreshed rt (tabs w) t (a_ID a) (a_Username a) (tabs w2) \<Longrightarrow> wp m ?Q w2" for a t m w1
    unfolding wp_bindE using eff [OF that(3,4), of t]
    by (intro account_updates(2)) (use k that(1,2,5) False in \<open>auto simp: frame_defs\<close>)
  have gen: "wp (bindE (GenerateToken H K secret (a_ID a) (a_Username a)) (\<lambda>t. bindE (UpdateToken ?G (a_ID a) t) (\<lambda>_. m t))) ?Q w1"
    if "mq w1 = mq w" "tabs w1 = tabs w" "a \<in> set (t_accounts (tabs w))" "a_RefreshToken a = rt"
      "\<And>t w2. mq w2 = mq w \<Longrightarrow> refreshed rt (tabs w) t (a_ID a) (a_Username a) (tabs w2) \<Longrightarrow> wp (m t) ?Q w2" for a m w1
    unfolding wp_bindE [of "GenerateToken H K secret _ _"]
    by (rule wp_GenerateToken [OF H])
      (use that(1,2) upd [OF _ _ that(3,4,5)] in \<open>auto simp: frame_defs split: sum.splits\<close>)
  have db: "wp (bindE (AccountService_FindByRefreshToken s rt) (\<lambda>account. bindE (GenerateToken H K secret (a_ID account) (a_Username account)) (\<lambda>t.
      bindE (UpdateToken ?G (a_ID account) t) (\<lambda>_. ok (t, a_ID account, a_Username account))))) ?Q w1"
    if "mq w1 = mq w" "tabs w1 = tabs w" for w1
    unfolding AccountService_FindByRefreshToken_def wp_bindE [of "AccountRepo_FindByRefreshToken _ _"]
  proof (rule account_finds(3), goal_cases)
    case (3 a w')
    have "wp (bindE (GenerateToken H K secret (a_ID a) (a_Username a)) (\<lambda>t.
      bindE (UpdateToken ?G (a_ID a) t) (\<lambda>_. ok (t, a_ID a, a_Username a)))) ?Q w'"
      by (rule gen) (use 3 that False in \<open>auto simp: frame_defs wp_return\<close>)
    then show ?case by simp
  qed (use k that in \<open>auto simp: frame_defs\<close>)
  show ?thesis
    unfolding RefreshToken_def if_not_P [OF False] wp_bind
  proof (rule wp_cached_refresh [OF s], goal_cases)
    case (1 w')
    then show ?case using db [of w'] by (simp add: redis_frame_def)
  next
    case (2 a w')
    have "wp (bindE (GenerateToken H K secret (a_ID a) (a_Username a)) (\<lambda>t. bindE (UpdateToken ?G (a_ID a) t) (\<lambda>_.
      bindE (SetBytes ?c (token_cache_key ?c (a_ID a)) t (hours 24)) (\<lambda>_. ok (t, a_ID a, a_Username a))))) ?Q w'"
      by (rule gen) (use 2 set in \<open>auto simp: redis_frame_def\<close>)
    then show ?case by simp
  qed
qed


definition renamed :: "uint \<Rightarrow> string \<Rightarrow> tables \<Rightarrow> string \<Rightarrow> tables \<Rightarrow> bool" where
  "renamed i u t token t' \<longleftrightarrow> (\<exists>a \<in> set (t_accounts t). a_ID a = i \<and> a_Username a \<noteq> u) \<and>
     (table_wf account_schema (t_accounts t) \<longrightarrow> table_wf account_schema (t_accounts t')) \<and>
     t' = set_account i (\<lambda>x. x\<lparr>a_Token := token\<rparr>) (set_account i (\<lambda>x. x\<lparr>a_Username := u\<rparr>) t)"

lemma table_wf_update_same:
  assumes "table_wf S rs" "\<And>r. row_id S (f r) = row_id S r" "\<And>a b. clash S (f a) b = clash S a b" "\<And>a b. clash S a (f b) = clash S a b"
  shows "table_wf S (update_rows P f rs)"
proof -
  have "map (row_id S) (update_rows P f rs) = map (row_id S) rs" by (rule map_update_rows) (simp add: assms(2))
  moreover from this have "row_id S ` set (update_rows P f rs) = row_id S ` set rs" by (metis list.set_map)
  moreover have "clash S a b \<longrightarrow> row_id S a = row_id S b"
    if ab: "a \<in> set (update_rows P f rs)" "b \<in> set (update_rows P f rs)" for a b
  proof -
    from ab obtain a0 b0 where "a0 \<in> set rs" "a = a0 \<or> a = f a0" "b0 \<in> set rs" "b = b0 \<or> b = f b0"
      by (auto simp: set_update_rows split: if_splits)
    with assms show ?thesis by (auto simp: table_wf_def)
  qed
  ultimately show ?thesis using assms(1) unfolding table_wf_def by auto
qed

lemma rename_tx_post:
  assumes G: "gorm_ok G"
  shows "wp (rename_tx G i u tok) (\<lambda>r w'. sql_frame w w' \<and> (r = Inr () \<longrightarrow> renamed i u (tabs w) tok (tabs w'))) w" (is "wp _ ?Q w")
proof -
  let ?name = "\<lambda>x. x\<lparr>a_Username := u\<rparr>" and ?tok = "\<lambda>x. x\<lparr>a_Token := tok\<rparr>"
  have col: "(\<lambda>x. col account_schema (db_col_time G) (f x)) = f" for f by (simp add: account_schema_def)
  have keep: "table_wf account_schema (t_accounts (set_account i ?tok t))" if "table_wf account_schema (t_accounts t)" for t
    using that by (auto simp: set_account_def account_schema_def intro!: table_wf_update_same)
  have second: "wp (bindE (db_updates (db_accounts G) (\<lambda>a. a_ID a = i) ?tok) (\<lambda>_. ok ())) ?Q w1"
    if "sql_frame w w1" "\<exists>a \<in> set (t_accounts (tabs w)). a_ID a = i \<and> a_Username a \<noteq> u" "tabs w1 = set_account i ?name (tabs w)"
      "table_wf account_schema (t_accounts (tabs w)) \<longrightarrow> table_wf account_schema (t_accounts (tabs w1))" for w1
    by (rule token_updates [OF G]) (use that keep in \<open>auto simp: renamed_def intro: sql_frame_trans\<close>)
  show ?thesis
    unfolding rename_tx_def wp_bindE [of "db_updates (db_accounts G) (\<lambda>a. a_ID a = i) ?name"]
  proof (rule wp_updates [OF accounts_ok [OF G]])
    fix r w1 assume f: "sql_frame w w1"
      and post: "updates_post (db_col_time G) account_schema t_accounts t_accounts_update (\<lambda>a. a_ID a = i) ?name (tabs w) r (tabs w1)"
    let ?next = "\<lambda>n. if n = 0 then throw ErrRecordNotFound else bindE (db_updates (db_accounts G) (\<lambda>a. a_ID a = i) ?tok) (\<lambda>_. ok ())"
    show "case r of Inl e \<Rightarrow> ?Q (Inl e) w1 | Inr n \<Rightarrow> wp (?next n) ?Q w1"
    proof (cases r)
      case (Inr n)
      with post have t: "tabs w1 = set_account i ?name (tabs w)" and n: "n = changed_rows (\<lambda>a. a_ID a = i) ?name (t_accounts (tabs w))"
        and wf: "tabs w1 \<noteq> tabs w \<and> table_wf account_schema (t_accounts (tabs w)) \<longrightarrow> table_wf account_schema (t_accounts (tabs w1))"
        by (auto simp: updates_post_def Let_def col set_account_def)
      have "\<exists>a \<in> set (t_accounts (tabs w)). a_ID a = i \<and> a_Username a \<noteq> u" if "n \<noteq> 0"
        using that unfolding n by (force simp: changed_rows_def filter_empty_conv)
      then have "wp (?next n) ?Q w1"
        using second [OF f _ t] wf f by (cases "n = 0") (auto simp: wp_return)
      with Inr show ?thesis by simp
    qed (use f in simp)
  qed
qed

lemma RenameWithToken_post:
  assumes G: "gorm_ok G"
  shows "wp (RenameWithToken G i u tok) (\<lambda>r w'. sql_frame w w' \<and> (case r of
      Inr _ \<Rightarrow> renamed i u (tabs w) tok (tabs w')
    | Inl e \<Rightarrow> tabs w' = tabs w \<or> renamed i u (tabs w) tok (tabs w'))) w" (is "wp _ ?Q w")
  unfolding RenameWithToken_def
proof (rule wp_transaction [OF G])
  fix w0 assume w0: "quiet w w0"
  show "wp (rename_tx G i u tok) (\<lambda>r w2. \<forall>w'. sql_frame w2 w' \<longrightarrow> (case r of
     Inl e \<Rightarrow> tabs w' = tabs w \<longrightarrow> ?Q (Inl e) w'
   | Inr _ \<Rightarrow> (tabs w' = tabs w2 \<longrightarrow> ?Q (Inr ()) w') \<and>
       (\<forall>e. maybe_done (tabs w) (tabs w2) (tabs w') \<longrightarrow> ?Q (Inl e) w'))) w0"
    by (rule wp_mono [OF rename_tx_post [OF G]])
      (use w0 in \<open>auto simp: maybe_done_def quiet_iff intro: sql_frame_trans split: sum.splits\<close>)
qed (auto simp: quiet_iff)

lemma Rename_post:
  assumes H: "host_ok H" and s: "account_service_ok s"
  shows "wp (Rename H K secret s i u) (\<lambda>r w'. mq w' = mq w \<and> (case r of
      Inr tok \<Rightarrow> renamed i u (tabs w) tok (tabs w')
    | Inl e \<Rightarrow> tabs w' = tabs w \<or> (\<exists>tok. renamed i u (tabs w) tok (tabs w')))) w" (is "wp _ ?Q w")
proof (cases "u = ''''")
  case True
  then show ?thesis by (simp add: Rename_def wp_return)
next
  case False
  note k = s [unfolded account_service_ok_def]
  let ?c = "as_cache s"
  have set: "wp (if ?c = None then ok () else SetBytes ?c key tok ttl) (\<lambda>_. ?Q (Inr tok)) w1"
    if "mq w1 = mq w" "renamed i u (tabs w) tok (tabs w1)" for key ttl tok w1
    using k that by (auto simp: wp_return redis_frame_def intro!: wp_SetBytes)
  have go: "wp (do {
        r \<leftarrow> RenameWithToken (as_accountRepo s) i u tok;
        (case r of
           Inl err \<Rightarrow> if IsDupKey err then throw ErrUsernameTaken else throw err
         | Inr _ \<Rightarrow> do {_ \<leftarrow> (if ?c = None then ok () else SetBytes ?c (token_cache_key ?c i) tok (hours 24)); ok tok})}) ?Q w1"
    if "quiet w w1" for tok w1
    unfolding wp_bind
    by (rule wp_mono [OF RenameWithToken_post]) (use k that set in \<open>auto simp: wp_simps frame_defs split: sum.splits\<close>)
  show ?thesis
    unfolding Rename_def if_not_P [OF False] wp_bindE
  proof (rule wp_GenerateToken [OF H], goal_cases)
    case (1 r w1)
    then show ?case using go [OF 1] by (cases r) (simp_all add: frame_defs)
  qed
qed


text \<open>
  Renaming an account to the name it already has always fails: MySQL counts no affected row,
  which the repository takes for a missing account.
\<close>

theorem Rename_same_name_fails:
  assumes "host_ok H" "account_service_ok s" "table_wf account_schema (t_accounts (tabs w))"
    and "a \<in> set (t_accounts (tabs w))"
    and "run_state (Rename H K secret s (a_ID a) (a_Username a)) w = (r, w')"
  shows "(\<exists>e. r = Inl e) \<and> tabs w' = tabs w"
proof -
  have "b = a" if "b \<in> set (t_accounts (tabs w))" "a_ID b = a_ID a" for b
    using table_wf_idD [OF assms(3) that(1) assms(4)] that(2) by simp
  then have "\<not> renamed (a_ID a) (a_Username a) (tabs w) tok t" for tok t by (auto simp: renamed_def)
  with wp_runD [OF Rename_post [OF assms(1,2)] assms(5)] show ?thesis by (cases r) auto
qed

section \<open>Reachable states\<close>

text \<open>The requests that change accounts, as steps; between them other parts of the program may run that leave the accounts alone.\<close>

inductive account_step :: "'x host \<Rightarrow> 'x crypto \<Rightarrow> string \<Rightarrow> 'x account_service \<Rightarrow> 'x world \<Rightarrow> 'x world \<Rightarrow> bool"
  for H K secret s where
  create: "run_state (AccountHandler_CreateAccount K s b1) w = (r1, w') \<Longrightarrow> account_step H K secret s w w'"
| login: "run_state (AccountHandler_Login H K secret s b2) w = (r2, w') \<Longrightarrow> account_step H K secret s w w'"
| refresh: "run_state (AccountHandler_Refresh H K secret s b3) w = (r3, w') \<Longrightarrow> account_step H K secret s w w'"
| rename: "run_state (AccountHandler_Rename H K secret s b4 c) w = (r4, w') \<Longrightarrow> account_step H K secret s w w'"
| change_password: "run_state (AccountHandler_ChangePassword K s b5) w = (r5, w') \<Longrightarrow> account_step H K secret s w w'"
| logout: "run_state (AccountHandler_Logout s c) w = (r6, w') \<Longrightarrow> account_step H K secret s w w'"
| update_profile: "run_state (AccountHandler_UpdateProfile s b7 c) w = (r7, w') \<Longrightarrow> account_step H K secret s w w'"
| elsewhere: "t_accounts (tabs w') = t_accounts (tabs w) \<Longrightarrow> account_step H K secret s w w'"

definition hashed :: "'x crypto \<Rightarrow> string \<Rightarrow> bool" where
  "hashed K h \<longleftrightarrow> (\<exists>p. bcrypt_Compare K h p = Inr ())"

definition accounts_good :: "'x crypto \<Rightarrow> tables \<Rightarrow> bool" where
  "accounts_good K t \<longleftrightarrow> table_wf account_schema (t_accounts t) \<and> (\<forall>a \<in> set (t_accounts t). hashed K (a_Password a))"

lemma set_account_good:
  assumes "accounts_good K t" "\<And>a. a_ID (f a) = a_ID a \<and> a_Username (f a) = a_Username a"
    and "\<And>a. hashed K (a_Password a) \<Longrightarrow> hashed K (a_Password (f a))"
  shows "accounts_good K (set_account i f t)"
proof -
  have "table_wf account_schema (update_rows (\<lambda>a. a_ID a = i) f (t_accounts t))"
    by (rule table_wf_update_same) (use assms in \<open>auto simp: accounts_good_def account_schema_def\<close>)
  with assms show ?thesis by (simp add: accounts_good_def set_account_def ball_update_rows)
qed

lemma row_added_good:
  assumes "row_added ct account_schema t_accounts t_accounts_update x t t'" "accounts_good K t" "hashed K (a_Password x)"
  shows "accounts_good K t'"
proof -
  from assms(1) obtain i where i: "i \<noteq> 0" "i \<notin> a_ID ` set (t_accounts t)"
    and new: "\<forall>y \<in> set (t_accounts t). a_Username y \<noteq> a_Username x"
    and t': "t' = t_accounts_update (\<lambda>_. t_accounts t @ [x\<lparr>a_ID := i\<rparr>]) t"
    by (auto simp: row_added_def inserted_def account_schema_def)
  have "table_wf account_schema (t_accounts t @ [x\<lparr>a_ID := i\<rparr>])"
    by (rule table_wf_snoc) (use assms(2) i new in \<open>auto simp: accounts_good_def account_schema_def\<close>)
  with assms(2,3) show ?thesis by (simp add: accounts_good_def t')
qed

lemma account_operations_good:
  assumes H: "host_ok H" and K: "crypto_ok K" and s: "account_service_ok s" and g: "accounts_good K (tabs w)"
  shows CreateAccount_good: "a_ID a = 0 \<Longrightarrow> wp (AccountService_CreateAccount K s a) (\<lambda>_ w'. accounts_good K (tabs w')) w"
    and Login_good: "wp (Login H K secret s u p) (\<lambda>_ w'. accounts_good K (tabs w')) w"
    and RefreshToken_good: "wp (RefreshToken H K secret s rt) (\<lambda>_ w'. accounts_good K (tabs w')) w"
    and Rename_good: "wp (Rename H K secret s i n) (\<lambda>_ w'. accounts_good K (tabs w')) w"
    and ChangePassword_good: "wp (ChangePassword K s u p q) (\<lambda>_ w'. accounts_good K (tabs w')) w"
    and Logout_good: "wp (Logout s i) (\<lambda>_ w'. accounts_good K (tabs w')) w"
    and UpdateProfile_good: "wp (AccountService_UpdateProfile s i u p) (\<lambda>_ w'. accounts_good K (tabs w')) w"
proof -
  note k = s [unfolded account_service_ok_def]
  have hash: "wp (bcrypt_Generate K p) (\<lambda>r w'. quiet w w' \<and> (\<forall>h. r = Inr h \<longrightarrow> hashed K h)) w" for p w
    using K unfolding crypto_ok_def hashed_def by (elim conjE allE [of _ p] allE [of _ w]) (erule wp_mono, blast)
  have pass: "wp (bindE (bcrypt_Generate K p) m) (\<lambda>_ w'. accounts_good K (tabs w')) w"
    if "accounts_good K (tabs w)" "\<And>h w'. quiet w w' \<Longrightarrow> hashed K h \<Longrightarrow> wp (m h) (\<lambda>_ w'. accounts_good K (tabs w')) w'" for p m w
    unfolding wp_bindE by (rule wp_mono [OF hash]) (use that in \<open>auto simp: quiet_iff split: sum.splits\<close>)
  show "wp (AccountService_CreateAccount K s a) (\<lambda>_ w'. accounts_good K (tabs w')) w" if "a_ID a = 0"
    unfolding AccountService_CreateAccount_def AccountRepo_CreateAccount_def
    by (rule pass [OF g], simp add: wp_simps, rule wp_create_cases [OF accounts_ok])
      (use k that g in \<open>auto simp: quiet_iff wp_return intro: row_added_good\<close>)
  show "wp (Login H K secret s u p) (\<lambda>_ w'. accounts_good K (tabs w')) w"
    by (rule wp_mono [OF Login_post [OF H s]])
      (use g in \<open>auto simp: logged_in_def intro!: set_account_good split: sum.splits\<close>)
  show "wp (RefreshToken H K secret s rt) (\<lambda>_ w'. accounts_good K (tabs w')) w"
    by (rule wp_mono [OF RefreshToken_post [OF H s]])
      (use g in \<open>auto simp: refreshed_def intro!: set_account_good split: sum.splits\<close>)
  have "accounts_good K t'" if "renamed i n (tabs w) tok t'" for tok t'
  proof -
    have "\<forall>a \<in> set (t_accounts t'). hashed K (a_Password a)"
      using that g by (auto simp: renamed_def accounts_good_def set_account_def set_update_rows)
    moreover have "table_wf account_schema (t_accounts t')"
      using that g unfolding renamed_def accounts_good_def by blast
    ultimately show ?thesis unfolding accounts_good_def by blast
  qed
  then show "wp (Rename H K secret s i n) (\<lambda>_ w'. accounts_good K (tabs w')) w"
    by (intro wp_mono [OF Rename_post [OF H s]]) (use g in \<open>auto split: sum.splits\<close>)
  have new: "wp (UpdatePassword (as_accountRepo s) j h) (\<lambda>_ w'. accounts_good K (tabs w')) w1"
    if "hashed K h" "accounts_good K (tabs w1)" for j h w1
    by (rule account_updates(3)) (use k that in \<open>auto intro!: set_account_good\<close>)
  show "wp (ChangePassword K s u p q) (\<lambda>_ w'. accounts_good K (tabs w')) w"
    unfolding ChangePassword_def AccountService_FindByUsername_def wp_bindE [of "AccountRepo_FindByUsername _ _"]
    by (rule account_finds(2)) (use k g in \<open>auto simp: quiet_iff wp_return intro!: pass new split: sum.splits\<close>)
  have out: "wp (do {_ \<leftarrow> uncache_session (as_cache s) i rt; DeleteTokenAndRefreshToken (as_accountRepo s) j}) (\<lambda>_ w'. accounts_good K (tabs w')) w1"
    if "accounts_good K (tabs w1)" for i rt j w1
    unfolding wp_bind
    by (rule wp_mono [OF uncache_session_frame], use k in simp, rule account_updates(4))
      (use k that in \<open>auto simp: redis_frame_def intro!: set_account_good\<close>)
  show "wp (Logout s i) (\<lambda>_ w'. accounts_good K (tabs w')) w"
    unfolding Logout_def AccountService_FindByID_def wp_bindE [of "AccountRepo_FindByID _ _"]
    by (rule account_finds(1)) (use k g in \<open>auto simp: quiet_iff wp_return intro!: out\<close>)
  have "wp (UpdateAvatarAndProfile (as_accountRepo s) i u p) (\<lambda>_ w'. accounts_good K (tabs w')) w" for u p
    by (rule account_updates(6)) (use k g in \<open>auto intro!: set_account_good\<close>)
  with g show "wp (AccountService_UpdateProfile s i u p) (\<lambda>_ w'. accounts_good K (tabs w')) w"
    by (simp add: AccountService_UpdateProfile_def wp_return)
qed

lemma account_step_good:
  assumes "host_ok H" "crypto_ok K" "account_service_ok s"
  shows "account_step H K secret s w w' \<Longrightarrow> accounts_good K (tabs w) \<Longrightarrow> accounts_good K (tabs w')"
proof (induction rule: account_step.induct)
  case (create b1 w r1 w')
  note ops = account_operations_good [OF assms create.prems]
  have "wp (AccountHandler_CreateAccount K s b1) (\<lambda>_ w'. accounts_good K (tabs w')) w"
    using create.prems by (auto simp: AccountHandler_CreateAccount_def wp_simps intro!: ops split: sum.splits prod.splits)
  from wp_runD [OF this create.hyps] show ?case .
next
  case (login b2 w r2 w')
  have "wp (AccountHandler_Login H K secret s b2) (\<lambda>_ w'. accounts_good K (tabs w')) w"
    unfolding AccountHandler_Login_def AccountService_FindByUsername_def
    using login.prems assms(3)
    by (auto simp: wp_simps quiet_iff account_service_ok_def intro!: account_finds(2) account_operations_good(2) [OF assms]
        split: sum.splits prod.splits)
  from wp_runD [OF this login.hyps] show ?case .
next
  case (refresh b3 w r3 w')
  have "wp (AccountHandler_Refresh H K secret s b3) (\<lambda>_ w'. accounts_good K (tabs w')) w"
    using refresh.prems by (auto simp: AccountHandler_Refresh_def wp_simps intro!: account_operations_good(3) [OF assms] split: sum.splits)
  from wp_runD [OF this refresh.hyps] show ?case .
next
  case (rename b4 c w r4 w')
  have "wp (AccountHandler_Rename H K secret s b4 c) (\<lambda>_ w'. accounts_good K (tabs w')) w"
    using rename.prems by (auto simp: AccountHandler_Rename_def wp_simps intro!: account_operations_good(4) [OF assms] split: sum.splits)
  from wp_runD [OF this rename.hyps] show ?case .
next
  case (change_password b5 w r5 w')
  have "wp (AccountHandler_ChangePassword K s b5) (\<lambda>_ w'. accounts_good K (tabs w')) w"
    using change_password.prems
    by (auto simp: AccountHandler_ChangePassword_def wp_simps intro!: account_operations_good(5) [OF assms] split: sum.splits prod.splits)
  from wp_runD [OF this change_password.hyps] show ?case .
next
  case (logout c w r6 w')
  have "wp (AccountHandler_Logout s c) (\<lambda>_ w'. accounts_good K (tabs w')) w"
    using logout.prems by (auto simp: AccountHandler_Logout_def wp_simps intro!: account_operations_good(6) [OF assms] split: sum.splits)
  from wp_runD [OF this logout.hyps] show ?case .
next
  case (update_profile b7 c w r7 w')
  have "wp (AccountHandler_UpdateProfile s b7 c) (\<lambda>_ w'. accounts_good K (tabs w')) w"
    using update_profile.prems
    by (auto simp: AccountHandler_UpdateProfile_def wp_simps intro!: account_operations_good(7) [OF assms] split: sum.splits prod.splits)
  from wp_runD [OF this update_profile.hyps] show ?case .
qed (simp add: accounts_good_def)


end
