(* ===== verification/JwtAuth.thy ===== *)
theory JwtAuth
  imports Account
begin

text \<open>
  \<open>internal/middleware/jwt/jwt.go\<close>: the middlewares that authenticate a request, and what they and
  the account service together promise about sessions.
\<close>

section \<open>jwt.go\<close>

text \<open>\<open>strings.SplitN(header, " ", 2)\<close>: the two parts around the first space, if there is one.\<close>

definition SplitN2 :: "string \<Rightarrow> (string \<times> string) option" where
  "SplitN2 header = (if CHR '' '' \<in> set header
     then Some (takeWhile (\<lambda>c. c \<noteq> CHR '' '') header, tl (dropWhile (\<lambda>c. c \<noteq> CHR '' '') header)) else None)"

text \<open>\<open>strings.EqualFold(s, "Bearer")\<close>: no letter of it has a case variant outside ASCII.\<close>

definition ascii_lower :: "char \<Rightarrow> char" where
  "ascii_lower c = (let n = of_char c :: nat in if 65 \<le> n \<and> n \<le> 90 then char_of (n + 32) else c)"

definition is_Bearer :: "string \<Rightarrow> bool" where
  "is_Bearer s \<longleftrightarrow> map ascii_lower s = ''bearer''"

definition authenticated :: "gin_ctx \<Rightarrow> claims \<Rightarrow> gin_ctx" where
  "authenticated c cl = c(''accountID'' \<mapsto> GUint (cl_AccountID cl), ''username'' \<mapsto> GString (cl_Username cl))"

definition check :: "gin_ctx \<Rightarrow> claims \<Rightarrow> string \<Rightarrow> 'x gorm \<Rightarrow> 'x cache \<Rightarrow> ('x, decision) io" where
  "check c cl tokenStr accountRepo cache = do {
     cached \<leftarrow> (if cache = None then throw RedisNil else GetBytes cache (token_cache_key cache (cl_AccountID cl)));
     (case cached of
        Inr bytes \<Rightarrow> ret (if bytes \<noteq> tokenStr then Abort 401 ''token has been revoked'' else Next (authenticated c cl))
      | Inl _ \<Rightarrow> do {
          r \<leftarrow> AccountRepo_FindByID accountRepo (cl_AccountID cl);
          (case r of
             Inl _ \<Rightarrow> ret (Abort 401 ''token has been revoked'')
           | Inr accountInfo \<Rightarrow>
               if a_Token accountInfo = '''' \<or> a_Token accountInfo \<noteq> tokenStr then ret (Abort 401 ''token has been revoked'')
               else do {
                 _ \<leftarrow> (if cache = None then ok ()
                      else SetBytes cache (token_cache_key cache (cl_AccountID cl)) tokenStr (hours 24));
                 ret (Next (authenticated c cl))})})}"

definition JWTAuth :: "'x crypto \<Rightarrow> string \<Rightarrow> 'x gorm \<Rightarrow> 'x cache \<Rightarrow> string \<Rightarrow> gin_ctx \<Rightarrow> ('x, decision) io" where
  "JWTAuth K secret accountRepo cache header c =
     (if header = '''' then ret (Abort 401 ''missing authorization header'')
      else case SplitN2 header of
        None \<Rightarrow> ret (Abort 401 ''invalid authorization header'')
      | Some (scheme, tokenStr) \<Rightarrow>
          if \<not> is_Bearer scheme then ret (Abort 401 ''invalid authorization header'')
          else do {
            r \<leftarrow> ParseToken K secret tokenStr;
            (case r of
               Inl _ \<Rightarrow> ret (Abort 401 ''invalid or expired token'')
             | Inr cl \<Rightarrow> check c cl tokenStr accountRepo cache)})"

definition SoftJWTAuth :: "'x crypto \<Rightarrow> string \<Rightarrow> 'x gorm \<Rightarrow> 'x cache \<Rightarrow> string \<Rightarrow> gin_ctx \<Rightarrow> ('x, decision) io" where
  "SoftJWTAuth K secret accountRepo cache header c =
     (if header = '''' then ret (Next c)
      else case SplitN2 header of
        None \<Rightarrow> ret (Abort 401 ''invalid authorization header'')
      | Some (scheme, tokenStr) \<Rightarrow>
          if \<not> is_Bearer scheme then ret (Abort 401 ''invalid authorization header'')
          else do {
            r \<leftarrow> ParseToken K secret tokenStr;
            (case r of
               Inl _ \<Rightarrow> ret (Abort 401 ''invalid or expired token'')
             | Inr cl \<Rightarrow> check c cl tokenStr accountRepo cache)})"

section \<open>Who passes\<close>

text \<open>
  The token of a request that passed: its signature is right under the program's secret, its
  claims are what the handlers will see, and it is the session that the cache or the database
  has for the account.
\<close>

definition passed :: "'x crypto \<Rightarrow> string \<Rightarrow> 'x cache \<Rightarrow> string \<Rightarrow> gin_ctx \<Rightarrow> gin_ctx \<Rightarrow> string \<Rightarrow> claims \<Rightarrow> 'x world \<Rightarrow> bool" where
  "passed K secret cache header c c' tok cl w \<longleftrightarrow>
     (\<exists>scheme. SplitN2 header = Some (scheme, tok) \<and> is_Bearer scheme) \<and>
     secret \<noteq> '''' \<and> jwt_verified K (Some ''HS256'') secret tok cl \<and> c' = authenticated c cl \<and>
     ((\<exists>e. cache \<noteq> None \<and> rds w (token_cache_key cache (cl_AccountID cl)) = Some (RStr tok, e)) \<or>
      (\<exists>a \<in> set (t_accounts (tabs w)). a_ID a = cl_AccountID cl \<and> a_Token a = tok \<and> tok \<noteq> ''''))"

text \<open>What a check may change: it stores a token that the database has.\<close>

definition cached_current :: "'x cache \<Rightarrow> 'x world \<Rightarrow> 'x world \<Rightarrow> bool" where
  "cached_current cache w w' \<longleftrightarrow> redis_frame w w' \<and> (rds w' = rds w \<or> (\<exists>a \<in> set (t_accounts (tabs w)). \<exists>x.
     rds w' = (rds w)(token_cache_key cache (a_ID a) \<mapsto> (RStr (a_Token a), x))))"

lemma cached_currentI:
  "redis_frame w w' \<Longrightarrow> a \<in> set (t_accounts (tabs w)) \<Longrightarrow> rds w' = (rds w)(token_cache_key cache (a_ID a) \<mapsto> (RStr (a_Token a), x)) \<Longrightarrow>
   cached_current cache w w'"
  "redis_frame w w' \<Longrightarrow> rds w' = rds w \<Longrightarrow> cached_current cache w w'"
  by (auto simp: cached_current_def)

lemma check_post:
  assumes "gorm_ok G" "cache_redis_ok cache"
  shows "wp (check c cl tok G cache) (\<lambda>d w'. cached_current cache w w' \<and> (\<forall>c'. d = Next c' \<longrightarrow> c' = authenticated c cl \<and>
     ((\<exists>e. cache \<noteq> None \<and> rds w (token_cache_key cache (cl_AccountID cl)) = Some (RStr tok, e)) \<or>
      (\<exists>a \<in> set (t_accounts (tabs w)). a_ID a = cl_AccountID cl \<and> a_Token a = tok \<and> tok \<noteq> '''')))) w" (is "wp _ ?Q w")
proof -
  let ?key = "token_cache_key cache (cl_AccountID cl)"
  have set: "wp (if cache = None then ok () else SetBytes cache ?key tok (hours 24)) (\<lambda>_. ?Q (Next (authenticated c cl))) w2"
    if "redis_frame w w2" "rds w2 = rds w" "a \<in> set (t_accounts (tabs w))" "a_ID a = cl_AccountID cl" "a_Token a = tok" "tok \<noteq> ''''" for a w2
  proof -
    have q: "?Q (Next (authenticated c cl)) w'" if "cached_current cache w w'" for w'
      using that \<open>a \<in> _\<close> \<open>a_ID a = _\<close> \<open>a_Token a = _\<close> \<open>tok \<noteq> _\<close> by auto
    have "wp (SetBytes cache ?key tok (hours 24)) (\<lambda>_. ?Q (Next (authenticated c cl))) w2"
      by (rule wp_SetBytes [OF assms(2)]; rule q)
        (use that in \<open>auto intro: redis_frame_trans cached_currentI(2) cached_currentI(1) [of _ _ a]\<close>)
    then show ?thesis using q [of w2] cached_currentI(2) [OF that(1,2)] by (simp add: wp_return)
  qed
  let ?db = "do {
      r \<leftarrow> AccountRepo_FindByID G (cl_AccountID cl);
      (case r of
         Inl _ \<Rightarrow> ret (Abort 401 ''token has been revoked'')
       | Inr accountInfo \<Rightarrow>
           if a_Token accountInfo = '''' \<or> a_Token accountInfo \<noteq> tok then ret (Abort 401 ''token has been revoked'')
           else do {
             _ \<leftarrow> (if cache = None then ok () else SetBytes cache ?key tok (hours 24));
             ret (Next (authenticated c cl))})}"
  have db: "wp ?db ?Q w1" if w1: "redis_frame w w1" "rds w1 = rds w" for w1
    unfolding wp_bind
  proof (rule account_finds(1) [OF assms(1)], goal_cases)
    case (1 e w2)
    with w1 show ?case by (simp add: wp_return cached_current_def frame_defs)
  next
    case (2 a w2)
    then have w2: "redis_frame w w2" "rds w2 = rds w" and a: "a \<in> set (t_accounts (tabs w))" using w1 by (auto simp: frame_defs)
    show ?case
    proof (cases "a_Token a = '''' \<or> a_Token a \<noteq> tok")
      case True
      with w2 show ?thesis by (simp add: wp_return cached_current_def)
    next
      case False
      then have "wp (if cache = None then ok () else SetBytes cache ?key tok (hours 24)) (\<lambda>_. ?Q (Next (authenticated c cl))) w2"
        by (intro set [OF w2 a 2(3)]) auto
      then have "wp (do {_ \<leftarrow> (if cache = None then ok () else SetBytes cache ?key tok (hours 24)); ret (Next (authenticated c cl))}) ?Q w2"
        unfolding wp_bind by (rule wp_mono) (simp add: wp_return)
      then show ?thesis unfolding sum.case if_not_P [OF False] .
    qed
  qed
  let ?rest = "\<lambda>cached. case cached of
        Inr bytes \<Rightarrow> ret (if bytes \<noteq> tok then Abort 401 ''token has been revoked'' else Next (authenticated c cl))
      | Inl _ \<Rightarrow> ?db"
  have "wp (if cache = None then throw RedisNil else GetBytes cache ?key) (\<lambda>r. wp (?rest r) ?Q) w"
  proof (cases "cache = None")
    case True
    with db show ?thesis by (simp add: wp_return)
  next
    case False
    have "wp (GetBytes cache ?key) (\<lambda>r. wp (?rest r) ?Q) w"
    proof (rule wp_GetBytes [OF assms(2)], goal_cases)
      case (1 e w')
      then show ?case using db by simp
    next
      case (2 b e w')
      with False show ?case by (simp add: wp_return cached_current_def)
    qed
    then show ?thesis unfolding if_not_P [OF False] .
  qed
  then show ?thesis unfolding check_def wp_bind .
qed

lemma cached_current_quiet: "quiet w w1 \<Longrightarrow> cached_current cache w1 w' \<Longrightarrow> cached_current cache w w'"
  by (auto simp: cached_current_def frame_defs)

lemma auth_post:
  assumes K: "crypto_ok K" and G: "gorm_ok G" and C: "cache_redis_ok cache"
  shows JWTAuth_post: "wp (JWTAuth K secret G cache header c) (\<lambda>d w'. cached_current cache w w' \<and>
      (\<forall>c'. d = Next c' \<longrightarrow> (\<exists>tok cl. passed K secret cache header c c' tok cl w))) w"
    and SoftJWTAuth_post: "wp (SoftJWTAuth K secret G cache header c) (\<lambda>d w'. cached_current cache w w' \<and>
      (\<forall>c'. d = Next c' \<longrightarrow> header = '''' \<and> c' = c \<or> (\<exists>tok cl. passed K secret cache header c c' tok cl w))) w"
proof -
  let ?run = "\<lambda>tok. do {r \<leftarrow> ParseToken K secret tok;
      (case r of Inl _ \<Rightarrow> ret (Abort 401 ''invalid or expired token'') | Inr cl \<Rightarrow> check c cl tok G cache)}"
  have parse: "wp (?run tok) (\<lambda>d w'. cached_current cache w w' \<and> (\<forall>c'. d = Next c' \<longrightarrow> (\<exists>tok cl. passed K secret cache header c c' tok cl w))) w"
    if split: "SplitN2 header = Some (scheme, tok)" "is_Bearer scheme" for scheme tok
    unfolding wp_bind
  proof (rule wp_ParseToken [OF K], goal_cases)
    case (1 e w')
    then show ?case by (simp add: wp_return cached_current_def frame_defs)
  next
    case (2 cl w1)
    show ?case
      unfolding sum.case
      by (rule wp_mono [OF check_post [OF G C]]) (use split 2 in \<open>force simp: passed_def frame_defs dest: cached_current_quiet [OF 2(1)]\<close>)
  qed
  have refl: "cached_current cache w w" by (simp add: cached_current_def)
  show "wp (JWTAuth K secret G cache header c) (\<lambda>d w'. cached_current cache w w' \<and>
      (\<forall>c'. d = Next c' \<longrightarrow> (\<exists>tok cl. passed K secret cache header c c' tok cl w))) w"
    using parse by (simp add: JWTAuth_def wp_return refl split: option.splits)
  show "wp (SoftJWTAuth K secret G cache header c) (\<lambda>d w'. cached_current cache w w' \<and>
      (\<forall>c'. d = Next c' \<longrightarrow> header = '''' \<and> c' = c \<or> (\<exists>tok cl. passed K secret cache header c c' tok cl w))) w"
    using parse by (auto simp: SoftJWTAuth_def wp_return refl elim!: wp_mono split: option.splits)
qed

text \<open>
  C26. Only an authenticated request passes: when \<open>JWTAuth\<close> lets a request through, its header was
  a bearer token signed with HS256 under the configured secret, the handlers see exactly the
  account and the name of its claims, and the token is the one the cache or, behind it, the
  database holds for this account; the tables and the queues are untouched.
\<close>

theorem JWTAuth_sound:
  assumes "crypto_ok K" "gorm_ok G" "cache_redis_ok cache" "run_state (JWTAuth K secret G cache header c) w = (Next c', w')"
  shows "redis_frame w w' \<and> (\<exists>tok cl. passed K secret cache header c c' tok cl w \<and>
    GetAccountID c' = Inr (cl_AccountID cl) \<and> GetUsername c' = Inr (cl_Username cl))"
  using wp_runD [OF JWTAuth_post [OF assms(1-3)] assms(4)]
  by (fastforce simp: passed_def cached_current_def authenticated_def GetAccountID_def GetUsername_def)

section \<open>Sessions end\<close>

text \<open>The cache has no token but the current one of the account.\<close>

definition cache_agrees :: "'x cache \<Rightarrow> 'x world \<Rightarrow> bool" where
  "cache_agrees c w \<longleftrightarrow> c \<noteq> None \<longrightarrow> (\<forall>i b e. rds w (token_cache_key c i) = Some (RStr b, e) \<longrightarrow>
     (\<exists>a \<in> set (t_accounts (tabs w)). a_ID a = i \<and> a_Token a = b))"

text \<open>The cache's writes and deletes do not fail.\<close>

definition writes_reach :: "'x cache \<Rightarrow> bool" where
  "writes_reach c \<longleftrightarrow> c \<noteq> None \<longrightarrow> (\<forall>k b t w. wp (SetBytes c k b t) (\<lambda>r _. r = Inr ()) w) \<and>
     (\<forall>k w. wp (Client_Delete c k) (\<lambda>r _. r = Inr ()) w)"

lemma wp_SetBytes_sure:
  assumes "cache_redis_ok c" "writes_reach c" "c \<noteq> None"
    and "\<And>x w'. redis_frame w w' \<Longrightarrow> rds w' = (rds w)(key \<mapsto> (RStr b, x)) \<Longrightarrow> Q (Inr ()) w'"
  shows "wp (SetBytes c key b ttl) Q w"
proof -
  have "wp (SetBytes c key b ttl) (\<lambda>r _. r = Inr ()) w" using assms(2,3) unfolding writes_reach_def by blast
  moreover have "wp (SetBytes c key b ttl) (\<lambda>r w'. r = Inr () \<longrightarrow> Q r w') w"
    by (rule wp_SetBytes [OF assms(1)]) (use assms(4) in auto)
  ultimately have "wp (SetBytes c key b ttl) (\<lambda>r w'. r = Inr () \<and> (r = Inr () \<longrightarrow> Q r w')) w" by (simp only: wp_conj simp_thms)
  then show ?thesis by (rule wp_mono) simp
qed

lemma wp_Client_Delete_sure:
  assumes "cache_redis_ok c" "writes_reach c" "c \<noteq> None"
    and "\<And>w'. redis_frame w w' \<Longrightarrow> rds w' = (rds w)(key := None) \<Longrightarrow> Q (Inr ()) w'"
  shows "wp (Client_Delete c key) Q w"
proof -
  have "wp (Client_Delete c key) (\<lambda>r _. r = Inr ()) w" using assms(2,3) unfolding writes_reach_def by blast
  moreover have "wp (Client_Delete c key) (\<lambda>r w'. r = Inr () \<longrightarrow> Q r w') w"
    by (rule wp_Client_Delete [OF assms(1)]) (use assms(4) in auto)
  ultimately have "wp (Client_Delete c key) (\<lambda>r w'. r = Inr () \<and> (r = Inr () \<longrightarrow> Q r w')) w" by (simp only: wp_conj simp_thms)
  then show ?thesis by (rule wp_mono) simp
qed

lemma FormatUint_no_colon: "CHR '':'' \<notin> set (FormatUint n)"
proof (induction n rule: FormatUint.induct)
  case (1 n)
  have "CHR '':'' \<noteq> char_of (48 + k :: nat)" if "k < 10" for k
  proof
    assume "CHR '':'' = char_of (48 + k)"
    then have "of_char CHR '':'' = (of_char (char_of (48 + k) :: char) :: nat)" by simp
    with that show False by simp
  qed
  with 1 show ?case by (subst FormatUint.simps) (auto simp: mod_less_divisor)
qed

lemma session_keys [simp]:
  "token_cache_key c i = token_cache_key c j \<longleftrightarrow> i = j"
  "token_cache_key c i \<noteq> refresh_cache_key c j" "refresh_cache_key c j \<noteq> token_cache_key c i"
  "token_cache_key c i \<noteq> refresh_lookup_key c t" "refresh_lookup_key c t \<noteq> token_cache_key c i"
proof -
  show "token_cache_key c i = token_cache_key c j \<longleftrightarrow> i = j"
    by (auto simp: token_cache_key_def Key_def dest: FormatUint_inj)
  have "FormatUint i \<noteq> FormatUint j @ '':refresh''"
    by (metis FormatUint_no_colon in_set_conv_decomp append_is_Nil_conv UnCI list.set_intros(1) set_append)
  then show "token_cache_key c i \<noteq> refresh_cache_key c j" "refresh_cache_key c j \<noteq> token_cache_key c i"
    by (auto simp: token_cache_key_def refresh_cache_key_def Key_def)
  show "token_cache_key c i \<noteq> refresh_lookup_key c t" "refresh_lookup_key c t \<noteq> token_cache_key c i"
    by (auto simp: token_cache_key_def refresh_lookup_key_def Key_def)
qed

lemma agrees_after_set:
  assumes "cache_agrees c w" "a \<in> set (t_accounts (tabs w))" "a_ID a = i"
    and t': "t_accounts t' = update_rows (\<lambda>a. a_ID a = i) f (t_accounts (tabs w))" and f: "\<And>a. a_ID (f a) = a_ID a \<and> a_Token (f a) = tok"
    and w': "tabs w' = t'" "\<And>j. j \<noteq> i \<Longrightarrow> rds w' (token_cache_key c j) = rds w (token_cache_key c j)"
      "\<And>b e. rds w' (token_cache_key c i) = Some (RStr b, e) \<Longrightarrow> b = tok"
  shows "cache_agrees c w'"
  unfolding cache_agrees_def
proof (intro allI impI)
  fix j b e assume "c \<noteq> None" and e: "rds w' (token_cache_key c j) = Some (RStr b, e)"
  show "\<exists>a \<in> set (t_accounts (tabs w')). a_ID a = j \<and> a_Token a = b"
  proof (cases "j = i")
    case True
    with e w'(3) have "b = tok" by simp
    moreover have "f a \<in> set (t_accounts (tabs w'))" using assms(2,3) by (auto simp: w'(1) t' set_update_rows)
    ultimately show ?thesis using True f assms(3) by auto
  next
    case False
    with e w'(2) assms(1) obtain x where "x \<in> set (t_accounts (tabs w))" "a_ID x = j" "a_Token x = b"
      using \<open>c \<noteq> None\<close> unfolding cache_agrees_def by (metis (lifting))
    with False show ?thesis by (auto simp: w'(1) t' set_update_rows)
  qed
qed

lemma agrees_frame: "cache_agrees c w \<Longrightarrow> tabs w' = tabs w \<Longrightarrow> rds w' = rds w \<Longrightarrow> cache_agrees c w'"
  by (simp add: cache_agrees_def)

lemma agrees_quiet: "cache_agrees c w \<Longrightarrow> quiet w w' \<Longrightarrow> cache_agrees c w'"
  by (auto simp: frame_defs intro: agrees_frame)

lemma cache_session_agrees:
  assumes c: "cache_redis_ok c" "writes_reach c" and w: "cache_agrees c w" "a \<in> set (t_accounts (tabs w))"
    and w2: "tabs w2 = set_account (a_ID a) (\<lambda>x. x\<lparr>a_Token := t, a_RefreshToken := rt\<rparr>) (tabs w)" "rds w2 = rds w"
  shows "wp (cache_session c (a_ID a) t rt) (\<lambda>_ w'. cache_agrees c w') w2"
proof (cases "c = None")
  case True
  then show ?thesis by (simp add: cache_session_def wp_return cache_agrees_def)
next
  case False
  have eff: "cache_agrees c w'"
    if "rds w' = (rds w)(token_cache_key c (a_ID a) \<mapsto> (RStr t, x), refresh_cache_key c (a_ID a) \<mapsto> y, refresh_lookup_key c rt \<mapsto> z)"
      "tabs w' = tabs w2" for x y z w'
    by (rule agrees_after_set [OF w refl, of "tabs w2"]) (use that w2 in \<open>auto simp: set_account_def\<close>)
  have third: "wp (SetBytes c (refresh_lookup_key c rt) (FormatUint (a_ID a)) ttl) (\<lambda>_ w'. cache_agrees c w') w3"
    if "rds w3 = (rds w)(token_cache_key c (a_ID a) \<mapsto> (RStr t, x), refresh_cache_key c (a_ID a) \<mapsto> y)" "tabs w3 = tabs w2" for x y ttl w3
    by (rule wp_SetBytes_sure [OF c False]) (use that in \<open>auto simp: redis_frame_def intro!: eff\<close>)
  have second: "wp (SetBytes c (refresh_cache_key c (a_ID a)) rt ttl) (\<lambda>_. wp (SetBytes c (refresh_lookup_key c rt) (FormatUint (a_ID a)) ttl)
      (\<lambda>_ w'. cache_agrees c w')) w3"
    if "rds w3 = (rds w)(token_cache_key c (a_ID a) \<mapsto> (RStr t, x))" "tabs w3 = tabs w2" for x ttl w3
    by (rule wp_SetBytes_sure [OF c False]) (use that in \<open>auto simp: redis_frame_def intro!: third\<close>)
  have "wp (SetBytes c (token_cache_key c (a_ID a)) t (hours 24)) (\<lambda>_. wp (SetBytes c (refresh_cache_key c (a_ID a)) rt (hours (7 * 24)))
      (\<lambda>_. wp (SetBytes c (refresh_lookup_key c rt) (FormatUint (a_ID a)) (hours (7 * 24))) (\<lambda>_ w'. cache_agrees c w'))) w2"
    by (rule wp_SetBytes_sure [OF c False]) (use w2 in \<open>auto simp: redis_frame_def intro!: second\<close>)
  then show ?thesis by (simp only: cache_session_def if_not_P [OF False] wp_bind wp_unapplied)
qed

lemma Login_agrees:
  assumes H: "host_ok H" and s: "account_service_ok s" and c: "writes_reach (as_cache s)" and w: "cache_agrees (as_cache s) w"
  shows "wp (Login H K secret s u p) (\<lambda>r w'. (\<exists>x. r = Inr x) \<or> tabs w' = tabs w \<longrightarrow> cache_agrees (as_cache s) w') w" (is "wp _ ?Q w")
proof -
  note k = s [unfolded account_service_ok_def]
  let ?G = "as_accountRepo s" and ?c = "as_cache s"
  have upd: "wp (bindE (UpdateTokenAndRefreshToken ?G (a_ID a) t rt) (\<lambda>_. do {
       _ \<leftarrow> cache_session ?c (a_ID a) t rt; ok (t, rt)})) ?Q w1"
    if "quiet w w1" "a \<in> set (t_accounts (tabs w))" for a t rt w1
    unfolding wp_bindE
  proof (rule account_updates(1), goal_cases)
    case (2 e w')
    then show ?case using w that(1) by (auto simp: frame_defs intro: agrees_frame)
  next
    case (3 w')
    have "wp (cache_session ?c (a_ID a) t rt) (\<lambda>_ w'. cache_agrees ?c w') w'"
      by (rule cache_session_agrees [OF _ c w that(2)]) (use k 3 that(1) in \<open>auto simp: frame_defs\<close>)
    then show ?case unfolding sum.case wp_bind by (rule wp_mono) (simp add: wp_return)
  qed (use k in simp)
  have refresh: "wp (bindE (GenerateRefreshToken H (a_ID a)) (\<lambda>rt. bindE (UpdateTokenAndRefreshToken ?G (a_ID a) t rt) (\<lambda>_. do {
       _ \<leftarrow> cache_session ?c (a_ID a) t rt; ok (t, rt)}))) ?Q w1"
    if "quiet w w1" "a \<in> set (t_accounts (tabs w))" for a t w1
    unfolding wp_bindE [of "GenerateRefreshToken H _"]
    by (rule wp_GenerateRefreshToken [OF H]) (use that upd w in \<open>auto simp: frame_defs intro: agrees_frame\<close>)
  have tok: "wp (bindE (GenerateToken H K secret (a_ID a) (a_Username a)) (\<lambda>t. bindE (GenerateRefreshToken H (a_ID a)) (\<lambda>rt.
      bindE (UpdateTokenAndRefreshToken ?G (a_ID a) t rt) (\<lambda>_. do {_ \<leftarrow> cache_session ?c (a_ID a) t rt; ok (t, rt)})))) ?Q w1"
    if "quiet w w1" "a \<in> set (t_accounts (tabs w))" for a w1
    unfolding wp_bindE [of "GenerateToken H K secret _ _"]
    by (rule wp_GenerateToken [OF H]) (use that refresh w in \<open>auto simp: frame_defs intro: agrees_frame split: sum.splits\<close>)
  show ?thesis
    unfolding Login_def AccountService_FindByUsername_def wp_bindE [of "AccountRepo_FindByUsername _ _"]
    by (rule account_finds(2))
      (use k tok w in \<open>auto simp: frame_defs wp_bindE [of "ret _"] wp_return intro: agrees_frame split: sum.splits\<close>)
qed

lemma renamed_rows:
  assumes "renamed i u t tok t'"
  shows "t_accounts t' = update_rows (\<lambda>a. a_ID a = i) (\<lambda>x. x\<lparr>a_Username := u, a_Token := tok\<rparr>) (t_accounts t)"
  using assms by (auto simp: renamed_def set_account_def update_rows_def)

lemma Rename_agrees:
  assumes H: "host_ok H" and s: "account_service_ok s" and c: "writes_reach (as_cache s)" and w: "cache_agrees (as_cache s) w"
  shows "wp (Rename H K secret s i u) (\<lambda>r w'. (\<exists>x. r = Inr x) \<or> tabs w' = tabs w \<longrightarrow> cache_agrees (as_cache s) w') w" (is "wp _ ?Q w")
proof (cases "u = ''''")
  case True
  with w show ?thesis by (simp add: Rename_def wp_return)
next
  case False
  note k = s [unfolded account_service_ok_def]
  let ?c = "as_cache s"
  have set: "wp (if ?c = None then ok () else SetBytes ?c (token_cache_key ?c i) tok ttl) (\<lambda>_ w'. cache_agrees ?c w') w1"
    if t: "renamed i u (tabs w) tok (tabs w1)" "rds w1 = rds w" for ttl tok w1
  proof (cases "?c = None")
    case True
    then show ?thesis by (simp add: wp_return cache_agrees_def)
  next
    case False
    from t(1) obtain a where a: "a \<in> set (t_accounts (tabs w))" "a_ID a = i" by (auto simp: renamed_def)
    have "wp (SetBytes ?c (token_cache_key ?c i) tok ttl) (\<lambda>_ w'. cache_agrees ?c w') w1"
      by (rule wp_SetBytes_sure [OF _ c False], use k in simp, rule agrees_after_set [OF w a renamed_rows [OF t(1)], of tok])
        (use t(2) in \<open>auto simp: redis_frame_def\<close>)
    then show ?thesis unfolding if_not_P [OF False] .
  qed
  have go: "wp (do {
        r \<leftarrow> RenameWithToken (as_accountRepo s) i u tok;
        (case r of
           Inl err \<Rightarrow> if IsDupKey err then throw ErrUsernameTaken else throw err
         | Inr _ \<Rightarrow> do {_ \<leftarrow> (if ?c = None then ok () else SetBytes ?c (token_cache_key ?c i) tok (hours 24)); ok tok})}) ?Q w1"
    if w1: "quiet w w1" for tok w1
    unfolding wp_bind
  proof (rule wp_mono [OF RenameWithToken_post], use k in simp)
    fix r :: "unit res" and w2 assume r: "sql_frame w1 w2 \<and> (case r of Inr _ \<Rightarrow> renamed i u (tabs w1) tok (tabs w2)
        | Inl e \<Rightarrow> tabs w2 = tabs w1 \<or> renamed i u (tabs w1) tok (tabs w2))"
    show "wp (case r of Inl err \<Rightarrow> if IsDupKey err then throw ErrUsernameTaken else throw err
         | Inr _ \<Rightarrow> do {_ \<leftarrow> (if ?c = None then ok () else SetBytes ?c (token_cache_key ?c i) tok (hours 24)); ok tok}) ?Q w2"
    proof (cases r)
      case (Inl e)
      with r w1 w show ?thesis by (auto simp: wp_return frame_defs intro: agrees_frame)
    next
      case (Inr x)
      have "wp (if ?c = None then ok () else SetBytes ?c (token_cache_key ?c i) tok (hours 24)) (\<lambda>_ w'. cache_agrees ?c w') w2"
        by (rule set) (use r w1 Inr in \<open>auto simp: frame_defs\<close>)
      then show ?thesis unfolding Inr sum.case wp_bind by (rule wp_mono) (simp add: wp_return)
    qed
  qed
  show ?thesis
    unfolding Rename_def if_not_P [OF False] wp_bindE
  proof (rule wp_GenerateToken [OF H], goal_cases)
    case (1 r w1)
    then show ?case using go [OF 1] agrees_quiet [OF w 1] by (cases r) simp_all
  qed
qed

lemma uncache_session_gone:
  assumes c: "cache_redis_ok c" "writes_reach c" "c \<noteq> None"
  shows "wp (uncache_session c i rt) (\<lambda>_ w'. redis_frame w w' \<and> rds w' (token_cache_key c i) = None \<and>
    (\<forall>j. j \<noteq> i \<longrightarrow> rds w' (token_cache_key c j) = rds w (token_cache_key c j))) w" (is "wp _ (\<lambda>_. ?Q) w")
proof -
  have third: "wp (if rt \<noteq> '''' then Client_Delete c (refresh_lookup_key c rt) else ok ()) (\<lambda>_. ?Q) w1" if "?Q w1" for w1
  proof -
    have "wp (Client_Delete c (refresh_lookup_key c rt)) (\<lambda>_. ?Q) w1"
      by (rule wp_Client_Delete_sure [OF c]) (use that in \<open>auto intro: redis_frame_trans\<close>)
    with that show ?thesis by (simp add: wp_return)
  qed
  have second: "wp (Client_Delete c (refresh_cache_key c i)) (\<lambda>_. wp (if rt \<noteq> '''' then Client_Delete c (refresh_lookup_key c rt)
      else ok ()) (\<lambda>_. ?Q)) w1" if "?Q w1" for w1
    by (rule wp_Client_Delete_sure [OF c], rule third) (use that in \<open>auto intro: redis_frame_trans\<close>)
  have "wp (Client_Delete c (token_cache_key c i)) (\<lambda>_. wp (Client_Delete c (refresh_cache_key c i)) (\<lambda>_.
      wp (if rt \<noteq> '''' then Client_Delete c (refresh_lookup_key c rt) else ok ()) (\<lambda>_. ?Q))) w"
    by (rule wp_Client_Delete_sure [OF c], rule second) auto
  then show ?thesis by (simp only: uncache_session_def if_not_P [OF c(3)] wp_bind wp_unapplied)
qed

lemma Logout_agrees:
  assumes s: "account_service_ok s" and c: "writes_reach (as_cache s)" and w: "cache_agrees (as_cache s) w"
  shows "wp (Logout s i) (\<lambda>r w'. cache_agrees (as_cache s) w') w"
proof -
  note k = s [unfolded account_service_ok_def]
  let ?c = "as_cache s"
  have del: "wp (DeleteTokenAndRefreshToken (as_accountRepo s) i) (\<lambda>_ w'. cache_agrees ?c w') w1"
    if w1: "tabs w1 = tabs w" "?c \<noteq> None \<Longrightarrow> rds w1 (token_cache_key ?c i) = None \<and>
      (\<forall>j. j \<noteq> i \<longrightarrow> rds w1 (token_cache_key ?c j) = rds w (token_cache_key ?c j))" and a: "a \<in> set (t_accounts (tabs w))" "a_ID a = i" for a w1
  proof -
    have same: "cache_agrees ?c w'" if "tabs w' = tabs w" "rds w' = rds w1" for w'
      using that w1(2) w unfolding cache_agrees_def by (metis option.distinct(1))
    have gone: "cache_agrees ?c w'" if "tabs w' = set_account i (\<lambda>a. a\<lparr>a_Token := '''', a_RefreshToken := ''''\<rparr>) (tabs w)" "rds w' = rds w1" for w'
    proof (cases "?c = None")
      case True
      then show ?thesis by (simp add: cache_agrees_def)
    next
      case False
      show ?thesis
        by (rule agrees_after_set [OF w a, of "tabs w'" _ "''''"]) (use that w1(2) [OF False] in \<open>auto simp: set_account_def\<close>)
    qed
    show ?thesis
      by (rule account_updates(4)) (use k w1(1) same gone in \<open>auto simp: frame_defs\<close>)
  qed
  have out: "wp (do {_ \<leftarrow> uncache_session ?c i rt; DeleteTokenAndRefreshToken (as_accountRepo s) i}) (\<lambda>_ w'. cache_agrees ?c w') w1"
    if w1: "quiet w w1" and a: "a \<in> set (t_accounts (tabs w))" "a_ID a = i" for a rt w1
  proof (cases "?c = None")
    case True
    have "wp (DeleteTokenAndRefreshToken (as_accountRepo s) i) (\<lambda>_ w'. cache_agrees ?c w') w1"
      by (rule del [OF _ _ a]) (use w1 True in \<open>auto simp: frame_defs\<close>)
    with True show ?thesis by (simp add: uncache_session_def wp_bind wp_return)
  next
    case False
    show ?thesis
      unfolding wp_bind
      by (rule wp_mono [OF uncache_session_gone [OF _ c False]], use k in simp, rule del [OF _ _ a])
        (use w1 in \<open>auto simp: frame_defs\<close>)
  qed
  show ?thesis
    unfolding Logout_def AccountService_FindByID_def wp_bindE [of "AccountRepo_FindByID _ _"]
    by (rule account_finds(1)) (use k w out in \<open>auto simp: wp_return intro: agrees_quiet\<close>)
qed

lemma cached_current_agrees:
  assumes "cache_agrees c w" "cached_current c w w'"
  shows "cache_agrees c w'"
  using assms by (auto simp: cached_current_def cache_agrees_def redis_frame_def split: if_splits)

text \<open>
  Sessions as a state machine: logins and renames that succeed or leave the tables alone, logouts
  and authentications with any outcome, and anything else that leaves the accounts and the cached
  tokens alone.
\<close>

inductive session_step :: "'x host \<Rightarrow> 'x crypto \<Rightarrow> string \<Rightarrow> 'x account_service \<Rightarrow> 'x world \<Rightarrow> 'x world \<Rightarrow> bool"
  for H K secret s where
  login: "run_state (Login H K secret s u p) w = (r1, w') \<Longrightarrow> (\<exists>x. r1 = Inr x) \<or> tabs w' = tabs w \<Longrightarrow> session_step H K secret s w w'"
| rename: "run_state (Rename H K secret s i u) w = (r2, w') \<Longrightarrow> (\<exists>x. r2 = Inr x) \<or> tabs w' = tabs w \<Longrightarrow> session_step H K secret s w w'"
| logout: "run_state (Logout s i) w = (r3, w') \<Longrightarrow> session_step H K secret s w w'"
| auth: "run_state (JWTAuth K secret (as_accountRepo s) (as_cache s) header c) w = (d, w') \<Longrightarrow> session_step H K secret s w w'"
| soft_auth: "run_state (SoftJWTAuth K secret (as_accountRepo s) (as_cache s) header c) w = (d, w') \<Longrightarrow> session_step H K secret s w w'"
| elsewhere: "t_accounts (tabs w') = t_accounts (tabs w) \<Longrightarrow>
    \<forall>i. rds w' (token_cache_key (as_cache s) i) = rds w (token_cache_key (as_cache s) i) \<Longrightarrow> session_step H K secret s w w'"

lemma session_step_agrees:
  assumes ok: "host_ok H" "crypto_ok K" "account_service_ok s" "writes_reach (as_cache s)"
  shows "session_step H K secret s w w' \<Longrightarrow> cache_agrees (as_cache s) w \<Longrightarrow> cache_agrees (as_cache s) w'"
proof (induction rule: session_step.induct)
  case (login u p w r1 w')
  from wp_runD [OF Login_agrees [OF ok(1,3,4) login.prems] login.hyps(1)] login.hyps(2) show ?case by blast
next
  case (rename i u w r2 w')
  from wp_runD [OF Rename_agrees [OF ok(1,3,4) rename.prems] rename.hyps(1)] rename.hyps(2) show ?case by blast
next
  case (logout i w r3 w')
  from wp_runD [OF Logout_agrees [OF ok(3,4) logout.prems] logout.hyps] show ?case .
next
  case (auth header c w d w')
  then show ?case
    using ok(3) wp_runD [OF JWTAuth_post [OF ok(2)] auth.hyps]
    by (auto simp: account_service_ok_def intro: cached_current_agrees)
next
  case (soft_auth header c w d w')
  then show ?case
    using ok(3) wp_runD [OF SoftJWTAuth_post [OF ok(2)] soft_auth.hyps]
    by (auto simp: account_service_ok_def intro: cached_current_agrees)
qed (simp add: cache_agrees_def)


section \<open>Examples\<close>

text \<open>A signature scheme given by a table of claims with their tokens, and a readable hash.\<close>

definition ref_crypto :: "(claims \<times> string) list \<Rightarrow> ref_hid crypto" where
  "ref_crypto cs = \<lparr>
     jwt_Sign = (\<lambda>secret c. case map_of cs c of None \<Rightarrow> Inl (ErrNew ''sign'') | Some t \<Rightarrow> Inr t),
     jwt_Parse = (\<lambda>tok kf. ret (case map_of (map (\<lambda>(c, t). (t, c)) cs) tok of
        None \<Rightarrow> Inl (ErrNew ''malformed'')
      | Some c \<Rightarrow> (case kf (Some ''HS256'') of Inl e \<Rightarrow> Inl e | Inr key \<Rightarrow> Inr (Some c, True)))),
     jwt_verified = (\<lambda>alg key tok c. alg = Some ''HS256'' \<and> map_of (map (\<lambda>(c, t). (t, c)) cs) tok = Some c),
     NewNumericDate = (\<lambda>t. t),
     bcrypt_Generate = (\<lambda>p. ret (Inr (''h:'' @ p))),
     bcrypt_Compare = (\<lambda>h p. if h = ''h:'' @ p then Inr () else Inl (ErrNew ''mismatch''))\<rparr>"

lemma ref_crypto_ok: "crypto_ok (ref_crypto cs)"
  by (auto simp: crypto_ok_def ref_crypto_def wp_return frame_defs split: option.splits sum.splits)

definition ann_claims :: claims where
  "ann_claims = \<lparr>cl_AccountID = 1, cl_Username = ''ann'', cl_ExpiresAt = 1700000900000000000, cl_IssuedAt = 1700000000000000000,
     cl_NotBefore = 1700000000000000000\<rparr>"

definition sample_crypto :: "ref_hid crypto" where
  "sample_crypto = ref_crypto [(ann_claims, ''t1''), (ann_claims\<lparr>cl_IssuedAt := 5\<rparr>, ''old'')]"

definition ann :: account where
  "ann = \<lparr>a_ID = 1, a_Username = ''ann'', a_Password = ''h:pw'', a_Token = ''old'', a_RefreshToken = ''r1'', a_AvatarURL = '''', a_Bio = ''''\<rparr>"

lemma sure_cache_writes: "writes_reach sure_cache"
  by (simp add: writes_reach_def sure_cache_def NewClient_def rdb_of_def SetBytes_def Client_Delete_def sure_redis_def sure_cmd_def
      wp_def cmd_set_def cmd_del_def)

definition sample_accounts :: "ref_hid account_service" where
  "sample_accounts = NewAccountService ref_gorm sure_cache"

lemma sample_accounts_ok: "account_service_ok sample_accounts"
  by (simp add: account_service_ok_def sample_accounts_def NewAccountService_def ref_gorm_ok sure_cache_ok)

text \<open>Ann is logged in with the token \<open>old\<close>; her refresh token is in the database, and no longer in the cache.\<close>

definition session_world :: ref_world where
  "session_world = (ref_start [] (no_tables\<lparr>t_accounts := [ann]\<rparr>))
     \<lparr>rds := [token_cache_key sure_cache 1 \<mapsto> (RStr ''old'', None)]\<rparr>"

lemma cache_calls [simp]:
  "GetBytes sure_cache k = sure_cmd (cmd_get k)" "SetBytes sure_cache k b t = sure_cmd (cmd_set k b t)"
  "Client_Delete sure_cache k = sure_cmd (cmd_del k)" "sure_cache \<noteq> None"
  "GetBytes ref_cache k = ref_cmd (cmd_get k)" "SetBytes ref_cache k b t = ref_cmd (cmd_set k b t)"
  "Client_Delete ref_cache k = ref_cmd (cmd_del k)" "ref_cache \<noteq> None"
  by (simp_all add: GetBytes_def SetBytes_def Client_Delete_def sure_cache_def ref_cache_def NewClient_def rdb_of_def sure_redis_def ref_redis_def)

definition plain_host :: "ref_hid host" where
  "plain_host = ref_host [] [] [] [] [] []"

lemma plain_host_ok: "host_ok plain_host"
  unfolding plain_host_def by (rule ref_host_ok) auto

lemma bearer: "SplitN2 ''Bearer t1'' = Some (''Bearer'', ''t1'')" "SplitN2 ''Bearer old'' = Some (''Bearer'', ''old'')" "is_Bearer ''Bearer''"
  by (simp_all add: SplitN2_def) code_simp

definition refresh_run :: "(string \<times> uint \<times> string) res \<times> ref_world" where
  "refresh_run = run_state (RefreshToken plain_host sample_crypto ''s'' sample_accounts ''r1'') session_world"

definition auth_run :: "ref_hid cache \<Rightarrow> string \<Rightarrow> ref_world \<Rightarrow> decision \<times> ref_world" where
  "auth_run c header w = run_state (JWTAuth sample_crypto ''s'' ref_gorm c header Map.empty) w"

lemmas session_run_defs = bindE_def ParseToken_def token_key_def jwtSecret_def sample_crypto_def ref_crypto_def ann_claims_def ann_def
  plain_host_def ref_host_def ref_now_def JWTExpire_def ref_start_def no_tables_def ref_gorm_def ref_table_def ref_sql_def next_world_def
  schema_defs ref_updates_def update_rows_def table_wf_def changed_rows_def Let_def

text \<open>
  A refresh that does not find its token in the cache writes the new access token to the
  database and not to the cache, where the old one stays: the new token is refused and the old one
  still passes. It needs no failure: the cached refresh token expires after seven days, while
  every refresh renews the cached access token for another day.
\<close>

theorem refresh_leaves_stale_token:
  "fst refresh_run = Inr (''t1'', 1, ''ann'') \<and> map a_Token (t_accounts (tabs (snd refresh_run))) = [''t1''] \<and>
   fst (auth_run sure_cache ''Bearer t1'' (snd refresh_run)) = Abort 401 ''token has been revoked'' \<and>
   fst (auth_run sure_cache ''Bearer old'' (snd refresh_run)) = Next (authenticated Map.empty (ann_claims\<lparr>cl_IssuedAt := 5\<rparr>))"
proof -
  have w1: "refresh_run = (Inr (''t1'', 1, ''ann''), session_world\<lparr>tabs := no_tables\<lparr>t_accounts := [ann\<lparr>a_Token := ''t1''\<rparr>]\<rparr>\<rparr>)"
    by (simp add: refresh_run_def RefreshToken_def cached_refresh_def sample_accounts_def NewAccountService_def session_world_def
        sure_cmd_def cmd_get_def live_def AccountService_FindByRefreshToken_def AccountRepo_FindByRefreshToken_def GenerateToken_def
        UpdateToken_def session_run_defs)
  have "auth_run sure_cache ''Bearer t1'' (snd refresh_run) = (Abort 401 ''token has been revoked'', snd refresh_run)"
    "auth_run sure_cache ''Bearer old'' (snd refresh_run) = (Next (authenticated Map.empty (ann_claims\<lparr>cl_IssuedAt := 5\<rparr>)), snd refresh_run)"
    by (simp_all add: w1 auth_run_def JWTAuth_def bearer check_def session_world_def sure_cmd_def cmd_get_def live_def session_run_defs)
  then show ?thesis by (simp add: w1 ann_def)
qed

text \<open>
  A logout whose delete in the cache fails still answers with success: the database has no
  token any more, and the old token still passes, until the cached one expires.
\<close>

theorem logout_leaves_stale_token:
  "let w0 = session_world\<lparr>hidden := (hidden session_world)\<lparr>faults := [Fine, Fails ''timeout'']\<rparr>,
       rds := [token_cache_key ref_cache 1 \<mapsto> (RStr ''old'', None)]\<rparr>;
     (r, w1) = run_state (Logout (NewAccountService ref_gorm ref_cache) 1) w0
   in r = Inr () \<and> map a_Token (t_accounts (tabs w1)) = [''''] \<and>
      fst (auth_run ref_cache ''Bearer old'' w1) = Next (authenticated Map.empty (ann_claims\<lparr>cl_IssuedAt := 5\<rparr>))"
  by (simp add: auth_run_def JWTAuth_def bearer check_def Logout_def AccountService_FindByID_def AccountRepo_FindByID_def
      NewAccountService_def uncache_session_def DeleteTokenAndRefreshToken_def session_world_def ref_cmd_def cmd_get_def cmd_del_def
      live_def session_run_defs)

definition login_run :: "(string \<times> string) res \<times> ref_world" where
  "login_run = run_state (Login plain_host sample_crypto ''s'' sample_accounts ''ann'' ''pw'') session_world"

lemma login_run_fine: "\<exists>rt. fst login_run = Inr (''t1'', rt)"
  by (simp add: login_run_def Login_def AccountService_FindByUsername_def AccountRepo_FindByUsername_def GenerateToken_def
      GenerateRefreshToken_def UpdateTokenAndRefreshToken_def cache_session_def sample_accounts_def NewAccountService_def
      session_world_def sure_cmd_def cmd_set_def ref_rand_def session_run_defs)



lemma session_accounts: "table_wf account_schema (t_accounts (tabs session_world))" "ann \<in> set (t_accounts (tabs session_world))"
  by (simp_all add: session_world_def ref_start_def table_wf_def ann_def)


theorem Rename_same_name_fails_witness:
  "\<exists>e. fst (run_state (Rename plain_host sample_crypto ''s'' sample_accounts 1 ''ann'') session_world) = Inl e"
  using Rename_same_name_fails [OF plain_host_ok sample_accounts_ok session_accounts, of sample_crypto "''s''"]
  by (simp add: ann_def) (metis prod.collapse)


lemma session_auth: "auth_run sure_cache ''Bearer old'' session_world = (Next (authenticated Map.empty (ann_claims\<lparr>cl_IssuedAt := 5\<rparr>)), session_world)"
  by (simp add: auth_run_def JWTAuth_def bearer check_def session_world_def sure_cmd_def cmd_get_def live_def session_run_defs)

theorem JWTAuth_sound_witness:
  "\<exists>tok cl. passed sample_crypto ''s'' sure_cache ''Bearer old'' Map.empty (authenticated Map.empty (ann_claims\<lparr>cl_IssuedAt := 5\<rparr>)) tok cl session_world"
  using JWTAuth_sound [OF _ ref_gorm_ok sure_cache_ok session_auth [unfolded auth_run_def]] ref_crypto_ok
  by (auto simp: sample_crypto_def)


end
