(* ===== verification/Social.thy ===== *)
theory Social
  imports Enqueue Account
begin

text \<open>
  \<open>internal/api/social\<close> and \<open>internal/worker/social\_worker.go\<close>: who follows whom. A follow is sent to
  a queue and stored by a worker; when the publish fails the service stores it itself.
\<close>

section \<open>repo.go\<close>

definition is_follow :: "uint \<Rightarrow> uint \<Rightarrow> social \<Rightarrow> bool" where
  "is_follow followerID vloggerID s \<longleftrightarrow> s_FollowerID s = followerID \<and> s_VloggerID s = vloggerID"

definition IsFollowed :: "'x gorm \<Rightarrow> social \<Rightarrow> ('x, bool res) io" where
  "IsFollowed db s = bindE (db_count (db_socials db) (is_follow (s_FollowerID s) (s_VloggerID s))) (\<lambda>count. ok (count > 0))"

definition SocialRepo_Follow :: "'x gorm \<Rightarrow> social \<Rightarrow> ('x, unit res) io" where
  "SocialRepo_Follow db s = bindE (db_create (db_socials db) s) (\<lambda>_. ok ())"

definition SocialRepo_Unfollow :: "'x gorm \<Rightarrow> social \<Rightarrow> ('x, unit res) io" where
  "SocialRepo_Unfollow db s = bindE (db_delete (db_socials db) (is_follow (s_FollowerID s) (s_VloggerID s))) (\<lambda>_. ok ())"

definition GetAllFollowers :: "'x gorm \<Rightarrow> uint \<Rightarrow> ('x, account list res) io" where
  "GetAllFollowers db vloggerID =
     bindE (db_find (db_socials db) (\<lambda>s. s_VloggerID s = vloggerID) no_order 200) (\<lambda>socials.
     let followerIDs = map s_FollowerID socials in
     if length followerIDs = 0 then ok []
     else db_find (db_accounts db) (\<lambda>a. a_ID a \<in> set followerIDs) no_order no_limit)"

definition SocialRepo_CountFollowers :: "'x gorm \<Rightarrow> uint \<Rightarrow> ('x, int res) io" where
  "SocialRepo_CountFollowers db vloggerID = db_count (db_socials db) (\<lambda>s. s_VloggerID s = vloggerID)"

definition GetAllVloggers :: "'x gorm \<Rightarrow> uint \<Rightarrow> ('x, account list res) io" where
  "GetAllVloggers db followerID =
     bindE (db_find (db_socials db) (\<lambda>s. s_FollowerID s = followerID) no_order 200) (\<lambda>socials.
     let vloggerIDs = map s_VloggerID socials in
     if length vloggerIDs = 0 then ok []
     else db_find (db_accounts db) (\<lambda>a. a_ID a \<in> set vloggerIDs) no_order no_limit)"

definition SocialRepo_CountVloggers :: "'x gorm \<Rightarrow> uint \<Rightarrow> ('x, int res) io" where
  "SocialRepo_CountVloggers db followerID = db_count (db_socials db) (\<lambda>s. s_FollowerID s = followerID)"

section \<open>service.go\<close>

record 'x social_service =
  ss_socialRepo :: "'x gorm"
  ss_accountRepo :: "'x gorm"
  ss_socialMQ :: "'x mq_ptr"

text \<open>\<open>if mq != nil { if err := send; err == nil { return nil } }\<close>, then the database.\<close>

definition send_or :: "'x mq_ptr \<Rightarrow> ('x, unit res) io \<Rightarrow> ('x, unit res) io \<Rightarrow> ('x, unit res) io" where
  "send_or q send fallback = do {
     sent \<leftarrow> enqueued q send;
     (if sent then ok () else fallback)}"

definition SocialService_Follow :: "'x host \<Rightarrow> 'x social_service \<Rightarrow> social \<Rightarrow> ('x, unit res) io" where
  "SocialService_Follow H s social =
     bindE (AccountRepo_FindByID (ss_accountRepo s) (s_FollowerID social)) (\<lambda>_.
     bindE (AccountRepo_FindByID (ss_accountRepo s) (s_VloggerID social)) (\<lambda>_.
     if s_FollowerID social = s_VloggerID social then throw (ErrNew ''can not follow yourself'')
     else bindE (IsFollowed (ss_socialRepo s) social) (\<lambda>isFollowed.
       if isFollowed then throw (ErrNew ''already followed'')
       else send_or (ss_socialMQ s) (SocialMQ_Follow H (ss_socialMQ s) (s_FollowerID social) (s_VloggerID social))
         (SocialRepo_Follow (ss_socialRepo s) social))))"

definition SocialService_Unfollow :: "'x host \<Rightarrow> 'x social_service \<Rightarrow> social \<Rightarrow> ('x, unit res) io" where
  "SocialService_Unfollow H s social =
     bindE (AccountRepo_FindByID (ss_accountRepo s) (s_FollowerID social)) (\<lambda>_.
     bindE (AccountRepo_FindByID (ss_accountRepo s) (s_VloggerID social)) (\<lambda>_.
     bindE (IsFollowed (ss_socialRepo s) social) (\<lambda>isFollowed.
     if \<not> isFollowed then throw (ErrNew ''not followed'')
     else send_or (ss_socialMQ s) (SocialMQ_Unfollow H (ss_socialMQ s) (s_FollowerID social) (s_VloggerID social))
       (SocialRepo_Unfollow (ss_socialRepo s) social))))"

definition ListAllFollowers :: "'x social_service \<Rightarrow> uint \<Rightarrow> ('x, account list res) io" where
  "ListAllFollowers s vloggerID =
     bindE (AccountRepo_FindByID (ss_accountRepo s) vloggerID) (\<lambda>_. GetAllFollowers (ss_socialRepo s) vloggerID)"

definition CountFollowers :: "'x social_service \<Rightarrow> uint \<Rightarrow> ('x, int res) io" where
  "CountFollowers s vloggerID = SocialRepo_CountFollowers (ss_socialRepo s) vloggerID"

definition ListAllVloggers :: "'x social_service \<Rightarrow> uint \<Rightarrow> ('x, account list res) io" where
  "ListAllVloggers s followerID =
     bindE (AccountRepo_FindByID (ss_accountRepo s) followerID) (\<lambda>_. GetAllVloggers (ss_socialRepo s) followerID)"

definition CountVloggers :: "'x social_service \<Rightarrow> uint \<Rightarrow> ('x, int res) io" where
  "CountVloggers s followerID = SocialRepo_CountVloggers (ss_socialRepo s) followerID"

section \<open>social\_worker.go\<close>

record 'x social_worker =
  sw_ch :: "'x channel option"
  sw_socialRepo :: "'x gorm option"
  sw_queue :: string

definition new_social :: "uint \<Rightarrow> uint \<Rightarrow> social" where
  "new_social followerID vloggerID = \<lparr>s_ID = 0, s_FollowerID = followerID, s_VloggerID = vloggerID\<rparr>"

definition applyFollow :: "'x gorm \<Rightarrow> social_event \<Rightarrow> ('x, unit res) io" where
  "applyFollow socialRepo evt = do {
     r \<leftarrow> SocialRepo_Follow socialRepo (new_social (se_FollowerID evt) (se_VloggerID evt));
     (case r of
        Inr _ \<Rightarrow> ok ()
      | Inl err \<Rightarrow> if IsDupKey err then ok () else throw err)}"

definition applyUnfollow :: "'x gorm \<Rightarrow> social_event \<Rightarrow> ('x, unit res) io" where
  "applyUnfollow socialRepo evt = SocialRepo_Unfollow socialRepo (new_social (se_FollowerID evt) (se_VloggerID evt))"

definition SocialWorker_process :: "'x host \<Rightarrow> 'x gorm \<Rightarrow> string \<Rightarrow> ('x, unit res) io" where
  "SocialWorker_process H socialRepo body = (case Unmarshal (json_social H) body of
     None \<Rightarrow> ok ()
   | Some evt \<Rightarrow>
       if se_FollowerID evt = 0 \<or> se_VloggerID evt = 0 then ok ()
       else if se_Action evt = ''follow'' then applyFollow socialRepo evt
       else if se_Action evt = ''unfollow'' then applyUnfollow socialRepo evt
       else ok ())"

definition SocialWorker_Run :: "'x host \<Rightarrow> 'x social_worker \<Rightarrow> unit res \<Rightarrow> select_event list \<Rightarrow> ('x, go_error option) io" where
  "SocialWorker_Run H w consumed evs = (case (sw_ch w, sw_socialRepo w) of
     (Some ch, Some socialRepo) \<Rightarrow>
       if sw_queue w = '''' then ret (Some (ErrNew ''queue is required''))
       else consumeWithRetry ch (sw_queue w) consumed (\<lambda>d. SocialWorker_process H socialRepo (p_Body (d_Pub d))) evs
   | _ \<Rightarrow> ret (Some (ErrNew ''social worker is not initialized'')))"

section \<open>handler.go\<close>

definition follow_request :: "uint res \<Rightarrow> gin_ctx \<Rightarrow> 'a reply + social" where
  "follow_request bound c = (case bound of
     Inl err \<Rightarrow> Inl (classified err)
   | Inr vloggerID \<Rightarrow>
       if vloggerID = 0 then Inl (Fail 400 ''vlogger_id is required'')
       else (case GetAccountID c of
           Inl err \<Rightarrow> Inl (Fail 401 (error_text err))
         | Inr followerID \<Rightarrow> Inr (new_social followerID vloggerID)))"

definition SocialHandler_Follow :: "'x host \<Rightarrow> 'x social_service \<Rightarrow> uint res \<Rightarrow> gin_ctx \<Rightarrow> ('x, string reply) io" where
  "SocialHandler_Follow H s bound c = (case follow_request bound c of
     Inl answer \<Rightarrow> ret answer
   | Inr social \<Rightarrow> do {
       r \<leftarrow> SocialService_Follow H s social;
       ret (case r of Inl err \<Rightarrow> classified err | Inr _ \<Rightarrow> Sent ''followed successfully'')})"

definition SocialHandler_Unfollow :: "'x host \<Rightarrow> 'x social_service \<Rightarrow> uint res \<Rightarrow> gin_ctx \<Rightarrow> ('x, string reply) io" where
  "SocialHandler_Unfollow H s bound c = (case follow_request bound c of
     Inl answer \<Rightarrow> ret answer
   | Inr social \<Rightarrow> do {
       r \<leftarrow> SocialService_Unfollow H s social;
       ret (case r of Inl err \<Rightarrow> classified err | Inr _ \<Rightarrow> Sent ''unfollowed successfully'')})"

text \<open>The account of the request, or else the one that asks; a count that failed is answered as 0.\<close>

definition asked_account :: "uint \<Rightarrow> gin_ctx \<Rightarrow> 'a reply + uint" where
  "asked_account i c = (if i \<noteq> 0 then Inr i
     else case GetAccountID c of Inl err \<Rightarrow> Inl (Fail 401 (error_text err)) | Inr accountID \<Rightarrow> Inr accountID)"

definition count_or_zero :: "int res \<Rightarrow> int" where
  "count_or_zero r = (case r of Inl _ \<Rightarrow> 0 | Inr n \<Rightarrow> n)"

definition SocialHandler_ListAllFollowers :: "'x social_service \<Rightarrow> uint res \<Rightarrow> gin_ctx \<Rightarrow> ('x, (account_json list \<times> int) reply) io" where
  "SocialHandler_ListAllFollowers s bound c = (case bound of
     Inl err \<Rightarrow> ret (classified err)
   | Inr i \<Rightarrow> (case asked_account i c of
       Inl answer \<Rightarrow> ret answer
     | Inr vloggerID \<Rightarrow> do {
         r \<leftarrow> ListAllFollowers s vloggerID;
         (case r of
            Inl err \<Rightarrow> ret (classified err)
          | Inr followers \<Rightarrow> do {
              followerCount \<leftarrow> CountFollowers s vloggerID;
              ret (Sent (map account_json followers, count_or_zero followerCount))})}))"

definition SocialHandler_ListAllVloggers :: "'x social_service \<Rightarrow> uint res \<Rightarrow> gin_ctx \<Rightarrow> ('x, (account_json list \<times> int) reply) io" where
  "SocialHandler_ListAllVloggers s bound c = (case bound of
     Inl err \<Rightarrow> ret (classified err)
   | Inr i \<Rightarrow> (case asked_account i c of
       Inl answer \<Rightarrow> ret answer
     | Inr followerID \<Rightarrow> do {
         r \<leftarrow> ListAllVloggers s followerID;
         (case r of
            Inl err \<Rightarrow> ret (classified err)
          | Inr vloggers \<Rightarrow> do {
              vloggerCount \<leftarrow> CountVloggers s followerID;
              ret (Sent (map account_json vloggers, count_or_zero vloggerCount))})}))"

definition SocialHandler_GetCounts :: "'x social_service \<Rightarrow> gin_ctx \<Rightarrow> ('x, (int \<times> int) reply) io" where
  "SocialHandler_GetCounts s c = (case GetAccountID c of
     Inl err \<Rightarrow> ret (Fail 401 (error_text err))
   | Inr accountID \<Rightarrow> do {
       followerCount \<leftarrow> CountFollowers s accountID;
       vloggerCount \<leftarrow> CountVloggers s accountID;
       ret (Sent (count_or_zero followerCount, count_or_zero vloggerCount))})"

section \<open>Following once\<close>

definition follows :: "uint \<Rightarrow> uint \<Rightarrow> tables \<Rightarrow> bool" where
  "follows f v t \<longleftrightarrow> (\<exists>s \<in> set (t_socials t). is_follow f v s)"

definition follow_added :: "uint \<Rightarrow> uint \<Rightarrow> tables \<Rightarrow> tables \<Rightarrow> bool" where
  "follow_added f v t t' \<longleftrightarrow> \<not> follows f v t \<and> (\<exists>i. i \<noteq> 0 \<and> i \<notin> s_ID ` set (t_socials t) \<and>
     t' = t_socials_update (\<lambda>_. t_socials t @ [\<lparr>s_ID = i, s_FollowerID = f, s_VloggerID = v\<rparr>]) t)"

definition unfollowed :: "uint \<Rightarrow> uint \<Rightarrow> tables \<Rightarrow> tables" where
  "unfollowed f v t = t_socials_update (delete_rows (is_follow f v)) t"

lemma follow_added_follows: "follow_added f v t t' \<Longrightarrow> follows f v t' \<and> \<not> follows f v t"
  by (auto simp: follow_added_def follows_def is_follow_def)

lemma unfollowed_follows: "\<not> follows f v (unfollowed f v t)"
  by (auto simp: follows_def unfollowed_def delete_rows_def)

lemma unfollowed_none: "\<not> follows f v t \<Longrightarrow> unfollowed f v t = t"
proof -
  assume "\<not> follows f v t"
  then have "delete_rows (is_follow f v) (t_socials t) = t_socials t" by (auto simp: delete_rows_def filter_id_conv follows_def)
  then show ?thesis by (cases t) (simp add: unfollowed_def)
qed

lemma wp_Follow:
  assumes G: "gorm_ok G"
    and "\<And>e w'. sql_frame w w' \<Longrightarrow> IsDupKey e \<Longrightarrow> tabs w' = tabs w \<Longrightarrow> follows f v (tabs w) \<Longrightarrow> Q (Inl e) w'"
    and "\<And>e w'. sql_frame w w' \<Longrightarrow> \<not> IsDupKey e \<Longrightarrow> tabs w' = tabs w \<or> follow_added f v (tabs w) (tabs w') \<Longrightarrow> Q (Inl e) w'"
    and "\<And>w'. sql_frame w w' \<Longrightarrow> follow_added f v (tabs w) (tabs w') \<Longrightarrow> Q (Inr ()) w'"
  shows "wp (SocialRepo_Follow G (new_social f v)) Q w"
proof -
  have add: "follow_added f v t t'" if "row_added ct social_schema t_socials t_socials_update (new_social f v) t t'" for ct t t'
    using that by (auto simp: row_added_def inserted_def follow_added_def follows_def social_schema_def new_social_def is_follow_def)
  show ?thesis
    unfolding SocialRepo_Follow_def wp_bindE
  proof (rule wp_create_cases [OF socials_ok [OF G]])
    show "row_id social_schema (new_social f v) = 0" by (simp add: new_social_def)
    show "case Inl e of Inl e \<Rightarrow> Q (Inl e) w' | Inr _ \<Rightarrow> wp (ok ()) Q w'"
      if "sql_frame w w'" "IsDupKey e" "tabs w' = tabs w" "\<exists>y \<in> set (t_socials (tabs w)). clash social_schema y (new_social f v)" for e w'
      using assms(2) [OF that(1-3)] that(4) by (auto simp: follows_def social_schema_def new_social_def is_follow_def)
  qed (use assms(3,4) in \<open>auto simp: wp_return dest: add\<close>)
qed

lemma wp_Unfollow:
  assumes G: "gorm_ok G"
    and "\<And>e w'. sql_frame w w' \<Longrightarrow> tabs w' = tabs w \<or> tabs w' = unfollowed f v (tabs w) \<Longrightarrow> Q (Inl e) w'"
    and "\<And>w'. sql_frame w w' \<Longrightarrow> tabs w' = unfollowed f v (tabs w) \<Longrightarrow> Q (Inr ()) w'"
  shows "wp (SocialRepo_Unfollow G (new_social f v)) Q w"
  unfolding SocialRepo_Unfollow_def wp_bindE
  by (rule wp_delete_cases [OF socials_ok [OF G]])
    (use assms(2,3) in \<open>auto simp: wp_return maybe_done_def unfollowed_def new_social_def\<close>)

section \<open>The worker\<close>

definition social_message :: "'x host \<Rightarrow> string \<Rightarrow> (bool \<times> uint \<times> uint) option" where
  "social_message H b = (case Unmarshal (json_social H) b of
     None \<Rightarrow> None
   | Some e \<Rightarrow> if se_FollowerID e = 0 \<or> se_VloggerID e = 0 \<or> se_Action e \<notin> {''follow'', ''unfollow''} then None
       else Some (se_Action e = ''follow'', se_FollowerID e, se_VloggerID e))"

definition social_env_ok :: "'x host \<times> 'x gorm \<Rightarrow> bool" where
  "social_env_ok E \<longleftrightarrow> gorm_ok (snd E)"

definition social_message_settled :: "'x host \<times> 'x gorm \<Rightarrow> string \<Rightarrow> tables \<Rightarrow> bool" where
  "social_message_settled E b t = (case social_message (fst E) b of
     None \<Rightarrow> True | Some (follow, f, v) \<Rightarrow> follows f v t = follow)"

text \<open>What an attempt does: nothing, or the whole change; a success leaves the relation as the message wants it.\<close>

definition social_applied :: "bool \<Rightarrow> uint \<Rightarrow> uint \<Rightarrow> tables \<Rightarrow> unit res \<Rightarrow> tables \<Rightarrow> bool" where
  "social_applied follow f v t r t' \<longleftrightarrow>
     (t' = t \<or> (if follow then follow_added f v t t' else t' = unfollowed f v t)) \<and> (r = Inr () \<longrightarrow> follows f v t' = follow)"

lemma SocialWorker_process_post:
  assumes G: "gorm_ok G"
  shows "wp (SocialWorker_process H G b) (\<lambda>r w'. sql_frame w w' \<and> (case social_message H b of
      None \<Rightarrow> tabs w' = tabs w
    | Some (follow, f, v) \<Rightarrow> social_applied follow f v (tabs w) r (tabs w'))) w"
proof -
  have fol: "wp (applyFollow G e) (\<lambda>r w'. sql_frame w w' \<and> social_applied True (se_FollowerID e) (se_VloggerID e) (tabs w) r (tabs w')) w" for e
    unfolding applyFollow_def wp_bind
    by (rule wp_Follow [OF G]) (auto simp: wp_return social_applied_def dest: follow_added_follows)
  have unf: "wp (applyUnfollow G e) (\<lambda>r w'. sql_frame w w' \<and> social_applied False (se_FollowerID e) (se_VloggerID e) (tabs w) r (tabs w')) w" for e
    unfolding applyUnfollow_def
    by (rule wp_Unfollow [OF G]) (auto simp: social_applied_def unfollowed_follows)
  show ?thesis
    using fol unf by (auto simp: SocialWorker_process_def social_message_def wp_return split: option.splits)
qed

interpretation social_worker: idempotent_consumer social_env_ok "\<lambda>E. SocialWorker_process (fst E) (snd E)" social_message_settled
proof
  fix E :: "'x host \<times> 'x gorm" and b w r w'
  assume "social_env_ok E"
  then have "gorm_ok (snd E)" by (simp add: social_env_ok_def)
  note post = SocialWorker_process_post [OF this, of "fst E" b]
  show "social_message_settled E b (tabs w')" if "run_state (SocialWorker_process (fst E) (snd E) b) w = (Inr (), w')"
    using wp_runD [OF post that] by (auto simp: social_message_settled_def social_applied_def split: option.splits)
  show "tabs w' = tabs w" if "social_message_settled E b (tabs w)" "run_state (SocialWorker_process (fst E) (snd E) b) w = (r, w')"
    using wp_runD [OF post that(2)] that(1)
    by (auto simp: social_message_settled_def social_applied_def unfollowed_none split: option.splits if_splits dest: follow_added_follows)
qed

text \<open>
  C37. The follow worker is idempotent: once a follow or unfollow message was processed
  successfully the relation is as the message wants it, and processing the message again, any
  number of times and with any failures, changes no table.
\<close>

theorem SocialWorker_idempotent:
  assumes "gorm_ok G" "run_state (SocialWorker_process H G b) w = (Inr (), w1)" "redelivered (SocialWorker_process H G b) w1 w'"
  shows "social_message_settled (H, G) b (tabs w1) \<and> tabs w' = tabs w1"
  using social_worker.redelivery_is_harmless [of "(H, G)" b w w1 w'] social_worker.success_settles [of "(H, G)" b w w1] assms
  by (simp add: social_env_ok_def)

section \<open>The service\<close>

definition social_service_ok :: "'x social_service \<Rightarrow> bool" where
  "social_service_ok s \<longleftrightarrow> gorm_ok (ss_socialRepo s) \<and> gorm_ok (ss_accountRepo s) \<and> mq_ptr_ok (ss_socialMQ s)"

lemma SocialMQ_post:
  assumes "host_ok H" "mq_ptr_ok q"
  shows "wp (SocialMQ_publish H q act k f v) (sent_post SocialExchange k
    (\<lambda>b. \<exists>e. Marshal (json_social H) e = Inr b \<and> se_Action e = act \<and> se_FollowerID e = f \<and> se_VloggerID e = v) w) w"
  using assms
  by (auto simp: SocialMQ_publish_def wp_return sent_post_throw frame_defs intro!: publisher_post split: option.splits)

lemma send_or_accepts:
  assumes send: "\<And>w. wp send (sent_post x k P w) w"
    and fallback: "\<And>w. wp fallback (\<lambda>r w'. r = Inr () \<longrightarrow> D (tabs w) (tabs w')) w"
  shows "wp (send_or q send fallback) (\<lambda>r w'. r = Inr () \<longrightarrow> accepted x k P D w w') w"
  unfolding send_or_def wp_bind
proof (rule wp_mono [OF enqueued_post [OF send]])
  fix b w1 assume b: "mq_frame w w1 \<and> prefix (bk_log (mq w)) (bk_log (mq w1)) \<and> (b \<longrightarrow> handed_over x k P w w1)"
  have "wp fallback (\<lambda>r w'. r = Inr () \<longrightarrow> accepted x k P D w w') w1"
    by (rule wp_mono [OF fallback]) (use b in \<open>auto simp: accepted_def mq_frame_def\<close>)
  with b show "wp (if b then ok () else fallback) (\<lambda>r w'. r = Inr () \<longrightarrow> accepted x k P D w w') w1"
    by (simp add: wp_return accepted_def mq_frame_def)
qed

lemma wp_IsFollowed:
  assumes "gorm_ok G" "\<And>e w'. quiet w w' \<Longrightarrow> Q (Inl e) w'" "\<And>w'. quiet w w' \<Longrightarrow> Q (Inr (follows f v (tabs w))) w'"
  shows "wp (IsFollowed G (new_social f v)) Q w"
proof -
  have "0 < int (length (filter (is_follow f v) (t_socials (tabs w)))) \<longleftrightarrow> follows f v (tabs w)"
    by (auto simp: follows_def filter_empty_conv)
  with assms show ?thesis
    unfolding IsFollowed_def wp_bindE
    by (intro wp_count [OF socials_ok [OF assms(1)]]) (auto simp: wp_return new_social_def)
qed

text \<open>What holds when a follow request was taken on: both accounts exist and are different, and the one did not follow the other.\<close>

definition may_follow :: "uint \<Rightarrow> uint \<Rightarrow> tables \<Rightarrow> bool" where
  "may_follow f v t \<longleftrightarrow> f \<in> a_ID ` set (t_accounts t) \<and> v \<in> a_ID ` set (t_accounts t) \<and> f \<noteq> v \<and> \<not> follows f v t"

definition follow_body :: "'x host \<Rightarrow> uint \<Rightarrow> uint \<Rightarrow> string \<Rightarrow> bool" where
  "follow_body H f v b \<longleftrightarrow> (\<exists>e. Marshal (json_social H) e = Inr b \<and> se_Action e = ''follow'' \<and> se_FollowerID e = f \<and> se_VloggerID e = v)"

lemma accepted_after_quiet: "quiet w w1 \<Longrightarrow> accepted x k P D w1 w' \<Longrightarrow> accepted x k P D w w'"
  by (simp add: accepted_def handed_over_def quiet_def)

lemma quiet_trans: "quiet u v \<Longrightarrow> quiet v w \<Longrightarrow> quiet u w"
  by (simp add: frame_defs)

lemma SocialService_Follow_post:
  assumes H: "host_ok H" and s: "social_service_ok s"
  shows "wp (SocialService_Follow H s (new_social f v)) (\<lambda>r w'. r = Inr () \<longrightarrow>
    may_follow f v (tabs w) \<and> accepted SocialExchange SocialRoutingKeyFollow (follow_body H f v) (follow_added f v) w w') w" (is "wp _ ?Q w")
proof -
  note k = s [unfolded social_service_ok_def]
  have ids: "s_FollowerID (new_social f v) = f" "s_VloggerID (new_social f v) = v" by (simp_all add: new_social_def)
  let ?send = "send_or (ss_socialMQ s) (SocialMQ_Follow H (ss_socialMQ s) f v) (SocialRepo_Follow (ss_socialRepo s) (new_social f v))"
  have mq: "wp (SocialMQ_Follow H (ss_socialMQ s) f v) (sent_post SocialExchange SocialRoutingKeyFollow (follow_body H f v) w) w" for w
    unfolding SocialMQ_Follow_def
    by (rule wp_mono [OF SocialMQ_post [OF H]]) (use k in \<open>auto simp: sent_post_def follow_body_def\<close>)
  have db: "wp (SocialRepo_Follow (ss_socialRepo s) (new_social f v)) (\<lambda>r w'. r = Inr () \<longrightarrow> follow_added f v (tabs w) (tabs w')) w" for w
    by (rule wp_Follow) (use k in auto)
  have send: "wp ?send ?Q w1" if "quiet w w1" "may_follow f v (tabs w)" for w1
    by (rule wp_mono [OF send_or_accepts [OF mq db]]) (use that in \<open>auto intro: accepted_after_quiet\<close>)
  have check: "wp (bindE (IsFollowed (ss_socialRepo s) (new_social f v)) (\<lambda>isFollowed. if isFollowed then throw (ErrNew ''already followed'') else ?send)) ?Q w1"
    if "quiet w w1" "f \<in> a_ID ` set (t_accounts (tabs w))" "v \<in> a_ID ` set (t_accounts (tabs w))" "f \<noteq> v" for w1
    unfolding wp_bindE
  proof (rule wp_IsFollowed, goal_cases)
    case (3 w2)
    have "quiet w w2" "tabs w1 = tabs w" using that(1) 3 by (auto simp: frame_defs)
    moreover have "may_follow f v (tabs w)" if "\<not> follows f v (tabs w)" using that \<open>f \<in> _\<close> \<open>v \<in> _\<close> \<open>f \<noteq> v\<close> by (simp add: may_follow_def)
    ultimately show ?case using send by (simp add: wp_return)
  qed (use k in auto)
  have second: "wp (bindE (AccountRepo_FindByID (ss_accountRepo s) v) (\<lambda>_. if f = v then throw (ErrNew ''can not follow yourself'')
      else bindE (IsFollowed (ss_socialRepo s) (new_social f v)) (\<lambda>isFollowed. if isFollowed then throw (ErrNew ''already followed'') else ?send))) ?Q w1"
    if "quiet w w1" "f \<in> a_ID ` set (t_accounts (tabs w))" for w1
    unfolding wp_bindE [of "AccountRepo_FindByID _ _"]
  proof (rule account_finds(1), goal_cases)
    case (3 a w2)
    have "quiet w w2" using that(1) 3(1) by (rule quiet_trans)
    moreover have "v \<in> a_ID ` set (t_accounts (tabs w))" using that(1) 3 by (auto simp: frame_defs)
    ultimately show ?case using that(2) check by (simp add: wp_return)
  qed (use k in auto)
  show ?thesis
    unfolding SocialService_Follow_def wp_bindE [of "AccountRepo_FindByID _ (s_FollowerID _)"]
  proof (rule account_finds(1), goal_cases)
    case (3 a w2)
    then have "f \<in> a_ID ` set (t_accounts (tabs w))" by (auto simp: new_social_def)
    from second [OF 3(1) this] show ?case unfolding sum.case ids .
  qed (use k in auto)
qed

text \<open>
  C36. No accepted follow is lost, and none is absurd: when the handler answers with success, the
  follower is the authenticated account, both accounts exist, they differ and the one did not
  follow the other; and the follow event was handed to the broker with the tables unchanged, or
  exactly this follow was added to the tables.
\<close>

theorem SocialHandler_Follow_accepts:
  assumes "host_ok H" "social_service_ok s" "run_state (SocialHandler_Follow H s (Inr v) c) w = (Sent m, w')"
  shows "\<exists>f. GetAccountID c = Inr f \<and> may_follow f v (tabs w) \<and>
    accepted SocialExchange SocialRoutingKeyFollow (follow_body H f v) (follow_added f v) w w'"
proof -
  obtain f where f: "GetAccountID c = Inr f" "v \<noteq> 0"
    using assms(3) by (auto simp: SocialHandler_Follow_def follow_request_def split: if_splits sum.splits)
  obtain r where r: "run_state (SocialService_Follow H s (new_social f v)) w = (r, w')" "r = Inr ()"
    using assms(3) f by (auto simp: SocialHandler_Follow_def follow_request_def classified_def split: if_splits sum.splits prod.splits)
  from wp_runD [OF SocialService_Follow_post [OF assms(1,2)] r(1)] r(2) f show ?thesis by blast
qed

text \<open>
  The list of followers is right: for an account with at most 200 followers, the answer holds
  exactly the accounts that have a follow row for it, each as often as the accounts have it.
\<close>

theorem ListAllFollowers_correct:
  assumes "social_service_ok s" "length (filter (\<lambda>x. s_VloggerID x = v) (t_socials (tabs w))) \<le> 200"
    and "run_state (ListAllFollowers s v) w = (Inr followers, w')"
  shows "mset followers = mset (filter (\<lambda>a. follows (a_ID a) v (tabs w)) (t_accounts (tabs w)))"
proof -
  note k = assms(1) [unfolded social_service_ok_def]
  let ?Q = "\<lambda>r w'. \<forall>out. r = Inr out \<longrightarrow> mset out = mset (filter (\<lambda>a. follows (a_ID a) v (tabs w)) (t_accounts (tabs w)))"
  have accounts: "wp (db_find (db_accounts (ss_socialRepo s)) (\<lambda>a. a_ID a \<in> set (map s_FollowerID socials)) no_order no_limit) ?Q w2"
    if "tabs w2 = tabs w" "\<And>a. a \<in> set (map s_FollowerID socials) \<longleftrightarrow> follows a v (tabs w)" for socials w2
    by (rule wp_find [OF accounts_ok]) (use k that in \<open>auto simp: query_result_def limit_rows_def\<close>)
  have socials: "wp (GetAllFollowers (ss_socialRepo s) v) ?Q w1" if w1: "quiet w w1" for w1
    unfolding GetAllFollowers_def wp_bindE
  proof (rule wp_find [OF socials_ok], goal_cases)
    case (5 out w2)
    have w2: "tabs w2 = tabs w" using w1 5(1) by (simp add: frame_defs)
    obtain ys where "mset ys = mset (filter (\<lambda>x. s_VloggerID x = v) (t_socials (tabs w)))" "out = limit_rows 200 ys"
      using 5(2) w1 by (auto simp: query_result_def frame_defs)
    moreover from this have "length ys \<le> 200" using assms(2) by (metis size_mset)
    ultimately have "mset out = mset (filter (\<lambda>x. s_VloggerID x = v) (t_socials (tabs w)))" by (simp add: limit_rows_def)
    then have "set out = set (filter (\<lambda>x. s_VloggerID x = v) (t_socials (tabs w)))" by (rule mset_eq_setD)
    then have ids: "a \<in> set (map s_FollowerID out) \<longleftrightarrow> follows a v (tabs w)" for a
      by (auto simp: follows_def is_follow_def)
    show ?case
    proof (cases "out = []")
      case True
      with ids have "filter (\<lambda>a. follows (a_ID a) v (tabs w)) (t_accounts (tabs w)) = []" by (simp add: filter_empty_conv)
      with True show ?thesis by (simp add: wp_return)
    next
      case False
      with accounts [OF w2 ids] show ?thesis by (simp add: Let_def)
    qed
  qed (use k in auto)
  have "wp (ListAllFollowers s v) ?Q w"
    unfolding ListAllFollowers_def wp_bindE [of "AccountRepo_FindByID _ _"]
    by (rule account_finds(1)) (use k socials in auto)
  from wp_runD [OF this assms(3)] show ?thesis by simp
qed

section \<open>Examples\<close>

definition user :: "uint \<Rightarrow> string \<Rightarrow> account" where
  "user i name = \<lparr>a_ID = i, a_Username = name, a_Password = '''', a_Token = '''', a_RefreshToken = '''', a_AvatarURL = '''', a_Bio = ''''\<rparr>"

definition follow_evt :: social_event where
  "follow_evt = \<lparr>se_EventID = ''e'', se_Action = ''follow'', se_FollowerID = 1, se_VloggerID = 2, se_OccurredAt = 0\<rparr>"

definition social_host :: "ref_hid host" where
  "social_host = ref_host [] [] [] [] [(follow_evt, ''F'')] []"

lemma social_host_ok: "host_ok social_host"
  unfolding social_host_def by (rule ref_host_ok) auto

definition two_users :: ref_world where
  "two_users = ref_start [] (no_tables\<lparr>t_accounts := [user 1 ''ann'', user 2 ''bob'']\<rparr>)"

definition social_sample :: "ref_hid social_service" where
  "social_sample = \<lparr>ss_socialRepo = ref_gorm, ss_accountRepo = ref_gorm, ss_socialMQ = None\<rparr>"

lemma social_sample_ok: "social_service_ok social_sample"
  by (simp add: social_service_ok_def social_sample_def ref_gorm_ok mq_ptr_ok_def)

definition social_run :: "ref_world \<Rightarrow> unit res \<times> ref_world" where
  "social_run = run_state (SocialWorker_process social_host ref_gorm ''F'')"

definition follow_run :: "string reply \<times> ref_world" where
  "follow_run = run_state (SocialHandler_Follow social_host social_sample (Inr 2) [''accountID'' \<mapsto> GUint 1]) two_users"

lemmas social_run_defs = social_run_def SocialWorker_process_def applyFollow_def SocialRepo_Follow_def new_social_def social_host_def follow_evt_def
  two_users_def bindE_def ref_defs Let_def table_wf_def user_def

lemma social_run_fine: "fst (social_run two_users) = Inr ()"
  by (simp add: social_run_defs)

lemma follow_run_fine: "fst follow_run = Sent ''followed successfully''"
  by (simp add: follow_run_def SocialHandler_Follow_def follow_request_def GetAccountID_def SocialService_Follow_def AccountRepo_FindByID_def
      IsFollowed_def is_follow_def send_or_def enqueued_def social_sample_def social_run_defs)

theorem SocialWorker_idempotent_witness:
  "tabs (snd (social_run (snd (social_run two_users)))) = tabs (snd (social_run two_users))"
proof -
  let ?w1 = "snd (social_run two_users)"
  have run: "run_state (SocialWorker_process social_host ref_gorm ''F'') two_users = (Inr (), ?w1)"
    using social_run_fine by (metis social_run_def prod.collapse)
  have "redelivered (SocialWorker_process social_host ref_gorm ''F'') ?w1 (snd (social_run ?w1))"
    by (rule redelivered.again [OF redelivered.none refl, of _ _ "fst (social_run ?w1)"]) (simp add: social_run_def)
  from SocialWorker_idempotent [OF ref_gorm_ok run this] show ?thesis by simp
qed

theorem SocialHandler_Follow_accepts_witness:
  "may_follow 1 2 (tabs two_users) \<and>
   accepted SocialExchange SocialRoutingKeyFollow (follow_body social_host 1 2) (follow_added 1 2) two_users (snd follow_run)"
proof -
  have "run_state (SocialHandler_Follow social_host social_sample (Inr 2) [''accountID'' \<mapsto> GUint 1]) two_users =
      (Sent ''followed successfully'', snd follow_run)"
    using follow_run_fine by (metis follow_run_def prod.collapse)
  from SocialHandler_Follow_accepts [OF social_host_ok social_sample_ok this] show ?thesis by (simp add: GetAccountID_def)
qed

text \<open>Ann follows Bob: she is his only follower.\<close>

theorem ListAllFollowers_correct_witness:
  "mset [user 1 ''ann''] = mset (filter (\<lambda>a. follows (a_ID a) 2 (tabs (snd follow_run))) (t_accounts (tabs (snd follow_run))))"
proof -
  have w: "snd follow_run = two_users\<lparr>tabs := (tabs two_users)\<lparr>t_socials := [\<lparr>s_ID = 1, s_FollowerID = 1, s_VloggerID = 2\<rparr>]\<rparr>\<rparr>"
    by (simp add: follow_run_def SocialHandler_Follow_def follow_request_def GetAccountID_def SocialService_Follow_def AccountRepo_FindByID_def
      IsFollowed_def is_follow_def send_or_def enqueued_def social_sample_def social_run_defs)
  have "run_state (ListAllFollowers social_sample 2) (snd follow_run) = (Inr [user 1 ''ann''], snd follow_run)"
    unfolding w by (simp add: ListAllFollowers_def GetAllFollowers_def AccountRepo_FindByID_def social_sample_def social_run_defs)
  moreover have "length (filter (\<lambda>x. s_VloggerID x = 2) (t_socials (tabs (snd follow_run)))) \<le> 200" unfolding w by simp
  ultimately show ?thesis using ListAllFollowers_correct [OF social_sample_ok] by blast
qed

end
