(* ===== verification/Timeline.thy ===== *)
theory Timeline
  imports Video Retry
begin

text \<open>
  The two workers that keep Redis's sorted sets: \<open>internal/worker/timeline_worker.go\<close> adds every
  published video to the global timeline and cuts it to the newest 1000,
  \<open>internal/worker/popularity_worker.go\<close> counts popularity per minute. Scores are integers: the
  program's, Unix milliseconds and counts, are far below \<open>2^53\<close>, where a \<open>float64\<close> is exact.
\<close>

section \<open>timeline\_worker.go\<close>

record 'x timeline_worker =
  tw_ch :: "'x channel option"
  tw_queue :: string
  tw_cache :: "'x cache"

definition timeline_key :: "'x cache \<Rightarrow> string" where
  "timeline_key cache = Key cache ''feed:global_timeline''"

definition TimelineWorker_process :: "'x host \<Rightarrow> 'x cache \<Rightarrow> string \<Rightarrow> ('x, unit res) io" where
  "TimelineWorker_process H cache body = (case Unmarshal (json_timeline H) body of
     None \<Rightarrow> ok ()
   | Some evt \<Rightarrow>
       if te_VideoID evt = 0 \<or> te_CreateTime evt = 0 then ok ()
       else bindE (ZAdd cache (timeline_key cache) [(te_CreateTime evt, FormatUint (te_VideoID evt))]) (\<lambda>_. do {
         _ \<leftarrow> ZRemRangeByRank cache (timeline_key cache) 0 (- 1001);
         ok ()}))"

definition TimelineWorker_Run :: "'x host \<Rightarrow> 'x timeline_worker \<Rightarrow> unit res \<Rightarrow> select_event list \<Rightarrow> ('x, go_error option) io" where
  "TimelineWorker_Run H w consumed evs = (case (tw_ch w, tw_cache w) of
     (Some ch, Some _) \<Rightarrow>
       if tw_queue w = '''' then ret (Some (ErrNew ''queue is required''))
       else consumeWithRetry ch (tw_queue w) consumed (\<lambda>d. TimelineWorker_process H (tw_cache w) (p_Body (d_Pub d))) evs
   | _ \<Rightarrow> ret (Some (ErrNew ''timelineMQ worker is not initialized'')))"

section \<open>popularity\_worker.go\<close>

record 'x popularity_worker =
  pw_ch :: "'x channel option"
  pw_cache :: "'x cache"
  pw_queue :: string

definition PopularityWorker_process :: "'x host \<Rightarrow> 'x cache \<Rightarrow> string \<Rightarrow> ('x, unit res) io" where
  "PopularityWorker_process H cache body = (case Unmarshal (json_popularity H) body of
     None \<Rightarrow> ok ()
   | Some evt \<Rightarrow>
       if pe_VideoID evt = 0 \<or> pe_Change evt = 0 then ok ()
       else do {_ \<leftarrow> UpdatePopularityCache H cache (pe_VideoID evt) (pe_Change evt); ok ()})"

definition PopularityWorker_Run :: "'x host \<Rightarrow> 'x popularity_worker \<Rightarrow> unit res \<Rightarrow> select_event list \<Rightarrow> ('x, go_error option) io" where
  "PopularityWorker_Run H w consumed evs = (case (pw_ch w, pw_cache w) of
     (Some ch, Some _) \<Rightarrow>
       if pw_queue w = '''' then ret (Some (ErrNew ''queue is required''))
       else consumeWithRetry ch (pw_queue w) consumed (\<lambda>d. PopularityWorker_process H (pw_cache w) (p_Body (d_Pub d))) evs
   | _ \<Rightarrow> ret (Some (ErrNew ''popularity worker is not initialized'')))"

section \<open>The newest of a set\<close>

text \<open>
  A timeline entry is a creation time with the member that names the video. An entry is recent
  when fewer than 1000 entries are newer.
\<close>

type_synonym entry = "int \<times> string"

definition recent :: "entry set \<Rightarrow> entry \<Rightarrow> bool" where
  "recent S z \<longleftrightarrow> z \<in> S \<and> card {y \<in> S. z < y} < 1000"

definition cut :: "entry list \<Rightarrow> entry list" where
  "cut zs = drop (length zs - 1000) zs"

text \<open>
  What the timeline \<open>zs\<close> keeps, when \<open>S\<close> are the entries the worker was asked to add and \<open>E\<close>
  those whose message it has processed: it is ordered, holds nothing else, and no processed entry
  is missing while it is recent.
\<close>

definition timeline_inv :: "entry set \<Rightarrow> entry set \<Rightarrow> entry list \<Rightarrow> bool" where
  "timeline_inv S E zs \<longleftrightarrow> sorted_wrt (<) zs \<and> set zs \<subseteq> S \<and> (\<forall>z \<in> E. recent S z \<longrightarrow> z \<in> set zs)"

lemma recent_mono: "finite S' \<Longrightarrow> S \<subseteq> S' \<Longrightarrow> z \<in> S \<Longrightarrow> recent S' z \<Longrightarrow> recent S z"
  using card_mono [of "{y \<in> S'. z < y}" "{y \<in> S. z < y}"] by (fastforce simp: recent_def)

lemma sorted_wrt_strict: "sorted_wrt (<) (zs :: entry list) \<longleftrightarrow> sorted zs \<and> distinct zs"
  using strict_sorted_iff by blast

lemma filter_other_member: "inj_on snd (insert z (set zs)) \<Longrightarrow> filter (\<lambda>y. snd y \<noteq> snd z) zs = filter (\<lambda>y. y \<noteq> z) zs"
  by (rule filter_cong) (simp_all, metis inj_onD insertCI inj_on_insert)

lemma zadd_sorted:
  assumes "sorted_wrt (<) zs" "inj_on snd (insert z (set zs))"
  shows "sorted_wrt (<) (zadd z zs)" "set (zadd z zs) = insert z (set zs)"
proof -
  have "sorted (filter (\<lambda>y. y \<noteq> z) zs)" "distinct (filter (\<lambda>y. y \<noteq> z) zs)"
    using assms(1) by (simp_all add: sorted_wrt_strict sorted_filter [of id, simplified])
  then show "sorted_wrt (<) (zadd z zs)"
    by (simp add: zadd_def filter_other_member [OF assms(2)] sorted_wrt_strict sorted_insort distinct_insort)
  show "set (zadd z zs) = insert z (set zs)"
    by (auto simp: zadd_def filter_other_member [OF assms(2)] set_insort_key)
qed

lemma timeline_inv_more: "finite S' \<Longrightarrow> S \<subseteq> S' \<Longrightarrow> E \<subseteq> S \<Longrightarrow> timeline_inv S E zs \<Longrightarrow> timeline_inv S' E zs"
  unfolding timeline_inv_def by (blast dest: recent_mono)

lemma timeline_inv_zadd:
  assumes "finite S" "inj_on snd S" "z \<in> S" "timeline_inv S E zs"
  shows "timeline_inv S (insert z E) (zadd z zs)"
proof -
  from assms(3,4) have "insert z (set zs) \<subseteq> S" by (simp add: timeline_inv_def)
  with assms(2) have "inj_on snd (insert z (set zs))" by (rule inj_on_subset)
  with assms show ?thesis by (auto simp: timeline_inv_def zadd_sorted)
qed

lemma in_cut:
  assumes "sorted_wrt (<) zs" "set zs \<subseteq> S" "finite S" "z \<in> set zs" "recent S z"
  shows "z \<in> set (cut zs)"
proof (rule ccontr)
  assume "z \<notin> set (cut zs)"
  moreover have split: "zs = take (length zs - 1000) zs @ cut zs" by (simp add: cut_def)
  ultimately have z: "z \<in> set (take (length zs - 1000) zs)" using assms(4) by (metis Un_iff set_append)
  then have long: "1000 \<le> length (cut zs)" by (cases "length zs - 1000") (auto simp: cut_def)
  have "z < y" if "y \<in> set (cut zs)" for y using assms(1) z that split by (metis sorted_wrt_append)
  moreover have "set (cut zs) \<subseteq> S" using assms(2) by (auto simp: cut_def dest: in_set_dropD)
  ultimately have "card (set (cut zs)) \<le> card {y \<in> S. z < y}" using assms(3) by (intro card_mono) auto
  moreover have "card (set (cut zs)) = length (cut zs)"
    using assms(1) by (intro distinct_card) (simp add: cut_def sorted_wrt_strict)
  ultimately show False using assms(5) long by (simp add: recent_def)
qed

lemma set_cut: "set (cut zs) \<subseteq> set zs"
  by (simp add: cut_def set_drop_subset)

lemma timeline_inv_cut:
  assumes "finite S" "timeline_inv S E zs"
  shows "timeline_inv S E (cut zs)"
proof -
  have zs: "sorted_wrt (<) zs" "set zs \<subseteq> S" using assms(2) by (simp_all add: timeline_inv_def)
  with assms in_cut [OF zs assms(1)] show ?thesis
    using set_cut [of zs] by (auto simp: timeline_inv_def) (simp add: cut_def sorted_wrt_drop)
qed

text \<open>When everything was processed and the timeline was cut, it is determined by the entries alone.\<close>

definition newest :: "entry set \<Rightarrow> entry list" where
  "newest S = cut (sorted_list_of_set S)"

lemma newest_recent:
  assumes "finite S" "z \<in> set (newest S)"
  shows "recent S z"
proof -
  let ?zs = "sorted_list_of_set S"
  have split: "?zs = take (length ?zs - 1000) ?zs @ newest S" by (simp add: newest_def cut_def)
  obtain us vs where uv: "newest S = us @ z # vs" using assms(2) by (meson split_list)
  have sorted: "sorted_wrt (<) (take (length ?zs - 1000) ?zs @ us @ z # vs)"
    using split uv strict_sorted_list_of_set [of S] by metis
  have S: "S = set (take (length ?zs - 1000) ?zs) \<union> set us \<union> {z} \<union> set vs"
    using assms(1) set_sorted_list_of_set [of S] split uv by (metis Un_assoc insert_is_Un list.simps(15) set_append)
  have "y \<in> set vs" if "y \<in> S" "z < y" for y
  proof (rule ccontr)
    assume "y \<notin> set vs"
    with that S have "y \<in> set (take (length ?zs - 1000) ?zs) \<or> y \<in> set us" by auto
    with sorted have "y < z" by (auto simp: sorted_wrt_append)
    with that(2) show False by simp
  qed
  then have "card {y \<in> S. z < y} \<le> card (set vs)" by (intro card_mono) auto
  also have "\<dots> \<le> length vs" by (rule card_length)
  also have "\<dots> < length (newest S)" by (simp add: uv)
  also have "\<dots> \<le> 1000" by (simp add: newest_def cut_def)
  finally show ?thesis using assms S by (auto simp: recent_def)
qed

lemma timeline_inv_newest:
  assumes "finite S" "timeline_inv S S zs" "length zs \<le> 1000"
  shows "zs = newest S"
proof -
  have zs: "sorted_wrt (<) zs" "set zs \<subseteq> S" using assms(2) by (simp_all add: timeline_inv_def)
  have new: "sorted_wrt (<) (newest S)" by (simp add: newest_def cut_def sorted_wrt_drop)
  have sub: "set (newest S) \<subseteq> set zs"
    using newest_recent [OF assms(1)] assms(2) by (auto simp: timeline_inv_def recent_def)
  have "length zs \<le> card S" using zs assms(1) by (metis card_mono distinct_card sorted_wrt_strict)
  with assms(3) have "length zs \<le> length (newest S)" by (simp add: newest_def cut_def)
  moreover have "card (set zs) = length zs" "card (set (newest S)) = length (newest S)"
    using zs new by (simp_all add: sorted_wrt_strict distinct_card)
  ultimately have "set (newest S) = set zs" using sub by (intro card_seteq) auto
  then show ?thesis using zs new by (metis sorted_distinct_set_unique sorted_wrt_strict)
qed

section \<open>The timeline worker\<close>

text \<open>A sorted set that does not expire, and a command on it.\<close>

definition stored :: "entry list \<Rightarrow> redis_entry option" where
  "stored zs = (if zs = [] then None else Some (RZSet zs, None))"

lemma zset_stored: "db k = stored zs \<Longrightarrow> zset t db k = Some zs"
  by (simp add: zset_def live_def stored_def)

lemma on_zset_stored:
  assumes "db k = stored zs"
  shows "\<exists>db'. on_zset k f t db = (Inr (fst (f zs)), db') \<and> db' k = stored (snd (f zs)) \<and> (\<forall>k'. k' \<noteq> k \<longrightarrow> db' k' = db k')"
proof -
  have "expiry t db k = None" using assms by (auto simp: expiry_def live_def stored_def)
  then show ?thesis
    using assms zset_stored [of db k zs t] by (auto simp: on_zset_def put_zset_def stored_def split: prod.splits)
qed

lemma wp_on_zset:
  assumes call: "call_ok (on_zset k f) call" and zs: "rds w k = stored zs"
    and fail: "\<And>e w'. redis_frame w w' \<Longrightarrow> rds w' k = stored zs \<or> rds w' k = stored (snd (f zs)) \<Longrightarrow>
      (\<And>k'. k' \<noteq> k \<Longrightarrow> rds w' k' = rds w k') \<Longrightarrow> Q (Inl (ErrExternal e)) w'"
    and fine: "\<And>w'. redis_frame w w' \<Longrightarrow> rds w' k = stored (snd (f zs)) \<Longrightarrow>
      (\<And>k'. k' \<noteq> k \<Longrightarrow> rds w' k' = rds w k') \<Longrightarrow> Q (Inr (fst (f zs))) w'"
  shows "wp call Q w"
proof (rule wp_call [OF call])
  fix r w' assume p: "call_post (on_zset k f) w r w'"
  then obtain t where t: "(r, rds w') = on_zset k f t (rds w) \<or>
      (\<exists>s. r = Inl (ErrExternal s) \<and> (rds w' = rds w \<or> rds w' = snd (on_zset k f t (rds w))))" and fr: "redis_frame w w'"
    by (auto simp: call_post_def)
  from on_zset_stored [of "rds w" k zs f t] zs obtain db' where db': "on_zset k f t (rds w) = (Inr (fst (f zs)), db')"
      "db' k = stored (snd (f zs))" "\<And>k'. k' \<noteq> k \<Longrightarrow> db' k' = rds w k'" by auto
  from t db'(1) consider "r = Inr (fst (f zs))" "rds w' = db'" | s where "r = Inl (ErrExternal s)" "rds w' = rds w \<or> rds w' = db'"
    by auto
  then show "Q r w'"
  proof cases
    case 1 then show ?thesis using fine [OF fr] db' by simp
  next
    case 2 then show ?thesis using fail [OF fr] db' zs by auto
  qed
qed

lemma rank_range_front: "rank_range 0 (- 1001) zs = take (length zs - 1000) zs"
  by (cases "length zs \<le> 1000") (auto simp: rank_range_def Let_def nat_diff_distrib intro!: arg_cong2 [where f = take])

lemma filter_not_taken: "distinct zs \<Longrightarrow> filter (\<lambda>z. z \<notin> set (take n zs)) zs = drop n zs"
proof -
  assume d: "distinct zs"
  have "filter (\<lambda>z. z \<notin> set (take n zs)) (take n zs @ drop n zs) = drop n zs"
    using set_take_disj_set_drop_if_distinct [OF d, of n n]
    by (simp only: filter_append) (auto simp: filter_empty_conv filter_id_conv)
  then show ?thesis by simp
qed

definition timeline_state :: "'x cache \<Rightarrow> entry set \<Rightarrow> entry set \<Rightarrow> 'x world \<Rightarrow> bool" where
  "timeline_state c S E w \<longleftrightarrow> (\<exists>zs. rds w (timeline_key c) = stored zs \<and> timeline_inv S E zs)"

definition timeline_entry :: "'x host \<Rightarrow> string \<Rightarrow> entry option" where
  "timeline_entry H body = (case Unmarshal (json_timeline H) body of
     None \<Rightarrow> None
   | Some evt \<Rightarrow> if te_VideoID evt = 0 \<or> te_CreateTime evt = 0 then None
       else Some (te_CreateTime evt, FormatUint (te_VideoID evt)))"

lemma timeline_ZAdd:
  assumes c: "cache_redis_ok c" "rdb_of c \<noteq> None" and S: "finite S" "inj_on snd S" "z \<in> S" and st: "timeline_state c S E w"
  shows "wp (ZAdd c (timeline_key c) [z]) (\<lambda>r w'.
    (\<exists>s. r = Inl (ErrExternal s)) \<and> timeline_state c S E w' \<or> r = Inr () \<and> timeline_state c S (insert z E) w') w"
proof -
  obtain zs where zs: "rds w (timeline_key c) = stored zs" "timeline_inv S E zs" using st by (auto simp: timeline_state_def)
  obtain R where R: "rdb_of c = Some R" using c(2) by blast
  with c(1) have "call_ok (cmd_zadd (timeline_key c) [z]) (rdb_ZAdd R (timeline_key c) [z])"
    by (simp add: cache_redis_ok_def redis_ok_def)
  then have call: "call_ok (on_zset (timeline_key c) (\<lambda>zs. ((), zadd z zs))) (rdb_ZAdd R (timeline_key c) [z])"
    by (simp add: cmd_zadd_def)
  have old: "timeline_inv S E (zadd z zs)" using timeline_inv_zadd [OF S zs(2)] by (simp add: timeline_inv_def)
  show ?thesis
    unfolding ZAdd_def R option.case timeline_state_def
    by (rule wp_on_zset [OF call zs(1)]) (use zs(2) old timeline_inv_zadd [OF S zs(2)] in auto)
qed

lemma timeline_cut:
  assumes c: "cache_redis_ok c" "rdb_of c \<noteq> None" and S: "finite S" and st: "timeline_state c S E w"
  shows "wp (ZRemRangeByRank c (timeline_key c) 0 (- 1001)) (\<lambda>r w'. (\<exists>s. r = Inl (ErrExternal s)) \<and> timeline_state c S E w' \<or>
    r = Inr () \<and> timeline_state c S E w' \<and> (\<exists>zs. rds w' (timeline_key c) = stored zs \<and> length zs \<le> 1000)) w"
proof -
  obtain zs where zs: "rds w (timeline_key c) = stored zs" "timeline_inv S E zs" using st by (auto simp: timeline_state_def)
  obtain R where R: "rdb_of c = Some R" using c(2) by blast
  let ?k = "timeline_key c"
  let ?f = "\<lambda>zs. ((), filter (\<lambda>z. z \<notin> set (rank_range 0 (- 1001) zs)) zs)"
  from R c(1) have call: "call_ok (on_zset ?k ?f) (rdb_ZRemRangeByRank R ?k 0 (- 1001))"
    by (simp add: cache_redis_ok_def redis_ok_def cmd_zremrangebyrank_def [symmetric])
  have f: "snd (?f zs) = cut zs"
    using zs(2) by (simp add: rank_range_front filter_not_taken timeline_inv_def sorted_wrt_strict cut_def)
  have "length (cut zs) \<le> 1000" by (simp add: cut_def)
  with timeline_inv_cut [OF S zs(2)] zs(2) R show ?thesis
    unfolding ZRemRangeByRank_def timeline_state_def
    by simp (rule wp_on_zset [OF call zs(1)], auto simp: f [simplified])
qed

lemma TimelineWorker_drops: "timeline_entry H b = None \<Longrightarrow> TimelineWorker_process H c b = ok ()"
  by (auto simp: TimelineWorker_process_def timeline_entry_def split: option.splits if_splits)

lemma TimelineWorker_adds: "timeline_entry H b = Some z \<Longrightarrow> TimelineWorker_process H c b =
    bindE (ZAdd c (timeline_key c) [z]) (\<lambda>_. do {_ \<leftarrow> ZRemRangeByRank c (timeline_key c) 0 (- 1001); ok ()})"
  by (auto simp: TimelineWorker_process_def timeline_entry_def split: option.splits if_splits)

lemma TimelineWorker_step:
  assumes c: "cache_redis_ok c" "rdb_of c \<noteq> None" and S: "finite S" "E \<subseteq> S" and st: "timeline_state c S E w"
    and z: "timeline_entry H b = Some z" and inj: "inj_on snd (insert z S)"
  shows "wp (TimelineWorker_process H c b) (\<lambda>r. timeline_state c (insert z S) (if r = Inr () then insert z E else E)) w"
proof -
  let ?S = "insert z S"
  from st S have st': "timeline_state c ?S E w"
    by (auto simp: timeline_state_def intro: timeline_inv_more [of ?S S])
  have cut: "wp (ZRemRangeByRank c (timeline_key c) 0 (- 1001)) (\<lambda>_. timeline_state c ?S (insert z E)) w1"
    if "timeline_state c ?S (insert z E) w1" for w1
    by (rule wp_mono [OF timeline_cut [OF c _ that]]) (use S in auto)
  show ?thesis
    unfolding TimelineWorker_adds [OF z] wp_bindE
    by (rule wp_mono [OF timeline_ZAdd [OF c _ inj _ st']]) (use S cut in \<open>auto simp: wp_simps split: sum.splits\<close>)
qed

text \<open>
  What may happen to the timeline: messages are processed, with any outcome and any number of
  times, and anything happens elsewhere in between.
\<close>

inductive timeline_history :: "'x host \<Rightarrow> 'x cache \<Rightarrow> 'x world \<Rightarrow> (string \<times> unit res) list \<Rightarrow> 'x world \<Rightarrow> bool" for H c w0 where
  start: "timeline_history H c w0 [] w0"
| elsewhere: "timeline_history H c w0 hs w1 \<Longrightarrow> rds w2 (timeline_key c) = rds w1 (timeline_key c) \<Longrightarrow> timeline_history H c w0 hs w2"
| processed: "timeline_history H c w0 hs w1 \<Longrightarrow> run_state (TimelineWorker_process H c b) w1 = (r, w2) \<Longrightarrow>
    timeline_history H c w0 (hs @ [(b, r)]) w2"

text \<open>The entries of the messages that were tried, and of those that were processed successfully.\<close>

definition tried :: "'x host \<Rightarrow> (string \<times> unit res) list \<Rightarrow> entry set" where
  "tried H hs = {z. \<exists>x \<in> set hs. timeline_entry H (fst x) = Some z}"

definition completed :: "'x host \<Rightarrow> (string \<times> unit res) list \<Rightarrow> entry set" where
  "completed H hs = {z. \<exists>x \<in> set hs. timeline_entry H (fst x) = Some z \<and> snd x = Inr ()}"

lemma tried_append [simp]: "tried H (hs @ [(b, r)]) = (case timeline_entry H b of None \<Rightarrow> tried H hs | Some z \<Rightarrow> insert z (tried H hs))"
  by (auto simp: tried_def split: option.splits)

lemma completed_append [simp]: "completed H (hs @ [(b, r)]) =
  (case timeline_entry H b of None \<Rightarrow> completed H hs | Some z \<Rightarrow> if r = Inr () then insert z (completed H hs) else completed H hs)"
  by (auto simp: completed_def split: option.splits)

lemma finite_tried: "finite (tried H hs)"
proof -
  have "tried H hs \<subseteq> (\<lambda>x. the (timeline_entry H (fst x))) ` set hs" by (force simp: tried_def)
  then show ?thesis by (rule finite_subset) simp
qed

lemma completed_tried: "completed H hs \<subseteq> tried H hs"
  by (auto simp: tried_def completed_def)

text \<open>
  C8. No recent video is missing from the timeline. Start from an empty timeline and let any
  messages be processed, in any order, more than once, and with any failures of Redis: the
  timeline is ordered by creation time, holds only videos it was asked to add, and holds every
  video whose message was processed and that is among the newest 1000 of them.
\<close>

theorem TimelineWorker_keeps_recent:
  assumes "cache_redis_ok c" "rdb_of c \<noteq> None" "rds w0 (timeline_key c) = None" "timeline_history H c w0 hs w"
    and "inj_on snd (tried H hs)"
  shows "\<exists>zs. rds w (timeline_key c) = stored zs \<and> timeline_inv (tried H hs) (completed H hs) zs"
proof -
  have "timeline_state c (tried H hs) (completed H hs) w"
    using assms(4,5)
  proof (induction rule: timeline_history.induct)
    case start
    with assms(3) show ?case by (auto simp: timeline_state_def stored_def timeline_inv_def completed_def intro!: exI [of _ "[]"])
  next
    case (elsewhere hs w1 w2)
    then show ?case by (simp add: timeline_state_def)
  next
    case (processed hs w1 b r w2)
    show ?case
    proof (cases "timeline_entry H b")
      case None
      with processed show ?thesis by (simp add: TimelineWorker_drops)
    next
      case (Some z)
      with processed.prems have inj: "inj_on snd (insert z (tried H hs))" by simp
      then have "timeline_state c (tried H hs) (completed H hs) w1" using processed.IH by (blast intro: inj_on_subset)
      from wp_runD [OF TimelineWorker_step [OF assms(1,2) finite_tried completed_tried this Some inj] processed.hyps(2)]
      show ?thesis using Some by simp
    qed
  qed
  then show ?thesis by (simp add: timeline_state_def)
qed

text \<open>A Redis that is reachable: no call of the two commands on a sorted set fails.\<close>

definition reachable_zset :: "'x cache \<Rightarrow> bool" where
  "reachable_zset c \<longleftrightarrow> (\<forall>k zs w. rds w k = stored zs \<longrightarrow>
     (\<forall>ms. wp (ZAdd c k ms) (\<lambda>r _. \<forall>s. r \<noteq> Inl (ErrExternal s)) w) \<and>
     (\<forall>a b. wp (ZRemRangeByRank c k a b) (\<lambda>r _. \<forall>s. r \<noteq> Inl (ErrExternal s)) w))"

lemma wp_reachable:
  assumes "wp m (\<lambda>r w'. (\<exists>s. r = Inl (ErrExternal s)) \<and> P r w' \<or> Q r w') w" "wp m (\<lambda>r _. \<forall>s. r \<noteq> Inl (ErrExternal s)) w"
  shows "wp m Q w"
proof -
  from assms have "wp m (\<lambda>r w'. ((\<exists>s. r = Inl (ErrExternal s)) \<and> P r w' \<or> Q r w') \<and> (\<forall>s. r \<noteq> Inl (ErrExternal s))) w"
    by (simp only: wp_conj simp_thms)
  then show ?thesis by (rule wp_mono) blast
qed

lemma timeline_state_newest:
  assumes "finite S" "timeline_state c S S w" "rds w (timeline_key c) = stored zs" "length zs \<le> 1000"
  shows "rds w (timeline_key c) = stored (newest S)"
proof -
  from assms(2,3) have "timeline_inv S S zs" by (auto simp: timeline_state_def stored_def split: if_splits)
  with assms show ?thesis by (metis timeline_inv_newest)
qed

lemma TimelineWorker_step_newest:
  assumes c: "cache_redis_ok c" "rdb_of c \<noteq> None" "reachable_zset c" and S: "finite S" and st: "rds w (timeline_key c) = stored (newest S)"
    and z: "timeline_entry H b = Some z" and inj: "inj_on snd (insert z S)"
  shows "wp (TimelineWorker_process H c b) (\<lambda>r w'. r = Inr () \<and> rds w' (timeline_key c) = stored (newest (insert z S))) w"
proof -
  let ?S = "insert z S"
  have "timeline_inv S S (newest S)" unfolding newest_def
    by (rule timeline_inv_cut [OF S]) (use S in \<open>auto simp: timeline_inv_def recent_def\<close>)
  with st S have st': "timeline_state c ?S S w" by (auto simp: timeline_state_def intro: timeline_inv_more [of ?S S])
  have cut: "wp (ZRemRangeByRank c (timeline_key c) 0 (- 1001)) (\<lambda>_ w'. rds w' (timeline_key c) = stored (newest ?S)) w1"
    if "timeline_state c ?S ?S w1" for w1
  proof -
    have "wp (ZRemRangeByRank c (timeline_key c) 0 (- 1001)) (\<lambda>r _. \<forall>s. r \<noteq> Inl (ErrExternal s)) w1"
      using c(3) that by (auto simp: reachable_zset_def timeline_state_def)
    from wp_reachable [OF timeline_cut [OF c(1,2) _ that] this] show ?thesis
      by (rule wp_mono) (use S in \<open>auto intro: timeline_state_newest\<close>)
  qed
  have "wp (ZAdd c (timeline_key c) [z]) (\<lambda>r w'. r = Inr () \<and> timeline_state c ?S ?S w') w"
    by (rule wp_reachable [OF timeline_ZAdd [OF c(1,2) _ inj _ st']]) (use S c(3) st in \<open>auto simp: reachable_zset_def\<close>)
  then show ?thesis
    unfolding TimelineWorker_adds [OF z] wp_bindE
    by (rule wp_mono) (use cut in \<open>auto simp: wp_simps\<close>)
qed

text \<open>
  C9. With a reachable Redis the timeline is exactly the newest 1000 of the published videos,
  ordered by creation time: it depends neither on the order in which their messages arrive nor on
  how often a message is delivered.
\<close>

theorem timeline_is_newest:
  assumes "cache_redis_ok c" "rdb_of c \<noteq> None" "reachable_zset c" "rds w0 (timeline_key c) = None"
    and "timeline_history H c w0 hs w" "inj_on snd (tried H hs)"
  shows "rds w (timeline_key c) = stored (newest (tried H hs)) \<and> length (newest (tried H hs)) \<le> 1000"
proof -
  have "rds w (timeline_key c) = stored (newest (tried H hs))"
    using assms(5,6)
  proof (induction rule: timeline_history.induct)
    case (processed hs w1 b r w2)
    show ?case
    proof (cases "timeline_entry H b")
      case None
      with processed show ?thesis by (simp add: TimelineWorker_drops)
    next
      case (Some z)
      with processed.prems have inj: "inj_on snd (insert z (tried H hs))" by simp
      then have "rds w1 (timeline_key c) = stored (newest (tried H hs))" using processed.IH by (blast intro: inj_on_subset)
      from wp_runD [OF TimelineWorker_step_newest [OF assms(1-3) finite_tried this Some inj] processed.hyps(2)]
      show ?thesis using Some by simp
    qed
  qed (simp_all add: assms(4) tried_def newest_def cut_def stored_def)
  then show ?thesis by (simp add: newest_def cut_def)
qed

section \<open>Examples\<close>

definition timeline_evt :: "uint \<Rightarrow> int \<Rightarrow> timeline_event" where
  "timeline_evt i t = \<lparr>te_EventID = ''e'', te_Action = ''publish'', te_VideoID = i, te_CreateTime = t, te_OccurredAt = 0\<rparr>"

definition timeline_host :: "ref_hid host" where
  "timeline_host = ref_host [] [] [] [(timeline_evt 1 1000, ''A''), (timeline_evt 2 2000, ''B'')] [] []"

lemma FormatUint_small: "FormatUint 1 = ''1''" "FormatUint 2 = ''2''"
  by code_simp+

lemma timeline_host_entries: "timeline_entry timeline_host ''A'' = Some (1000, ''1'')" "timeline_entry timeline_host ''B'' = Some (2000, ''2'')"
  by (simp_all add: timeline_entry_def timeline_host_def ref_host_def table_codec_def timeline_evt_def FormatUint_small [simplified])

definition timeline_run :: "ref_hid cache \<Rightarrow> string \<Rightarrow> ref_world \<Rightarrow> unit res \<times> ref_world" where
  "timeline_run c b w = run_state (TimelineWorker_process timeline_host c b) w"

lemma timeline_two:
  "timeline_history timeline_host c w [(b1, fst (timeline_run c b1 w)), (b2, fst (timeline_run c b2 (snd (timeline_run c b1 w))))]
     (snd (timeline_run c b2 (snd (timeline_run c b1 w))))"
proof -
  let ?w1 = "snd (timeline_run c b1 w)"
  have "timeline_history timeline_host c w [(b1, fst (timeline_run c b1 w))] ?w1"
    using timeline_history.processed [OF timeline_history.start, of timeline_host c b1 w] by (simp add: timeline_run_def)
  from timeline_history.processed [OF this, of b2] show ?thesis by (simp add: timeline_run_def)
qed

text \<open>The newer video arrives first, and Redis fails the first call for the older one.\<close>

theorem TimelineWorker_keeps_recent_witness:
  "let w1 = snd (timeline_run ref_cache ''B'' (ref_start [Fine, Fine, Fails ''timeout''] no_tables)); w2 = snd (timeline_run ref_cache ''A'' w1) in
   \<exists>zs. rds w2 (timeline_key ref_cache) = stored zs \<and> (2000, ''2'') \<in> set zs"
proof -
  let ?w = "ref_start [Fine, Fine, Fails ''timeout''] no_tables"
  let ?hs = "[(''B'', fst (timeline_run ref_cache ''B'' ?w)), (''A'', fst (timeline_run ref_cache ''A'' (snd (timeline_run ref_cache ''B'' ?w))))]"
  have tried: "tried timeline_host ?hs = {(2000, ''2''), (1000, ''1'')}"
    by (auto simp: tried_def timeline_host_entries)
  have fine: "fst (timeline_run ref_cache ''B'' ?w) = Inr ()"
    by (simp add: timeline_run_def TimelineWorker_adds [OF timeline_host_entries(2)] ZAdd_def ZRemRangeByRank_def ref_cache_def NewClient_def
        rdb_of_def ref_redis_def ref_cmd_def bindE_def ref_start_def next_world_def cmd_zadd_def cmd_zremrangebyrank_def on_zset_def zset_def live_def
        split: prod.splits)
  have "rdb_of ref_cache \<noteq> None" "rds ?w (timeline_key ref_cache) = None"
    by (simp_all add: ref_cache_def NewClient_def rdb_of_def ref_start_def)
  moreover have "inj_on snd (tried timeline_host ?hs)" by (simp add: tried)
  ultimately obtain zs where zs: "rds (snd (timeline_run ref_cache ''A'' (snd (timeline_run ref_cache ''B'' ?w)))) (timeline_key ref_cache) = stored zs"
      "timeline_inv (tried timeline_host ?hs) (completed timeline_host ?hs) zs"
    using TimelineWorker_keeps_recent [OF ref_cache_ok(1) _ _ timeline_two [of ref_cache ?w "''B''" "''A''"]] by blast
  have "(2000, ''2'') \<in> completed timeline_host ?hs" by (simp add: completed_def fine timeline_host_entries)
  moreover have "card {y \<in> {(2000, ''2''), (1000 :: int, ''1'')}. (2000, ''2'') < y} \<le> card {(2000, ''2''), (1000 :: int, ''1'')}"
    by (rule card_mono) auto
  then have "recent {(2000, ''2''), (1000, ''1'')} (2000, ''2'')" by (simp add: recent_def)
  ultimately show ?thesis using zs by (auto simp: Let_def timeline_inv_def tried)
qed

theorem timeline_is_newest_witness:
  "let w1 = snd (timeline_run sure_cache ''B'' (ref_start [] no_tables)); w2 = snd (timeline_run sure_cache ''A'' w1) in
   rds w2 (timeline_key sure_cache) = Some (RZSet [(1000, ''1''), (2000, ''2'')], None)"
proof -
  let ?w = "ref_start [] no_tables"
  let ?hs = "[(''B'', fst (timeline_run sure_cache ''B'' ?w)), (''A'', fst (timeline_run sure_cache ''A'' (snd (timeline_run sure_cache ''B'' ?w))))]"
  have tried: "tried timeline_host ?hs = {(2000, ''2''), (1000, ''1'')}"
    by (auto simp: tried_def timeline_host_entries)
  have "reachable_zset sure_cache"
    by (auto simp: reachable_zset_def ZAdd_def ZRemRangeByRank_def sure_cache_def NewClient_def rdb_of_def sure_redis_def wp_def sure_cmd_def
        cmd_zadd_def cmd_zremrangebyrank_def on_zset_def zset_stored split: prod.splits)
  moreover have "rdb_of sure_cache \<noteq> None" "rds ?w (timeline_key sure_cache) = None"
    by (simp_all add: sure_cache_def NewClient_def rdb_of_def ref_start_def)
  moreover have "inj_on snd (tried timeline_host ?hs)" by (simp add: tried)
  ultimately have "rds (snd (timeline_run sure_cache ''A'' (snd (timeline_run sure_cache ''B'' ?w)))) (timeline_key sure_cache) =
      stored (newest {(2000, ''2''), (1000, ''1'')})"
    using timeline_is_newest [OF sure_cache_ok _ _ _ timeline_two [of sure_cache ?w "''B''" "''A''"]] tried by simp
  then show ?thesis by (simp add: Let_def newest_def cut_def stored_def)
qed

end
