(* ===== verification/Paging.thy ===== *)
theory Paging
  imports Gorm
begin

text \<open>
  What the paged feeds promise to a client that follows their cursors: page after page it gets
  every row once, in order. The interface is a fetch of one page after a cursor; the feeds of
  \<open>internal/api/feed\<close> are shown to provide it.
\<close>

section \<open>Pages of a table\<close>

text \<open>Rows are listed by descending key; a cursor is the key of the last row the client has.\<close>

definition after :: "'k :: linorder option \<Rightarrow> 'k \<Rightarrow> bool" where
  "after c k \<longleftrightarrow> (case c of None \<Rightarrow> True | Some k0 \<Rightarrow> k < k0)"

definition is_page :: "('r \<Rightarrow> 'k :: linorder) \<Rightarrow> 'r list \<Rightarrow> int \<Rightarrow> 'k option \<Rightarrow> 'r list \<Rightarrow> bool" where
  "is_page key rs lim c out \<longleftrightarrow> query_result (\<lambda>x. after c (key x)) (\<lambda>a b. key b \<le> key a) lim rs out"

definition listing :: "('r \<Rightarrow> 'k :: linorder) \<Rightarrow> 'r list \<Rightarrow> 'r list" where
  "listing key rs = rev (sort_key key rs)"

lemma mset_listing [simp]: "mset (listing key rs) = mset rs"
  by (simp add: listing_def)

lemma set_listing [simp]: "set (listing key rs) = set rs"
  by (simp add: listing_def)

lemma length_listing [simp]: "length (listing key rs) = length rs"
  by (simp add: listing_def)

lemma listing_sorted: "sorted_wrt (\<lambda>a b. key b \<le> key a) (listing key rs)"
proof -
  have "sorted_wrt (\<lambda>a b. key a \<le> key b) (sort_key key rs)" using sorted_sort_key [of key rs] by (simp add: sorted_map)
  then show ?thesis by (simp add: listing_def sorted_wrt_rev)
qed

lemma listing_strict:
  assumes "inj_on key (set rs)" "distinct rs"
  shows "sorted_wrt (\<lambda>a b. key b < key a) (listing key rs)"
proof -
  have "distinct (listing key rs)" using assms(2) by (simp add: listing_def)
  with listing_sorted [of key rs] have "sorted_wrt (\<lambda>a b. key b \<le> key a \<and> a \<noteq> b) (listing key rs)"
    unfolding sorted_wrt_iff_nth_less by (auto simp: nth_eq_iff_index_eq)
  then show ?thesis
    by (rule sorted_wrt_mono_rel [rotated]) (use assms(1) in \<open>auto simp: inj_on_def order.strict_iff_order\<close>)
qed

lemma page_is_prefix:
  assumes inj: "inj_on key (set rs)" and lim: "0 < lim" and page: "is_page key rs lim c out"
  shows "out = take (nat lim) (filter (\<lambda>x. after c (key x)) (listing key rs))"
proof -
  let ?P = "\<lambda>x. after c (key x)" and ?ord = "\<lambda>a b. key b \<le> key a"
  have "mset (filter ?P (listing key rs)) = mset (filter ?P rs)" by (simp add: mset_filter)
  moreover have "sorted_wrt ?ord (filter ?P (listing key rs))" by (rule sorted_wrt_filter [OF listing_sorted])
  ultimately have "query_result ?P ?ord lim rs (take (nat lim) (filter ?P (listing key rs)))"
    using lim unfolding query_result_def limit_rows_def by (metis not_less_iff_gr_or_eq)
  with page [unfolded is_page_def] show ?thesis
    by (rule query_result_unique) (use inj in \<open>auto simp: inj_on_def\<close>)
qed

text \<open>The cursor of a full page leaves exactly what the page did not show.\<close>

lemma rest_after_page:
  fixes key :: "'r \<Rightarrow> 'k :: linorder"
  assumes strict: "sorted_wrt (\<lambda>a b. key b < key a) xs" and n: "0 < n" "n \<le> length xs"
  shows "filter (\<lambda>x. key x < key (last (take n xs))) xs = drop n xs"
proof -
  let ?l = "last (take n xs)"
  have "take n xs \<noteq> []" using n by auto
  then have l: "?l \<in> set (take n xs)" "take n xs = butlast (take n xs) @ [?l]" by auto
  have sp: "sorted_wrt (\<lambda>a b. key b < key a) (take n xs @ drop n xs)" using strict by simp
  then have "key y < key ?l" if "y \<in> set (drop n xs)" for y using l(1) that unfolding sorted_wrt_append by blast
  moreover have "\<not> key y < key ?l" if y: "y \<in> set (take n xs)" for y
  proof (cases "y = ?l")
    case False
    then have "y \<in> set (butlast (take n xs))" using y l(2) by (metis Un_iff empty_iff list.set(1) set_ConsD set_append)
    moreover have "sorted_wrt (\<lambda>a b. key b < key a) (butlast (take n xs) @ [?l])"
      using sp l(2) by (metis sorted_wrt_append)
    ultimately have "key ?l < key y" by (auto simp: sorted_wrt_append)
    then show ?thesis by simp
  qed simp
  ultimately have "filter (\<lambda>x. key x < key ?l) (take n xs @ drop n xs) = drop n xs"
    by (simp only: filter_append) (auto simp: filter_empty_conv filter_id_conv)
  then show ?thesis by simp
qed

lemma filter_after_after:
  assumes "after c k"
  shows "filter (\<lambda>x. key x < k) (filter (\<lambda>x. after c (key x)) xs) = filter (\<lambda>x. after (Some k) (key x)) xs"
  using assms by (auto simp: after_def split: option.splits intro!: filter_cong)

section \<open>A client that follows the cursors\<close>

text \<open>
  A fetch answers with items, the next cursor and whether there is more. The client asks until
  there is no more, with some fuel.
\<close>

type_synonym ('x, 'k, 'i) fetch = "'k option \<Rightarrow> ('x, ('i list \<times> 'k option \<times> bool) res) io"

fun follow :: "('x, 'k, 'i) fetch \<Rightarrow> nat \<Rightarrow> 'k option \<Rightarrow> ('x, 'i list res) io" where
  "follow fetch 0 c = throw (ErrNew ''out of fuel'')"
| "follow fetch (Suc n) c = bindE (fetch c) (\<lambda>(items, next, more).
     if more then bindE (follow fetch n next) (\<lambda>rest. ok (items @ rest)) else ok items)"

text \<open>A call that always answers.\<close>

definition answers :: "('x, 'a res) io \<Rightarrow> bool" where
  "answers m \<longleftrightarrow> (\<forall>w. wp m (\<lambda>r _. \<exists>a. r = Inr a) w)"

text \<open>Every request that follows a cursor of a row, in a state with \<open>G\<close>, is answered.\<close>

definition served :: "('x world \<Rightarrow> bool) \<Rightarrow> (tables \<Rightarrow> 'k set) \<Rightarrow> ('x, 'k, 'i) fetch \<Rightarrow> bool" where
  "served G ks fetch \<longleftrightarrow> (\<forall>w. G w \<longrightarrow> (\<forall>c \<in> insert None (Some ` ks (tabs w)). wp (fetch c) (\<lambda>r _. \<exists>a. r = Inr a) w))"

lemma served_imp:
  assumes "G w" "c = None \<or> (\<exists>x \<in> set (rows (tabs w)). c = Some (key x))"
  shows "wp (f c) (\<lambda>r _. served G (\<lambda>t. key ` set (rows t)) f \<longrightarrow> (\<exists>a. r = Inr a)) w"
proof (cases "served G (\<lambda>t. key ` set (rows t)) f")
  case True
  with assms have "wp (f c) (\<lambda>r _. \<exists>a. r = Inr a) w" unfolding served_def by blast
  then show ?thesis by (rule wp_mono) simp
qed (simp add: wp_def split: prod.splits)

locale paged_feed =
  fixes env_ok :: "'e \<Rightarrow> bool"
    and limit :: "'e \<Rightarrow> int"
    and fetch :: "'e \<Rightarrow> ('x, 'k :: linorder, 'i) fetch"
    and good :: "'e \<Rightarrow> 'x world \<Rightarrow> bool"
    and rows :: "'e \<Rightarrow> tables \<Rightarrow> 'r list"
    and key :: "'r \<Rightarrow> 'k"
    and shows_row :: "'e \<Rightarrow> tables \<Rightarrow> 'i \<Rightarrow> 'r \<Rightarrow> bool"
  assumes limit_pos: "env_ok E \<Longrightarrow> 0 < limit E"
    and rows_told_apart: "good E w \<Longrightarrow> inj_on key (set (rows E (tabs w))) \<and> distinct (rows E (tabs w))"
    and fetch_page: "env_ok E \<Longrightarrow> good E w \<Longrightarrow> c = None \<or> (\<exists>x \<in> set (rows E (tabs w)). c = Some (key x)) \<Longrightarrow>
    wp (fetch E c) (\<lambda>r w'. good E w' \<and> tabs w' = tabs w \<and> (\<forall>items next more. r = Inr (items, next, more) \<longrightarrow>
      (\<exists>out. is_page key (rows E (tabs w)) (limit E) c out \<and> list_all2 (shows_row E (tabs w)) items out \<and>
        (out \<noteq> [] \<longrightarrow> next = Some (key (last out))) \<and> more = (int (length out) = limit E)))) w"
begin

lemma follow_rest:
  assumes env: "env_ok E"
    and "c = None \<or> (\<exists>x \<in> set (rows E t). c = Some (key x))"
    and "length (filter (\<lambda>x. after c (key x)) (listing key (rows E t))) < n * nat (limit E)" "tabs w = t" "good E w"
  shows "wp (follow (fetch E) n c) (\<lambda>r w'. good E w' \<and> tabs w' = tabs w \<and> (\<forall>items. r = Inr items \<longrightarrow>
    list_all2 (shows_row E t) items (filter (\<lambda>x. after c (key x)) (listing key (rows E t)))) \<and>
    (served (good E) (\<lambda>t. key ` set (rows E t)) (fetch E) \<longrightarrow> (\<exists>items. r = Inr items))) w"
  using assms(2-)
proof (induction n arbitrary: c w)
  case (Suc n)
  let ?L = "listing key (rows E t)"
  let ?rest = "\<lambda>c. filter (\<lambda>x. after c (key x)) ?L"
  let ?Q = "\<lambda>c w r w'. good E w' \<and> tabs w' = tabs w \<and> (\<forall>items. r = Inr items \<longrightarrow> list_all2 (shows_row E t) items (?rest c)) \<and>
    (served (good E) (\<lambda>t. key ` set (rows E t)) (fetch E) \<longrightarrow> (\<exists>items. r = Inr items))"
  note lim = limit_pos [OF env]
  note rows = rows_told_apart [OF Suc.prems(4), THEN conjunct1, unfolded Suc.prems(3)] rows_told_apart [OF Suc.prems(4), THEN conjunct2, unfolded Suc.prems(3)]
  have strict: "sorted_wrt (\<lambda>a b. key b < key a) (?rest c)"
    by (rule sorted_wrt_filter [OF listing_strict [OF rows]])
  have step: "wp (if more then bindE (follow (fetch E) n next) (\<lambda>rest. ok (items @ rest)) else ok items) (?Q c w) w1"
    if q: "good E w1" "tabs w1 = tabs w" and page: "is_page key (rows E t) (limit E) c out" and items: "list_all2 (shows_row E t) items out"
      and next': "out \<noteq> [] \<longrightarrow> next = Some (key (last out))" and more: "more = (int (length out) = limit E)" for out items "next" more w1
  proof -
    have out: "out = take (nat (limit E)) (?rest c)" by (rule page_is_prefix [OF rows(1) lim page])
    show ?thesis
    proof (cases more)
      case False
      with more out lim have "out = ?rest c" by (auto simp: min_def split: if_splits)
      with False q items show ?thesis by (simp add: wp_return)
    next
      case True
      with more out lim have len: "0 < nat (limit E)" "nat (limit E) \<le> length (?rest c)" "out \<noteq> []" by auto
      have last: "last out \<in> set (?rest c)" using out len(3) by (metis in_set_takeD last_in_set)
      have drop: "?rest next = drop (nat (limit E)) (?rest c)"
        using rest_after_page [OF strict len(1,2)] filter_after_after [of c "key (last out)" key ?L] last next' len(3)
        by (simp add: out [symmetric])
      have cur: "next = None \<or> (\<exists>x \<in> set (rows E t). next = Some (key x))" using last next' len(3) by auto
      have fuel: "length (?rest next) < n * nat (limit E)" using Suc.prems(2) len(2) by (simp add: drop)
      have t: "tabs w1 = t" using q Suc.prems(3) by simp
      have split: "?rest c = out @ ?rest next" by (simp add: out drop)
      show ?thesis
        unfolding if_P [OF True] wp_bindE
        by (rule wp_mono [OF Suc.IH [OF cur fuel t q(1)]])
          (use q items in \<open>auto simp: wp_return split list_all2_appendI split: sum.splits\<close>)
    qed
  qed
  have "wp (fetch E c) (\<lambda>r w'. (good E w' \<and> tabs w' = tabs w \<and> (\<forall>items next more. r = Inr (items, next, more) \<longrightarrow>
      (\<exists>out. is_page key (rows E t) (limit E) c out \<and> list_all2 (shows_row E t) items out \<and>
        (out \<noteq> [] \<longrightarrow> next = Some (key (last out))) \<and> more = (int (length out) = limit E)))) \<and>
      (served (good E) (\<lambda>t. key ` set (rows E t)) (fetch E) \<longrightarrow> (\<exists>a. r = Inr a))) w"
    unfolding wp_conj [of "fetch E c" "\<lambda>r w'. good E w' \<and> tabs w' = tabs w \<and> (\<forall>items next more. r = Inr (items, next, more) \<longrightarrow> _ items next more)"]
    by (intro conjI served_imp [where G = "good E"]) (use fetch_page [OF env, of w c] Suc.prems in simp_all)
  then show ?case
    unfolding follow.simps wp_bindE
  proof (rule wp_mono, goal_cases)
    case (1 r w1)
    show ?case
    proof (cases r)
      case (Inl e)
      with 1 show ?thesis by (simp add: wp_return)
    next
      case (Inr p)
      obtain items nxt more where p: "p = (items, nxt, more)" by (cases p)
      with 1 Inr obtain out where out: "good E w1" "tabs w1 = tabs w" "is_page key (rows E t) (limit E) c out" "list_all2 (shows_row E t) items out"
          "out \<noteq> [] \<longrightarrow> nxt = Some (key (last out))" "more = (int (length out) = limit E)" by blast
      show ?thesis unfolding Inr p sum.case prod.case by (rule step [OF out])
    qed
  qed
qed simp

text \<open>From the first page on: every row, once, in order; and the client gets to the end.\<close>

lemma follow_all:
  assumes "env_ok E" "good E w" "length (rows E (tabs w)) < n * nat (limit E)"
    and "run_state (follow (fetch E) n None) w = (r, w')"
  shows "(\<forall>items. r = Inr items \<longrightarrow> list_all2 (shows_row E (tabs w)) items (listing key (rows E (tabs w)))) \<and>
    (served (good E) (\<lambda>t. key ` set (rows E t)) (fetch E) \<longrightarrow> (\<exists>items. r = Inr items))"
proof -
  have all: "filter (\<lambda>x. after None (key x)) xs = xs" for xs by (simp add: after_def)
  from wp_runD [OF follow_rest [OF assms(1), of None, unfolded all length_listing, OF _ assms(3) refl assms(2)] assms(4)]
  show ?thesis by simp
qed

end

end
