(* ===== verification/Feed.thy ===== *)
theory Feed
  imports Timeline Like Paging
begin

text \<open>
  \<open>internal/api/feed\<close>: the feeds by time, likes, popularity, follows and tag, with their caches in
  the process, in Redis and in the database, and their handlers. Not part of the sources and
  therefore parameters: the local cache (go-cache), \<open>singleflight\<close>, the Go scheduler and the JSON
  form of a cached page.
\<close>

section \<open>entity.go\<close>

record feed_author =
  fa_ID :: uint
  fa_Username :: string

record feed_item =
  fi_ID :: uint
  fi_Author :: feed_author
  fi_Title :: string
  fi_Description :: string
  fi_PlayURL :: string
  fi_CoverURL :: string
  fi_CreateTime :: int
  fi_LikesCount :: int
  fi_IsLiked :: bool

record likes_count_cursor =
  cu_LikesCount :: int
  cu_ID :: uint

record list_latest_response =
  ll_VideoList :: "feed_item list"
  ll_NextTime :: int
  ll_HasMore :: bool

record list_likes_count_response =
  lk_VideoList :: "feed_item list"
  lk_NextLikesCountBefore :: "int option"
  lk_NextIDBefore :: "uint option"
  lk_HasMore :: bool

record list_by_popularity_response =
  lp_VideoList :: "feed_item list"
  lp_AsOf :: int
  lp_NextOffset :: int
  lp_HasMore :: bool
  lp_NextLatestPopularity :: "int option"
  lp_NextLatestBefore :: "time option"
  lp_NextLatestIDBefore :: "uint option"

record list_by_following_response =
  lf_VideoList :: "feed_item list"
  lf_NextTime :: int
  lf_HasMore :: bool

section \<open>repo.go\<close>

definition FeedRepo_ListLatest :: "'x gorm \<Rightarrow> int \<Rightarrow> time \<Rightarrow> ('x, video list res) io" where
  "FeedRepo_ListLatest db limit latestBefore =
     db_find (db_videos db) (\<lambda>v. \<not> IsZero latestBefore \<longrightarrow> v_CreateTime v < latestBefore)
       (\<lambda>a b. v_CreateTime b \<le> v_CreateTime a) limit"

definition FeedRepo_GetByID :: "'x gorm \<Rightarrow> uint \<Rightarrow> ('x, video res) io" where
  "FeedRepo_GetByID db i = db_first (db_videos db) (\<lambda>v. v_ID v = i)"

definition FeedRepo_ListLikesCount :: "'x gorm \<Rightarrow> int \<Rightarrow> likes_count_cursor option \<Rightarrow> ('x, video list res) io" where
  "FeedRepo_ListLikesCount db limit cursor =
     db_find (db_videos db) (\<lambda>v. case cursor of None \<Rightarrow> True
         | Some c \<Rightarrow> v_LikesCount v < cu_LikesCount c \<or> v_LikesCount v = cu_LikesCount c \<and> v_ID v < cu_ID c)
       (\<lambda>a b. v_LikesCount b < v_LikesCount a \<or> v_LikesCount b = v_LikesCount a \<and> v_ID b \<le> v_ID a) limit"

definition GetByIDs :: "'x gorm \<Rightarrow> uint list \<Rightarrow> ('x, video list res) io" where
  "GetByIDs db ids = (if ids = [] then ok [] else db_find (db_videos db) (\<lambda>v. v_ID v \<in> set ids) no_order no_limit)"

definition FeedRepo_ListByPopularity :: "'x gorm \<Rightarrow> int \<Rightarrow> int \<Rightarrow> time \<Rightarrow> uint \<Rightarrow> ('x, video list res) io" where
  "FeedRepo_ListByPopularity db limit popularityBefore timeBefore idBefore =
     db_find (db_videos db)
       (\<lambda>v. \<not> IsZero timeBefore \<and> idBefore > 0 \<longrightarrow>
          v_Popularity v < popularityBefore \<or>
          v_Popularity v = popularityBefore \<and> v_CreateTime v < timeBefore \<or>
          v_Popularity v = popularityBefore \<and> v_CreateTime v = timeBefore \<and> v_ID v < idBefore)
       (\<lambda>a b. v_Popularity b < v_Popularity a \<or> v_Popularity b = v_Popularity a \<and>
          (v_CreateTime b < v_CreateTime a \<or> v_CreateTime b = v_CreateTime a \<and> v_ID b \<le> v_ID a)) limit"

definition FeedRepo_ListByFollowing :: "'x gorm \<Rightarrow> int \<Rightarrow> uint \<Rightarrow> time \<Rightarrow> ('x, video list res) io" where
  "FeedRepo_ListByFollowing db limit accountID latestBefore =
     db_videos_sub db (\<lambda>t v.
         (accountID > 0 \<longrightarrow> v_AuthorID v \<in> s_VloggerID ` {s \<in> set (t_socials t). s_FollowerID s = accountID}) \<and>
         (\<not> IsZero latestBefore \<longrightarrow> v_CreateTime v < latestBefore))
       (\<lambda>a b. v_CreateTime b \<le> v_CreateTime a) limit"

definition FeedRepo_ListByTag :: "'x gorm \<Rightarrow> string \<Rightarrow> int \<Rightarrow> ('x, video list res) io" where
  "FeedRepo_ListByTag db tagName limit =
     db_videos_tags db (\<lambda>(v, vt, t). tg_Name t = tagName)
       (\<lambda>a b. v_CreateTime (fst b) \<le> v_CreateTime (fst a)) limit"

section \<open>The parameters\<close>

record 'x local_cache =
  lc_Get :: "string \<Rightarrow> ('x, video option) io"
  lc_Set :: "string \<Rightarrow> video \<Rightarrow> int \<Rightarrow> ('x, unit) io"

text \<open>
  \<open>rt_go\<close> starts a goroutine nobody waits for; \<open>rt_order\<close> is the order in which the scheduler
  runs the goroutines of a \<open>WaitGroup\<close>; the others are \<open>singleflight\<close> at the three types it is
  used with, \<open>time.Sleep\<close>, and the JSON form of a page of the following feed.
\<close>

record 'x runtime =
  rt_go :: "('x, unit) io \<Rightarrow> ('x, unit) io"
  rt_order :: "uint list \<Rightarrow> uint list"
  rt_video :: "string \<Rightarrow> ('x, video res) io \<Rightarrow> ('x, video res) io"
  rt_videos :: "string \<Rightarrow> ('x, video list res) io \<Rightarrow> ('x, video list res) io"
  rt_tag :: "string \<Rightarrow> ('x, string res) io \<Rightarrow> ('x, string res) io"
  rt_sleep :: "('x, unit) io"
  rt_following :: "list_by_following_response codec"

text \<open>\<open>NewFeedService\<close> always makes a local cache, so it is never nil.\<close>

record 'x feed_service =
  fs_feedRepo :: "'x gorm"
  fs_likeRepo :: "'x gorm"
  fs_redisCache :: "'x cache"
  fs_localCache :: "'x local_cache"
  fs_cacheTTL :: int

definition NewFeedService :: "'x local_cache \<Rightarrow> 'x gorm \<Rightarrow> 'x gorm \<Rightarrow> 'x cache \<Rightarrow> 'x feed_service" where
  "NewFeedService L feedRepo likeRepo redisCache =
     \<lparr>fs_feedRepo = feedRepo, fs_likeRepo = likeRepo, fs_redisCache = redisCache, fs_localCache = L,
      fs_cacheTTL = 24 * 3600 * 10 ^ 9\<rparr>"

definition seconds :: "int \<Rightarrow> int" where
  "seconds n = n * 10 ^ 9"

definition FormatInt :: "int \<Rightarrow> string" where
  "FormatInt n = (if n < 0 then CHR ''-'' # FormatUint (nat (- n)) else FormatUint (nat n))"

section \<open>service.go: helpers\<close>

definition make_feed_item :: "(uint \<Rightarrow> bool) \<Rightarrow> video \<Rightarrow> feed_item" where
  "make_feed_item liked v =
     \<lparr>fi_ID = v_ID v, fi_Author = \<lparr>fa_ID = v_AuthorID v, fa_Username = v_Username v\<rparr>, fi_Title = v_Title v,
      fi_Description = v_Description v, fi_PlayURL = v_PlayURL v, fi_CoverURL = v_CoverURL v,
      fi_CreateTime = Unix (v_CreateTime v), fi_LikesCount = v_LikesCount v, fi_IsLiked = liked (v_ID v)\<rparr>"

definition buildFeedVideos :: "'x feed_service \<Rightarrow> video list \<Rightarrow> uint \<Rightarrow> ('x, feed_item list res) io" where
  "buildFeedVideos s videos accountID =
     bindE (GetBatchLiked (fs_likeRepo s) (map v_ID videos) accountID) (\<lambda>likedMap. ok (map (make_feed_item likedMap) videos))"

definition buildOrderedResult :: "uint list \<Rightarrow> (uint \<rightharpoonup> video) \<Rightarrow> video list" where
  "buildOrderedResult orderedIDs dataMap = List.map_filter dataMap orderedIDs"

section \<open>service.go: GetVideosByIDs\<close>

definition entity_key :: "'x cache \<Rightarrow> uint \<Rightarrow> string" where
  "entity_key c i = Key c (''video:entity:'' @ FormatUint i)"

text \<open>L1: the local cache; the identifiers it does not have are returned.\<close>

fun lookup_local :: "'x feed_service \<Rightarrow> uint list \<Rightarrow> (uint \<rightharpoonup> video) \<Rightarrow> ('x, (uint \<rightharpoonup> video) \<times> uint list) io" where
  "lookup_local s [] videoMap = ret (videoMap, [])"
| "lookup_local s (i # is) videoMap = do {
     v \<leftarrow> lc_Get (fs_localCache s) (entity_key (fs_redisCache s) i);
     (case v of
        Some data \<Rightarrow> lookup_local s is (videoMap(i \<mapsto> data))
      | None \<Rightarrow> do {
          r \<leftarrow> lookup_local s is videoMap;
          ret (fst r, i # snd r)})}"

text \<open>L2: what \<open>MGet\<close> returned for each of the missed identifiers.\<close>

fun use_redis :: "'x host \<Rightarrow> 'x feed_service \<Rightarrow> (uint \<times> string option) list \<Rightarrow> (uint \<rightharpoonup> video)
    \<Rightarrow> ('x, (uint \<rightharpoonup> video) \<times> uint list) io" where
  "use_redis H s [] videoMap = ret (videoMap, [])"
| "use_redis H s ((i, res) # rs) videoMap =
     (case Option.bind res (Unmarshal (json_video H)) of
        Some v \<Rightarrow> do {
          _ \<leftarrow> lc_Set (fs_localCache s) (entity_key (fs_redisCache s) i) v (seconds 5);
          use_redis H s rs (videoMap(i \<mapsto> v))}
      | None \<Rightarrow> do {
          r \<leftarrow> use_redis H s rs videoMap;
          ret (fst r, i # snd r)})"

definition lookup_redis :: "'x host \<Rightarrow> 'x feed_service \<Rightarrow> uint list \<Rightarrow> (uint \<rightharpoonup> video) \<Rightarrow> ('x, (uint \<rightharpoonup> video) \<times> uint list) io" where
  "lookup_redis H s missedL1 videoMap =
     (if fs_redisCache s = None then ret (videoMap, missedL1)
      else do {
        results \<leftarrow> MGet (fs_redisCache s) (map (entity_key (fs_redisCache s)) missedL1);
        (case results of
           Inr rs \<Rightarrow> use_redis H s (zip missedL1 rs) videoMap
         | Inl _ \<Rightarrow> ret (videoMap, missedL1))})"

text \<open>L3: one goroutine per identifier, collapsed by \<open>singleflight\<close>; a video that was found is written back to Redis.\<close>

definition load_entity :: "'x host \<Rightarrow> 'x runtime \<Rightarrow> 'x feed_service \<Rightarrow> uint \<Rightarrow> ('x, video res) io" where
  "load_entity H T s videoID =
     bindE (FeedRepo_GetByID (fs_feedRepo s) videoID) (\<lambda>v. do {
       _ \<leftarrow> (if fs_redisCache s = None then ret ()
            else case Marshal (json_video H) v of
                Inl _ \<Rightarrow> ret ()
              | Inr bytes \<Rightarrow> rt_go T (do {
                  _ \<leftarrow> SetBytes (fs_redisCache s) (entity_key (fs_redisCache s) (v_ID v)) bytes (3600 * 10 ^ 9);
                  ret ()}));
       ok v})"

definition load_one :: "'x host \<Rightarrow> 'x runtime \<Rightarrow> 'x feed_service \<Rightarrow> uint \<Rightarrow> (uint \<rightharpoonup> video) \<Rightarrow> ('x, uint \<rightharpoonup> video) io" where
  "load_one H T s videoID videoMap = do {
     r \<leftarrow> rt_video T (Key (fs_redisCache s) (''sf:entity:'' @ FormatUint videoID)) (load_entity H T s videoID);
     (case r of
        Inl _ \<Rightarrow> ret videoMap
      | Inr v \<Rightarrow> do {
          _ \<leftarrow> lc_Set (fs_localCache s) (entity_key (fs_redisCache s) (v_ID v)) v (seconds 5);
          ret (videoMap(videoID \<mapsto> v))})}"

fun load_all :: "'x host \<Rightarrow> 'x runtime \<Rightarrow> 'x feed_service \<Rightarrow> uint list \<Rightarrow> (uint \<rightharpoonup> video) \<Rightarrow> ('x, uint \<rightharpoonup> video) io" where
  "load_all H T s [] videoMap = ret videoMap"
| "load_all H T s (i # is) videoMap = do {m \<leftarrow> load_one H T s i videoMap; load_all H T s is m}"

definition GetVideosByIDs :: "'x host \<Rightarrow> 'x runtime \<Rightarrow> 'x feed_service \<Rightarrow> uint list \<Rightarrow> ('x, video list) io" where
  "GetVideosByIDs H T s videoIDs =
     (if videoIDs = [] then ret []
      else do {
        l1 \<leftarrow> lookup_local s videoIDs Map.empty;
        (case l1 of (videoMap, missedL1) \<Rightarrow>
           if missedL1 = [] then ret (buildOrderedResult videoIDs videoMap)
           else do {
             l2 \<leftarrow> lookup_redis H s missedL1 videoMap;
             (case l2 of (videoMap, missedL2) \<Rightarrow>
                if missedL2 = [] then ret (buildOrderedResult videoIDs videoMap)
                else do {
                  videoMap \<leftarrow> load_all H T s (rt_order T missedL2) videoMap;
                  ret (buildOrderedResult videoIDs videoMap)})})})"

section \<open>service.go: ListLatest\<close>

text \<open>\<open>if len(videos) > 0\<close>: the time of the last one, in milliseconds.\<close>

definition next_time :: "video list \<Rightarrow> int" where
  "next_time videos = (if videos = [] then 0 else UnixMilli (v_CreateTime (last videos)))"

definition latest_response :: "'x feed_service \<Rightarrow> int \<Rightarrow> uint \<Rightarrow> video list \<Rightarrow> ('x, list_latest_response res) io" where
  "latest_response s limit accountID videos =
     bindE (buildFeedVideos s videos accountID) (\<lambda>feedVideos.
       ok \<lparr>ll_VideoList = feedVideos, ll_NextTime = next_time videos, ll_HasMore = (int (length videos) = limit)\<rparr>)"

definition timeline_elements :: "video list \<Rightarrow> (int \<times> string) list" where
  "timeline_elements videos = map (\<lambda>v. (UnixMilli (v_CreateTime v), FormatUint (v_ID v))) videos"

definition rebuild_timeline :: "'x feed_service \<Rightarrow> ('x, string res) io" where
  "rebuild_timeline s =
     bindE (FeedRepo_ListLatest (fs_feedRepo s) 1000 time_zero) (\<lambda>videos.
       if videos = [] then ok ''EMPTY_DB''
       else do {
         _ \<leftarrow> ZAdd (fs_redisCache s) (timeline_key (fs_redisCache s)) (timeline_elements videos);
         ok ''SUCCESS''})"

definition cold_latest :: "'x runtime \<Rightarrow> 'x feed_service \<Rightarrow> int \<Rightarrow> int \<Rightarrow> time \<Rightarrow> ('x, video list res) io" where
  "cold_latest T s limit reqTime latestBefore =
     rt_videos T (Key (fs_redisCache s) (''sf:cold:listLatest:'' @ FormatInt limit @ '':'' @ FormatInt reqTime))
       (FeedRepo_ListLatest (fs_feedRepo s) limit latestBefore)"

text \<open>The videos in Redis do not fill the page: the rest comes from the database.\<close>

definition stitch :: "'x runtime \<Rightarrow> 'x feed_service \<Rightarrow> int \<Rightarrow> time \<Rightarrow> video list \<Rightarrow> ('x, video list) io" where
  "stitch T s limit latestBefore baseVideos =
     (if int (length baseVideos) < limit
      then (let remain = limit - int (length baseVideos);
                coldCursor = (if baseVideos = [] then latestBefore else v_CreateTime (last baseVideos)) in do {
        v \<leftarrow> rt_videos T (Key (fs_redisCache s) (''sf:stitch:listLatest:'' @ FormatInt remain @ '':'' @ FormatInt (UnixMilli coldCursor)))
              (FeedRepo_ListLatest (fs_feedRepo s) remain coldCursor);
        (case v of
           Inr coldVideos \<Rightarrow> ret (baseVideos @ coldVideos)
         | Inl _ \<Rightarrow> ret baseVideos)})
      else ret baseVideos)"

definition hot_latest :: "'x host \<Rightarrow> 'x runtime \<Rightarrow> 'x feed_service \<Rightarrow> int \<Rightarrow> int \<Rightarrow> time \<Rightarrow> ('x, video list res) io" where
  "hot_latest H T s limit reqTime latestBefore =
     (let maxScore = (if IsZero latestBefore then ''+inf'' else FormatInt (reqTime - 1)) in
      bindE (ZRevRangeByScore (fs_redisCache s) (timeline_key (fs_redisCache s)) maxScore ''-inf'' 0 limit) (\<lambda>members. do {
        baseVideos \<leftarrow> GetVideosByIDs H T s (List.map_filter ParseUint members);
        videos \<leftarrow> stitch T s limit latestBefore baseVideos;
        ok videos}))"

text \<open>
  \<open>ListLatest\<close> calls itself after it has rebuilt the timeline. The number bounds the calls; \<open>None\<close>
  means that they were not enough.
\<close>

fun ListLatest :: "nat \<Rightarrow> 'x host \<Rightarrow> 'x runtime \<Rightarrow> 'x feed_service \<Rightarrow> int \<Rightarrow> time \<Rightarrow> uint
    \<Rightarrow> ('x, list_latest_response res option) io" where
  "ListLatest 0 H T s limit latestBefore accountID = ret None"
| "ListLatest (Suc n) H T s limit latestBefore accountID =
     (if fs_redisCache s = None
      then do {
        r \<leftarrow> bindE (FeedRepo_ListLatest (fs_feedRepo s) limit latestBefore) (latest_response s limit accountID);
        ret (Some r)}
      else do {
        tail \<leftarrow> ZRangeWithScores (fs_redisCache s) (timeline_key (fs_redisCache s)) 0 0;
        (case tail of
           Inl err \<Rightarrow> ret (Some (Inl err))
         | Inr [] \<Rightarrow> do {
             v \<leftarrow> rt_tag T (Key (fs_redisCache s) ''sf:fallback:global_timeline_rebuild'') (rebuild_timeline s);
             (case v of
                Inl err \<Rightarrow> ret (Some (Inl err))
              | Inr tag \<Rightarrow>
                  if tag = ''EMPTY_DB'' then ret (Some (Inr \<lparr>ll_VideoList = [], ll_NextTime = 0, ll_HasMore = False\<rparr>))
                  else ListLatest n H T s limit latestBefore accountID)}
         | Inr (z # _) \<Rightarrow> do {
             now \<leftarrow> time_Now H;
             (let waterMark = fst z;
                  reqTime = (if IsZero latestBefore then UnixMilli now else UnixMilli latestBefore) in do {
                r \<leftarrow> bindE (if reqTime \<le> waterMark then cold_latest T s limit reqTime latestBefore
                          else hot_latest H T s limit reqTime latestBefore) (latest_response s limit accountID);
                ret (Some r)})})})"

section \<open>service.go: ListLikesCount and ListByTag\<close>

definition FeedService_ListLikesCount :: "'x feed_service \<Rightarrow> int \<Rightarrow> likes_count_cursor option \<Rightarrow> uint
    \<Rightarrow> ('x, list_likes_count_response res) io" where
  "FeedService_ListLikesCount s limit cursor accountID =
     bindE (FeedRepo_ListLikesCount (fs_feedRepo s) limit cursor) (\<lambda>videos.
     bindE (buildFeedVideos s videos accountID) (\<lambda>items.
       ok \<lparr>lk_VideoList = items,
           lk_NextLikesCountBefore = (if videos = [] then None else Some (v_LikesCount (last videos))),
           lk_NextIDBefore = (if videos = [] then None else Some (v_ID (last videos))),
           lk_HasMore = (int (length videos) = limit)\<rparr>))"

definition FeedService_ListByTag :: "'x feed_service \<Rightarrow> string \<Rightarrow> int \<Rightarrow> uint \<Rightarrow> ('x, feed_item list res) io" where
  "FeedService_ListByTag s tagName limit accountID =
     bindE (FeedRepo_ListByTag (fs_feedRepo s) tagName limit) (\<lambda>videos. buildFeedVideos s videos accountID)"

section \<open>service.go: ListByPopularity\<close>

definition minutes :: "int \<Rightarrow> int" where
  "minutes n = n * 60 * 10 ^ 9"

definition merge_key :: "'x cache \<Rightarrow> time \<Rightarrow> string" where
  "merge_key c asOf = Key c (''hot:video:merge:1m:'' @ format_minute asOf)"

definition window_keys :: "'x cache \<Rightarrow> time \<Rightarrow> string list" where
  "window_keys c asOf = map (\<lambda>i. window_key c (asOf - minutes (int i))) [0..<60]"

definition as_of :: "time \<Rightarrow> int \<Rightarrow> time" where
  "as_of now reqAsOf = Truncate_minute (if reqAsOf > 0 then time_Unix reqAsOf else now)"

text \<open>The merged window is made when it is missing; a page of its members is read.\<close>

definition merged_members :: "'x feed_service \<Rightarrow> time \<Rightarrow> int \<Rightarrow> int \<Rightarrow> ('x, string list res) io" where
  "merged_members s asOf offset limit = (let c = fs_redisCache s; dest = merge_key c asOf in do {
     e \<leftarrow> Client_Exists c dest;
     _ \<leftarrow> (if e = Inr True then ret ()
          else do {
            _ \<leftarrow> ZUnionStore c dest (window_keys c asOf) ''SUM'';
            _ \<leftarrow> Client_Expire c dest (minutes 2);
            ret ()});
     ZRevRange c dest offset (offset + limit - 1)})"

definition popularity_response :: "'x feed_service \<Rightarrow> int \<Rightarrow> int \<Rightarrow> (int \<Rightarrow> int) \<Rightarrow> uint \<Rightarrow> video list
    \<Rightarrow> ('x, list_by_popularity_response res) io" where
  "popularity_response s limit asOf offset accountID videos =
     bindE (buildFeedVideos s videos accountID) (\<lambda>items.
       ok \<lparr>lp_VideoList = items, lp_AsOf = asOf, lp_NextOffset = offset (int (length items)),
           lp_HasMore = (int (length items) = limit),
           lp_NextLatestPopularity = (if videos = [] then None else Some (v_Popularity (last videos))),
           lp_NextLatestBefore = (if videos = [] then None else Some (v_CreateTime (last videos))),
           lp_NextLatestIDBefore = (if videos = [] then None else Some (v_ID (last videos)))\<rparr>)"

definition popularity_fallback :: "'x feed_service \<Rightarrow> int \<Rightarrow> uint \<Rightarrow> int \<Rightarrow> time \<Rightarrow> uint
    \<Rightarrow> ('x, list_by_popularity_response res) io" where
  "popularity_fallback s limit accountID latestPopularity latestBefore latestIDBefore =
     bindE (FeedRepo_ListByPopularity (fs_feedRepo s) limit latestPopularity latestBefore latestIDBefore)
       (popularity_response s limit 0 (\<lambda>_. 0) accountID)"

definition FeedService_ListByPopularity :: "'x host \<Rightarrow> 'x feed_service \<Rightarrow> int \<Rightarrow> int \<Rightarrow> int \<Rightarrow> uint \<Rightarrow> int \<Rightarrow> time \<Rightarrow> uint
    \<Rightarrow> ('x, list_by_popularity_response res) io" where
  "FeedService_ListByPopularity H s limit reqAsOf offset accountID latestPopularity latestBefore latestIDBefore =
     (let fallback = popularity_fallback s limit accountID latestPopularity latestBefore latestIDBefore in
      if fs_redisCache s = None then fallback
      else do {
        now \<leftarrow> time_Now H;
        (let asOf = as_of now reqAsOf in do {
          m \<leftarrow> merged_members s asOf offset limit;
          (case m of
             Inl _ \<Rightarrow> fallback
           | Inr members \<Rightarrow>
               if members = [] then
                 (if offset > 0
                  then ok \<lparr>lp_VideoList = [], lp_AsOf = Unix asOf, lp_NextOffset = offset, lp_HasMore = False,
                    lp_NextLatestPopularity = None, lp_NextLatestBefore = None, lp_NextLatestIDBefore = None\<rparr>
                  else fallback)
               else (let ids = filter (\<lambda>i. i > 0) (List.map_filter ParseUint members) in do {
                 r \<leftarrow> GetByIDs (fs_feedRepo s) ids;
                 (case r of
                    Inl _ \<Rightarrow> fallback
                  | Inr videos \<Rightarrow>
                      popularity_response s limit (Unix asOf) (\<lambda>n. offset + n) accountID
                        (buildOrderedResult ids (map_of (rev (map (\<lambda>v. (v_ID v, v)) videos)))))}))})})"

section \<open>service.go: ListByFollowing\<close>

definition doListByFollowingFromDB :: "'x feed_service \<Rightarrow> int \<Rightarrow> time \<Rightarrow> uint \<Rightarrow> ('x, list_by_following_response res) io" where
  "doListByFollowingFromDB s limit latestBefore accountID =
     bindE (FeedRepo_ListByFollowing (fs_feedRepo s) limit accountID latestBefore) (\<lambda>videos.
     bindE (buildFeedVideos s videos accountID) (\<lambda>feedVideos.
       ok \<lparr>lf_VideoList = feedVideos, lf_NextTime = (if videos = [] then 0 else Unix (v_CreateTime (last videos))),
           lf_HasMore = (int (length videos) = limit)\<rparr>))"

definition following_key :: "'x cache \<Rightarrow> int \<Rightarrow> uint \<Rightarrow> time \<Rightarrow> string" where
  "following_key c limit accountID latestBefore =
     Key c (''feed:listByFollowing:limit='' @ FormatInt limit @ '':accountID='' @ FormatUint accountID @
       '':before='' @ FormatInt (if IsZero latestBefore then 0 else Unix latestBefore))"

text \<open>A cached page: \<open>None\<close> when the read failed or the bytes do not decode.\<close>

definition cached_page :: "'x runtime \<Rightarrow> 'x cache \<Rightarrow> string \<Rightarrow> ('x, list_by_following_response option res) io" where
  "cached_page T c cacheKey = bindE (GetBytes c cacheKey) (\<lambda>bytes. ok (Unmarshal (rt_following T) bytes))"

definition cache_page :: "'x runtime \<Rightarrow> 'x feed_service \<Rightarrow> string \<Rightarrow> list_by_following_response \<Rightarrow> ('x, unit) io" where
  "cache_page T s cacheKey resp = (case Marshal (rt_following T) resp of
     Inl _ \<Rightarrow> ret ()
   | Inr b \<Rightarrow> do {_ \<leftarrow> SetBytes (fs_redisCache s) cacheKey b (fs_cacheTTL s); ret ()})"

fun await_page :: "'x runtime \<Rightarrow> 'x cache \<Rightarrow> string \<Rightarrow> nat \<Rightarrow> ('x, list_by_following_response option) io" where
  "await_page T c cacheKey 0 = ret None"
| "await_page T c cacheKey (Suc n) = do {
     _ \<leftarrow> rt_sleep T;
     r \<leftarrow> cached_page T c cacheKey;
     (case r of Inr (Some cached) \<Rightarrow> ret (Some cached) | _ \<Rightarrow> await_page T c cacheKey n)}"

text \<open>
  What the cache, or the holder of the lock, answers: \<open>None\<close> when it goes on to the database. The
  token is there when the lock is held, which the deferred \<open>Unlock\<close> gives back at the end.
\<close>

definition following_cached :: "'x host \<Rightarrow> 'x runtime \<Rightarrow> 'x feed_service \<Rightarrow> int \<Rightarrow> time \<Rightarrow> uint \<Rightarrow> string
    \<Rightarrow> ('x, list_by_following_response res option \<times> string option) io" where
  "following_cached H T s limit latestBefore accountID cacheKey = (let c = fs_redisCache s in do {
     r \<leftarrow> cached_page T c cacheKey;
     (case r of
        Inr (Some cached) \<Rightarrow> ret (Some (Inr cached), None)
      | Inr None \<Rightarrow> ret (None, None)
      | Inl err \<Rightarrow>
          if \<not> IsMiss err then ret (None, None)
          else do {
            l \<leftarrow> Lock H c (''lock:'' @ cacheKey) (500 * 10 ^ 6);
            (case l of (token, locked, _) \<Rightarrow>
               if locked then do {
                 again \<leftarrow> cached_page T c cacheKey;
                 (case again of
                    Inr (Some cached) \<Rightarrow> ret (Some (Inr cached), Some token)
                  | Inr None \<Rightarrow> ret (None, Some token)
                  | Inl _ \<Rightarrow> do {
                      resp \<leftarrow> doListByFollowingFromDB s limit latestBefore accountID;
                      (case resp of
                         Inl e \<Rightarrow> ret (Some (Inl e), Some token)
                       | Inr page \<Rightarrow> do {_ \<leftarrow> cache_page T s cacheKey page; ret (Some (Inr page), Some token)})})}
               else do {
                 p \<leftarrow> await_page T c cacheKey 5;
                 ret (map_option Inr p, None)})})})"

definition FeedService_ListByFollowing :: "'x host \<Rightarrow> 'x runtime \<Rightarrow> 'x feed_service \<Rightarrow> int \<Rightarrow> time \<Rightarrow> uint
    \<Rightarrow> ('x, list_by_following_response res) io" where
  "FeedService_ListByFollowing H T s limit latestBefore accountID = (let c = fs_redisCache s in
     if accountID \<noteq> 0 \<and> c \<noteq> None
     then (let cacheKey = following_key c limit accountID latestBefore in do {
       x \<leftarrow> following_cached H T s limit latestBefore accountID cacheKey;
       resp \<leftarrow> (case fst x of
          Some r \<Rightarrow> ret r
        | None \<Rightarrow> bindE (doListByFollowingFromDB s limit latestBefore accountID) (\<lambda>page. do {
            _ \<leftarrow> cache_page T s cacheKey page;
            ok page}));
       _ \<leftarrow> (case snd x of None \<Rightarrow> ok () | Some token \<Rightarrow> Unlock c (''lock:'' @ cacheKey) token);
       ret resp})
     else doListByFollowingFromDB s limit latestBefore accountID)"

section \<open>handler.go\<close>

text \<open>The bound request is an argument of each handler, its fields in the order of the struct.\<close>

definition page_limit :: "int \<Rightarrow> int" where
  "page_limit n = (if n \<le> 0 \<or> n > 50 then 10 else n)"

definition viewer :: "gin_ctx \<Rightarrow> uint" where
  "viewer c = (case GetAccountID c of Inl _ \<Rightarrow> 0 | Inr i \<Rightarrow> i)"

definition failed :: "go_error \<Rightarrow> 'a reply" where
  "failed e = Fail 500 (error_text e)"

definition FeedHandler_ListLatest :: "nat \<Rightarrow> 'x host \<Rightarrow> 'x runtime \<Rightarrow> 'x feed_service \<Rightarrow> (int \<times> int) res \<Rightarrow> gin_ctx
    \<Rightarrow> ('x, list_latest_response reply option) io" where
  "FeedHandler_ListLatest n H T s req c = (case req of
     Inl err \<Rightarrow> ret (Some (classified err))
   | Inr (limit, latestTime) \<Rightarrow> do {
       r \<leftarrow> ListLatest n H T s (page_limit limit) (if latestTime > 0 then time_UnixMilli latestTime else time_zero) (viewer c);
       ret (map_option (case_sum failed Sent) r)})"

definition parse_likes_cursor :: "int option \<Rightarrow> uint option \<Rightarrow> string + likes_count_cursor option" where
  "parse_likes_cursor likesCountBefore idBefore = (case (likesCountBefore, idBefore) of
     (None, None) \<Rightarrow> Inr None
   | (Some l, Some i) \<Rightarrow>
       if l < 0 then Inl ''invalid cursor: likes_count_before must be >= 0''
       else if i = 0 then (if l \<noteq> 0 then Inl ''invalid cursor: id_before must be > 0'' else Inr None)
       else Inr (Some \<lparr>cu_LikesCount = l, cu_ID = i\<rparr>)
   | _ \<Rightarrow> Inl ''likes_count_before and id_before must be provided together'')"

definition FeedHandler_ListLikesCount :: "'x feed_service \<Rightarrow> (int \<times> int option \<times> uint option) res \<Rightarrow> gin_ctx
    \<Rightarrow> ('x, list_likes_count_response reply) io" where
  "FeedHandler_ListLikesCount s req c = (case req of
     Inl err \<Rightarrow> ret (classified err)
   | Inr (limit, likesCountBefore, idBefore) \<Rightarrow> (case parse_likes_cursor likesCountBefore idBefore of
       Inl msg \<Rightarrow> ret (Fail 400 msg)
     | Inr cursor \<Rightarrow> do {
         r \<leftarrow> FeedService_ListLikesCount s (page_limit limit) cursor (viewer c);
         ret (case_sum failed Sent r)}))"

definition FeedHandler_ListByPopularity :: "'x host \<Rightarrow> 'x feed_service \<Rightarrow> (int \<times> int \<times> int \<times> uint option \<times> int \<times> time) res \<Rightarrow> gin_ctx
    \<Rightarrow> ('x, list_by_popularity_response reply) io" where
  "FeedHandler_ListByPopularity H s req c = (case req of
     Inl err \<Rightarrow> ret (classified err)
   | Inr (limit, asOf, offset, latestIDBefore, latestPopularity, latestBefore) \<Rightarrow>
       if latestPopularity < 0 then ret (Fail 400 ''latest_popularity must be >= 0'')
       else if (\<not> IsZero latestBefore \<or> latestIDBefore \<noteq> None) \<and> (IsZero latestBefore \<or> latestIDBefore = None \<or> latestIDBefore = Some 0)
       then ret (Fail 400 ''latest_before and latest_id_before must be provided together'')
       else do {
         r \<leftarrow> (case latestIDBefore of
            None \<Rightarrow> FeedService_ListByPopularity H s (page_limit limit) asOf offset (viewer c) 0 time_zero 0
          | Some i \<Rightarrow> FeedService_ListByPopularity H s (page_limit limit) asOf offset (viewer c) latestPopularity latestBefore i);
         ret (case_sum failed Sent r)})"

definition FeedHandler_ListByFollowing :: "'x host \<Rightarrow> 'x runtime \<Rightarrow> 'x feed_service \<Rightarrow> (int \<times> int) res \<Rightarrow> gin_ctx
    \<Rightarrow> ('x, list_by_following_response reply) io" where
  "FeedHandler_ListByFollowing H T s req c = (case req of
     Inl err \<Rightarrow> ret (classified err)
   | Inr (limit, latestTime) \<Rightarrow> (case GetAccountID c of
       Inl err \<Rightarrow> ret (Fail 401 (error_text err))
     | Inr accountID \<Rightarrow> do {
         r \<leftarrow> FeedService_ListByFollowing H T s (page_limit limit)
              (if latestTime > 0 then time_Unix latestTime else time_zero) accountID;
         ret (case_sum failed Sent r)}))"

definition FeedHandler_ListByTag :: "'x feed_service \<Rightarrow> (string \<times> int) res \<Rightarrow> gin_ctx \<Rightarrow> ('x, feed_item list reply) io" where
  "FeedHandler_ListByTag s req c = (case req of
     Inl err \<Rightarrow> ret (Fail 400 (error_text err))
   | Inr (tagName, limit) \<Rightarrow>
       if tagName = '''' then ret (Fail 400 ''tag_name is required'')
       else do {
         r \<leftarrow> FeedService_ListByTag s tagName (page_limit limit) (viewer c);
         ret (case_sum classified Sent r)})"

end
