(* ===== verification/FeedEntities.thy ===== *)
theory FeedEntities
  imports Feed Cache
begin

text \<open>
  \<open>GetVideosByIDs\<close>: videos by identifier through the local cache, Redis and the database. Whatever
  the caches do, the answer lists right videos in the order asked for, and none is missing that
  the database has.
\<close>

section \<open>What the parameters promise\<close>

text \<open>The local cache returns what was stored under the key, or nothing once it has expired.\<close>

definition local_set :: "string \<Rightarrow> video \<Rightarrow> 'x world \<Rightarrow> 'x world \<Rightarrow> bool" where
  "local_set k v w w' \<longleftrightarrow> tabs w' = tabs w \<and> rds w' = rds w \<and> rclock w \<le> rclock w' \<and> mq w' = mq w \<and> pubs w' = pubs w \<and>
     mem w' = (mem w)\<lparr>local_videos := (local_videos (mem w))(k \<mapsto> v)\<rparr>"

definition local_ok :: "'x local_cache \<Rightarrow> bool" where
  "local_ok L \<longleftrightarrow>
     (\<forall>k w. wp (lc_Get L k) (\<lambda>r w'. quiet w w' \<and> (\<forall>v. r = Some v \<longrightarrow> local_videos (mem w) k = Some v)) w) \<and>
     (\<forall>k v t w. wp (lc_Set L k v t) (\<lambda>_ w'. local_set k v w w') w)"

text \<open>
  A goroutine that nobody waits for has run or has not yet run; the scheduler runs each goroutine of
  a group once; a lone caller's function runs once.
\<close>

definition runtime_ok :: "'x runtime \<Rightarrow> bool" where
  "runtime_ok T \<longleftrightarrow>
     (\<forall>m Q w. wp m (\<lambda>_. Q) w \<longrightarrow> Q w \<longrightarrow> wp (rt_go T m) (\<lambda>_. Q) w) \<and>
     (\<forall>xs. mset (rt_order T xs) = mset xs) \<and>
     (\<forall>k fn w Q. wp fn Q w \<longrightarrow> wp (rt_video T k fn) Q w) \<and>
     (\<forall>k fn w Q. wp fn Q w \<longrightarrow> wp (rt_videos T k fn) Q w) \<and>
     (\<forall>k fn w Q. wp fn Q w \<longrightarrow> wp (rt_tag T k fn) Q w) \<and>
     (\<forall>w. wp (rt_sleep T) (\<lambda>_ w'. quiet w w') w)"

lemma runtime_okD:
  assumes "runtime_ok T"
  shows wp_rt_go: "wp m (\<lambda>_. R) w \<Longrightarrow> R w \<Longrightarrow> wp (rt_go T m) (\<lambda>_. R) w"
    and set_rt_order: "set (rt_order T xs) = set xs"
    and wp_rt_video: "wp f1 Q1 w \<Longrightarrow> wp (rt_video T k f1) Q1 w"
    and wp_rt_videos: "wp f2 Q2 w \<Longrightarrow> wp (rt_videos T k f2) Q2 w"
    and wp_rt_tag: "wp f3 Q3 w \<Longrightarrow> wp (rt_tag T k f3) Q3 w"
    and wp_rt_sleep: "wp (rt_sleep T) (\<lambda>_ w'. quiet w w') w"
  using assms mset_eq_setD [of "rt_order T xs" xs] by (simp_all add: runtime_ok_def)

section \<open>What is kept\<close>

text \<open>
  \<open>P i\<close> is what is known of the video with identifier \<open>i\<close>; the entries of both caches have it. The
  timeline is not touched.
\<close>

definition entities_ok :: "'x host \<Rightarrow> 'x cache \<Rightarrow> (uint \<Rightarrow> video \<Rightarrow> bool) \<Rightarrow> 'x world \<Rightarrow> bool" where
  "entities_ok H c P w \<longleftrightarrow> (\<forall>i v.
     (local_videos (mem w) (entity_key c i) = Some v \<longrightarrow> P i v) \<and>
     (\<forall>b e. rds w (entity_key c i) = Some (RStr b, e) \<longrightarrow> Unmarshal (json_video H) b = Some v \<longrightarrow> P i v))"

definition entities_kept :: "'x host \<Rightarrow> 'x cache \<Rightarrow> (uint \<Rightarrow> video \<Rightarrow> bool) \<Rightarrow> 'x world \<Rightarrow> 'x world \<Rightarrow> bool" where
  "entities_kept H c P w0 w \<longleftrightarrow> entities_ok H c P w \<and> tabs w = tabs w0 \<and> mq w = mq w0 \<and>
     rds w (timeline_key c) = rds w0 (timeline_key c)"

definition entity_codec :: "'x host \<Rightarrow> (uint \<Rightarrow> video \<Rightarrow> bool) \<Rightarrow> bool" where
  "entity_codec H P \<longleftrightarrow> (\<forall>i v b v'. P i v \<longrightarrow> Marshal (json_video H) v = Inr b \<longrightarrow> Unmarshal (json_video H) b = Some v' \<longrightarrow> P i v')"

definition map_ok :: "(uint \<Rightarrow> video \<Rightarrow> bool) \<Rightarrow> (uint \<rightharpoonup> video) \<Rightarrow> bool" where
  "map_ok P m \<longleftrightarrow> (\<forall>i v. m i = Some v \<longrightarrow> P i v)"

lemma entity_key_inj [simp]: "entity_key c i = entity_key c j \<longleftrightarrow> i = j"
  by (auto simp: entity_key_def Key_def dest: FormatUint_inj)

lemma entity_key_timeline [simp]: "entity_key c i \<noteq> timeline_key c" "timeline_key c \<noteq> entity_key c i"
  by (simp_all add: entity_key_def timeline_key_def Key_def)

lemma entities_kept_quiet: "entities_kept H c P w0 w \<Longrightarrow> quiet w w' \<Longrightarrow> entities_kept H c P w0 w'"
  by (simp add: entities_kept_def entities_ok_def frame_defs)

lemma entities_kept_local:
  "entities_kept H c P w0 w \<Longrightarrow> local_set (entity_key c i) v w w' \<Longrightarrow> P i v \<Longrightarrow> entities_kept H c P w0 w'"
  by (auto simp: entities_kept_def entities_ok_def local_set_def)

lemma map_ok_upd [simp]: "map_ok P m \<Longrightarrow> P i v \<Longrightarrow> map_ok P (m(i \<mapsto> v))"
  by (simp add: map_ok_def)

section \<open>The three levels\<close>

text \<open>After a level, each identifier is found rightly or still missed.\<close>

definition level_post :: "'x host \<Rightarrow> 'x cache \<Rightarrow> (uint \<Rightarrow> video \<Rightarrow> bool) \<Rightarrow> 'x world \<Rightarrow> uint set \<Rightarrow> (uint \<rightharpoonup> video)
    \<Rightarrow> (uint \<rightharpoonup> video) \<times> uint list \<Rightarrow> 'x world \<Rightarrow> bool" where
  "level_post H c P w0 is m r w' \<longleftrightarrow> entities_kept H c P w0 w' \<and> map_ok P (fst r) \<and> dom m \<subseteq> dom (fst r) \<and>
     is \<subseteq> dom (fst r) \<union> set (snd r) \<and> set (snd r) \<subseteq> is"

lemma level_post_found: "level_post H c P w0 A (m(i \<mapsto> v)) r w' \<Longrightarrow> level_post H c P w0 (insert i A) m r w'"
proof -
  have "dom (m(i \<mapsto> v)) = insert i (dom m)" by simp
  then show "level_post H c P w0 A (m(i \<mapsto> v)) r w' \<Longrightarrow> ?thesis" unfolding level_post_def by blast
qed

lemma lookup_local_post:
  assumes L: "local_ok (fs_localCache s)" and c: "c = fs_redisCache s" and "entities_kept H c P w0 w" "map_ok P m"
  shows "wp (lookup_local s is m) (level_post H c P w0 (set is) m) w"
  using assms(3,4)
proof (induction "is" arbitrary: m w)
  case Nil
  then show ?case by (simp add: wp_return level_post_def)
next
  case (Cons i "is")
  have get: "wp (lc_Get (fs_localCache s) (entity_key c i)) (\<lambda>r w'. quiet w w' \<and> (\<forall>v. r = Some v \<longrightarrow> local_videos (mem w) (entity_key c i) = Some v)) w"
    using L by (simp add: local_ok_def)
  show ?case
    unfolding lookup_local.simps c [symmetric] wp_bind
  proof (rule wp_mono [OF get], goal_cases)
    case (1 r w1)
    then have kept: "entities_kept H c P w0 w1" using Cons.prems entities_kept_quiet by blast
    show ?case
    proof (cases r)
      case None
      show ?thesis unfolding None option.case wp_bind wp_return
        by (rule wp_mono [OF Cons.IH [OF kept Cons.prems(2)]]) (auto simp: level_post_def)
    next
      case (Some v)
      with 1 Cons.prems have "P i v" by (simp add: entities_kept_def entities_ok_def)
      with Cons.prems have m: "map_ok P (m(i \<mapsto> v))" by simp
      show ?thesis unfolding Some option.case
        by (rule wp_mono [OF Cons.IH [OF kept m]]) (unfold list.set, rule level_post_found)
    qed
  qed
qed

lemma use_redis_post:
  assumes L: "local_ok (fs_localCache s)" and c: "c = fs_redisCache s" and "entities_kept H c P w0 w" "map_ok P m"
    and "\<forall>(i, res) \<in> set rs. \<forall>b v. res = Some b \<longrightarrow> Unmarshal (json_video H) b = Some v \<longrightarrow> P i v"
  shows "wp (use_redis H s rs m) (level_post H c P w0 (fst ` set rs) m) w"
  using assms(3-)
proof (induction rs arbitrary: m w)
  case Nil
  then show ?case by (simp add: wp_return level_post_def)
next
  case (Cons x rs)
  obtain i res where x: "x = (i, res)" by (cases x)
  from Cons.prems(3) have rs: "\<forall>(i, res) \<in> set rs. \<forall>b v. res = Some b \<longrightarrow> Unmarshal (json_video H) b = Some v \<longrightarrow> P i v" by auto
  show ?case
  proof (cases "Option.bind res (Unmarshal (json_video H))")
    case None
    show ?thesis unfolding x use_redis.simps None option.case wp_bind wp_return
      by (rule wp_mono [OF Cons.IH [OF Cons.prems(1,2) rs]]) (auto simp: level_post_def)
  next
    case (Some v)
    with Cons.prems(3) x have v: "P i v" by (cases res) auto
    have set: "wp (lc_Set (fs_localCache s) (entity_key c i) v t) (\<lambda>_ w'. entities_kept H c P w0 w') w" for t
    proof -
      have "wp (lc_Set (fs_localCache s) (entity_key c i) v t) (\<lambda>_ w'. local_set (entity_key c i) v w w') w"
        using L by (simp add: local_ok_def)
      then show ?thesis by (rule wp_mono) (use Cons.prems(1) v in \<open>auto intro: entities_kept_local\<close>)
    qed
    have m: "map_ok P (m(i \<mapsto> v))" using Cons.prems(2) v by simp
    show ?thesis unfolding x use_redis.simps Some option.case c [symmetric] wp_bind
      by (rule wp_mono [OF set], rule wp_mono [OF Cons.IH [OF _ m rs]])
        (assumption, unfold list.set image_insert fst_conv, rule level_post_found)
  qed
qed

lemma lookup_redis_post:
  assumes L: "local_ok (fs_localCache s)" and c: "c = fs_redisCache s" and R: "cache_redis_ok c"
    and k: "entities_kept H c P w0 w" "map_ok P m"
  shows "wp (lookup_redis H s is m) (level_post H c P w0 (set is) m) w"
proof (cases "rdb_of c")
  case None
  with k show ?thesis
    by (auto simp: lookup_redis_def MGet_def wp_return wp_bind c [symmetric] level_post_def split: option.splits)
next
  case (Some r)
  let ?keys = "map (entity_key c) is"
  have call: "call_ok (cmd_mget ?keys) (rdb_MGet r ?keys)" using R Some by (simp add: cache_redis_ok_def redis_ok_def)
  have mget: "wp (rdb_MGet r ?keys) (\<lambda>res w'. entities_kept H c P w0 w' \<and> (\<forall>rs. res = Inr rs \<longrightarrow> length rs = length is \<and>
      (\<forall>(i, res) \<in> set (zip is rs). \<forall>b v. res = Some b \<longrightarrow> Unmarshal (json_video H) b = Some v \<longrightarrow> P i v))) w"
  proof (rule wp_call [OF call])
    fix res w' assume "call_post (cmd_mget ?keys) w res w'"
    then obtain t where t: "tabs w' = tabs w" "mq w' = mq w" "mem w' = mem w" "rds w' = rds w"
        "\<And>a. res = Inr a \<Longrightarrow> a = map (\<lambda>k. case live t (rds w) k of Some (RStr s) \<Rightarrow> Some s | _ \<Rightarrow> None) ?keys"
      by (auto simp: call_post_def redis_frame_def cmd_mget_def)
    from t k have "entities_kept H c P w0 w'" by (simp add: entities_kept_def entities_ok_def)
    moreover have "P i v" if "(case live t (rds w) (entity_key c i) of Some (RStr s) \<Rightarrow> Some s | _ \<Rightarrow> None) = Some b"
        "Unmarshal (json_video H) b = Some v" for i b v
      using that k(1) by (auto simp: entities_kept_def entities_ok_def live_def split: option.splits prod.splits if_splits redis_val.splits)
    ultimately show "entities_kept H c P w0 w' \<and> (\<forall>rs. res = Inr rs \<longrightarrow> length rs = length is \<and>
      (\<forall>(i, res) \<in> set (zip is rs). \<forall>b v. res = Some b \<longrightarrow> Unmarshal (json_video H) b = Some v \<longrightarrow> P i v))"
      using t(5) by (auto simp: in_set_zip)
  qed
  have use: "wp (use_redis H s (zip is rs) m) (level_post H c P w0 (set is) m) w1"
    if "entities_kept H c P w0 w1" "length rs = length is"
      "\<forall>(i, res) \<in> set (zip is rs). \<forall>b v. res = Some b \<longrightarrow> Unmarshal (json_video H) b = Some v \<longrightarrow> P i v" for rs w1
  proof -
    have "fst ` set (zip is rs) = set is" using that(2) by (metis map_fst_zip set_map)
    with use_redis_post [OF L c that(1) k(2) that(3)] show ?thesis by simp
  qed
  have "c \<noteq> None" using Some by (cases c) (simp_all add: rdb_of_def)
  then show ?thesis
    unfolding lookup_redis_def c [symmetric] MGet_def Some option.case if_not_P [OF \<open>c \<noteq> None\<close>] wp_bind
    by (intro wp_mono [OF mget]) (use k use in \<open>auto simp: wp_return level_post_def [of H c P w0 "set is" m "(m, is)"] split: sum.splits\<close>)
qed

text \<open>The database answers a lookup of a video it has.\<close>

definition finds :: "'x gorm \<Rightarrow> bool" where
  "finds G \<longleftrightarrow> (\<forall>i w. has_video i (tabs w) \<longrightarrow> wp (FeedRepo_GetByID G i) (\<lambda>r _. \<exists>v. r = Inr v) w)"

definition rows_ok :: "(uint \<Rightarrow> video \<Rightarrow> bool) \<Rightarrow> tables \<Rightarrow> bool" where
  "rows_ok P t \<longleftrightarrow> (\<forall>v \<in> set (t_videos t). P (v_ID v) v)"

definition feed_ok :: "'x feed_service \<Rightarrow> bool" where
  "feed_ok s \<longleftrightarrow> gorm_ok (fs_feedRepo s) \<and> gorm_ok (fs_likeRepo s) \<and> cache_redis_ok (fs_redisCache s) \<and> local_ok (fs_localCache s)"

lemma GetByID_post:
  assumes "gorm_ok G" "rows_ok P (tabs w0)" "entities_kept H c P w0 w"
  shows "wp (FeedRepo_GetByID G i) (\<lambda>r w'. entities_kept H c P w0 w' \<and> (\<forall>v. r = Inr v \<longrightarrow> v_ID v = i \<and> P i v) \<and>
    (finds G \<and> has_video i (tabs w0) \<longrightarrow> (\<exists>v. r = Inr v))) w"
proof -
  have t: "tabs w = tabs w0" using assms(3) by (simp add: entities_kept_def)
  have "wp (FeedRepo_GetByID G i) (\<lambda>r w'. entities_kept H c P w0 w' \<and> (\<forall>v. r = Inr v \<longrightarrow> v_ID v = i \<and> P i v)) w"
    unfolding FeedRepo_GetByID_def
    by (rule wp_first [OF videos_ok [OF assms(1)]]) (use assms t in \<open>auto simp: rows_ok_def dest: entities_kept_quiet\<close>)
  moreover have "wp (FeedRepo_GetByID G i) (\<lambda>r _. finds G \<and> has_video i (tabs w0) \<longrightarrow> (\<exists>v. r = Inr v)) w"
    using t by (auto simp: finds_def wp_def split: prod.splits)
  ultimately show ?thesis by (auto simp: wp_def split: prod.splits)
qed

lemma SetBytes_entity:
  assumes "cache_redis_ok c" "entity_codec H P" "entities_kept H c P w0 w" "P i v" "Marshal (json_video H) v = Inr b"
  shows "wp (SetBytes c (entity_key c i) b ttl) (\<lambda>_ w'. entities_kept H c P w0 w') w"
proof -
  have new: "entities_kept H c P w0 w'" if "redis_frame w w'" "rds w' = (rds w)(entity_key c i \<mapsto> (RStr b, x))" for w' x
    using that assms(2-5) by (auto simp: entities_kept_def entities_ok_def entity_codec_def redis_frame_def)
  have old: "entities_kept H c P w0 w'" if "redis_frame w w'" "rds w' = rds w" for w'
    using that assms(3) by (auto simp: entities_kept_def entities_ok_def redis_frame_def)
  show ?thesis by (rule wp_SetBytes [OF assms(1)]) (use new old in auto)
qed

lemma load_entity_post:
  assumes T: "runtime_ok T" and s: "feed_ok s" and c: "c = fs_redisCache s" and codec: "entity_codec H P" and rows: "rows_ok P (tabs w0)"
    and k: "entities_kept H c P w0 w"
  shows "wp (load_entity H T s i) (\<lambda>r w'. entities_kept H c P w0 w' \<and> (\<forall>v. r = Inr v \<longrightarrow> v_ID v = i \<and> P i v) \<and>
    (finds (fs_feedRepo s) \<and> has_video i (tabs w0) \<longrightarrow> (\<exists>v. r = Inr v))) w"
proof -
  have ok: "gorm_ok (fs_feedRepo s)" "cache_redis_ok c" using s by (simp_all add: feed_ok_def c)
  have writeback: "wp (if c = None then ret () else case Marshal (json_video H) v of Inl _ \<Rightarrow> ret ()
      | Inr bytes \<Rightarrow> rt_go T (do {_ \<leftarrow> SetBytes c (entity_key c (v_ID v)) bytes (3600 * 10 ^ 9); ret ()}))
      (\<lambda>_. entities_kept H c P w0) w1" if k1: "entities_kept H c P w0 w1" and v1: "P (v_ID v) v" for v w1
  proof (cases "c = None")
    case True
    with that show ?thesis by (simp add: wp_return)
  next
    case False
    have "wp (rt_go T (do {_ \<leftarrow> SetBytes c (entity_key c (v_ID v)) b ttl; ret ()})) (\<lambda>_. entities_kept H c P w0) w1"
      if b: "Marshal (json_video H) v = Inr b" for b ttl
      by (rule wp_rt_go [OF T]) (use SetBytes_entity [OF ok(2) codec k1 v1 b] k1 in \<open>simp_all add: wp_simps\<close>)
    with that show ?thesis unfolding if_not_P [OF False] by (cases "Marshal (json_video H) v") (simp_all add: wp_return)
  qed
  show ?thesis
    unfolding load_entity_def c [symmetric] wp_bindE
  proof (rule wp_mono [OF GetByID_post [OF ok(1) rows k, of i]], goal_cases)
    case (1 r w1)
    show ?case
    proof (cases r)
      case (Inl e)
      with 1 show ?thesis by simp
    next
      case (Inr v)
      with 1 have v: "entities_kept H c P w0 w1" "v_ID v = i" "P (v_ID v) v" by auto
      show ?thesis unfolding Inr sum.case wp_bind wp_return
        by (rule wp_mono [OF writeback [OF v(1,3)]]) (use v in auto)
    qed
  qed
qed

lemma load_one_post:
  assumes T: "runtime_ok T" and s: "feed_ok s" and c: "c = fs_redisCache s" and codec: "entity_codec H P" and rows: "rows_ok P (tabs w0)"
    and k: "entities_kept H c P w0 w" "map_ok P m"
  shows "wp (load_one H T s i m) (\<lambda>m' w'. entities_kept H c P w0 w' \<and> map_ok P m' \<and> dom m \<subseteq> dom m' \<and>
    (finds (fs_feedRepo s) \<and> has_video i (tabs w0) \<longrightarrow> i \<in> dom m')) w"
proof -
  have set: "wp (lc_Set (fs_localCache s) (entity_key c j) v t) (\<lambda>_ w'. entities_kept H c P w0 w') w1"
    if "entities_kept H c P w0 w1" "P j v" for j v t w1
  proof -
    have "wp (lc_Set (fs_localCache s) (entity_key c j) v t) (\<lambda>_ w'. local_set (entity_key c j) v w1 w') w1"
      using s by (simp add: feed_ok_def local_ok_def)
    then show ?thesis by (rule wp_mono) (use that in \<open>auto intro: entities_kept_local\<close>)
  qed
  show ?thesis
    unfolding load_one_def c [symmetric] wp_bind
  proof (rule wp_mono [OF wp_rt_video [OF T load_entity_post [OF T s c codec rows k(1), of i]]], goal_cases)
    case (1 r w1)
    show ?case
    proof (cases r)
      case (Inl e)
      with 1 k show ?thesis by (simp add: wp_return) blast
    next
      case (Inr v)
      with 1 have v: "entities_kept H c P w0 w1" "v_ID v = i" "P i v" by auto
      show ?thesis unfolding Inr sum.case wp_bind wp_return v(2)
        by (rule wp_mono [OF set [OF v(1,3)]]) (use v(3) k(2) in \<open>auto simp: map_ok_def\<close>)
    qed
  qed
qed

lemma load_all_post:
  assumes T: "runtime_ok T" and s: "feed_ok s" and c: "c = fs_redisCache s" and codec: "entity_codec H P" and rows: "rows_ok P (tabs w0)"
    and "entities_kept H c P w0 w" "map_ok P m"
  shows "wp (load_all H T s is m) (\<lambda>m' w'. entities_kept H c P w0 w' \<and> map_ok P m' \<and> dom m \<subseteq> dom m' \<and>
    (finds (fs_feedRepo s) \<longrightarrow> {i \<in> set is. has_video i (tabs w0)} \<subseteq> dom m')) w"
  using assms(6,7)
proof (induction "is" arbitrary: m w)
  case Nil
  then show ?case by (simp add: wp_return)
next
  case (Cons i "is")
  show ?case unfolding load_all.simps wp_bind
  proof (rule wp_mono [OF load_one_post [OF T s c codec rows Cons.prems, of i]], goal_cases)
    case (1 m1 w1)
    then have m1: "entities_kept H c P w0 w1" "map_ok P m1" by auto
    show ?case by (rule wp_mono [OF Cons.IH [OF m1]]) (use 1 in \<open>simp, blast\<close>)
  qed
qed

section \<open>The whole call\<close>

lemma buildOrderedResult_ok:
  assumes "map_ok P m"
  shows "\<exists>ids'. subseq ids' ids \<and> list_all2 P ids' (buildOrderedResult ids m)"
    and "set ids \<subseteq> dom m \<Longrightarrow> list_all2 P ids (buildOrderedResult ids m)"
proof -
  show "\<exists>ids'. subseq ids' ids \<and> list_all2 P ids' (buildOrderedResult ids m)"
  proof (induction ids)
    case (Cons i ids)
    then obtain ids' where "subseq ids' ids" "list_all2 P ids' (buildOrderedResult ids m)" by blast
    then show ?case
      using assms by (cases "m i") (auto simp: buildOrderedResult_def List.map_filter_def map_ok_def intro: exI [of _ ids'] exI [of _ "i # ids'"])
  qed (simp add: buildOrderedResult_def List.map_filter_def)
  show "set ids \<subseteq> dom m \<Longrightarrow> list_all2 P ids (buildOrderedResult ids m)"
    using assms by (induction ids) (auto simp: buildOrderedResult_def List.map_filter_def map_ok_def)
qed

definition found_post :: "'x gorm \<Rightarrow> (uint \<Rightarrow> video \<Rightarrow> bool) \<Rightarrow> tables \<Rightarrow> uint list \<Rightarrow> video list \<Rightarrow> bool" where
  "found_post G P t ids out \<longleftrightarrow> (\<exists>ids'. subseq ids' ids \<and> list_all2 P ids' out) \<and>
     (finds G \<and> (\<forall>i \<in> set ids. has_video i t) \<longrightarrow> list_all2 P ids out)"

lemma found_postI: "map_ok P m \<Longrightarrow> (finds G \<and> (\<forall>i \<in> set ids. has_video i t) \<Longrightarrow> set ids \<subseteq> dom m) \<Longrightarrow>
    found_post G P t ids (buildOrderedResult ids m)"
  unfolding found_post_def using buildOrderedResult_ok [of P m ids] by blast

lemma GetVideosByIDs_post:
  assumes T: "runtime_ok T" and s: "feed_ok s" and c: "c = fs_redisCache s" and codec: "entity_codec H P" and rows: "rows_ok P (tabs w0)"
    and k: "entities_kept H c P w0 w"
  shows "wp (GetVideosByIDs H T s ids) (\<lambda>out w'. entities_kept H c P w0 w' \<and> found_post (fs_feedRepo s) P (tabs w0) ids out) w"
proof (cases "ids = []")
  case True
  with k show ?thesis by (simp add: GetVideosByIDs_def wp_return found_post_def)
next
  case False
  let ?Q = "\<lambda>out w'. entities_kept H c P w0 w' \<and> found_post (fs_feedRepo s) P (tabs w0) ids out"
  note ok = s [unfolded feed_ok_def, folded c]
  have L: "local_ok (fs_localCache s)" and R: "cache_redis_ok c" using ok by auto
  have three: "wp (do {m \<leftarrow> load_all H T s (rt_order T missed) m; ret (buildOrderedResult ids m)}) ?Q w2"
    if "entities_kept H c P w0 w2" "map_ok P m" "set ids \<subseteq> dom m \<union> set missed" for m missed w2
    unfolding wp_bind wp_return
    by (rule wp_mono [OF load_all_post [OF T s c codec rows that(1,2)]])
      (use that(3) in \<open>simp add: set_rt_order [OF T], intro conjI found_postI; blast\<close>)
  have two: "wp (do {l2 \<leftarrow> lookup_redis H s missed m; (case l2 of (m, missed) \<Rightarrow> if missed = [] then ret (buildOrderedResult ids m)
      else do {m \<leftarrow> load_all H T s (rt_order T missed) m; ret (buildOrderedResult ids m)})}) ?Q w1"
    if "entities_kept H c P w0 w1" "map_ok P m" "set ids \<subseteq> dom m \<union> set missed" for m missed w1
    unfolding wp_bind [of "lookup_redis H s missed m"]
  proof (rule wp_mono [OF lookup_redis_post [OF L c R that(1,2)]], goal_cases)
    case (1 l2 w2)
    obtain m2 missed2 where l2: "l2 = (m2, missed2)" by (cases l2)
    with 1 that(3) have post: "entities_kept H c P w0 w2" "map_ok P m2" "set ids \<subseteq> dom m2 \<union> set missed2"
      by (simp_all add: level_post_def) blast
    then show ?case by (cases "missed2 = []") (auto simp: l2 wp_return three intro: found_postI)
  qed
  show ?thesis
    unfolding GetVideosByIDs_def if_not_P [OF False] wp_bind [of "lookup_local s ids Map.empty"]
  proof (rule wp_mono [OF lookup_local_post [OF L c k]], goal_cases)
    case (2 l1 w1)
    obtain m1 missed1 where l1: "l1 = (m1, missed1)" by (cases l1)
    with 2 have post: "entities_kept H c P w0 w1" "map_ok P m1" "set ids \<subseteq> dom m1 \<union> set missed1"
      by (simp_all add: level_post_def)
    then show ?case by (cases "missed1 = []") (auto simp: l1 wp_return two intro: found_postI)
  qed (simp add: map_ok_def)
qed


end
