(* ===== verification/FeedPages.thy ===== *)
theory FeedPages
  imports Feed
begin

text \<open>
  The paged feeds keep their promise: a client that follows the cursors of the handlers gets every
  video once, in order, whether by likes, by popularity (when Redis is not in use) or by time.
\<close>

section \<open>The items of a page\<close>

text \<open>An item shows its video as the row has it, and says rightly whether the viewer likes it.\<close>

definition shows_video :: "uint \<Rightarrow> tables \<Rightarrow> feed_item \<Rightarrow> video \<Rightarrow> bool" where
  "shows_video accountID t item v \<longleftrightarrow> item = make_feed_item (\<lambda>i. accountID \<noteq> 0 \<and> has_like i accountID t) v"

lemma query_result_all:
  assumes "query_result P ord no_limit rs out"
  shows "set out = {x \<in> set rs. P x}"
proof -
  from assms have "mset out = mset (filter P rs)" by (auto simp: query_result_def limit_rows_def)
  from mset_eq_setD [OF this] show ?thesis by simp
qed

lemma wp_GetBatchLiked:
  assumes "gorm_ok db"
  shows "wp (GetBatchLiked db ids a) (\<lambda>r w'. quiet w w' \<and>
    (\<forall>liked. r = Inr liked \<longrightarrow> (\<forall>i \<in> set ids. liked i \<longleftrightarrow> a \<noteq> 0 \<and> has_like i a (tabs w)))) w"
proof -
  have "wp (db_find (db_likes db) (\<lambda>l. l_VideoID l \<in> set ids \<and> l_AccountID l = a) no_order no_limit)
      (\<lambda>r w'. quiet w w' \<and> (\<forall>out. r = Inr out \<longrightarrow> set out = {l \<in> set (t_likes (tabs w)). l_VideoID l \<in> set ids \<and> l_AccountID l = a})) w"
    by (rule wp_find [OF likes_ok [OF assms]]) (auto dest: query_result_all)
  then have find: "wp (bindE (db_find (db_likes db) (\<lambda>l. l_VideoID l \<in> set ids \<and> l_AccountID l = a) no_order no_limit)
        (\<lambda>likes. ok (\<lambda>i. i \<in> l_VideoID ` set likes)))
      (\<lambda>r w'. quiet w w' \<and> (\<forall>liked. r = Inr liked \<longrightarrow> (\<forall>i \<in> set ids. liked i \<longleftrightarrow> has_like i a (tabs w)))) w"
    unfolding wp_bindE
  proof (rule wp_mono, goal_cases)
    case (1 r w')
    show ?case
    proof (cases r)
      case (Inl e)
      with 1 show ?thesis by (simp add: wp_return)
    next
      case (Inr likes)
      with 1 have q: "quiet w w'" and s: "set likes = {l \<in> set (t_likes (tabs w)). l_VideoID l \<in> set ids \<and> l_AccountID l = a}" by auto
      have "i \<in> l_VideoID ` set likes \<longleftrightarrow> has_like i a (tabs w)" if "i \<in> set ids" for i
        unfolding s has_like_def is_like_def using that by auto
      with q Inr show ?thesis by (simp add: wp_return)
    qed
  qed
  show ?thesis
  proof (cases "ids = [] \<or> a = 0")
    case True
    then show ?thesis by (auto simp: GetBatchLiked_def wp_return frame_defs)
  next
    case False
    then have "GetBatchLiked db ids a = bindE (db_find (db_likes db) (\<lambda>l. l_VideoID l \<in> set ids \<and> l_AccountID l = a) no_order no_limit)
        (\<lambda>likes. ok (\<lambda>i. i \<in> l_VideoID ` set likes))" by (simp add: GetBatchLiked_def)
    with find False show ?thesis by simp
  qed
qed

lemma wp_buildFeedVideos:
  assumes "gorm_ok (fs_likeRepo s)"
  shows "wp (buildFeedVideos s videos a) (\<lambda>r w'. quiet w w' \<and>
    (\<forall>items. r = Inr items \<longrightarrow> list_all2 (shows_video a (tabs w)) items videos)) w"
  unfolding buildFeedVideos_def wp_bindE
  by (rule wp_mono [OF wp_GetBatchLiked [OF assms]])
    (auto simp: wp_return list_all2_conv_all_nth shows_video_def make_feed_item_def split: sum.splits)

section \<open>By likes\<close>

type_synonym 'x feed_env = "'x feed_service \<times> gin_ctx \<times> int"

definition feed_env_ok :: "'x feed_env \<Rightarrow> bool" where
  "feed_env_ok E \<longleftrightarrow> gorm_ok (fs_feedRepo (fst E)) \<and> gorm_ok (fs_likeRepo (fst E))"

definition env_limit :: "'x feed_env \<Rightarrow> int" where
  "env_limit E = page_limit (snd (snd E))"

definition env_rows :: "'x feed_env \<Rightarrow> tables \<Rightarrow> video list" where
  "env_rows E t = t_videos t"

definition env_shows :: "'x feed_env \<Rightarrow> tables \<Rightarrow> feed_item \<Rightarrow> video \<Rightarrow> bool" where
  "env_shows E t = shows_video (viewer (fst (snd E))) t"

text \<open>What a client reads from an answer, and the cursor it sends with its next request.\<close>

definition answer :: "'a reply \<Rightarrow> 'a res" where
  "answer r = (case r of Sent a \<Rightarrow> Inr a | Fail n msg \<Rightarrow> Inl (ErrNew msg))"

definition likes_fetch :: "'x feed_env \<Rightarrow> ('x, int \<times> uint, feed_item) fetch" where
  "likes_fetch E c = (case E of (s, ctx, lim) \<Rightarrow> do {
     r \<leftarrow> FeedHandler_ListLikesCount s (Inr (lim, map_option fst c, map_option snd c)) ctx;
     ret (map_sum id (\<lambda>p. (lk_VideoList p,
       (case (lk_NextLikesCountBefore p, lk_NextIDBefore p) of (Some l, Some i) \<Rightarrow> Some (l, i) | _ \<Rightarrow> None),
       lk_HasMore p)) (answer r))})"

definition likes_key :: "video \<Rightarrow> int \<times> uint" where
  "likes_key v = (v_LikesCount v, v_ID v)"

definition likes_fine :: "'x feed_env \<Rightarrow> 'x world \<Rightarrow> bool" where
  "likes_fine E w \<longleftrightarrow> table_wf video_schema (t_videos (tabs w)) \<and> (\<forall>v \<in> set (t_videos (tabs w)). 0 \<le> v_LikesCount v)"

lemma page_limit_pos: "0 < page_limit n"
  by (simp add: page_limit_def)

lemma video_id_pos: "table_wf video_schema rs \<Longrightarrow> v \<in> set rs \<Longrightarrow> 0 < v_ID v"
  by (auto simp: table_wf_def schema_defs)

lemma video_id_inj: "table_wf video_schema rs \<Longrightarrow> inj_on v_ID (set rs)"
  using table_wf_inj [of video_schema rs] by (simp add: schema_defs)

lemma wp_ListLikesCount:
  assumes "gorm_ok (fs_feedRepo s)" "gorm_ok (fs_likeRepo s)" "0 < lim"
  shows "wp (FeedService_ListLikesCount s lim (map_option (\<lambda>k. \<lparr>cu_LikesCount = fst k, cu_ID = snd k\<rparr>) c) a)
    (\<lambda>r w'. quiet w w' \<and> (\<forall>p. r = Inr p \<longrightarrow> (\<exists>out. is_page likes_key (t_videos (tabs w)) lim c out \<and>
      list_all2 (shows_video a (tabs w)) (lk_VideoList p) out \<and>
      lk_NextLikesCountBefore p = (if out = [] then None else Some (v_LikesCount (last out))) \<and>
      lk_NextIDBefore p = (if out = [] then None else Some (v_ID (last out))) \<and> lk_HasMore p = (int (length out) = lim)))) w"
proof -
  have P: "(\<lambda>v. case map_option (\<lambda>k. \<lparr>cu_LikesCount = fst k, cu_ID = snd k\<rparr>) c of None \<Rightarrow> True
         | Some c \<Rightarrow> v_LikesCount v < cu_LikesCount c \<or> v_LikesCount v = cu_LikesCount c \<and> v_ID v < cu_ID c) = (\<lambda>v. after c (likes_key v))"
    by (auto simp: after_def likes_key_def less_prod_def split: option.splits)
  have O: "(\<lambda>a b. v_LikesCount b < v_LikesCount a \<or> v_LikesCount b = v_LikesCount a \<and> v_ID b \<le> v_ID a) = (\<lambda>a b. likes_key b \<le> likes_key a)"
    by (auto simp: likes_key_def less_eq_prod_def fun_eq_iff)
  have items: "wp (buildFeedVideos s out a) (\<lambda>r w'. quiet w w' \<and> (\<forall>items. r = Inr items \<longrightarrow> list_all2 (shows_video a (tabs w)) items out)) w1"
    if "quiet w w1" for out w1
    by (rule wp_mono [OF wp_buildFeedVideos [OF assms(2)]]) (use that in \<open>auto simp: frame_defs\<close>)
  show ?thesis
    unfolding FeedService_ListLikesCount_def FeedRepo_ListLikesCount_def P O wp_bindE
    by (rule wp_find [OF videos_ok [OF assms(1)]])
      (use assms(3) in \<open>auto simp: wp_bindE wp_return is_page_def intro!: wp_mono [OF items] split: sum.splits\<close>)
qed

lemma parse_likes_cursor_key:
  assumes "likes_fine E w" "c = None \<or> (\<exists>x \<in> set (t_videos (tabs w)). c = Some (likes_key x))"
  shows "parse_likes_cursor (map_option fst c) (map_option snd c) = Inr (map_option (\<lambda>k. \<lparr>cu_LikesCount = fst k, cu_ID = snd k\<rparr>) c)"
  using assms by (auto simp: parse_likes_cursor_def likes_fine_def likes_key_def not_less dest: video_id_pos)

interpretation likes_feed: paged_feed feed_env_ok env_limit likes_fetch likes_fine env_rows likes_key env_shows
proof (unfold_locales, goal_cases)
  case (1 E)
  then show ?case by (simp add: env_limit_def page_limit_pos)
next
  case (2 E t)
  then show ?case
    by (auto simp: likes_fine_def env_rows_def likes_key_def inj_on_def table_wf_distinct dest: video_id_inj inj_onD)
next
  case (3 E w c)
  obtain s ctx lim where E: "E = (s, ctx, lim)" by (cases E)
  from 3(1) have ok: "gorm_ok (fs_feedRepo s)" "gorm_ok (fs_likeRepo s)" by (simp_all add: feed_env_ok_def E)
  show ?case
    unfolding likes_fetch_def E prod.case FeedHandler_ListLikesCount_def sum.case
      parse_likes_cursor_key [OF 3(2,3) [unfolded env_rows_def]] wp_bind wp_return env_rows_def env_limit_def env_shows_def snd_conv fst_conv
    by (rule wp_mono [OF wp_ListLikesCount [OF ok page_limit_pos]])
      (use 3(2) in \<open>auto simp: likes_fine_def frame_defs answer_def failed_def likes_key_def split: sum.splits\<close>, blast+)
qed

text \<open>
  C10. A client that follows the cursors of the feed by likes gets every video exactly once, from
  the most liked to the least, newer identifiers first among equals, each shown as its row has it
  and marked as liked exactly when the viewer likes it. If the database answers, the client gets
  to the end; it needs one request per page.
\<close>

theorem ListLikesCount_pages:
  assumes "gorm_ok (fs_feedRepo s)" "gorm_ok (fs_likeRepo s)" "table_wf video_schema (t_videos (tabs w))"
    and "\<forall>v \<in> set (t_videos (tabs w)). 0 \<le> v_LikesCount v"
    and "length (t_videos (tabs w)) < n * nat (page_limit lim)"
    and "run_state (follow (likes_fetch (s, ctx, lim)) n None) w = (r, w')"
  shows "(\<forall>items. r = Inr items \<longrightarrow>
      list_all2 (shows_video (viewer ctx) (tabs w)) items (listing likes_key (t_videos (tabs w)))) \<and>
    (served (likes_fine (s, ctx, lim)) (\<lambda>t. likes_key ` set (t_videos t)) (likes_fetch (s, ctx, lim)) \<longrightarrow> (\<exists>items. r = Inr items))"
  using likes_feed.follow_all [of "(s, ctx, lim)" w n r w'] assms
  by (simp add: feed_env_ok_def likes_fine_def env_rows_def env_limit_def env_shows_def)

section \<open>By popularity, without Redis\<close>

definition popularity_key :: "video \<Rightarrow> int \<times> time \<times> uint" where
  "popularity_key v = (v_Popularity v, v_CreateTime v, v_ID v)"

definition popularity_fine :: "'x feed_env \<Rightarrow> 'x world \<Rightarrow> bool" where
  "popularity_fine E w \<longleftrightarrow> table_wf video_schema (t_videos (tabs w)) \<and>
     (\<forall>v \<in> set (t_videos (tabs w)). 0 \<le> v_Popularity v \<and> \<not> IsZero (v_CreateTime v))"

definition popularity_env_ok :: "'x feed_env \<Rightarrow> bool" where
  "popularity_env_ok E \<longleftrightarrow> feed_env_ok E \<and> fs_redisCache (fst E) = None"

definition popularity_fetch :: "'x host \<Rightarrow> 'x feed_env \<Rightarrow> ('x, int \<times> time \<times> uint, feed_item) fetch" where
  "popularity_fetch H E c = (case E of (s, ctx, lim) \<Rightarrow> do {
     r \<leftarrow> FeedHandler_ListByPopularity H s (Inr (case c of
         None \<Rightarrow> (lim, 0, 0, None, 0, time_zero)
       | Some (p, t, i) \<Rightarrow> (lim, 0, 0, Some i, p, t))) ctx;
     ret (map_sum id (\<lambda>p. (lp_VideoList p,
       (case (lp_NextLatestPopularity p, lp_NextLatestBefore p, lp_NextLatestIDBefore p) of
          (Some p, Some t, Some i) \<Rightarrow> Some (p, t, i) | _ \<Rightarrow> None),
       lp_HasMore p)) (answer r))})"

lemma wp_popularity_fallback:
  assumes "gorm_ok (fs_feedRepo s)" "gorm_ok (fs_likeRepo s)" "0 < lim"
    and c: "case c of None \<Rightarrow> IsZero t | Some k \<Rightarrow> k = (p, t, i) \<and> \<not> IsZero t \<and> i > 0"
  shows "wp (popularity_fallback s lim a p t i)
    (\<lambda>r w'. quiet w w' \<and> (\<forall>p. r = Inr p \<longrightarrow> (\<exists>out. is_page popularity_key (t_videos (tabs w)) lim c out \<and>
      list_all2 (shows_video a (tabs w)) (lp_VideoList p) out \<and>
      lp_NextLatestPopularity p = (if out = [] then None else Some (v_Popularity (last out))) \<and>
      lp_NextLatestBefore p = (if out = [] then None else Some (v_CreateTime (last out))) \<and>
      lp_NextLatestIDBefore p = (if out = [] then None else Some (v_ID (last out))) \<and> lp_HasMore p = (int (length out) = lim)))) w"
proof -
  have P: "(\<lambda>v. \<not> IsZero t \<and> i > 0 \<longrightarrow> v_Popularity v < p \<or> v_Popularity v = p \<and> v_CreateTime v < t \<or>
          v_Popularity v = p \<and> v_CreateTime v = t \<and> v_ID v < i) = (\<lambda>v. after c (popularity_key v))"
    using c by (auto simp: after_def popularity_key_def less_prod_def split: option.splits)
  have O: "(\<lambda>a b. v_Popularity b < v_Popularity a \<or> v_Popularity b = v_Popularity a \<and>
          (v_CreateTime b < v_CreateTime a \<or> v_CreateTime b = v_CreateTime a \<and> v_ID b \<le> v_ID a)) =
      (\<lambda>a b. popularity_key b \<le> popularity_key a)"
    by (auto simp: popularity_key_def less_eq_prod_def fun_eq_iff)
  have items: "wp (buildFeedVideos s out a) (\<lambda>r w'. quiet w w' \<and> (\<forall>items. r = Inr items \<longrightarrow> list_all2 (shows_video a (tabs w)) items out)) w1"
    if "quiet w w1" for out w1
    by (rule wp_mono [OF wp_buildFeedVideos [OF assms(2)]]) (use that in \<open>auto simp: frame_defs\<close>)
  have resp: "wp (popularity_response s lim 0 (\<lambda>_. 0) a out) (\<lambda>r w'. quiet w w' \<and> (\<forall>p. r = Inr p \<longrightarrow>
      list_all2 (shows_video a (tabs w)) (lp_VideoList p) out \<and>
      lp_NextLatestPopularity p = (if out = [] then None else Some (v_Popularity (last out))) \<and>
      lp_NextLatestBefore p = (if out = [] then None else Some (v_CreateTime (last out))) \<and>
      lp_NextLatestIDBefore p = (if out = [] then None else Some (v_ID (last out))) \<and> lp_HasMore p = (int (length out) = lim))) w1"
    if "quiet w w1" for out w1
    unfolding popularity_response_def wp_bindE
  proof (rule wp_mono [OF items [OF that]], goal_cases)
    case (1 r w2)
    moreover have "length items = length out" if "r = Inr items" for items
      using 1 that by (metis list_all2_lengthD)
    ultimately show ?case by (cases r) (simp_all add: wp_return)
  qed
  show ?thesis
    unfolding popularity_fallback_def FeedRepo_ListByPopularity_def P O wp_bindE
  proof (rule wp_find [OF videos_ok [OF assms(1)]], goal_cases)
    case (4 out w1)
    then have "is_page popularity_key (t_videos (tabs w)) lim c out" by (simp add: is_page_def)
    then show ?case unfolding sum.case by (intro wp_mono [OF resp [OF 4(1)]]) blast
  qed (use assms(3) in auto)
qed

interpretation popularity_feed: paged_feed popularity_env_ok env_limit "popularity_fetch H" popularity_fine env_rows popularity_key env_shows for H
proof (unfold_locales, goal_cases)
  case (1 E)
  then show ?case by (simp add: env_limit_def page_limit_pos)
next
  case (2 E t)
  then show ?case
    by (auto simp: popularity_fine_def env_rows_def popularity_key_def inj_on_def table_wf_distinct dest: video_id_inj inj_onD)
next
  case (3 E w c)
  obtain s ctx lim where E: "E = (s, ctx, lim)" by (cases E)
  from 3(1) have ok: "gorm_ok (fs_feedRepo s)" "gorm_ok (fs_likeRepo s)" and nil: "fs_redisCache s = None"
    by (simp_all add: popularity_env_ok_def feed_env_ok_def E)
  from 3(2,3) have c: "c = None \<or> (\<exists>x. c = Some (popularity_key x) \<and> 0 \<le> v_Popularity x \<and> \<not> IsZero (v_CreateTime x) \<and> 0 < v_ID x)"
    by (auto simp: popularity_fine_def env_rows_def dest: video_id_pos)
  then obtain p t i where call: "FeedHandler_ListByPopularity H s (Inr (case c of None \<Rightarrow> (lim, 0, 0, None, 0, time_zero)
       | Some (p, t, i) \<Rightarrow> (lim, 0, 0, Some i, p, t))) ctx =
       do {r \<leftarrow> popularity_fallback s (page_limit lim) (viewer ctx) p t i; ret (case_sum failed Sent r)}"
      and cur: "case c of None \<Rightarrow> IsZero t | Some k \<Rightarrow> k = (p, t, i) \<and> \<not> IsZero t \<and> i > 0"
    by (auto simp: FeedHandler_ListByPopularity_def FeedService_ListByPopularity_def nil IsZero_def popularity_key_def)
  show ?case
    unfolding popularity_fetch_def E prod.case call wp_bind wp_return env_rows_def env_limit_def env_shows_def snd_conv fst_conv
    by (rule wp_mono [OF wp_popularity_fallback [OF ok page_limit_pos cur]])
      (use 3(2) in \<open>auto simp: popularity_fine_def frame_defs answer_def failed_def popularity_key_def split: sum.splits\<close>, blast+)
qed

text \<open>
  C11. Without Redis, a client that follows the cursors of the feed by popularity gets every video
  exactly once, ordered by popularity, then creation time, then identifier; and it gets to the end
  if the database answers.
\<close>

theorem ListByPopularity_pages:
  assumes "gorm_ok (fs_feedRepo s)" "gorm_ok (fs_likeRepo s)" "fs_redisCache s = None" "table_wf video_schema (t_videos (tabs w))"
    and "\<forall>v \<in> set (t_videos (tabs w)). 0 \<le> v_Popularity v \<and> \<not> IsZero (v_CreateTime v)"
    and "length (t_videos (tabs w)) < n * nat (page_limit lim)"
    and "run_state (follow (popularity_fetch H (s, ctx, lim)) n None) w = (r, w')"
  shows "(\<forall>items. r = Inr items \<longrightarrow>
      list_all2 (shows_video (viewer ctx) (tabs w)) items (listing popularity_key (t_videos (tabs w)))) \<and>
    (served (popularity_fine (s, ctx, lim)) (\<lambda>t. popularity_key ` set (t_videos t)) (popularity_fetch H (s, ctx, lim)) \<longrightarrow> (\<exists>items. r = Inr items))"
  using popularity_feed.follow_all [of "(s, ctx, lim)" w n H r w'] assms
  by (simp add: popularity_env_ok_def feed_env_ok_def popularity_fine_def env_rows_def env_limit_def env_shows_def)

end
