(* ===== verification/FeedLatest.thy ===== *)
theory FeedLatest
  imports FeedEntities FeedPages
begin

text \<open>
  \<open>ListLatest\<close>: the feed by time out of the timeline in Redis, the cached videos and the database.
  While the timeline holds the newest videos, its pages are the database's pages.
\<close>

section \<open>The timeline and the table\<close>

definition ms :: "video \<Rightarrow> int" where
  "ms v = UnixMilli (v_CreateTime v)"

definition video_entry :: "video \<Rightarrow> entry" where
  "video_entry v = (ms v, FormatUint (v_ID v))"

lemma timeline_elements_entry: "timeline_elements vs = map video_entry vs"
  by (simp add: timeline_elements_def video_entry_def ms_def)

text \<open>No two videos were created in the same millisecond, none before 1970, and identifiers fit in 64 bits.\<close>

definition times_fine :: "tables \<Rightarrow> bool" where
  "times_fine t \<longleftrightarrow> table_wf video_schema (t_videos t) \<and> inj_on ms (set (t_videos t)) \<and>
     (\<forall>v \<in> set (t_videos t). 0 < ms v \<and> v_ID v < 2 ^ 64)"

text \<open>The timeline holds the newest videos, some number of them.\<close>

definition holds_newest :: "tables \<Rightarrow> entry list \<Rightarrow> bool" where
  "holds_newest t zs \<longleftrightarrow> (\<exists>n. zs = rev (map video_entry (take n (listing ms (t_videos t)))))"

text \<open>The cursor of a request, in milliseconds, as the handler and the service see it.\<close>

definition cursor_time :: "int option \<Rightarrow> time" where
  "cursor_time c = (case c of None \<Rightarrow> time_zero | Some m \<Rightarrow> time_UnixMilli m)"

definition cursor_fine :: "int option \<Rightarrow> bool" where
  "cursor_fine c \<longleftrightarrow> (\<forall>m. c = Some m \<longrightarrow> 0 < m)"

lemma IsZero_cursor: "cursor_fine c \<Longrightarrow> IsZero (cursor_time c) \<longleftrightarrow> c = None"
  by (cases c) (auto simp: cursor_time_def cursor_fine_def IsZero_def time_zero_def time_UnixMilli_def)

lemma before_cursor: "cursor_fine c \<Longrightarrow> (\<not> IsZero (cursor_time c) \<longrightarrow> v_CreateTime v < cursor_time c) \<longleftrightarrow> after c (ms v)"
  unfolding IsZero_cursor
  by (cases c) (simp_all add: cursor_time_def after_def ms_def UnixMilli_def time_UnixMilli_def, linarith)

lemma times_fineD:
  assumes "times_fine t"
  shows "table_wf video_schema (t_videos t)" "inj_on ms (set (t_videos t))" "distinct (t_videos t)"
    and "v \<in> set (t_videos t) \<Longrightarrow> 0 < ms v" "v \<in> set (t_videos t) \<Longrightarrow> v_ID v < 2 ^ 64"
  using assms by (auto simp: times_fine_def table_wf_distinct)

lemma time_order:
  assumes "times_fine t" "a \<in> set (t_videos t)" "b \<in> set (t_videos t)"
  shows "v_CreateTime a < v_CreateTime b \<longleftrightarrow> ms a < ms b" "v_CreateTime a \<le> v_CreateTime b \<longleftrightarrow> ms a \<le> ms b"
proof -
  have le: "v_CreateTime x \<le> v_CreateTime y \<longleftrightarrow> ms x \<le> ms y" if "x \<in> set (t_videos t)" "y \<in> set (t_videos t)" for x y
  proof
    show "v_CreateTime x \<le> v_CreateTime y \<Longrightarrow> ms x \<le> ms y" by (simp add: ms_def UnixMilli_mono)
    assume "ms x \<le> ms y"
    show "v_CreateTime x \<le> v_CreateTime y"
    proof (rule ccontr)
      assume less: "\<not> v_CreateTime x \<le> v_CreateTime y"
      then have "ms y \<le> ms x" by (simp add: ms_def UnixMilli_mono)
      with \<open>ms x \<le> ms y\<close> have "ms x = ms y" by simp
      with that times_fineD(2) [OF assms(1)] have "x = y" by (auto dest: inj_onD)
      with less show False by simp
    qed
  qed
  show "v_CreateTime a \<le> v_CreateTime b \<longleftrightarrow> ms a \<le> ms b" by (rule le [OF assms(2,3)])
  show "v_CreateTime a < v_CreateTime b \<longleftrightarrow> ms a < ms b" using le [OF assms(3,2)] by (simp add: not_le [symmetric])
qed

text \<open>What the database answers: the page after the cursor.\<close>

definition older :: "tables \<Rightarrow> int option \<Rightarrow> video list" where
  "older t c = filter (\<lambda>v. after c (ms v)) (listing ms (t_videos t))"

lemma older_strict: "times_fine t \<Longrightarrow> sorted_wrt (\<lambda>a b. ms b < ms a) (older t c)"
  unfolding older_def by (rule sorted_wrt_filter [OF listing_strict]) (auto dest: times_fineD)

lemma query_result_cong:
  assumes "query_result P ord lim rs out" "\<And>a b. a \<in> set rs \<Longrightarrow> b \<in> set rs \<Longrightarrow> ord a b \<Longrightarrow> ord' a b"
    "\<And>a. a \<in> set rs \<Longrightarrow> P a = P' a"
  shows "query_result P' ord' lim rs out"
proof -
  from assms(1) obtain ys where ys: "mset ys = mset (filter P rs)" "sorted_wrt ord ys" "out = limit_rows lim ys"
    by (auto simp: query_result_def)
  have "filter P rs = filter P' rs" using assms(3) by (rule filter_cong [OF refl])
  moreover have "set ys \<subseteq> set rs" using mset_eq_setD [OF ys(1)] by auto
  then have "sorted_wrt ord' ys" using assms(2) by (intro sorted_wrt_mono_rel [OF _ ys(2)]) blast
  ultimately show ?thesis using ys by (auto simp: query_result_def)
qed

lemma ListLatest_query:
  assumes t: "times_fine t" and lim: "0 < lim"
    and q: "query_result P (\<lambda>a b. v_CreateTime b \<le> v_CreateTime a) lim (t_videos t) out"
    and P: "\<And>v. v \<in> set (t_videos t) \<Longrightarrow> P v = after c (ms v)"
  shows "out = take (nat lim) (older t c)"
proof -
  have "is_page ms (t_videos t) lim c out"
    unfolding is_page_def by (rule query_result_cong [OF q]) (use time_order [OF t] P in auto)
  then show ?thesis unfolding older_def by (rule page_is_prefix [OF times_fineD(2) [OF t] lim])
qed

section \<open>Reading the timeline\<close>

lemma signs_are_no_digits: "digit_val (CHR ''-'') = None" "digit_val (CHR ''('') = None" "digit_val (CHR ''+'') = None"
  by code_simp+

lemma below_max_FormatInt:
  assumes "0 \<le> m"
  shows "below_max (FormatInt m) v = Some (v \<le> m)"
proof -
  obtain x xs where x: "FormatUint (nat m) = x # xs" by (cases "FormatUint (nat m)") (use FormatUint_nonempty in auto)
  then have p: "parse_digits 0 (x # xs) = Some (nat m)" using parse_digits_FormatUint [of "nat m"] by simp
  then have "digit_val x \<noteq> None" by (auto split: option.splits)
  then have "x \<noteq> CHR ''-''" "x \<noteq> CHR ''('' " "x \<noteq> CHR ''+''" using signs_are_no_digits by auto
  with p assms x show ?thesis by (auto simp: below_max_def FormatInt_def parse_score_def simp del: parse_digits.simps)
qed

lemma filter_rev_entries:
  "filter (\<lambda>z. Q (fst z)) (rev (rev (map video_entry xs))) = map video_entry (filter (\<lambda>v. Q (ms v)) xs)"
  by (simp add: filter_map video_entry_def comp_def)

definition max_score :: "int option \<Rightarrow> string" where
  "max_score c = (if IsZero (cursor_time c) then ''+inf'' else FormatInt (UnixMilli (cursor_time c) - 1))"

lemma below_max_score:
  assumes "cursor_fine c"
  shows "below_max (max_score c) x = Some (after c x)"
proof (cases c)
  case None
  with assms show ?thesis by (simp add: max_score_def IsZero_cursor after_def below_max_def)
next
  case (Some m)
  with assms have "max_score c = FormatInt (m - 1)" "0 \<le> m - 1"
    using IsZero_cursor [OF assms] by (simp_all add: max_score_def cursor_time_def cursor_fine_def)
  with Some show ?thesis by (auto simp: below_max_FormatInt after_def)
qed

lemma members_of_page:
  assumes "cursor_fine c" "0 < lim"
  shows "zrevrangebyscore (max_score c) ''-inf'' 0 lim (rev (map video_entry xs)) =
    map (\<lambda>v. FormatUint (v_ID v)) (take (nat lim) (filter (\<lambda>v. after c (ms v)) xs))"
proof -
  have hit: "below_max (max_score c) x = Some True \<and> above_min ''-inf'' x = Some True \<longleftrightarrow> after c x" for x
    by (simp add: below_max_score [OF assms(1)] above_min_def)
  show ?thesis
    unfolding zrevrangebyscore_def hit filter_rev_entries Let_def
    using assms(2) by (simp add: take_map video_entry_def)
qed

lemma parsed_ids:
  assumes "\<And>v. v \<in> set vs \<Longrightarrow> v_ID v < 2 ^ 64"
  shows "List.map_filter ParseUint (map (\<lambda>v. FormatUint (v_ID v)) vs) = map v_ID vs"
  using assms by (induction vs) (simp_all add: List.map_filter_def ParseUint_FormatUint)

section \<open>One page\<close>

text \<open>A copy of a video, perhaps with old counts, but of this video and with its time.\<close>

definition same_video :: "video \<Rightarrow> video \<Rightarrow> bool" where
  "same_video x v \<longleftrightarrow> v_ID v = v_ID x \<and> v_CreateTime v = v_CreateTime x"

definition is_copy :: "tables \<Rightarrow> uint \<Rightarrow> video \<Rightarrow> bool" where
  "is_copy t i v \<longleftrightarrow> (\<exists>x \<in> set (t_videos t). v_ID x = i \<and> same_video x v)"

lemma rows_ok_copy: "rows_ok (is_copy t) t"
  by (auto simp: rows_ok_def is_copy_def same_video_def)

lemma same_video_refl: "list_all2 same_video vs vs"
  by (simp add: list_all2_same same_video_def)

lemma copies_same:
  assumes "table_wf video_schema (t_videos t)" "set vs \<subseteq> set (t_videos t)" "list_all2 (is_copy t) (map v_ID vs) out"
  shows "list_all2 same_video vs out"
proof -
  have "same_video x v" if "x \<in> set (t_videos t)" "is_copy t (v_ID x) v" for x v
    using that video_id_inj [OF assms(1)] by (auto simp: is_copy_def same_video_def dest: inj_onD)
  with assms(2,3) show ?thesis by (auto simp: list_all2_conv_all_nth) (metis nth_mem subsetD)
qed

text \<open>The database answers its listings.\<close>

definition lists :: "'x gorm \<Rightarrow> bool" where
  "lists G \<longleftrightarrow> (\<forall>lim cur. answers (FeedRepo_ListLatest G lim cur))"

lemma wp_ListLatest_at:
  assumes G: "gorm_ok G" and t: "times_fine (tabs w)" and lim: "0 < lim"
    and P: "\<And>v. v \<in> set (t_videos (tabs w)) \<Longrightarrow> (\<not> IsZero cur \<longrightarrow> v_CreateTime v < cur) = after c (ms v)"
  shows "wp (FeedRepo_ListLatest G lim cur) (\<lambda>r w'. quiet w w' \<and> (\<forall>out. r = Inr out \<longrightarrow> out = take (nat lim) (older (tabs w) c)) \<and>
    (lists G \<longrightarrow> (\<exists>out. r = Inr out))) w"
proof -
  have "wp (FeedRepo_ListLatest G lim cur) (\<lambda>r w'. quiet w w' \<and> (\<forall>out. r = Inr out \<longrightarrow> out = take (nat lim) (older (tabs w) c))) w"
    unfolding FeedRepo_ListLatest_def
    by (rule wp_find [OF videos_ok [OF G] total_preorder_key]) (use lim ListLatest_query [OF t lim _ P] in auto)
  moreover have "wp (FeedRepo_ListLatest G lim cur) (\<lambda>r _. lists G \<longrightarrow> (\<exists>out. r = Inr out)) w"
    by (cases "lists G") (auto simp: lists_def answers_def wp_def split: prod.splits)
  ultimately show ?thesis by (simp add: wp_def split: prod.splits)
qed

lemma wp_ListLatest_cursor:
  assumes "gorm_ok G" "times_fine (tabs w)" "0 < lim" "cursor_fine c"
  shows "wp (FeedRepo_ListLatest G lim (cursor_time c)) (\<lambda>r w'. quiet w w' \<and> (\<forall>out. r = Inr out \<longrightarrow> out = take (nat lim) (older (tabs w) c)) \<and>
    (lists G \<longrightarrow> (\<exists>out. r = Inr out))) w"
  by (rule wp_ListLatest_at [OF assms(1-3)]) (rule before_cursor [OF assms(4)])

text \<open>What follows a prefix of the list.\<close>

lemma list_all2_last: "list_all2 P xs ys \<Longrightarrow> xs \<noteq> [] \<Longrightarrow> P (last xs) (last ys)"
proof (induction rule: list_all2_induct)
  case (Cons x xs y ys)
  then show ?case by (cases xs; cases ys) auto
qed simp

lemma take_length_take: "take (length (take k xs)) xs = take k xs"
  by (cases "k \<le> length xs") simp_all

lemma older_after_prefix:
  assumes "times_fine t" "B = take k (older t c)" "B \<noteq> []"
  shows "older t (Some (ms (last B))) = drop (length B) (older t c)"
proof -
  have "B = take (length B) (older t c)" unfolding assms(2) by (rule take_length_take [symmetric])
  moreover have "0 < length B" "length B \<le> length (older t c)" using assms(2,3) by auto
  ultimately have B: "take (length B) (older t c) = B" "0 < length B" "length B \<le> length (older t c)" by simp_all
  from rest_after_page [OF older_strict [OF assms(1)] B(2,3), unfolded B(1)]
  have "filter (\<lambda>v. ms v < ms (last B)) (older t c) = drop (length B) (older t c)" .
  moreover have "last B \<in> set (older t c)" using assms(2,3) by (metis in_set_takeD last_in_set)
  then have "after c (ms (last B))" by (simp add: older_def)
  ultimately show ?thesis
    using filter_after_after [of c "ms (last B)" ms "listing ms (t_videos t)"] by (simp add: older_def)
qed

lemma older_subset: "set (older t c) \<subseteq> set (t_videos t)"
  by (auto simp: older_def)

lemma stitch_post:
  assumes T: "runtime_ok T" and G: "gorm_ok (fs_feedRepo s)" "lists (fs_feedRepo s)" and t: "times_fine (tabs w)" and lim: "0 < lim"
    and c: "cursor_fine c" and B: "B = take (nat lim) (take k (older (tabs w) c))" and base: "list_all2 same_video B base"
  shows "wp (stitch T s lim (cursor_time c) base) (\<lambda>out w'. quiet w w' \<and> list_all2 same_video (take (nat lim) (older (tabs w) c)) out) w"
proof -
  let ?O = "older (tabs w) c"
  have len: "length base = length B" using list_all2_lengthD [OF base] by simp
  have B': "B = take (length B) ?O" unfolding B take_take by (rule take_length_take [symmetric])
  show ?thesis
  proof (cases "int (length base) < lim")
    case False
    with len have "nat lim \<le> length B" by simp
    with B have "B = take (nat lim) ?O" by (simp add: min_def split: if_splits)
    then have "take (nat lim) ?O = B" by (rule sym)
    with False base show ?thesis by (simp add: stitch_def wp_return frame_defs)
  next
    case True
    let ?remain = "lim - int (length base)" and ?cur = "if base = [] then cursor_time c else v_CreateTime (last base)"
    define c' where "c' = (if B = [] then c else Some (ms (last B)))"
    have cur: "(\<not> IsZero ?cur \<longrightarrow> v_CreateTime v < ?cur) = after c' (ms v)" if v: "v \<in> set (t_videos (tabs w))" for v
    proof (cases "B = []")
      case True
      with len before_cursor [OF c] show ?thesis by (simp add: c'_def)
    next
      case False
      with len have "base \<noteq> []" by auto
      have x: "last B \<in> set (t_videos (tabs w))" using False B' older_subset by (metis in_set_takeD last_in_set subsetD)
      have "same_video (last B) (last base)" by (rule list_all2_last [OF base False])
      then have "?cur = v_CreateTime (last B)" using \<open>base \<noteq> []\<close> by (simp add: same_video_def)
      moreover have "\<not> IsZero (v_CreateTime (last B))"
        using times_fineD(4) [OF t x] by (auto simp: IsZero_def time_zero_def ms_def UnixMilli_def)
      ultimately show ?thesis using time_order(1) [OF t v x] False by (simp add: c'_def after_def)
    qed
    have O': "older (tabs w) c' = drop (length B) ?O"
      using older_after_prefix [OF t B'] by (cases "B = []") (simp_all add: c'_def)
    have "nat lim = length B + nat ?remain" using True len by simp
    then have "take (nat lim) ?O = take (length B) ?O @ take (nat ?remain) (drop (length B) ?O)" by (simp only: take_add)
    then have eq: "take (nat lim) ?O = B @ take (nat ?remain) (older (tabs w) c')" using B' O' by simp
    have remain: "0 < ?remain" using True by simp
    show ?thesis
      unfolding stitch_def if_P [OF True] Let_def wp_bind
      by (rule wp_mono [OF wp_rt_videos [OF T wp_ListLatest_at [OF G(1) t remain cur]]])
        (use G(2) base same_video_refl eq in \<open>auto simp: wp_return list_all2_appendI split: sum.splits\<close>)
  qed
qed

section \<open>The timeline in use\<close>

text \<open>The feed's state: the timeline holds the newest videos and the caches hold copies.\<close>

definition latest_good :: "'x host \<Rightarrow> 'x cache \<Rightarrow> 'x world \<Rightarrow> bool" where
  "latest_good H c w \<longleftrightarrow> times_fine (tabs w) \<and> entities_ok H c (is_copy (tabs w)) w \<and>
     (\<exists>zs. rds w (timeline_key c) = stored zs \<and> holds_newest (tabs w) zs)"

definition latest_kept :: "'x host \<Rightarrow> 'x cache \<Rightarrow> 'x world \<Rightarrow> 'x world \<Rightarrow> bool" where
  "latest_kept H c w w' \<longleftrightarrow> latest_good H c w' \<and> tabs w' = tabs w \<and> mq w' = mq w"

lemma latest_kept_entities:
  "latest_good H c w \<Longrightarrow> entities_kept H c (is_copy (tabs w)) w w' \<Longrightarrow> latest_kept H c w w'"
  by (auto simp: latest_kept_def latest_good_def entities_kept_def)

lemma latest_kept_quiet: "latest_kept H c w0 w \<Longrightarrow> quiet w w' \<Longrightarrow> latest_kept H c w0 w'"
  by (auto simp: latest_kept_def latest_good_def entities_ok_def frame_defs)

lemma wp_on_zset_read:
  assumes "call_ok (on_zset k (\<lambda>zs. (g zs, zs))) call" "rds w k = stored zs"
    and "\<And>e w'. redis_frame w w' \<Longrightarrow> rds w' = rds w \<Longrightarrow> Q (Inl (ErrExternal e)) w'"
    and "\<And>w'. redis_frame w w' \<Longrightarrow> rds w' = rds w \<Longrightarrow> Q (Inr (g zs)) w'"
  shows "wp call Q w"
proof -
  have same: "rds w' = rds w" if "rds w' k = stored zs" "\<And>k'. k' \<noteq> k \<Longrightarrow> rds w' k' = rds w k'" for w'
    using that assms(2) by (intro ext) metis
  show ?thesis
    by (rule wp_on_zset [OF assms(1,2)])
      (simp_all, (rule assms(3), assumption, rule same, assumption, blast)+, rule assms(4), assumption, rule same, assumption, blast)
qed

text \<open>A call on a sorted set that no fault of the network or the server disturbs.\<close>

definition reachable :: "string \<Rightarrow> ('x, 'a res) io \<Rightarrow> bool" where
  "reachable k m \<longleftrightarrow> (\<forall>w zs. rds w k = stored zs \<longrightarrow> wp m (\<lambda>r _. \<forall>s. r \<noteq> Inl (ErrExternal s)) w)"

lemma reachable_imp: "rds w k = stored zs \<Longrightarrow> wp m (\<lambda>r _. reachable k m \<longrightarrow> (\<forall>s. r \<noteq> Inl (ErrExternal s))) w"
proof (cases "reachable k m")
  case True
  moreover assume "rds w k = stored zs"
  ultimately have "wp m (\<lambda>r _. \<forall>s. r \<noteq> Inl (ErrExternal s)) w" unfolding reachable_def by blast
  then show ?thesis by (rule wp_mono) simp
qed (simp add: wp_def split: prod.splits)

lemma latest_kept_redis: "latest_kept H c w0 w \<Longrightarrow> redis_frame w w' \<Longrightarrow> rds w' = rds w \<Longrightarrow> latest_kept H c w0 w'"
  by (auto simp: latest_kept_def latest_good_def entities_ok_def redis_frame_def)

lemma ZRangeWithScores_post:
  assumes R: "cache_redis_ok c" and w: "latest_kept H c w0 w" and zs: "rds w (timeline_key c) = stored zs"
  shows "wp (ZRangeWithScores c (timeline_key c) 0 0) (\<lambda>r w'. latest_kept H c w0 w' \<and> rds w' = rds w \<and>
    (\<forall>tail. r = Inr tail \<longrightarrow> tail = take 1 zs \<and> rdb_of c \<noteq> None) \<and>
    (\<forall>R e. rdb_of c = Some R \<longrightarrow> r = Inl e \<longrightarrow> (\<exists>s. e = ErrExternal s))) w"
proof (cases "rdb_of c")
  case None
  with w show ?thesis by (simp add: ZRangeWithScores_def wp_return)
next
  case (Some r)
  have call: "call_ok (on_zset (timeline_key c) (\<lambda>zs. (rank_range 0 0 zs, zs))) (rdb_ZRangeWithScores r (timeline_key c) 0 0)"
    using R Some by (simp add: cache_redis_ok_def redis_ok_def cmd_zrange_def [symmetric])
  have "rank_range 0 0 zs = take 1 zs" by (cases zs) (simp_all add: rank_range_def)
  then show ?thesis
    unfolding ZRangeWithScores_def Some option.case
    by (intro wp_on_zset_read [OF call zs]) (use w in \<open>auto dest: latest_kept_redis\<close>)
qed

lemma ZRevRangeByScore_post:
  assumes R: "cache_redis_ok c" and w: "latest_kept H c w0 w" and zs: "rds w (timeline_key c) = stored zs" and cur: "cursor_fine cu"
    and some: "rdb_of c \<noteq> None"
  shows "wp (ZRevRangeByScore c (timeline_key c) (max_score cu) ''-inf'' 0 lim) (\<lambda>r w'. latest_kept H c w0 w' \<and> rds w' = rds w \<and>
    (\<forall>members. r = Inr members \<longrightarrow> members = zrevrangebyscore (max_score cu) ''-inf'' 0 lim zs) \<and>
    (\<forall>e. r = Inl e \<longrightarrow> (\<exists>s. e = ErrExternal s))) w"
proof -
  obtain r where r: "rdb_of c = Some r" using some by blast
  have "above_min ''-inf'' 0 = Some True" by (simp add: above_min_def)
  then have "cmd_zrevrangebyscore (timeline_key c) (max_score cu) ''-inf'' 0 lim =
      on_zset (timeline_key c) (\<lambda>zs. (zrevrangebyscore (max_score cu) ''-inf'' 0 lim zs, zs))"
    by (intro ext) (simp add: cmd_zrevrangebyscore_def below_max_score [OF cur])
  then have call: "call_ok (on_zset (timeline_key c) (\<lambda>zs. (zrevrangebyscore (max_score cu) ''-inf'' 0 lim zs, zs)))
      (rdb_ZRevRangeByScore r (timeline_key c) (max_score cu) ''-inf'' 0 lim)"
    using redis_ZRevRangeByScore [of r "timeline_key c" "max_score cu" "''-inf''" 0 lim] R r by (simp add: cache_redis_ok_def)
  show ?thesis
    unfolding ZRevRangeByScore_def r option.case
    by (rule wp_on_zset_read [OF call zs]) (use w in \<open>auto dest: latest_kept_redis\<close>)
qed

lemma hot_latest_post:
  assumes T: "runtime_ok T" and s: "feed_ok s" and c: "c = fs_redisCache s" and G: "finds (fs_feedRepo s)" "lists (fs_feedRepo s)"
    and codec: "\<And>t. entity_codec H (is_copy t)" and lim: "0 < lim" and cur: "cursor_fine cu" and some: "rdb_of c \<noteq> None"
    and w: "latest_good H c w" and req: "\<not> IsZero (cursor_time cu) \<longrightarrow> req = UnixMilli (cursor_time cu)"
  shows "wp (hot_latest H T s lim req (cursor_time cu)) (\<lambda>r w'. latest_kept H c w w' \<and>
    (\<forall>out. r = Inr out \<longrightarrow> list_all2 same_video (take (nat lim) (older (tabs w) cu)) out)) w"
proof -
  let ?t = "tabs w" and ?Q = "\<lambda>r w'. latest_kept H c w w' \<and> (\<forall>out. r = Inr out \<longrightarrow> list_all2 same_video (take (nat lim) (older (tabs w) cu)) out)"
  note t = w [unfolded latest_good_def, THEN conjunct1]
  from w obtain n where zs: "rds w (timeline_key c) = stored (rev (map video_entry (take n (listing ms (t_videos ?t)))))"
    by (auto simp: latest_good_def holds_newest_def)
  define k where "k = length (filter (\<lambda>v. after cu (ms v)) (take n (listing ms (t_videos ?t))))"
  define B where "B = take (nat lim) (take k (older ?t cu))"
  have "older ?t cu = filter (\<lambda>v. after cu (ms v)) (take n (listing ms (t_videos ?t))) @ filter (\<lambda>v. after cu (ms v)) (drop n (listing ms (t_videos ?t)))"
    unfolding older_def by (metis append_take_drop_id filter_append)
  then have hot: "filter (\<lambda>v. after cu (ms v)) (take n (listing ms (t_videos ?t))) = take k (older ?t cu)" by (simp add: k_def)
  have B: "set B \<subseteq> set (t_videos ?t)" using older_subset [of ?t cu] by (auto simp: B_def dest!: in_set_takeD)
  have ids: "List.map_filter ParseUint (zrevrangebyscore (max_score cu) ''-inf'' 0 lim (rev (map video_entry (take n (listing ms (t_videos ?t)))))) = map v_ID B"
    unfolding members_of_page [OF cur lim] hot B_def [symmetric] by (rule parsed_ids) (use B times_fineD(5) [OF t] in blast)
  have stitched: "wp (stitch T s lim (cursor_time cu) base) (\<lambda>out w'. wp (ok out) ?Q w') w2"
    if "entities_kept H c (is_copy ?t) w w2" "found_post (fs_feedRepo s) (is_copy ?t) ?t (map v_ID B) base" for base w2
  proof -
    have t2: "tabs w2 = ?t" and kept: "latest_kept H c w w2" using that(1) latest_kept_entities [OF w] by (auto simp: entities_kept_def)
    have "\<forall>i \<in> set (map v_ID B). has_video i ?t" using B by (auto simp: has_video_def)
    with that(2) G(1) have "list_all2 (is_copy ?t) (map v_ID B) base" by (simp add: found_post_def)
    from copies_same [OF times_fineD(1) [OF t] B this] have "list_all2 same_video B base" .
    moreover have "gorm_ok (fs_feedRepo s)" using s by (simp add: feed_ok_def)
    ultimately have "wp (stitch T s lim (cursor_time cu) base) (\<lambda>out w'. quiet w2 w' \<and> list_all2 same_video (take (nat lim) (older ?t cu)) out) w2"
      using stitch_post [OF T _ G(2) _ lim cur, of w2 B k base] t t2 by (simp add: B_def)
    then show ?thesis by (rule wp_mono) (use kept in \<open>auto simp: wp_return dest: latest_kept_quiet\<close>)
  qed
  have lookup: "wp (GetVideosByIDs H T s (map v_ID B)) (\<lambda>base. wp (stitch T s lim (cursor_time cu) base) (\<lambda>out w'. wp (ok out) ?Q w')) w1"
    if "latest_kept H c w w1" "rds w1 = rds w" for w1
  proof -
    have "entities_kept H c (is_copy ?t) w w1" using that by (auto simp: latest_kept_def latest_good_def entities_kept_def)
    from GetVideosByIDs_post [OF T s c codec rows_ok_copy this] show ?thesis by (rule wp_mono) (use stitched in auto)
  qed
  have mx: "(if IsZero (cursor_time cu) then ''+inf'' else FormatInt (req - 1)) = max_score cu" using req by (simp add: max_score_def)
  have self: "latest_kept H c w w" using w by (simp add: latest_kept_def)
  have redis: "cache_redis_ok c" using s c by (simp add: feed_ok_def)
  have read: "wp (ZRevRangeByScore c (timeline_key c) (max_score cu) ''-inf'' 0 lim) (\<lambda>r w'. latest_kept H c w w' \<and> rds w' = rds w \<and>
      (\<forall>members. r = Inr members \<longrightarrow> List.map_filter ParseUint members = map v_ID B)) w"
    by (rule wp_mono [OF ZRevRangeByScore_post [OF redis self zs cur some]]) (use ids in auto)
  show ?thesis
    unfolding hot_latest_def Let_def c [symmetric] mx wp_bindE
  proof (rule wp_mono [OF read], goal_cases)
    case (1 r w1)
    then have kept: "latest_kept H c w w1" "rds w1 = rds w" by auto
    show ?case
    proof (cases r)
      case (Inl e)
      with kept show ?thesis by (simp add: wp_return)
    next
      case (Inr members)
      with 1 have ids: "List.map_filter ParseUint members = map v_ID B" by auto
      show ?thesis unfolding Inr sum.case wp_bind ids by (rule lookup [OF kept])
    qed
  qed
qed

section \<open>Rebuilding the timeline\<close>

lemma zadd_front: "\<forall>z \<in> set zs. fst x < fst z \<and> snd z \<noteq> snd x \<Longrightarrow> zadd x zs = x # zs"
proof -
  assume front: "\<forall>z \<in> set zs. fst x < fst z \<and> snd z \<noteq> snd x"
  then have "filter (\<lambda>y. snd y \<noteq> snd x) zs = zs" by (simp add: filter_id_conv)
  with front show ?thesis by (cases zs) (auto simp: zadd_def less_eq_prod_def)
qed

lemma fold_zadd_descending:
  assumes "sorted_wrt (\<lambda>a b. ms b < ms a) vs" "distinct (map v_ID vs)"
    and "\<forall>v \<in> set vs. \<forall>z \<in> set zs. ms v < fst z \<and> snd z \<noteq> FormatUint (v_ID v)"
  shows "fold zadd (map video_entry vs) zs = rev (map video_entry vs) @ zs"
  using assms
proof (induction vs arbitrary: zs)
  case (Cons v vs)
  have "zadd (video_entry v) zs = video_entry v # zs"
    by (rule zadd_front) (use Cons.prems(3) in \<open>simp add: video_entry_def\<close>)
  moreover have "fold zadd (map video_entry vs) (video_entry v # zs) = rev (map video_entry vs) @ video_entry v # zs"
    by (rule Cons.IH) (use Cons.prems in \<open>auto simp: video_entry_def dest: FormatUint_inj\<close>)
  ultimately show ?case by simp
qed simp

lemma rebuilt_newest:
  assumes "times_fine t"
  shows "fold zadd (timeline_elements (take k (older t None))) [] = rev (map video_entry (take k (listing ms (t_videos t))))"
proof -
  have older: "older t None = listing ms (t_videos t)" by (simp add: older_def after_def)
  have "sorted_wrt (\<lambda>a b. ms b < ms a) (take k (listing ms (t_videos t)))"
    by (rule sorted_wrt_take [OF older_strict [OF assms, of None, unfolded older]])
  moreover have "distinct (map v_ID (take k (listing ms (t_videos t))))"
    using video_id_inj [OF times_fineD(1) [OF assms]] times_fineD(3) [OF assms]
    by (simp add: distinct_map listing_def) (rule inj_on_subset, assumption, auto dest: in_set_takeD)
  ultimately show ?thesis by (simp add: older timeline_elements_entry fold_zadd_descending)
qed

lemma ZAdd_rebuild_post:
  assumes R: "cache_redis_ok c" "rdb_of c = Some r" and t: "times_fine (tabs w)" and w: "latest_kept H c w0 w" and none: "rds w (timeline_key c) = stored []"
    and vs: "vs = take k (older (tabs w) None)"
  shows "wp (ZAdd c (timeline_key c) (timeline_elements vs)) (\<lambda>x w'. latest_kept H c w0 w' \<and>
    (rds w' (timeline_key c) = stored [] \<or> rds w' (timeline_key c) = stored (rev (map video_entry vs))) \<and>
    (x = Inr () \<longrightarrow> rds w' (timeline_key c) = stored (rev (map video_entry vs))) \<and> (\<forall>e. x = Inl e \<longrightarrow> (\<exists>s. e = ErrExternal s))) w"
proof -
  have call: "call_ok (on_zset (timeline_key c) (\<lambda>zs. ((), fold zadd (timeline_elements vs) zs))) (rdb_ZAdd r (timeline_key c) (timeline_elements vs))"
    using R redis_ZAdd [of r "timeline_key c" "timeline_elements vs"] by (simp add: cache_redis_ok_def cmd_zadd_def)
  have all: "older (tabs w) None = listing ms (t_videos (tabs w))" by (simp add: older_def after_def)
  have new: "fold zadd (timeline_elements vs) [] = rev (map video_entry vs)"
    unfolding vs using rebuilt_newest [OF t, of k] by (simp add: all)
  have good: "latest_kept H c w0 w'" if "redis_frame w w'" "\<And>k'. k' \<noteq> timeline_key c \<Longrightarrow> rds w' k' = rds w k'"
      "rds w' (timeline_key c) = stored [] \<or> rds w' (timeline_key c) = stored (rev (map video_entry vs))" for w'
  proof -
    have "holds_newest (tabs w) []" by (auto simp: holds_newest_def intro: exI [of _ 0])
    moreover have "holds_newest (tabs w) (rev (map video_entry vs))" by (auto simp: holds_newest_def vs all)
    ultimately have "\<exists>zs. rds w' (timeline_key c) = stored zs \<and> holds_newest (tabs w) zs" using that(3) by blast
    with w that(1,2) show ?thesis by (auto simp: latest_kept_def latest_good_def entities_ok_def redis_frame_def)
  qed
  show ?thesis
    unfolding ZAdd_def R(2) option.case
    by (rule wp_on_zset [OF call none]) (simp_all add: new good)
qed

lemma timeline_rebuild_post:
  assumes s: "feed_ok s" and c: "c = fs_redisCache s" and some: "rdb_of c = Some r"
    and w: "latest_kept H c w0 w" and none: "rds w (timeline_key c) = stored []"
  shows "wp (rebuild_timeline s) (\<lambda>x w'. latest_kept H c w0 w' \<and>
    (\<forall>tag. x = Inr tag \<longrightarrow> (tag = ''EMPTY_DB'') = (t_videos (tabs w) = []) \<and>
      (tag \<noteq> ''EMPTY_DB'' \<longrightarrow> (\<forall>ms. reachable (timeline_key c) (rdb_ZAdd r (timeline_key c) ms)) \<longrightarrow> rds w' (timeline_key c) \<noteq> None))) w"
proof -
  have t: "times_fine (tabs w)" using w by (auto simp: latest_kept_def latest_good_def)
  have cur: "cursor_time None = time_zero" "cursor_fine None" by (simp_all add: cursor_time_def cursor_fine_def)
  have ok: "gorm_ok (fs_feedRepo s)" "cache_redis_ok c" using s c by (simp_all add: feed_ok_def)
  have len: "take 1000 (older (tabs w) None) = [] \<longleftrightarrow> t_videos (tabs w) = []"
    by (metis (no_types) after_def filter_True length_0_conv length_listing older_def option.case(1) take_eq_Nil zero_neq_numeral)
  have list: "wp (FeedRepo_ListLatest (fs_feedRepo s) 1000 time_zero) (\<lambda>x w'. quiet w w' \<and> (\<forall>vs. x = Inr vs \<longrightarrow> vs = take 1000 (older (tabs w) None))) w"
    using wp_ListLatest_cursor [OF ok(1) t _ cur(2), of 1000] unfolding cur(1) by (rule wp_mono) simp_all
  have add: "wp (ZAdd c (timeline_key c) (timeline_elements vs)) (\<lambda>x w'. latest_kept H c w0 w' \<and>
      ((\<forall>ms. reachable (timeline_key c) (rdb_ZAdd r (timeline_key c) ms)) \<longrightarrow> rds w' (timeline_key c) \<noteq> None)) w1"
    if w1: "quiet w w1" "vs = take 1000 (older (tabs w) None)" "vs \<noteq> []" for vs w1
  proof -
    have *: "tabs w1 = tabs w" "rds w1 = rds w" using w1(1) by (simp_all add: frame_defs)
    have "wp (ZAdd c (timeline_key c) (timeline_elements vs)) (\<lambda>x _. (\<forall>ms. reachable (timeline_key c) (rdb_ZAdd r (timeline_key c) ms)) \<longrightarrow> (\<forall>e. x \<noteq> Inl (ErrExternal e))) w1"
      unfolding ZAdd_def some option.case by (rule wp_mono [OF reachable_imp]) (use none * in auto)
    moreover have "wp (ZAdd c (timeline_key c) (timeline_elements vs)) (\<lambda>x w'. latest_kept H c w0 w' \<and>
        (rds w' (timeline_key c) = stored [] \<or> rds w' (timeline_key c) = stored (rev (map video_entry vs))) \<and>
        (x = Inr () \<longrightarrow> rds w' (timeline_key c) = stored (rev (map video_entry vs))) \<and> (\<forall>e. x = Inl e \<longrightarrow> (\<exists>s. e = ErrExternal s))) w1"
      by (rule ZAdd_rebuild_post [OF ok(2) some]) (use t w w1(2) none latest_kept_quiet [OF w w1(1)] * in simp_all)
    ultimately show ?thesis using w1(3) by (auto simp: wp_def stored_def split: prod.splits sum.splits) (metis sum.exhaust old.unit.exhaust)
  qed
  show ?thesis
    unfolding rebuild_timeline_def c [symmetric] wp_bindE
  proof (rule wp_mono [OF list], goal_cases)
    case (1 x w1)
    then have kept: "latest_kept H c w0 w1" using latest_kept_quiet [OF w] by blast
    show ?case
    proof (cases x)
      case (Inl e)
      with kept show ?thesis by (simp add: wp_return)
    next
      case (Inr vs)
      with 1 have vs: "quiet w w1" "vs = take 1000 (older (tabs w) None)" by auto
      show ?thesis
      proof (cases "vs = []")
        case True
        with vs len kept Inr show ?thesis by (simp add: wp_return)
      next
        case False
        show ?thesis unfolding Inr sum.case if_not_P [OF False] wp_bind
          by (rule wp_mono [OF add [OF vs False]]) (use vs len False in \<open>simp add: wp_return\<close>)
      qed
    qed
  qed
qed

section \<open>The answer\<close>

definition latest_page :: "uint \<Rightarrow> tables \<Rightarrow> int \<Rightarrow> int option \<Rightarrow> list_latest_response \<Rightarrow> bool" where
  "latest_page a t lim cu p \<longleftrightarrow> (\<exists>out. list_all2 same_video (take (nat lim) (older t cu)) out \<and>
     list_all2 (shows_video a t) (ll_VideoList p) out \<and> ll_NextTime p = next_time out \<and> ll_HasMore p = (int (length out) = lim))"

lemma latest_response_post:
  assumes "gorm_ok (fs_likeRepo s)" "latest_kept H c w0 w"
    and "list_all2 same_video (take (nat lim) (older (tabs w0) cu)) out"
  shows "wp (latest_response s lim a out) (\<lambda>r w'. latest_kept H c w0 w' \<and> (\<forall>p. r = Inr p \<longrightarrow> latest_page a (tabs w0) lim cu p)) w"
  unfolding latest_response_def wp_bindE
proof (rule wp_mono [OF wp_buildFeedVideos [OF assms(1)]], goal_cases)
  case (1 r w1)
  then have kept: "latest_kept H c w0 w1" using latest_kept_quiet [OF assms(2)] by blast
  have "tabs w = tabs w0" using assms(2) by (simp add: latest_kept_def)
  with 1 kept assms(3) show ?case by (cases r) (auto simp: wp_return latest_page_def)
qed

text \<open>A source of videos, followed by the answer.\<close>

lemma respond_post:
  assumes "gorm_ok (fs_likeRepo s)"
    and "wp m (\<lambda>r w'. latest_kept H c w0 w' \<and> (\<forall>out. r = Inr out \<longrightarrow> list_all2 same_video (take (nat lim) (older (tabs w0) cu)) out)) w"
  shows "wp (do {r \<leftarrow> bindE m (latest_response s lim a); ret (Some r)}) (\<lambda>r w'. latest_kept H c w0 w' \<and>
    (\<forall>p. r = Some (Inr p) \<longrightarrow> latest_page a (tabs w0) lim cu p) \<and> r \<noteq> None) w"
  unfolding wp_bind wp_bindE
proof (rule wp_mono [OF assms(2)], goal_cases)
  case (1 r w1)
  show ?case
  proof (cases r)
    case (Inl e)
    with 1 show ?thesis by (simp add: wp_return)
  next
    case (Inr out)
    with 1 have out: "latest_kept H c w0 w1" "list_all2 same_video (take (nat lim) (older (tabs w0) cu)) out" by auto
    show ?thesis unfolding Inr sum.case
      by (rule wp_mono [OF latest_response_post [OF assms(1) out]]) (auto simp: wp_return)
  qed
qed

lemma direct_post:
  assumes "gorm_ok G" "latest_kept H c w0 w" "0 < lim" "cursor_fine cu"
  shows "wp (FeedRepo_ListLatest G lim (cursor_time cu)) (\<lambda>r w'. latest_kept H c w0 w' \<and>
    (\<forall>out. r = Inr out \<longrightarrow> list_all2 same_video (take (nat lim) (older (tabs w0) cu)) out)) w"
proof -
  have *: "times_fine (tabs w)" "tabs w = tabs w0" using assms(2) by (auto simp: latest_kept_def latest_good_def)
  show ?thesis
    by (rule wp_mono [OF wp_ListLatest_cursor [OF assms(1) *(1) assms(3,4)]])
      (use * latest_kept_quiet [OF assms(2)] same_video_refl in auto)
qed

lemma hot_latest_kept:
  assumes "runtime_ok T" "feed_ok s" "c = fs_redisCache s" "finds (fs_feedRepo s)" "lists (fs_feedRepo s)"
    and "\<And>t. entity_codec H (is_copy t)" "0 < lim" "cursor_fine cu" "rdb_of c \<noteq> None"
    and w: "latest_kept H c w0 w" and "\<not> IsZero (cursor_time cu) \<longrightarrow> req = UnixMilli (cursor_time cu)"
  shows "wp (hot_latest H T s lim req (cursor_time cu)) (\<lambda>r w'. latest_kept H c w0 w' \<and>
    (\<forall>out. r = Inr out \<longrightarrow> list_all2 same_video (take (nat lim) (older (tabs w0) cu)) out)) w"
proof -
  have *: "latest_good H c w" "tabs w = tabs w0" "mq w = mq w0" using w by (simp_all add: latest_kept_def)
  show ?thesis
    by (rule wp_mono [OF hot_latest_post [OF assms(1-9) *(1) assms(11)]]) (use * in \<open>simp add: latest_kept_def\<close>)
qed

text \<open>One call of \<open>ListLatest\<close> with Redis: the timeline cannot be read, is missing, or is there.\<close>

lemma ListLatest_round:
  assumes R: "cache_redis_ok c" and c: "c = fs_redisCache s" "c \<noteq> None" and w: "latest_kept H c w0 w" and zs: "rds w (timeline_key c) = stored zs"
    and err: "\<And>e w1. latest_kept H c w0 w1 \<Longrightarrow> (\<And>R. rdb_of c = Some R \<Longrightarrow> \<not> reachable (timeline_key c) (rdb_ZRangeWithScores R (timeline_key c) 0 0)) \<Longrightarrow> Q (Some (Inl e)) w1"
    and empty: "\<And>w1. latest_kept H c w0 w1 \<Longrightarrow> rds w1 (timeline_key c) = stored [] \<Longrightarrow> rdb_of c \<noteq> None \<Longrightarrow> zs = [] \<Longrightarrow>
      wp (rt_tag T (Key c ''sf:fallback:global_timeline_rebuild'') (rebuild_timeline s)) (\<lambda>v w'. wp (case v of Inl err \<Rightarrow> ret (Some (Inl err))
      | Inr tag \<Rightarrow> if tag = ''EMPTY_DB'' then ret (Some (Inr \<lparr>ll_VideoList = [], ll_NextTime = 0, ll_HasMore = False\<rparr>))
          else ListLatest n H T s lim cur a) Q w') w1"
    and full: "\<And>(z :: entry) w1. latest_kept H c w0 w1 \<Longrightarrow> rdb_of c \<noteq> None \<Longrightarrow> zs \<noteq> [] \<Longrightarrow>
      wp (time_Now H) (\<lambda>now. wp (let waterMark = fst z; reqTime = (if IsZero cur then UnixMilli now else UnixMilli cur) in
       do {r \<leftarrow> bindE (if reqTime \<le> waterMark then cold_latest T s lim reqTime cur else hot_latest H T s lim reqTime cur)
             (latest_response s lim a); ret (Some r)}) Q) w1"
  shows "wp (ListLatest (Suc n) H T s lim cur a) Q w"
proof -
  have "wp (ZRangeWithScores c (timeline_key c) 0 0) (\<lambda>r _. \<forall>R. rdb_of c = Some R \<longrightarrow> reachable (timeline_key c) (rdb_ZRangeWithScores R (timeline_key c) 0 0) \<longrightarrow>
      (\<forall>s. r \<noteq> Inl (ErrExternal s))) w"
  proof (cases "rdb_of c")
    case (Some R)
    then show ?thesis unfolding ZRangeWithScores_def Some option.case by (intro wp_mono [OF reachable_imp [OF zs]]) simp
  qed (simp add: wp_def split: prod.splits)
  with ZRangeWithScores_post [OF R w zs] have "wp (ZRangeWithScores c (timeline_key c) 0 0) (\<lambda>r w'. (latest_kept H c w0 w' \<and> rds w' = rds w \<and>
      (\<forall>tail. r = Inr tail \<longrightarrow> tail = take 1 zs \<and> rdb_of c \<noteq> None)) \<and>
      (\<forall>e R. r = Inl e \<longrightarrow> rdb_of c = Some R \<longrightarrow> \<not> reachable (timeline_key c) (rdb_ZRangeWithScores R (timeline_key c) 0 0))) w"
    by (auto simp: wp_def split: prod.splits)
  then show ?thesis
    unfolding ListLatest.simps c(1) [symmetric] if_not_P [OF c(2)] wp_bind [of "ZRangeWithScores _ _ _ _"]
  proof (rule wp_mono, goal_cases)
    case (1 r w1)
    show ?case
    proof (cases r)
      case (Inl e)
      with 1 show ?thesis by (auto simp: wp_return intro: err)
    next
      case (Inr tail)
      with 1 have w1: "latest_kept H c w0 w1" "rdb_of c \<noteq> None" "rds w1 = rds w" "tail = take 1 zs" by auto
      show ?thesis
      proof (cases tail)
        case Nil
        with w1(4) have "zs = []" by (cases zs) auto
        with w1(3) zs have "rds w1 (timeline_key c) = stored []" by simp
        from empty [OF w1(1) this w1(2) \<open>zs = []\<close>] show ?thesis unfolding Inr Nil sum.case list.case wp_bind .
      next
        case (Cons z rest)
        with w1(4) have "zs \<noteq> []" by auto
        then show ?thesis unfolding Inr Cons sum.case list.case wp_bind [of "time_Now H"] by (rule full [OF w1(1,2)])
      qed
    qed
  qed
qed

lemma ListLatest_post:
  assumes T: "runtime_ok T" and H: "host_ok H" and s: "feed_ok s" and c: "c = fs_redisCache s"
    and G: "finds (fs_feedRepo s)" "lists (fs_feedRepo s)" and codec: "\<And>t. entity_codec H (is_copy t)"
    and lim: "0 < lim" and cur: "cursor_fine cu" and w: "latest_kept H c w0 w"
  shows "wp (ListLatest n H T s lim (cursor_time cu) a) (\<lambda>r w'. latest_kept H c w0 w' \<and>
    (\<forall>p. r = Some (Inr p) \<longrightarrow> latest_page a (tabs w0) lim cu p)) w"
  using w
proof (induction n arbitrary: w)
  case 0
  then show ?case by (simp add: wp_return)
next
  case (Suc n)
  let ?Q = "\<lambda>r w'. latest_kept H c w0 w' \<and> (\<forall>p. r = Some (Inr p) \<longrightarrow> latest_page a (tabs w0) lim cu p)"
  have ok: "gorm_ok (fs_feedRepo s)" "gorm_ok (fs_likeRepo s)" "cache_redis_ok c" using s c by (simp_all add: feed_ok_def)
  note direct = direct_post [OF ok(1) _ lim cur]
  from Suc.prems obtain zs where zs: "rds w (timeline_key c) = stored zs" by (auto simp: latest_kept_def latest_good_def)
  have empty: "wp (rt_tag T k (rebuild_timeline s)) (\<lambda>v w'. wp (case v of Inl err \<Rightarrow> ret (Some (Inl err))
      | Inr tag \<Rightarrow> if tag = ''EMPTY_DB'' then ret (Some (Inr \<lparr>ll_VideoList = [], ll_NextTime = 0, ll_HasMore = False\<rparr>))
          else ListLatest n H T s lim (cursor_time cu) a) ?Q w') w1"
    if w1: "latest_kept H c w0 w1" "rds w1 (timeline_key c) = stored []" "rdb_of c \<noteq> None" for w1 k
  proof -
    from w1(3) obtain r where r: "rdb_of c = Some r" by blast
    have "latest_page a (tabs w0) lim cu \<lparr>ll_VideoList = [], ll_NextTime = 0, ll_HasMore = False\<rparr>" if "t_videos (tabs w0) = []"
      using that lim by (simp add: latest_page_def older_def listing_def next_time_def)
    moreover have "tabs w1 = tabs w0" using w1(1) by (simp add: latest_kept_def)
    ultimately show ?thesis
      by (intro wp_rt_tag [OF T] wp_mono [OF timeline_rebuild_post [OF s c r w1(1,2)]])
        (use Suc.IH in \<open>auto simp: wp_return split: sum.splits\<close>)
  qed
  have full: "wp (time_Now H) (\<lambda>now. wp (let waterMark = fst z; reqTime = (if IsZero (cursor_time cu) then UnixMilli now else UnixMilli (cursor_time cu)) in
       do {r \<leftarrow> bindE (if reqTime \<le> waterMark then cold_latest T s lim reqTime (cursor_time cu) else hot_latest H T s lim reqTime (cursor_time cu))
             (latest_response s lim a); ret (Some r)}) ?Q) w1"
    if w1: "latest_kept H c w0 w1" "rdb_of c \<noteq> None" for w1 z
  proof (rule wp_time_Now [OF H], goal_cases)
    case (1 now w2)
    then have w2: "latest_kept H c w0 w2" by (rule latest_kept_quiet [OF w1(1)])
    define req where "req = (if IsZero (cursor_time cu) then UnixMilli now else UnixMilli (cursor_time cu))"
    have "wp (if req \<le> fst z then cold_latest T s lim req (cursor_time cu) else hot_latest H T s lim req (cursor_time cu))
        (\<lambda>r w'. latest_kept H c w0 w' \<and> (\<forall>out. r = Inr out \<longrightarrow> list_all2 same_video (take (nat lim) (older (tabs w0) cu)) out)) w2"
    proof (cases "req \<le> fst z")
      case True
      show ?thesis unfolding if_P [OF True] cold_latest_def by (rule wp_rt_videos [OF T direct [OF w2]])
    next
      case False
      show ?thesis unfolding if_not_P [OF False]
        by (rule hot_latest_kept [OF T s c G codec lim cur w1(2) w2]) (simp add: req_def)
    qed
    from respond_post [OF ok(2) this] show ?case
      unfolding Let_def req_def [symmetric] by (rule wp_mono) simp
  qed
  show ?case
  proof (cases "c = None")
    case True
    show ?thesis unfolding ListLatest.simps c [symmetric] if_P [OF True]
      by (rule wp_mono [OF respond_post [OF ok(2) direct [OF Suc.prems]]]) simp
  next
    case False
    show ?thesis
    proof (rule ListLatest_round [OF ok(3) c False Suc.prems zs], goal_cases)
      case (2 w1)
      from empty [OF 2(1-3)] show ?case .
    next
      case (3 z w1)
      from full [OF 3(1,2)] show ?case .
    qed simp
  qed
qed

section \<open>Answers\<close>

text \<open>The database answers, and the Redis calls of the feed reach Redis.\<close>

definition feed_reachable :: "'x feed_service \<Rightarrow> bool" where
  "feed_reachable s \<longleftrightarrow> lists (fs_feedRepo s) \<and> (\<forall>ids a. answers (GetBatchLiked (fs_likeRepo s) ids a)) \<and>
     (fs_redisCache s = None \<or> (\<exists>R. rdb_of (fs_redisCache s) = Some R \<and>
       reachable (timeline_key (fs_redisCache s)) (rdb_ZRangeWithScores R (timeline_key (fs_redisCache s)) 0 0) \<and>
       (\<forall>ms. reachable (timeline_key (fs_redisCache s)) (rdb_ZAdd R (timeline_key (fs_redisCache s)) ms)) \<and>
       (\<forall>mx lim. below_max mx 0 \<noteq> None \<longrightarrow>
         reachable (timeline_key (fs_redisCache s)) (rdb_ZRevRangeByScore R (timeline_key (fs_redisCache s)) mx ''-inf'' 0 lim))))"

lemma wp_listed: "lists G \<Longrightarrow> wp (FeedRepo_ListLatest G lim cur) (\<lambda>r _. \<exists>out. r = Inr out) w"
  by (simp add: lists_def answers_def)

lemma respond_answers:
  assumes "feed_reachable s" "wp m (\<lambda>r _. \<exists>out. r = Inr out) w"
  shows "wp (do {r \<leftarrow> bindE m (latest_response s lim a); ret (Some r)}) (\<lambda>r _. \<exists>p. r = Some (Inr p)) w"
proof -
  have sent: "wp (latest_response s lim a out) (\<lambda>r _. \<exists>p. r = Inr p) w1" for out w1
    unfolding latest_response_def buildFeedVideos_def wp_bindE
    by (rule wp_mono [where P = "\<lambda>r _. \<exists>f. r = Inr f"]) (use assms(1) in \<open>auto simp: feed_reachable_def answers_def wp_return\<close>)
  show ?thesis
    unfolding wp_bind wp_bindE
  proof (rule wp_mono [OF assms(2)], goal_cases)
    case (1 r w1)
    then obtain out where out: "r = Inr out" by blast
    show ?case unfolding out sum.case by (rule wp_mono [OF sent]) (auto simp: wp_return)
  qed
qed

lemma hot_latest_answers:
  assumes reach: "feed_reachable s" and R: "cache_redis_ok c" and c: "c = fs_redisCache s" "rdb_of c \<noteq> None"
    and w: "latest_kept H c w0 w" and cur: "cursor_fine cu" and req: "\<not> IsZero (cursor_time cu) \<longrightarrow> req = UnixMilli (cursor_time cu)"
  shows "wp (hot_latest H T s lim req (cursor_time cu)) (\<lambda>r _. \<exists>out. r = Inr out) w"
proof -
  from w obtain zs where zs: "rds w (timeline_key c) = stored zs" by (auto simp: latest_kept_def latest_good_def)
  obtain r where r: "rdb_of c = Some r" using c(2) by blast
  have mx: "(if IsZero (cursor_time cu) then ''+inf'' else FormatInt (req - 1)) = max_score cu" using req by (simp add: max_score_def)
  have "wp (ZRevRangeByScore c (timeline_key c) (max_score cu) ''-inf'' 0 lim) (\<lambda>x _.
      reachable (timeline_key c) (rdb_ZRevRangeByScore r (timeline_key c) (max_score cu) ''-inf'' 0 lim) \<longrightarrow> (\<forall>s. x \<noteq> Inl (ErrExternal s))) w"
    unfolding ZRevRangeByScore_def r option.case by (rule reachable_imp [OF zs])
  moreover have "reachable (timeline_key c) (rdb_ZRevRangeByScore r (timeline_key c) (max_score cu) ''-inf'' 0 lim)"
    using reach c r below_max_score [OF cur, of 0] by (auto simp: feed_reachable_def rdb_of_def)
  ultimately have "wp (ZRevRangeByScore c (timeline_key c) (max_score cu) ''-inf'' 0 lim) (\<lambda>x _. \<exists>members. x = Inr members) w"
    using ZRevRangeByScore_post [OF R w zs cur c(2), of lim] by (auto simp: wp_def split: prod.splits sum.splits) (metis sum.exhaust)
  then show ?thesis
    unfolding hot_latest_def Let_def c(1) [symmetric] mx wp_bindE
    by (rule wp_mono) (auto simp: wp_def split: prod.splits)
qed

lemma rebuild_answers: "feed_reachable s \<Longrightarrow> wp (rebuild_timeline s) (\<lambda>r _. \<exists>tag. r = Inr tag) w"
  unfolding rebuild_timeline_def wp_bindE
  by (rule wp_mono [OF wp_listed]) (auto simp: feed_reachable_def wp_def split: prod.splits)

lemma ListLatest_answers:
  assumes T: "runtime_ok T" and H: "host_ok H" and s: "feed_ok s" and reach: "feed_reachable s" and cur: "cursor_fine cu"
    and w: "latest_kept H (fs_redisCache s) w0 w"
  shows "wp (ListLatest 2 H T s lim (cursor_time cu) a) (\<lambda>r _. \<exists>p. r = Some (Inr p)) w"
proof -
  define c where "c = fs_redisCache s"
  note w = w [folded c_def]
  have ok: "gorm_ok (fs_feedRepo s)" "cache_redis_ok c" using s by (simp_all add: feed_ok_def c_def)
  have lists: "lists (fs_feedRepo s)" using reach by (simp add: feed_reachable_def)
  have round: "wp (ListLatest (Suc n) H T s lim (cursor_time cu) a) (\<lambda>r _. \<exists>p. r = Some (Inr p)) w1"
    if w1: "latest_kept H c w0 w1" and zs: "rds w1 (timeline_key c) = stored zs"
      and again: "\<And>w2. zs = [] \<Longrightarrow> c \<noteq> None \<Longrightarrow> latest_kept H c w0 w2 \<Longrightarrow> rds w2 (timeline_key c) \<noteq> None \<Longrightarrow>
        wp (ListLatest n H T s lim (cursor_time cu) a) (\<lambda>r _. \<exists>p. r = Some (Inr p)) w2" for n w1 zs
  proof (cases "c = None")
    case True
    show ?thesis unfolding ListLatest.simps c_def [symmetric] if_P [OF True] by (rule respond_answers [OF reach wp_listed [OF lists]])
  next
    case False
    with reach obtain R where R: "rdb_of c = Some R" "reachable (timeline_key c) (rdb_ZRangeWithScores R (timeline_key c) 0 0)"
        "\<And>ms. reachable (timeline_key c) (rdb_ZAdd R (timeline_key c) ms)" by (auto simp: feed_reachable_def c_def)
    show ?thesis
    proof (rule ListLatest_round [OF ok(2) c_def False w1 zs], goal_cases)
      case (1 e w2)
      with R show ?case by blast
    next
      case (2 w2)
      from 2(4) have *: "wp (rebuild_timeline s) (\<lambda>x w'. latest_kept H c w0 w' \<and> (\<exists>tag. x = Inr tag \<and> (tag \<noteq> ''EMPTY_DB'' \<longrightarrow> rds w' (timeline_key c) \<noteq> None))) w2"
        using timeline_rebuild_post [OF s c_def R(1) 2(1,2)] rebuild_answers [OF reach, of w2] R(3) by (auto simp: wp_def split: prod.splits)
      show ?case by (rule wp_rt_tag [OF T], rule wp_mono [OF *]) (use again [OF 2(4) False] in \<open>auto simp: wp_return\<close>)
    next
      case (3 z w2)
      show ?case
      proof (rule wp_time_Now [OF H], goal_cases)
        case (1 now w3)
        then have w3: "latest_kept H c w0 w3" by (rule latest_kept_quiet [OF 3(1)])
        define req where "req = (if IsZero (cursor_time cu) then UnixMilli now else UnixMilli (cursor_time cu))"
        have "wp (if req \<le> fst z then cold_latest T s lim req (cursor_time cu) else hot_latest H T s lim req (cursor_time cu)) (\<lambda>r _. \<exists>out. r = Inr out) w3"
          using wp_rt_videos [OF T wp_listed [OF lists]] hot_latest_answers [OF reach ok(2) c_def 3(2) w3 cur, of req]
          by (simp add: cold_latest_def req_def)
        then show ?case unfolding Let_def req_def [symmetric] by (rule respond_answers [OF reach])
      qed
    qed
  qed
  obtain zs where zs: "rds w (timeline_key c) = stored zs" using w by (auto simp: latest_kept_def latest_good_def)
  show ?thesis
    unfolding numeral_2_eq_2
  proof (rule round [OF w zs])
    fix w2 assume w2: "latest_kept H c w0 w2" "rds w2 (timeline_key c) \<noteq> None"
    then obtain zs' where zs': "rds w2 (timeline_key c) = stored zs'" "zs' \<noteq> []"
      by (auto simp: latest_kept_def latest_good_def stored_def split: if_splits)
    then show "wp (ListLatest (Suc 0) H T s lim (cursor_time cu) a) (\<lambda>r _. \<exists>p. r = Some (Inr p)) w2"
      by (intro round [OF w2(1) zs'(1)]) simp
  qed
qed

section \<open>The client's view\<close>

text \<open>An item shows a video: itself, or a copy with counts of an earlier time.\<close>

definition shows_copy :: "uint \<Rightarrow> tables \<Rightarrow> feed_item \<Rightarrow> video \<Rightarrow> bool" where
  "shows_copy a t item x \<longleftrightarrow> (\<exists>v. same_video x v \<and> shows_video a t item v)"

lemma shows_copies: "list_all2 same_video xs vs \<Longrightarrow> list_all2 (shows_video a t) items vs \<Longrightarrow> list_all2 (shows_copy a t) items xs"
  by (auto simp: list_all2_conv_all_nth shows_copy_def) blast

type_synonym 'x latest_env = "'x host \<times> 'x runtime \<times> 'x feed_service \<times> gin_ctx \<times> int"

definition latest_fetch :: "'x latest_env \<Rightarrow> ('x, int, feed_item) fetch" where
  "latest_fetch E c = (case E of (H, T, s, ctx, lim) \<Rightarrow> do {
     r \<leftarrow> FeedHandler_ListLatest 2 H T s (Inr (lim, case c of None \<Rightarrow> 0 | Some t \<Rightarrow> t)) ctx;
     ret (case r of
       None \<Rightarrow> Inl (ErrNew ''no answer'')
     | Some a \<Rightarrow> map_sum id (\<lambda>p. (ll_VideoList p, Some (ll_NextTime p), ll_HasMore p)) (answer a))})"

definition latest_env_ok :: "'x latest_env \<Rightarrow> bool" where
  "latest_env_ok E \<longleftrightarrow> (case E of (H, T, s, ctx, lim) \<Rightarrow>
     runtime_ok T \<and> host_ok H \<and> feed_ok s \<and> finds (fs_feedRepo s) \<and> lists (fs_feedRepo s) \<and> (\<forall>t. entity_codec H (is_copy t)))"

definition latest_limit :: "'x latest_env \<Rightarrow> int" where
  "latest_limit E = (case E of (H, T, s, ctx, lim) \<Rightarrow> page_limit lim)"

definition latest_fine :: "'x latest_env \<Rightarrow> 'x world \<Rightarrow> bool" where
  "latest_fine E w \<longleftrightarrow> (case E of (H, T, s, ctx, lim) \<Rightarrow> latest_good H (fs_redisCache s) w)"

definition latest_rows :: "'x latest_env \<Rightarrow> tables \<Rightarrow> video list" where
  "latest_rows E t = t_videos t"

definition latest_shows :: "'x latest_env \<Rightarrow> tables \<Rightarrow> feed_item \<Rightarrow> video \<Rightarrow> bool" where
  "latest_shows E t = (case E of (H, T, s, ctx, lim) \<Rightarrow> shows_copy (viewer ctx) t)"

lemmas latest_env_defs = latest_env_ok_def latest_limit_def latest_fine_def latest_rows_def latest_shows_def

lemma latest_pageD:
  assumes t: "times_fine t" and lim: "0 < lim" and p: "latest_page a t lim c p"
  shows "\<exists>out. is_page ms (t_videos t) lim c out \<and> list_all2 (shows_copy a t) (ll_VideoList p) out \<and>
    (out \<noteq> [] \<longrightarrow> ll_NextTime p = ms (last out)) \<and> ll_HasMore p = (int (length out) = lim)"
proof -
  from p obtain vs where vs: "list_all2 same_video (take (nat lim) (older t c)) vs" "list_all2 (shows_video a t) (ll_VideoList p) vs"
      "ll_NextTime p = next_time vs" "ll_HasMore p = (int (length vs) = lim)" by (auto simp: latest_page_def)
  let ?out = "take (nat lim) (older t c)"
  have len: "length ?out = length vs" by (rule list_all2_lengthD [OF vs(1)])
  have "is_page ms (t_videos t) lim c ?out"
    unfolding is_page_def query_result_def
    using lim by (intro exI [of _ "older t c"]) (auto simp: older_def limit_rows_def mset_filter intro: sorted_wrt_filter [OF listing_sorted])
  moreover have "ll_NextTime p = ms (last ?out)" if "?out \<noteq> []"
  proof -
    have "vs \<noteq> []" using that len by (metis length_0_conv)
    have "same_video (last ?out) (last vs)" by (rule list_all2_last [OF vs(1) that])
    with vs(3) \<open>vs \<noteq> []\<close> show ?thesis by (simp add: next_time_def same_video_def ms_def)
  qed
  ultimately show ?thesis using shows_copies [OF vs(1,2)] vs(4) len by auto
qed

interpretation latest_feed: paged_feed latest_env_ok latest_limit latest_fetch latest_fine latest_rows ms latest_shows
proof (unfold_locales, goal_cases)
  case (1 E)
  then show ?case by (cases E) (simp add: latest_env_defs page_limit_pos)
next
  case (2 E w)
  then show ?case by (cases E) (auto simp: latest_env_defs latest_good_def times_fineD)
next
  case (3 E w c)
  obtain H T s ctx lim where E: "E = (H, T, s, ctx, lim)" by (cases E)
  from 3(1) have ok: "runtime_ok T" "host_ok H" "feed_ok s" "finds (fs_feedRepo s)" "lists (fs_feedRepo s)" "\<And>t. entity_codec H (is_copy t)"
    by (simp_all add: latest_env_ok_def E)
  from 3(2) have good: "latest_kept H (fs_redisCache s) w w" and t: "times_fine (tabs w)"
    by (auto simp: latest_fine_def E latest_kept_def latest_good_def)
  from 3(3) t have cur: "cursor_fine c" by (auto simp: latest_rows_def cursor_fine_def dest: times_fineD)
  then have arg: "(if (case c of None \<Rightarrow> 0 | Some t \<Rightarrow> t) > 0 then time_UnixMilli (case c of None \<Rightarrow> 0 | Some t \<Rightarrow> t) else time_zero) = cursor_time c"
    by (cases c) (simp_all add: cursor_fine_def cursor_time_def)
  show ?case
    unfolding latest_fetch_def E prod.case FeedHandler_ListLatest_def sum.case arg wp_bind wp_return
  proof (rule wp_mono [OF ListLatest_post [OF ok(1-3) refl ok(4-6) page_limit_pos cur good]], goal_cases)
    case (1 r w')
    then have kept: "latest_good H (fs_redisCache s) w'" "tabs w' = tabs w" by (simp_all add: latest_kept_def)
    have "\<exists>out. is_page ms (latest_rows (H, T, s, ctx, lim) (tabs w)) (latest_limit (H, T, s, ctx, lim)) c out \<and>
        list_all2 (latest_shows (H, T, s, ctx, lim) (tabs w)) items out \<and> (out \<noteq> [] \<longrightarrow> nxt = Some (ms (last out))) \<and>
        more = (int (length out) = latest_limit (H, T, s, ctx, lim))"
      if "r = Some (Inr p)" "(items, nxt, more) = (ll_VideoList p, Some (ll_NextTime p), ll_HasMore p)" for p items nxt more
      using 1 that latest_pageD [OF t page_limit_pos, of "viewer ctx" lim c p] by (auto simp: latest_env_defs)
    with kept show ?case
      by (cases r) (auto simp: latest_fine_def answer_def failed_def split: sum.splits)
  qed
qed

lemma latest_served:
  assumes "runtime_ok T" "host_ok H" "feed_ok s" "feed_reachable s"
  shows "served (latest_fine (H, T, s, ctx, lim)) (\<lambda>t. ms ` set (t_videos t)) (latest_fetch (H, T, s, ctx, lim))"
  unfolding served_def
proof (intro allI impI ballI)
  fix w c assume w: "latest_fine (H, T, s, ctx, lim) w" and c: "c \<in> insert None (Some ` ms ` set (t_videos (tabs w)))"
  then have good: "latest_kept H (fs_redisCache s) w w" and t: "times_fine (tabs w)"
    by (auto simp: latest_fine_def latest_kept_def latest_good_def)
  from c t have cur: "cursor_fine c" by (auto simp: cursor_fine_def dest: times_fineD)
  then have arg: "(if (case c of None \<Rightarrow> 0 | Some t \<Rightarrow> t) > 0 then time_UnixMilli (case c of None \<Rightarrow> 0 | Some t \<Rightarrow> t) else time_zero) = cursor_time c"
    by (cases c) (simp_all add: cursor_fine_def cursor_time_def)
  show "wp (latest_fetch (H, T, s, ctx, lim) c) (\<lambda>r _. \<exists>a. r = Inr a) w"
    unfolding latest_fetch_def prod.case FeedHandler_ListLatest_def sum.case arg wp_bind wp_return
    by (rule wp_mono [OF ListLatest_answers [OF assms cur good]]) (auto simp: answer_def)
qed


section \<open>Whether ListLatest returns\<close>

lemma wp_Some: "wp (do {r \<leftarrow> m; ret (Some r)}) (\<lambda>r _. r \<noteq> None) w"
  by (simp add: wp_def split: prod.splits)

lemma ListLatest_filled:
  assumes "host_ok H" "cache_redis_ok c" "c = fs_redisCache s" "latest_kept H c w0 w" "rds w (timeline_key c) = stored zs" "zs \<noteq> []"
  shows "wp (ListLatest (Suc n) H T s lim cur a) (\<lambda>r _. r \<noteq> None) w"
proof (cases "c = None")
  case True
  show ?thesis unfolding ListLatest.simps assms(3) [symmetric] if_P [OF True] by (rule wp_Some)
next
  case False
  show ?thesis
  proof (rule ListLatest_round [OF assms(2,3) False assms(4,5)], goal_cases)
    case (3 z w1)
    show ?case unfolding Let_def by (rule wp_time_Now [OF assms(1)]) (rule wp_Some)
  qed (use assms(6) in simp_all)
qed

text \<open>
  C12. \<open>ListLatest\<close> returns: when the members of a missing timeline reach Redis, two calls are
  enough, one that rebuilds the timeline and one that reads it.
\<close>

theorem ListLatest_returns:
  assumes "runtime_ok T" "host_ok H" "feed_ok s" "latest_good H (fs_redisCache s) w"
    and "\<forall>R ms. rdb_of (fs_redisCache s) = Some R \<longrightarrow> reachable (timeline_key (fs_redisCache s)) (rdb_ZAdd R (timeline_key (fs_redisCache s)) ms)"
    and "2 \<le> n"
  shows "fst (run_state (ListLatest n H T s lim cur a) w) \<noteq> None"
proof -
  define c where "c = fs_redisCache s"
  obtain k where k: "n = Suc (Suc k)" using assms(6) by (metis Suc_le_D numeral_2_eq_2 Suc_le_mono)
  have R: "cache_redis_ok c" and w: "latest_kept H c w w" using assms(3,4) by (simp_all add: c_def feed_ok_def latest_kept_def)
  then obtain zs where zs: "rds w (timeline_key c) = stored zs" by (auto simp: latest_kept_def latest_good_def)
  have again: "wp (ListLatest (Suc k) H T s lim cur a) (\<lambda>r _. r \<noteq> None) w1"
    if "latest_kept H c w w1" "rds w1 (timeline_key c) \<noteq> None" for w1
  proof -
    from that obtain zs where "rds w1 (timeline_key c) = stored zs" "zs \<noteq> []"
      by (auto simp: latest_kept_def latest_good_def stored_def split: if_splits)
    from ListLatest_filled [OF assms(2) R c_def that(1) this] show ?thesis .
  qed
  have rebuild: "wp (rt_tag T key (rebuild_timeline s)) (\<lambda>v w'. wp (case v of Inl err \<Rightarrow> ret (Some (Inl err))
      | Inr tag \<Rightarrow> if tag = ''EMPTY_DB'' then ret (Some (Inr \<lparr>ll_VideoList = [], ll_NextTime = 0, ll_HasMore = False\<rparr>))
          else ListLatest (Suc k) H T s lim cur a) (\<lambda>r _. r \<noteq> None) w') w1"
    if w1: "latest_kept H c w w1" "rds w1 (timeline_key c) = stored []" "rdb_of c \<noteq> None" for w1 key
  proof -
    from w1(3) obtain r where r: "rdb_of c = Some r" by blast
    with assms(5) have "\<forall>ms. reachable (timeline_key c) (rdb_ZAdd r (timeline_key c) ms)" by (simp add: c_def)
    then show ?thesis
      by (intro wp_rt_tag [OF assms(1)] wp_mono [OF timeline_rebuild_post [OF assms(3) c_def r w1(1,2)]])
        (use again in \<open>auto simp: wp_return split: sum.splits\<close>)
  qed
  have "wp (ListLatest n H T s lim cur a) (\<lambda>r _. r \<noteq> None) w"
  proof (cases "zs = [] \<and> c \<noteq> None")
    case False
    then show ?thesis
    proof (cases "c = None")
      case True
      show ?thesis unfolding k ListLatest.simps c_def [symmetric] if_P [OF True] by (rule wp_Some)
    qed (unfold k, rule ListLatest_filled [OF assms(2) R c_def w zs], blast)
  next
    case True
    then have c: "c \<noteq> None" and zs': "rds w (timeline_key c) = stored []" using zs by auto
    show ?thesis unfolding k
      by (rule ListLatest_round [OF R c_def c w zs'], simp, rule rebuild, assumption+, simp)
  qed
  then show ?thesis by (simp add: wp_def split: prod.splits)
qed

lemma rebuild_refused:
  assumes s: "feed_ok s" and c: "c = fs_redisCache s" and some: "rdb_of c = Some r"
    and w: "latest_kept H c w0 w" and none: "rds w (timeline_key c) = stored []" and rows: "t_videos (tabs w) \<noteq> []"
    and L: "lists (fs_feedRepo s)" and refuses: "\<And>ms w. wp (rdb_ZAdd r (timeline_key c) ms) (\<lambda>_ w'. redis_frame w w' \<and> rds w' = rds w) w"
  shows "wp (rebuild_timeline s) (\<lambda>x w'. latest_kept H c w0 w' \<and> rds w' = rds w \<and> (\<exists>tag. x = Inr tag \<and> tag \<noteq> ''EMPTY_DB'')) w"
proof -
  have t: "times_fine (tabs w)" using w by (auto simp: latest_kept_def latest_good_def)
  have cur: "cursor_time None = time_zero" "cursor_fine None" by (simp_all add: cursor_time_def cursor_fine_def)
  have ok: "gorm_ok (fs_feedRepo s)" using s by (simp add: feed_ok_def)
  have len: "take 1000 (older (tabs w) None) \<noteq> []"
    using rows by (metis (no_types) after_def filter_True length_0_conv length_listing older_def option.case(1) take_eq_Nil zero_neq_numeral)
  have list: "wp (FeedRepo_ListLatest (fs_feedRepo s) 1000 time_zero) (\<lambda>x w'. quiet w w' \<and> (\<exists>vs. x = Inr vs \<and> vs \<noteq> [])) w"
    by (rule wp_mono [OF wp_ListLatest_cursor [OF ok t _ cur(2), unfolded cur(1)]]) (use L len in auto)
  have add: "wp (ZAdd c (timeline_key c) ms) (\<lambda>x w'. latest_kept H c w0 w' \<and> rds w' = rds w) w1" if "quiet w w1" for ms w1
    unfolding ZAdd_def some option.case
    by (rule wp_mono [OF refuses]) (use that latest_kept_redis [OF latest_kept_quiet [OF w that]] in \<open>simp add: quiet_def same_redis_def\<close>)
  show ?thesis
    unfolding rebuild_timeline_def c [symmetric] wp_bindE
  proof (rule wp_mono [OF list], goal_cases)
    case (1 x w1)
    then obtain vs where vs: "x = Inr vs" "vs \<noteq> []" "quiet w w1" by blast
    show ?case unfolding vs(1) sum.case if_not_P [OF vs(2)] wp_bind
      by (rule wp_mono [OF add [OF vs(3)]]) (simp add: wp_return)
  qed
qed

text \<open>
  C13. The error of the \<open>ZADD\<close> that rebuilds the timeline is dropped. While Redis answers reads and
  refuses this write (memory full, a read-only replica), \<open>ListLatest\<close> calls itself for ever:
  no number of calls is enough.
\<close>

theorem ListLatest_never_returns:
  assumes "runtime_ok T" "feed_ok s" "latest_good H (fs_redisCache s) w" "t_videos (tabs w) \<noteq> []" "lists (fs_feedRepo s)"
    and "rdb_of (fs_redisCache s) = Some R" "rds w (timeline_key (fs_redisCache s)) = None"
    and "reachable (timeline_key (fs_redisCache s)) (rdb_ZRangeWithScores R (timeline_key (fs_redisCache s)) 0 0)"
    and "\<forall>ms w. wp (rdb_ZAdd R (timeline_key (fs_redisCache s)) ms) (\<lambda>_ w'. redis_frame w w' \<and> rds w' = rds w) w"
  shows "fst (run_state (ListLatest n H T s lim cur a) w) = None"
proof -
  define c where "c = fs_redisCache s"
  note c = assms(6,8,9) [folded c_def]
  have ok: "cache_redis_ok c" "c \<noteq> None" using assms(2) c(1) by (auto simp: feed_ok_def c_def rdb_of_def split: option.splits)
  have "wp (ListLatest n H T s lim cur a) (\<lambda>r _. r = None) w'" if "latest_kept H c w w'" "rds w' (timeline_key c) = stored []" for w'
    using that
  proof (induction n arbitrary: w')
    case (Suc n)
    have rows: "t_videos (tabs w1) \<noteq> []" if "latest_kept H c w w1" for w1 using that assms(4) by (simp add: latest_kept_def)
    show ?case
    proof (rule ListLatest_round [OF ok(1) c_def ok(2) Suc.prems], goal_cases)
      case (2 w1)
      show ?case
        by (intro wp_rt_tag [OF assms(1)] wp_mono [OF rebuild_refused [OF assms(2) c_def c(1) 2(1,2) rows [OF 2(1)] assms(5)]])
          (use c(3) 2(2) Suc.IH in auto)
    qed (use c in simp_all)
  qed (simp add: wp_return)
  moreover have "latest_kept H c w w" "rds w (timeline_key c) = stored []"
    using assms(3,7) by (simp_all add: latest_kept_def c_def stored_def)
  ultimately have "wp (ListLatest n H T s lim cur a) (\<lambda>r _. r = None) w" by blast
  then show ?thesis by (simp add: wp_def split: prod.splits)
qed

end
