(* ===== verification/FeedWitness.thy ===== *)
theory FeedWitness
  imports FeedLatest VideoDetail
begin

text \<open>
  Concrete runs of the feeds: a database and a Redis that are reachable, an in-memory cache and a
  runtime, three videos, and clients that read them two at a time.
\<close>

section \<open>The parameters\<close>

definition sure_find :: "(tables \<Rightarrow> 'r list) \<Rightarrow> ('r \<Rightarrow> bool) \<Rightarrow> ('r \<Rightarrow> 'r \<Rightarrow> bool) \<Rightarrow> int \<Rightarrow> (ref_hid, 'r list res) io" where
  "sure_find get P ord lim = State (\<lambda>w. (Inr (ref_query P ord lim (get (tabs w))), w))"

lemma sure_find_ok: "find_ok get (sure_find get)"
  by (auto simp: find_ok_def sure_find_def wp_def frame_defs ref_query_result)

lemma wp_sure_find: "wp (sure_find get P ord lim) Q w \<longleftrightarrow> Q (Inr (ref_query P ord lim (get (tabs w)))) w"
  by (simp add: sure_find_def wp_def)

definition sure_gorm :: "ref_hid gorm" where
  "sure_gorm = steady_gorm\<lparr>db_videos := (db_videos steady_gorm)\<lparr>db_find := sure_find t_videos\<rparr>,
     db_likes := (db_likes steady_gorm)\<lparr>db_find := sure_find t_likes\<rparr>\<rparr>"

lemma sure_gorm_ok: "gorm_ok sure_gorm"
  using steady_gorm_ok by (simp add: gorm_ok_def table_ok_def videos_queries_ok_def sure_gorm_def Let_def sure_find_ok)

lemma sure_gorm_lists: "lists sure_gorm"
  by (simp add: lists_def answers_def FeedRepo_ListLatest_def sure_gorm_def wp_sure_find)

lemma sure_gorm_finds: "finds sure_gorm"
proof -
  have "sort_by ord (filter P xs) \<noteq> []" if "v \<in> set xs" "P v" for ord P v and xs :: "video list"
    using that by (auto simp: filter_empty_conv)
  then show ?thesis
    by (auto simp: finds_def has_video_def FeedRepo_GetByID_def sure_gorm_def steady_gorm_def wp_def split: list.splits)
qed

definition ref_local :: "ref_hid local_cache" where
  "ref_local = \<lparr>lc_Get = (\<lambda>k. State (\<lambda>w. (local_videos (mem w) k, w))),
     lc_Set = (\<lambda>k v t. State (\<lambda>w. ((), w\<lparr>mem := (mem w)\<lparr>local_videos := (local_videos (mem w))(k \<mapsto> v)\<rparr>\<rparr>)))\<rparr>"

lemma ref_local_ok: "local_ok ref_local"
  by (simp add: local_ok_def ref_local_def wp_def frame_defs local_set_def)

definition ref_runtime :: "ref_hid runtime" where
  "ref_runtime = \<lparr>rt_go = id, rt_order = id, rt_video = (\<lambda>k f. f), rt_videos = (\<lambda>k f. f), rt_tag = (\<lambda>k f. f),
     rt_sleep = ret (), rt_following = table_codec []\<rparr>"

lemma ref_runtime_ok: "runtime_ok ref_runtime"
  by (simp add: runtime_ok_def ref_runtime_def wp_return frame_defs)

definition feed_host :: "ref_hid host" where
  "feed_host = ref_host [] [] [] [] [] [(sample_video\<lparr>v_ID := 1\<rparr>, ''video 1'')]"

lemma feed_host_ok: "host_ok feed_host"
  unfolding feed_host_def by (rule ref_host_ok) auto

lemma feed_codec: "entity_codec feed_host P"
  by (auto simp: entity_codec_def feed_host_def ref_host_def table_codec_def split: if_splits)

definition sample_feed :: "ref_hid cache \<Rightarrow> ref_hid feed_service" where
  "sample_feed c = NewFeedService ref_local sure_gorm sure_gorm c"

lemma sample_feed_fields [simp]:
  "fs_feedRepo (sample_feed c) = sure_gorm" "fs_likeRepo (sample_feed c) = sure_gorm" "fs_redisCache (sample_feed c) = c"
  "fs_localCache (sample_feed c) = ref_local"
  by (simp_all add: sample_feed_def NewFeedService_def)

lemma sample_feed_ok: "cache_redis_ok c \<Longrightarrow> feed_ok (sample_feed c)"
  by (simp add: feed_ok_def sure_gorm_ok ref_local_ok)

definition three_videos :: "video list" where
  "three_videos = [sample_video\<lparr>v_ID := 1, v_LikesCount := 5\<rparr>, sample_video\<lparr>v_ID := 2, v_CreateTime := 8000000, v_Popularity := 9\<rparr>,
     sample_video\<lparr>v_ID := 3, v_CreateTime := 9000000, v_LikesCount := 5\<rparr>]"

definition feed_world :: ref_world where
  "feed_world = ref_start [] (no_tables\<lparr>t_videos := three_videos\<rparr>)"

lemma three_wf: "table_wf video_schema three_videos"
  by (simp add: three_videos_def table_wf_def schema_defs sample_video_def)

lemma feed_world_rows [simp]: "t_videos (tabs feed_world) = three_videos"
  by (simp add: feed_world_def ref_start_def)

lemma nobody: "viewer Map.empty = 0"
  by (simp add: viewer_def GetAccountID_def)

lemma shown_ids: "list_all2 (shows_video a t) items vs \<Longrightarrow> map fi_ID items = map v_ID vs"
  by (induction rule: list_all2_induct) (simp_all add: shows_video_def make_feed_item_def)

section \<open>The runs\<close>

lemma likes_served: "served (likes_fine (sample_feed None, Map.empty, 2)) (\<lambda>t. likes_key ` set (t_videos t)) (likes_fetch (sample_feed None, Map.empty, 2))"
  unfolding served_def
proof (intro allI impI ballI)
  fix w c assume "likes_fine (sample_feed None, Map.empty :: gin_ctx, 2) w" "c \<in> insert None (Some ` likes_key ` set (t_videos (tabs w)))"
  note cur = parse_likes_cursor_key [OF this(1)]
  have "c = None \<or> (\<exists>x\<in>set (t_videos (tabs w)). c = Some (likes_key x))"
    using \<open>c \<in> insert None (Some ` likes_key ` set (t_videos (tabs w)))\<close> by auto
  from cur [OF this] show "wp (likes_fetch (sample_feed None, Map.empty, 2) c) (\<lambda>r _. \<exists>a. r = Inr a) w"
    by (simp add: likes_fetch_def FeedHandler_ListLikesCount_def FeedService_ListLikesCount_def FeedRepo_ListLikesCount_def buildFeedVideos_def
        GetBatchLiked_def nobody sure_gorm_def wp_simps wp_sure_find answer_def)
qed

theorem ListLikesCount_pages_witness:
  "\<exists>items. fst (run_state (follow (likes_fetch (sample_feed None, Map.empty, 2)) 2 None) feed_world) = Inr items \<and> map fi_ID items = [3, 1, 2]"
proof -
  let ?run = "run_state (follow (likes_fetch (sample_feed None, Map.empty, 2)) 2 None) feed_world"
  have run: "?run = (fst ?run, snd ?run)" by simp
  have "listing likes_key three_videos = [three_videos ! 2, three_videos ! 0, three_videos ! 1]"
    by (simp add: listing_def three_videos_def sample_video_def likes_key_def less_eq_prod_def)
  moreover have "\<forall>v \<in> set three_videos. 0 \<le> v_LikesCount v" by (simp add: three_videos_def sample_video_def)
  ultimately show ?thesis
    using ListLikesCount_pages [of "sample_feed None" feed_world 2 2 Map.empty, OF _ _ _ _ _ run] likes_served three_wf
    by (force simp: sure_gorm_ok page_limit_def three_videos_def dest: shown_ids)
qed

lemma popularity_sent:
  assumes "0 \<le> p" "i = None \<and> IsZero t \<or> (\<exists>k. i = Some k \<and> 0 < k \<and> \<not> IsZero t)"
  shows "wp (FeedHandler_ListByPopularity H (sample_feed None) (Inr (lim, 0, 0, i, p, t)) Map.empty) (\<lambda>r _. \<exists>x. r = Sent x) w"
proof -
  have sent: "wp (popularity_fallback (sample_feed None) l 0 p t j) (\<lambda>r _. \<exists>x. case_sum failed Sent r = Sent x) w" for l p t j w
    by (simp add: popularity_fallback_def popularity_response_def FeedRepo_ListByPopularity_def buildFeedVideos_def GetBatchLiked_def
        sure_gorm_def wp_simps wp_sure_find)
  have "\<exists>q u j. FeedHandler_ListByPopularity H (sample_feed None) (Inr (lim, 0, 0, i, p, t)) Map.empty =
      do {r \<leftarrow> popularity_fallback (sample_feed None) (page_limit lim) 0 q u j; ret (case_sum failed Sent r)}"
    using assms by (auto simp: FeedHandler_ListByPopularity_def FeedService_ListByPopularity_def nobody) blast
  then obtain q u j where call: "FeedHandler_ListByPopularity H (sample_feed None) (Inr (lim, 0, 0, i, p, t)) Map.empty =
      do {r \<leftarrow> popularity_fallback (sample_feed None) (page_limit lim) 0 q u j; ret (case_sum failed Sent r)}" by blast
  show ?thesis unfolding call wp_bind wp_return by (rule sent)
qed

lemma popularity_served:
  "served (popularity_fine (sample_feed None, Map.empty, 2)) (\<lambda>t. popularity_key ` set (t_videos t)) (popularity_fetch H (sample_feed None, Map.empty, 2))"
  unfolding served_def
proof (intro allI impI ballI)
  fix w c assume "popularity_fine (sample_feed None, Map.empty :: gin_ctx, 2) w" "c \<in> insert None (Some ` popularity_key ` set (t_videos (tabs w)))"
  then have c: "c = None \<or> (\<exists>x. c = Some (popularity_key x) \<and> 0 \<le> v_Popularity x \<and> \<not> IsZero (v_CreateTime x) \<and> 0 < v_ID x)"
    by (auto simp: popularity_fine_def dest: video_id_pos)
  have "IsZero time_zero" by (simp add: IsZero_def)
  with c obtain i p t where req: "(case c of None \<Rightarrow> (2, 0, 0, None, 0, time_zero) | Some (p, t, i) \<Rightarrow> (2 :: int, 0 :: int, 0 :: int, Some i, p, t)) = (2, 0, 0, i, p, t)"
      and *: "0 \<le> p" "i = None \<and> IsZero t \<or> (\<exists>k. i = Some k \<and> 0 < k \<and> \<not> IsZero t)"
    by (auto simp: popularity_key_def)
  show "wp (popularity_fetch H (sample_feed None, Map.empty, 2) c) (\<lambda>r _. \<exists>a. r = Inr a) w"
    unfolding popularity_fetch_def prod.case req wp_bind wp_return
    by (rule wp_mono [OF popularity_sent [OF *]]) (auto simp: answer_def)
qed

theorem ListByPopularity_pages_witness:
  "\<exists>items. fst (run_state (follow (popularity_fetch feed_host (sample_feed None, Map.empty, 2)) 2 None) feed_world) = Inr items \<and>
     map fi_ID items = [2, 3, 1]"
proof -
  let ?run = "run_state (follow (popularity_fetch feed_host (sample_feed None, Map.empty, 2)) 2 None) feed_world"
  have run: "?run = (fst ?run, snd ?run)" by simp
  have "listing popularity_key three_videos = [three_videos ! 1, three_videos ! 2, three_videos ! 0]"
    by (simp add: listing_def three_videos_def sample_video_def popularity_key_def less_eq_prod_def)
  moreover have "\<forall>v \<in> set three_videos. 0 \<le> v_Popularity v \<and> \<not> IsZero (v_CreateTime v)"
    by (simp add: three_videos_def sample_video_def IsZero_def time_zero_def)
  ultimately show ?thesis
    using ListByPopularity_pages [of "sample_feed None" feed_world 2 2 feed_host Map.empty, OF _ _ _ _ _ _ run] popularity_served three_wf
    by (force simp: sure_gorm_ok page_limit_def three_videos_def dest: shown_ids)
qed

lemma feed_world_entities: "entities_ok H c P feed_world"
  by (simp add: entities_ok_def feed_world_def ref_start_def no_memory_def)


lemma three_fine: "times_fine (tabs feed_world)"
  using three_wf by (simp add: times_fine_def three_videos_def sample_video_def ms_def UnixMilli_def)

lemma feed_world_good: "latest_good H c feed_world"
proof -
  have "rds feed_world (timeline_key c) = stored []" by (simp add: feed_world_def ref_start_def stored_def)
  moreover have "holds_newest (tabs feed_world) []" by (auto simp: holds_newest_def intro: exI [of _ 0])
  ultimately show ?thesis using three_fine feed_world_entities by (auto simp: latest_good_def)
qed

lemma sure_cmd_reachable:
  assumes "\<And>now db. db k = stored zs \<Longrightarrow> \<exists>x. fst (f now db) = Inr x"
  shows "rds w k = stored zs \<Longrightarrow> wp (sure_cmd f) (\<lambda>r _. \<forall>s. r \<noteq> Inl (ErrExternal s)) w"
  using assms [of "rds w" "rclock w"] by (auto simp: sure_cmd_def wp_def split: prod.splits)

lemma on_zset_answers: "db k = stored zs \<Longrightarrow> \<exists>x. fst (on_zset k f now db) = Inr x"
  by (simp add: on_zset_def zset_stored split: prod.splits)

lemma sample_feed_reachable: "feed_reachable (sample_feed sure_cache)"
proof -
  have R: "rdb_of sure_cache = Some sure_redis" by (simp add: rdb_of_def sure_cache_def NewClient_def)
  have "reachable k (rdb_ZRangeWithScores sure_redis k 0 0)" "reachable k (rdb_ZAdd sure_redis k ms)" for k ms
    by (auto simp: reachable_def sure_redis_def cmd_zrange_def cmd_zadd_def intro!: sure_cmd_reachable on_zset_answers)
  moreover have "reachable k (rdb_ZRevRangeByScore sure_redis k mx ''-inf'' 0 lim)" if "below_max mx 0 \<noteq> None" for k mx lim
    using that by (auto simp: reachable_def sure_redis_def cmd_zrevrangebyscore_def above_min_def intro!: sure_cmd_reachable on_zset_answers)
  moreover have "answers (GetBatchLiked sure_gorm ids a)" for ids a
    by (simp add: answers_def GetBatchLiked_def sure_gorm_def wp_simps wp_sure_find)
  ultimately show ?thesis using R sure_gorm_lists by (simp add: feed_reachable_def)
qed


theorem ListLatest_returns_witness:
  "fst (run_state (ListLatest 2 feed_host ref_runtime (sample_feed sure_cache) 10 time_zero 0) feed_world) \<noteq> None"
proof -
  have "\<forall>R ms. rdb_of (fs_redisCache (sample_feed sure_cache)) = Some R \<longrightarrow>
      reachable (timeline_key (fs_redisCache (sample_feed sure_cache))) (rdb_ZAdd R (timeline_key (fs_redisCache (sample_feed sure_cache))) ms)"
    using sample_feed_reachable by (auto simp: feed_reachable_def sure_cache_def NewClient_def)
  then show ?thesis
    using ListLatest_returns [OF ref_runtime_ok feed_host_ok sample_feed_ok [OF sure_cache_ok]] feed_world_good by auto
qed

text \<open>A Redis that is out of memory: it answers reads and refuses to add members.\<close>

definition full_redis :: "ref_hid rdb" where
  "full_redis = sure_redis\<lparr>rdb_ZAdd := (\<lambda>k ms. throw (ErrExternal ''OOM command not allowed''))\<rparr>"

definition full_cache :: "ref_hid cache" where
  "full_cache = NewClient full_redis"

lemma full_redis_ok: "redis_ok full_redis"
proof -
  have "call_ok (cmd_zadd k ms) (throw (ErrExternal ''OOM command not allowed'') :: (ref_hid, unit res) io)" for k ms
    by (auto simp: call_ok_def call_post_def wp_simps frame_defs)
  then show ?thesis using sure_redis_ok by (simp add: redis_ok_def full_redis_def)
qed

theorem ListLatest_never_returns_witness:
  "fst (run_state (ListLatest 1000 feed_host ref_runtime (sample_feed full_cache) 10 time_zero 0) feed_world) = None"
proof -
  have c: "rdb_of full_cache = Some full_redis" "cache_redis_ok full_cache"
    using full_redis_ok by (simp_all add: cache_redis_ok_def rdb_of_def full_cache_def NewClient_def)
  have "rdb_ZRangeWithScores full_redis = rdb_ZRangeWithScores sure_redis" by (simp add: full_redis_def)
  then have "reachable k (rdb_ZRangeWithScores full_redis k 0 0)" for k
    by (auto simp: reachable_def sure_redis_def cmd_zrange_def intro!: sure_cmd_reachable on_zset_answers)
  moreover have "wp (rdb_ZAdd full_redis k ms) (\<lambda>_ w'. redis_frame w w' \<and> rds w' = rds w) w" for k ms w
    by (simp add: full_redis_def wp_simps frame_defs)
  moreover have "rds feed_world (timeline_key full_cache) = None" "three_videos \<noteq> []" by (simp_all add: feed_world_def ref_start_def three_videos_def)
  ultimately show ?thesis
    using ListLatest_never_returns [OF ref_runtime_ok sample_feed_ok [OF c(2)], of feed_host feed_world full_redis 1000 10 time_zero 0]
      feed_world_good sure_gorm_lists c(1) by simp
qed

end
