(* ===== verification/Notification.thy ===== *)
theory Notification
  imports Consumer Enqueue Auth
begin

text \<open>
  \<open>internal/api/notification\<close>, \<open>internal/worker/notification\_worker.go\<close> and
  \<open>internal/worker/notification\_subscriber.go\<close>: likes, comments and follows become rows of the
  notifications table and are pushed to the open streams of their recipient, through a Redis channel
  or directly. A row is stored once per event, whatever is delivered again; the hub keeps its
  streams apart and never grows a buffer beyond its capacity.
\<close>

section \<open>entity.go\<close>

definition PushChannel :: string where "PushChannel = ''notification:push''"

record push_message =
  pm_RecipientID :: uint
  pm_Notification :: notification

text \<open>\<open>encoding/json\<close> at the two types that are pushed.\<close>

record push_json =
  json_notification :: "notification codec"
  json_push :: "push_message codec"

section \<open>handler.go: the hub\<close>

text \<open>
  The hub's map is in the process's memory; a Go channel with a buffer is an identifier with the
  values it holds. A send to a full channel falls through to \<open>default\<close>.
\<close>

definition send_or_drop :: "notification \<Rightarrow> sse_chan \<Rightarrow> sse_chan" where
  "send_or_drop n ch = (if length (ch_buf ch) < 20 then ch\<lparr>ch_buf := ch_buf ch @ [n]\<rparr> else ch)"

definition on_clients :: "uint \<Rightarrow> (sse_chan list \<Rightarrow> sse_chan list) \<Rightarrow> memory \<Rightarrow> memory" where
  "on_clients userID f m = m\<lparr>hub_clients := (hub_clients m)(userID := f (hub_clients m userID))\<rparr>"

definition with_memory :: "(memory \<Rightarrow> 'a \<times> memory) \<Rightarrow> ('x, 'a) io" where
  "with_memory f = State (\<lambda>w. case f (mem w) of (r, m) \<Rightarrow> (r, w\<lparr>mem := m\<rparr>))"

definition SSEHub_Push :: "uint \<Rightarrow> notification \<Rightarrow> ('x, unit) io" where
  "SSEHub_Push userID n = with_memory (\<lambda>m. ((), on_clients userID (map (send_or_drop n)) m))"

definition SSEHub_Subscribe :: "uint \<Rightarrow> ('x, nat) io" where
  "SSEHub_Subscribe userID = with_memory (\<lambda>m.
     (hub_next m, on_clients userID (\<lambda>chs. chs @ [\<lparr>ch_id = hub_next m, ch_buf = []\<rparr>]) (m\<lparr>hub_next := Suc (hub_next m)\<rparr>)))"

fun remove_first :: "nat \<Rightarrow> sse_chan list \<Rightarrow> sse_chan list" where
  "remove_first ch [] = []"
| "remove_first ch (c # chs) = (if ch_id c = ch then chs else c # remove_first ch chs)"

definition SSEHub_Unsubscribe :: "uint \<Rightarrow> nat \<Rightarrow> ('x, unit) io" where
  "SSEHub_Unsubscribe userID ch = with_memory (\<lambda>m. ((), on_clients userID (remove_first ch) m))"

section \<open>handler.go: the stream\<close>

text \<open>\<open>token[:7] == "Bearer "\<close>; the token is in the query or in the header.\<close>

definition sse_token :: "string \<Rightarrow> string \<Rightarrow> string" where
  "sse_token query header = (if query \<noteq> '''' then query
     else if length header > 7 \<and> take 7 header = ''Bearer '' then drop 7 header else header)"

definition SSERequireAuth :: "'x crypto \<Rightarrow> string \<Rightarrow> string \<Rightarrow> string \<Rightarrow> gin_ctx \<Rightarrow> ('x, decision) io" where
  "SSERequireAuth K secret query header c = (let token = sse_token query header in
     if token = '''' then ret (Abort 401 ''missing token'')
     else do {
       r \<leftarrow> ParseToken K secret token;
       ret (case r of
              Inl _ \<Rightarrow> Abort 401 ''invalid token''
            | Inr cl \<Rightarrow> Next (c(''accountID'' \<mapsto> GUint (cl_AccountID cl))))})"

text \<open>\<open>accountID.(uint)\<close> panics on any other value; \<open>gin.Default\<close> recovers and answers 500.\<close>

definition asserted_account :: "gin_ctx \<Rightarrow> 'a reply + uint" where
  "asserted_account c = (case c ''accountID'' of Some (GUint i) \<Rightarrow> Inr i | _ \<Rightarrow> Inl (Fail 500 ''''))"

text \<open>A receive from the channel: it is closed, has nothing yet, or gives its oldest value.\<close>

datatype received = Closed | Blocked | Got notification

definition receive :: "uint \<Rightarrow> nat \<Rightarrow> ('x, received) io" where
  "receive userID ch = with_memory (\<lambda>m. case filter (\<lambda>c. ch_id c = ch) (hub_clients m userID) of
     [] \<Rightarrow> (Closed, m)
   | c # _ \<Rightarrow> (case ch_buf c of
        [] \<Rightarrow> (Blocked, m)
      | n # _ \<Rightarrow> (Got n, on_clients userID (map (\<lambda>c. if ch_id c = ch then c\<lparr>ch_buf := tl (ch_buf c)\<rparr> else c)) m)))"

text \<open>
  The loop of the stream: before each \<open>select\<close> the rest of the process does something, then one of
  the cases is ready. A receive that would block is not ready. What is written is accumulated.
\<close>

datatype stream_event = StreamDone | StreamReceive | StreamTick

definition data_line :: "push_json \<Rightarrow> notification \<Rightarrow> string" where
  "data_line J n = ''data: '' @ (case Marshal (json_notification J) n of Inr b \<Rightarrow> b | Inl _ \<Rightarrow> '''') @ [CHR 0x0A, CHR 0x0A]"

definition keepalive_line :: string where
  "keepalive_line = '': keepalive'' @ [CHR 0x0A, CHR 0x0A]"

fun sse_loop :: "push_json \<Rightarrow> uint \<Rightarrow> nat \<Rightarrow> (('x, unit) io \<times> stream_event) list \<Rightarrow> string list \<Rightarrow> ('x, string list) io" where
  "sse_loop J userID ch [] out = ret out"
| "sse_loop J userID ch ((others, ev) # evs) out = do {
     _ \<leftarrow> others;
     (case ev of
        StreamDone \<Rightarrow> ret out
      | StreamTick \<Rightarrow> sse_loop J userID ch evs (out @ [keepalive_line])
      | StreamReceive \<Rightarrow> do {
          r \<leftarrow> receive userID ch;
          (case r of
             Closed \<Rightarrow> ret out
           | Blocked \<Rightarrow> sse_loop J userID ch evs out
           | Got n \<Rightarrow> sse_loop J userID ch evs (out @ [data_line J n]))})}"

definition SSEHandler :: "push_json \<Rightarrow> gin_ctx \<Rightarrow> (('x, unit) io \<times> stream_event) list \<Rightarrow> ('x, string list reply) io" where
  "SSEHandler J c evs = (case asserted_account c of
     Inl r \<Rightarrow> ret r
   | Inr userID \<Rightarrow> do {
       ch \<leftarrow> SSEHub_Subscribe userID;
       out \<leftarrow> sse_loop J userID ch evs [];
       _ \<leftarrow> SSEHub_Unsubscribe userID ch;
       ret (Sent out)})"

section \<open>handler.go: stored notifications\<close>

definition ListHandler :: "'x gorm \<Rightarrow> gin_ctx \<Rightarrow> ('x, notification list reply) io" where
  "ListHandler db c = (case asserted_account c of
     Inl r \<Rightarrow> ret r
   | Inr userID \<Rightarrow> do {
       r \<leftarrow> db_find (db_notifications db) (\<lambda>n. n_RecipientID n = userID) (\<lambda>a b. n_CreatedAt b \<le> n_CreatedAt a) 50;
       ret (case r of Inl err \<Rightarrow> Fail 500 (error_text err) | Inr ns \<Rightarrow> Sent ns)})"

text \<open>The error of binding the body is dropped: without an identifier every notification is marked.\<close>

definition MarkReadHandler :: "'x gorm \<Rightarrow> uint option res \<Rightarrow> gin_ctx \<Rightarrow> ('x, unit reply) io" where
  "MarkReadHandler db bound c = (case asserted_account c of
     Inl r \<Rightarrow> ret r
   | Inr userID \<Rightarrow> do {
       _ \<leftarrow> (case (case bound of Inl _ \<Rightarrow> None | Inr i \<Rightarrow> i) of
          Some i \<Rightarrow> db_updates (db_notifications db) (\<lambda>n. n_ID n = i \<and> n_RecipientID n = userID) (\<lambda>n. n\<lparr>n_IsRead := True\<rparr>)
        | None \<Rightarrow> db_updates (db_notifications db) (\<lambda>n. n_RecipientID n = userID) (\<lambda>n. n\<lparr>n_IsRead := True\<rparr>));
       ret (Sent ())})"

definition UnreadCountHandler :: "'x gorm \<Rightarrow> gin_ctx \<Rightarrow> ('x, int reply) io" where
  "UnreadCountHandler db c = (case asserted_account c of
     Inl r \<Rightarrow> ret r
   | Inr userID \<Rightarrow> do {
       r \<leftarrow> db_count (db_notifications db) (\<lambda>n. n_RecipientID n = userID \<and> \<not> n_IsRead n);
       ret (Sent (case r of Inl _ \<Rightarrow> 0 | Inr n \<Rightarrow> n))})"

section \<open>notification\_worker.go\<close>

text \<open>\<open>nw_hub\<close> tells whether the worker has a hub: in the API process it has, in the worker process it is nil.\<close>

record 'x notification_worker =
  nw_ch :: "'x channel option"
  nw_db :: "'x gorm option"
  nw_queue :: string
  nw_cache :: "'x cache"
  nw_hub :: bool

text \<open>The three texts, in UTF-8.\<close>

definition liked_text :: string where
  "liked_text = [CHR 0xE7, CHR 0x82, CHR 0xB9, CHR 0xE8, CHR 0xB5, CHR 0x9E, CHR 0xE4, CHR 0xBA, CHR 0x86, CHR 0xE4, CHR 0xBD, CHR 0xA0,
     CHR 0xE7, CHR 0x9A, CHR 0x84, CHR 0xE8, CHR 0xA7, CHR 0x86, CHR 0xE9, CHR 0xA2, CHR 0x91]"

definition commented_text :: string where
  "commented_text = [CHR 0xE8, CHR 0xAF, CHR 0x84, CHR 0xE8, CHR 0xAE, CHR 0xBA, CHR 0xE4, CHR 0xBA, CHR 0x86, CHR 0xE4, CHR 0xBD, CHR 0xA0,
     CHR 0xE7, CHR 0x9A, CHR 0x84, CHR 0xE8, CHR 0xA7, CHR 0x86, CHR 0xE9, CHR 0xA2, CHR 0x91]"

definition followed_text :: string where
  "followed_text = [CHR 0xE5, CHR 0x85, CHR 0xB3, CHR 0xE6, CHR 0xB3, CHR 0xA8, CHR 0xE4, CHR 0xBA, CHR 0x86, CHR 0xE4, CHR 0xBD, CHR 0xA0]"

definition new_notification :: "string \<Rightarrow> uint \<Rightarrow> uint \<Rightarrow> string \<Rightarrow> uint \<Rightarrow> string \<Rightarrow> notification" where
  "new_notification eventID recipientID senderID type targetID content =
     \<lparr>n_ID = 0, n_EventID = eventID, n_RecipientID = recipientID, n_SenderID = senderID, n_Type = type,
      n_TargetID = targetID, n_Content = content, n_IsRead = False, n_CreatedAt = time_zero\<rparr>"

definition getVideoAuthorID :: "'x gorm \<Rightarrow> uint \<Rightarrow> ('x, uint res) io" where
  "getVideoAuthorID db videoID = db_scan_author db (\<lambda>v. v_ID v = videoID)"

definition buildLikeNotification :: "'x host \<Rightarrow> 'x gorm \<Rightarrow> string \<Rightarrow> ('x, notification option res) io" where
  "buildLikeNotification H db body = (case Unmarshal (json_like H) body of
     None \<Rightarrow> ok None
   | Some evt \<Rightarrow>
       if le_EventID evt = '''' \<or> le_UserID evt = 0 \<or> le_VideoID evt = 0 then ok None
       else bindE (getVideoAuthorID db (le_VideoID evt)) (\<lambda>authorID.
         if authorID = 0 \<or> authorID = le_UserID evt then ok None
         else ok (Some (new_notification (le_EventID evt) authorID (le_UserID evt) ''like'' (le_VideoID evt) liked_text))))"

definition buildCommentNotification :: "'x host \<Rightarrow> 'x gorm \<Rightarrow> string \<Rightarrow> ('x, notification option res) io" where
  "buildCommentNotification H db body = (case Unmarshal (json_comment H) body of
     None \<Rightarrow> ok None
   | Some evt \<Rightarrow>
       if ce_EventID evt = '''' \<or> ce_AuthorID evt = 0 \<or> ce_VideoID evt = 0 then ok None
       else bindE (getVideoAuthorID db (ce_VideoID evt)) (\<lambda>authorID.
         if authorID = 0 \<or> authorID = ce_AuthorID evt then ok None
         else ok (Some (new_notification (ce_EventID evt) authorID (ce_AuthorID evt) ''comment'' (ce_VideoID evt) commented_text))))"

definition buildFollowNotification :: "'x host \<Rightarrow> string \<Rightarrow> ('x, notification option res) io" where
  "buildFollowNotification H body = (case Unmarshal (json_social H) body of
     None \<Rightarrow> ok None
   | Some evt \<Rightarrow>
       if se_EventID evt = '''' \<or> se_FollowerID evt = 0 \<or> se_VloggerID evt = 0 then ok None
       else ok (Some (new_notification (se_EventID evt) (se_VloggerID evt) (se_FollowerID evt) ''follow'' (se_FollowerID evt) followed_text)))"

definition buildNotification :: "'x host \<Rightarrow> 'x gorm \<Rightarrow> delivery \<Rightarrow> ('x, notification option res) io" where
  "buildNotification H db d = (let body = p_Body (d_Pub d) in
     if body = '''' then ok None
     else if d_RoutingKey d = LikeRoutingKeyLike then buildLikeNotification H db body
     else if d_RoutingKey d = CommentRoutingKeyPublish then buildCommentNotification H db body
     else if d_RoutingKey d = SocialRoutingKeyFollow then buildFollowNotification H body
     else ok None)"

definition publishNotification :: "push_json \<Rightarrow> 'x cache \<Rightarrow> bool \<Rightarrow> notification \<Rightarrow> ('x, unit res) io" where
  "publishNotification J cache hub notif =
     (if cache \<noteq> None then do {
        r \<leftarrow> Client_PublishJSON cache PushChannel
              (Marshal (json_push J) \<lparr>pm_RecipientID = n_RecipientID notif, pm_Notification = notif\<rparr>);
        (case r of
           Inr _ \<Rightarrow> ok ()
         | Inl err \<Rightarrow>
             if \<not> hub then throw err
             else do {_ \<leftarrow> SSEHub_Push (n_RecipientID notif) notif; throw err})}
      else if hub then do {_ \<leftarrow> SSEHub_Push (n_RecipientID notif) notif; ok ()}
      else ok ())"

definition NotificationWorker_process :: "'x host \<Rightarrow> push_json \<Rightarrow> 'x gorm \<Rightarrow> 'x cache \<Rightarrow> bool \<Rightarrow> delivery \<Rightarrow> ('x, unit res) io" where
  "NotificationWorker_process H J db cache hub d =
     bindE (buildNotification H db d) (\<lambda>notif. (case notif of
       None \<Rightarrow> ok ()
     | Some n \<Rightarrow> do {
         r \<leftarrow> db_create (db_notifications db) n;
         (case r of
            Inl err \<Rightarrow> (case err of MySQLError no _ \<Rightarrow> if no = 1062 then ok () else throw err | _ \<Rightarrow> throw err)
          | Inr row \<Rightarrow> do {
              _ \<leftarrow> publishNotification J cache hub row;
              ok ()})}))"

definition NotificationWorker_Run :: "'x host \<Rightarrow> push_json \<Rightarrow> 'x notification_worker \<Rightarrow> unit res \<Rightarrow> select_event list
    \<Rightarrow> ('x, go_error option) io" where
  "NotificationWorker_Run H J w consumed evs = (case (nw_ch w, nw_db w) of
     (Some ch, Some db) \<Rightarrow> consumeWithRetry ch (nw_queue w) consumed
        (NotificationWorker_process H J db (nw_cache w) (nw_hub w)) evs
   | _ \<Rightarrow> ret (Some (ErrNew ''notification worker is not initialized'')))"

definition NotificationLikeQueue :: string where "NotificationLikeQueue = ''notification.like''"
definition NotificationCommentQueue :: string where "NotificationCommentQueue = ''notification.comment''"
definition NotificationSocialQueue :: string where "NotificationSocialQueue = ''notification.social''"

section \<open>notification\_subscriber.go\<close>

text \<open>The goroutine that forwards the payloads of the channel to the hub of this process.\<close>

definition forward :: "push_json \<Rightarrow> string \<Rightarrow> ('x, unit) io" where
  "forward J payload = (case Unmarshal (json_push J) payload of
     None \<Rightarrow> ret ()
   | Some pushMsg \<Rightarrow>
       if pm_RecipientID pushMsg = 0 then ret ()
       else SSEHub_Push (pm_RecipientID pushMsg) (pm_Notification pushMsg))"

datatype subscriber_event = SubscriberDone | Payload string | SubscriberClosed

fun subscriber_loop :: "push_json \<Rightarrow> subscriber_event list \<Rightarrow> ('x, unit) io" where
  "subscriber_loop J [] = ret ()"
| "subscriber_loop J (SubscriberDone # evs) = ret ()"
| "subscriber_loop J (SubscriberClosed # evs) = ret ()"
| "subscriber_loop J (Payload p # evs) = do {_ \<leftarrow> forward J p; subscriber_loop J evs}"

text \<open>\<open>Subscribe\<close> of the Redis client; what the subscription delivers are the events of the loop.\<close>

definition Subscribe :: "'x cache \<Rightarrow> string list \<Rightarrow> unit res" where
  "Subscribe c chs =
     (if rdb_of c = None then Inl (ErrNew ''redis client is not initialized'')
      else if chs = [] then Inl (ErrNew ''redis pubsub channel is required'')
      else Inr ())"

definition StartNotificationSubscriber :: "push_json \<Rightarrow> 'x cache \<Rightarrow> bool \<Rightarrow> subscriber_event list \<Rightarrow> ('x, unit) io" where
  "StartNotificationSubscriber J cache hub evs =
     (if cache = None \<or> \<not> hub then ret ()
      else (case Subscribe cache [PushChannel] of
        Inl _ \<Rightarrow> ret ()
      | Inr _ \<Rightarrow> subscriber_loop J evs))"

section \<open>What a message asks for\<close>

datatype notice = VideoNotice string uint uint string string | FollowNotice string uint uint

definition like_notice :: "'x host \<Rightarrow> string \<Rightarrow> notice option" where
  "like_notice H b = (case Unmarshal (json_like H) b of
     Some e \<Rightarrow> if le_EventID e = '''' \<or> le_UserID e = 0 \<or> le_VideoID e = 0 then None
       else Some (VideoNotice (le_EventID e) (le_VideoID e) (le_UserID e) ''like'' liked_text)
   | None \<Rightarrow> None)"

definition comment_notice :: "'x host \<Rightarrow> string \<Rightarrow> notice option" where
  "comment_notice H b = (case Unmarshal (json_comment H) b of
     Some e \<Rightarrow> if ce_EventID e = '''' \<or> ce_AuthorID e = 0 \<or> ce_VideoID e = 0 then None
       else Some (VideoNotice (ce_EventID e) (ce_VideoID e) (ce_AuthorID e) ''comment'' commented_text)
   | None \<Rightarrow> None)"

definition follow_notice :: "'x host \<Rightarrow> string \<Rightarrow> notice option" where
  "follow_notice H b = (case Unmarshal (json_social H) b of
     Some e \<Rightarrow> if se_EventID e = '''' \<or> se_FollowerID e = 0 \<or> se_VloggerID e = 0 then None
       else Some (FollowNotice (se_EventID e) (se_FollowerID e) (se_VloggerID e))
   | None \<Rightarrow> None)"

definition notice_of :: "'x host \<Rightarrow> delivery \<Rightarrow> notice option" where
  "notice_of H d = (let b = p_Body (d_Pub d) in
     if b = '''' then None
     else if d_RoutingKey d = LikeRoutingKeyLike then like_notice H b
     else if d_RoutingKey d = CommentRoutingKeyPublish then comment_notice H b
     else if d_RoutingKey d = SocialRoutingKeyFollow then follow_notice H b
     else None)"

text \<open>The author of a video: 0 when there is no such video.\<close>

definition author_of :: "tables \<Rightarrow> uint \<Rightarrow> uint \<Rightarrow> bool" where
  "author_of t i a \<longleftrightarrow> (if has_video i t then \<exists>v \<in> set (t_videos t). v_ID v = i \<and> v_AuthorID v = a else a = 0)"

text \<open>
  The notification a message asks for: to the author of the video, unless it is its own doing or
  the video is gone; to the followed account.
\<close>

definition asks_for :: "'x host \<Rightarrow> delivery \<Rightarrow> tables \<Rightarrow> notification option \<Rightarrow> bool" where
  "asks_for H d t no \<longleftrightarrow> (case notice_of H d of
     None \<Rightarrow> no = None
   | Some (VideoNotice e i u ty content) \<Rightarrow> \<exists>a. author_of t i a \<and>
       no = (if a = 0 \<or> a = u then None else Some (new_notification e a u ty i content))
   | Some (FollowNotice e f v) \<Rightarrow> no = Some (new_notification e v f ''follow'' f followed_text))"

lemma wp_getVideoAuthorID:
  assumes "gorm_ok G"
  shows "wp (getVideoAuthorID G i) (\<lambda>r w'. quiet w w' \<and> (\<forall>a. r = Inr a \<longrightarrow> author_of (tabs w) i a)) w"
proof -
  have "wp (db_scan_author G (\<lambda>v. v_ID v = i)) (\<lambda>r w'. quiet w w' \<and> (\<forall>a. r = Inr a \<longrightarrow>
      (case filter (\<lambda>v. v_ID v = i) (t_videos (tabs w)) of [] \<Rightarrow> a = 0 | v # vs \<Rightarrow> a \<in> v_AuthorID ` set (v # vs)))) w"
    using assms by (simp add: gorm_ok_def videos_queries_ok_def Let_def)
  then show ?thesis
    unfolding getVideoAuthorID_def
  proof (rule wp_mono, goal_cases)
    case (1 r w')
    have "author_of (tabs w) i a" if "r = Inr a" for a
    proof (cases "filter (\<lambda>v. v_ID v = i) (t_videos (tabs w))")
      case Nil
      with 1 that show ?thesis by (auto simp: author_of_def has_video_def filter_empty_conv)
    next
      case (Cons v vs)
      have "set (v # vs) = {v \<in> set (t_videos (tabs w)). v_ID v = i}" unfolding Cons [symmetric] by auto
      moreover from 1 that Cons have "a \<in> v_AuthorID ` set (v # vs)" by simp
      ultimately show ?thesis by (auto simp: author_of_def has_video_def)
    qed
    with 1 show ?case by blast
  qed
qed

lemma buildNotification_post:
  assumes "gorm_ok G"
  shows "wp (buildNotification H G d) (\<lambda>r w'. quiet w w' \<and> (\<forall>no. r = Inr no \<longrightarrow> asks_for H d (tabs w) no)) w"
proof -
  let ?Q = "\<lambda>r w'. quiet w w' \<and> (\<forall>no. r = Inr no \<longrightarrow> asks_for H d (tabs w) no)" and ?b = "p_Body (d_Pub d)"
  have video: "wp (bindE (getVideoAuthorID G i) (\<lambda>a. if a = 0 \<or> a = u then ok None else ok (Some (new_notification e a u ty i c)))) ?Q w"
    if "notice_of H d = Some (VideoNotice e i u ty c)" for e i u ty c
    unfolding wp_bindE
    by (rule wp_mono [OF wp_getVideoAuthorID [OF assms]]) (use that in \<open>auto simp: wp_return asks_for_def split: sum.splits\<close>)
  have none: "wp (ok None) ?Q w" if "notice_of H d = None"
    using that by (simp add: wp_return frame_defs asks_for_def)
  have follow: "wp (ok (Some (new_notification e v f ''follow'' f followed_text))) ?Q w" if "notice_of H d = Some (FollowNotice e f v)" for e f v
    using that by (simp add: wp_return frame_defs asks_for_def)
  have "wp (buildLikeNotification H G ?b) ?Q w" if "notice_of H d = like_notice H ?b"
    using that none video by (cases "Unmarshal (json_like H) ?b") (simp_all add: buildLikeNotification_def like_notice_def)
  moreover have "wp (buildCommentNotification H G ?b) ?Q w" if "notice_of H d = comment_notice H ?b"
    using that none video by (cases "Unmarshal (json_comment H) ?b") (simp_all add: buildCommentNotification_def comment_notice_def)
  moreover have "wp (buildFollowNotification H ?b) ?Q w" if "notice_of H d = follow_notice H ?b"
    using that none follow by (cases "Unmarshal (json_social H) ?b") (simp_all add: buildFollowNotification_def follow_notice_def)
  ultimately show ?thesis
    unfolding buildNotification_def Let_def using none by (simp add: notice_of_def Let_def)
qed

section \<open>The worker\<close>

definition has_event :: "string \<Rightarrow> tables \<Rightarrow> bool" where
  "has_event e t \<longleftrightarrow> (\<exists>x \<in> set (t_notifications t). n_EventID x = e)"

text \<open>A row as the notification asked for it, with its identifier and its time.\<close>

definition row_for :: "notification \<Rightarrow> notification \<Rightarrow> bool" where
  "row_for n x \<longleftrightarrow> (\<exists>i t. x = n\<lparr>n_ID := i, n_CreatedAt := t\<rparr>)"

definition notified :: "notification \<Rightarrow> tables \<Rightarrow> tables \<Rightarrow> bool" where
  "notified n t t' \<longleftrightarrow> \<not> has_event (n_EventID n) t \<and>
     (\<exists>x. row_for n x \<and> t' = t_notifications_update (\<lambda>_. t_notifications t @ [x]) t)"

text \<open>What is pushed: to the Redis channel, or to the streams of the recipient in this process.\<close>

definition pushed :: "push_json \<Rightarrow> notification \<Rightarrow> 'x world \<Rightarrow> 'x world \<Rightarrow> bool" where
  "pushed J n w w' \<longleftrightarrow> (\<exists>x. row_for n x \<and>
     ((\<exists>b. Marshal (json_push J) \<lparr>pm_RecipientID = n_RecipientID n, pm_Notification = x\<rparr> = Inr b \<and>
         pubs w' = pubs w @ [(PushChannel, b)] \<and> mem w' = mem w) \<or>
      mem w' = on_clients (n_RecipientID n) (map (send_or_drop x)) (mem w)))"

lemma wp_with_memory: "wp (with_memory f) Q w \<longleftrightarrow> (case f (mem w) of (r, m) \<Rightarrow> Q r (w\<lparr>mem := m\<rparr>))"
  by (simp add: with_memory_def wp_def split: prod.splits)

lemma row_for_recipient: "row_for n x \<Longrightarrow> n_RecipientID x = n_RecipientID n \<and> n_EventID x = n_EventID n"
  by (auto simp: row_for_def)

lemma publishNotification_post:
  assumes "cache_redis_ok c" "row_for n x"
  shows "wp (publishNotification J c hub x) (\<lambda>_ w'. tabs w' = tabs w \<and> (hub \<longrightarrow> pushed J n w w')) w"
proof -
  have rec: "n_RecipientID x = n_RecipientID n" using row_for_recipient [OF assms(2)] by simp
  have direct: "wp (SSEHub_Push (n_RecipientID x) x) (\<lambda>_ w'. tabs w' = tabs w \<and> pushed J n w w') w1"
    if "tabs w1 = tabs w" "mem w1 = mem w" for w1
    using that assms(2) rec by (auto simp: SSEHub_Push_def wp_with_memory pushed_def)
  have publish: "wp (Client_PublishJSON c PushChannel (Marshal (json_push J) \<lparr>pm_RecipientID = n_RecipientID x, pm_Notification = x\<rparr>))
      (\<lambda>r w'. tabs w' = tabs w \<and> mem w' = mem w \<and> (r = Inr () \<longrightarrow> pushed J n w w')) w"
  proof (cases "rdb_of c")
    case None
    then show ?thesis by (simp add: Client_PublishJSON_def wp_return)
  next
    case (Some R)
    with assms(1) have R: "redis_ok R" by (simp add: cache_redis_ok_def)
    show ?thesis
    proof (cases "Marshal (json_push J) \<lparr>pm_RecipientID = n_RecipientID x, pm_Notification = x\<rparr>")
      case (Inl e)
      with Some show ?thesis by (simp add: Client_PublishJSON_def PushChannel_def wp_simps)
    next
      case (Inr b)
      have "wp (rdb_Publish R PushChannel b) (\<lambda>r w'. tabs w' = tabs w \<and> mem w' = mem w \<and> (r = Inr () \<longrightarrow> pushed J n w w')) w"
        by (rule wp_mono [OF redis_Publish [OF R]]) (use Inr assms(2) rec in \<open>auto simp: published_post_def pushed_def\<close>)
      with Inr Some show ?thesis by (simp add: Client_PublishJSON_def PushChannel_def wp_simps)
    qed
  qed
  show ?thesis
  proof (cases "c = None")
    case True
    with direct [of w] show ?thesis by (auto simp: publishNotification_def wp_bind wp_return elim: wp_mono)
  next
    case False
    show ?thesis
      unfolding publishNotification_def if_P [OF False] wp_bind
    proof (rule wp_mono [OF publish], goal_cases)
      case (1 r w1)
      with direct [of w1] show ?case by (cases r) (auto simp: wp_bind wp_return elim: wp_mono)
    qed
  qed
qed

text \<open>
  The effect of a message: nothing, when it asks for nothing, failed or was seen before; otherwise
  one new row, pushed when the worker has a hub.
\<close>

definition notice_effect :: "'x host \<Rightarrow> push_json \<Rightarrow> bool \<Rightarrow> delivery \<Rightarrow> 'x world \<Rightarrow> unit res \<Rightarrow> 'x world \<Rightarrow> bool" where
  "notice_effect H J hub d w r w' \<longleftrightarrow>
     tabs w' = tabs w \<and> (r = Inr () \<longrightarrow> asks_for H d (tabs w) None \<or>
       (\<exists>n. asks_for H d (tabs w) (Some n) \<and> has_event (n_EventID n) (tabs w))) \<or>
     (\<exists>n. asks_for H d (tabs w) (Some n) \<and> notified n (tabs w) (tabs w') \<and> (r = Inr () \<and> hub \<longrightarrow> pushed J n w w'))"

lemma IsDupKey_1062: "IsDupKey e \<longleftrightarrow> (\<exists>m. e = MySQLError 1062 m)"
  by (cases e) auto

lemma new_notification_ID: "asks_for H d t (Some n) \<Longrightarrow> n_ID n = 0"
  by (auto simp: asks_for_def new_notification_def split: option.splits notice.splits if_splits)

lemma NotificationWorker_process_post:
  assumes G: "gorm_ok G" and c: "cache_redis_ok c"
  shows "wp (NotificationWorker_process H J G c hub d) (notice_effect H J hub d w) w"
proof -
  have create: "wp (db_create (db_notifications G) n) (\<lambda>r w2. wp (case r of
        Inl err \<Rightarrow> (case err of MySQLError no _ \<Rightarrow> if no = 1062 then ok () else throw err | _ \<Rightarrow> throw err)
      | Inr row \<Rightarrow> do {_ \<leftarrow> publishNotification J c hub row; ok ()}) (notice_effect H J hub d w) w2) w1"
    if w1: "quiet w w1" and n: "asks_for H d (tabs w) (Some n)" for n w1
  proof (rule wp_create [OF notifications_ok [OF G]], goal_cases)
    case 1
    show ?case using new_notification_ID [OF n] by simp
  next
    case (2 r w2)
    have t: "tabs w1 = tabs w" using w1 by (simp add: frame_defs)
    have frame: "mem w2 = mem w" "pubs w2 = pubs w" using w1 2(1) by (simp_all add: frame_defs)
    have add: "notified n (tabs w) u \<and> row_for n r'" if "inserted ct notification_schema (t_notifications (tabs w)) n rs' r'" "u = t_notifications_update (\<lambda>_. rs') (tabs w)"
      for ct rs' r' u
      using that by (force simp: inserted_def notified_def notification_schema_def row_for_def has_event_def)
    show ?case
    proof (cases r)
      case (Inr row)
      with 2 t obtain rs' where "inserted (db_col_time G) notification_schema (t_notifications (tabs w)) n rs' row" "tabs w2 = t_notifications_update (\<lambda>_. rs') (tabs w)"
        by (auto simp: create_post_def)
      from add [OF this] have row: "notified n (tabs w) (tabs w2)" "row_for n row" by auto
      show ?thesis unfolding Inr sum.case wp_bind
        by (rule wp_mono [OF publishNotification_post [OF c row(2)]])
          (use n row(1) frame in \<open>auto simp: wp_return notice_effect_def pushed_def\<close>)
    next
      case (Inl err)
      show ?thesis
      proof (cases "IsDupKey err")
        case True
        with 2 Inl t have "tabs w2 = tabs w" "has_event (n_EventID n) (tabs w)"
          by (auto simp: create_post_def has_event_def notification_schema_def)
        with n have "notice_effect H J hub d w (Inr ()) w2" unfolding notice_effect_def by blast
        with True Inl show ?thesis by (auto simp: IsDupKey_1062 wp_return)
      next
        case False
        with 2 Inl t n add have "notice_effect H J hub d w (Inl err) w2" by (auto simp: create_post_def notice_effect_def)
        with False Inl show ?thesis by (auto simp: IsDupKey_1062 wp_return split: go_error.splits)
      qed
    qed
  qed
  show ?thesis
    unfolding NotificationWorker_process_def wp_bindE
  proof (rule wp_mono [OF buildNotification_post [OF G]], goal_cases)
    case (1 r w1)
    show ?case
    proof (cases r)
      case (Inl e)
      with 1 show ?thesis by (simp add: notice_effect_def frame_defs)
    next
      case (Inr no)
      with 1 create [of w1] show ?thesis by (cases no) (simp_all add: wp_return wp_bind notice_effect_def frame_defs)
    qed
  qed
qed

text \<open>A message that has been dealt with: it asks for nothing, or its event has its row.\<close>

type_synonym 'x notice_env = "'x host \<times> push_json \<times> 'x gorm \<times> 'x cache \<times> bool \<times> delivery"

definition notice_env_ok :: "'x notice_env \<Rightarrow> bool" where
  "notice_env_ok E \<longleftrightarrow> (case E of (H, J, G, c, hub, d) \<Rightarrow> gorm_ok G \<and> cache_redis_ok c)"

definition with_body :: "delivery \<Rightarrow> string \<Rightarrow> delivery" where
  "with_body d b = d\<lparr>d_Pub := (d_Pub d)\<lparr>p_Body := b\<rparr>\<rparr>"

definition notice_process :: "'x notice_env \<Rightarrow> string \<Rightarrow> ('x, unit res) io" where
  "notice_process E b = (case E of (H, J, G, c, hub, d) \<Rightarrow> NotificationWorker_process H J G c hub (with_body d b))"

definition event_of :: "notice \<Rightarrow> string" where
  "event_of x = (case x of VideoNotice e _ _ _ _ \<Rightarrow> e | FollowNotice e _ _ \<Rightarrow> e)"

definition notice_settled :: "'x notice_env \<Rightarrow> string \<Rightarrow> tables \<Rightarrow> bool" where
  "notice_settled E b t \<longleftrightarrow> (case E of (H, J, G, c, hub, d) \<Rightarrow>
     (\<forall>no. asks_for H (with_body d b) t no \<longrightarrow> no = None) \<or>
     (\<exists>x. notice_of H (with_body d b) = Some x \<and> has_event (event_of x) t))"

lemma asks_for_event: "asks_for H d t (Some n) \<Longrightarrow> \<exists>x. notice_of H d = Some x \<and> n_EventID n = event_of x"
  by (auto simp: asks_for_def event_of_def new_notification_def split: option.splits notice.splits if_splits)

lemma notified_event: "notified n t t' \<Longrightarrow> has_event (n_EventID n) t' \<and> \<not> has_event (n_EventID n) t"
  by (auto simp: notified_def has_event_def dest: row_for_recipient)

text \<open>With one author per video, a message that asks for nothing asks for nothing else.\<close>

lemma asks_for_unique:
  assumes "inj_on v_ID (set (t_videos t))" "asks_for H d t a" "asks_for H d t b"
  shows "a = b"
proof -
  have "x = y" if "author_of t i x" "author_of t i y" for i x y
    using that assms(1) by (auto simp: author_of_def has_video_def split: if_splits dest: inj_onD)
  with assms(2,3) show ?thesis by (auto simp: asks_for_def split: option.splits notice.splits)
qed

interpretation notification_worker: settling_consumer notice_env_ok "\<lambda>t. inj_on v_ID (set (t_videos t))" notice_process notice_settled
proof (unfold_locales, goal_cases)
  case (1 E w b w')
  obtain H J G c hub d where E: "E = (H, J, G, c, hub, d)" by (cases E)
  from 1 have ok: "gorm_ok G" "cache_redis_ok c" by (simp_all add: notice_env_ok_def E)
  let ?d = "with_body d b"
  from wp_runD [OF NotificationWorker_process_post [OF ok] 1(3) [unfolded notice_process_def E prod.case]]
  have "notice_effect H J hub ?d w (Inr ()) w'" .
  then consider (unasked) "tabs w' = tabs w" "asks_for H ?d (tabs w) None"
    | (seen) n where "asks_for H ?d (tabs w) (Some n)" "has_event (n_EventID n) (tabs w')"
    unfolding notice_effect_def using notified_event by metis
  then show ?case
  proof cases
    case unasked
    with asks_for_unique [OF 1(2) unasked(2)] show ?thesis by (auto simp: notice_settled_def E)
  next
    case seen
    with asks_for_event [OF seen(1)] show ?thesis by (auto simp: notice_settled_def E)
  qed
next
  case (2 E b w r w')
  obtain H J G c hub d where E: "E = (H, J, G, c, hub, d)" by (cases E)
  from 2 have ok: "gorm_ok G" "cache_redis_ok c" by (simp_all add: notice_env_ok_def E)
  have "notice_effect H J hub (with_body d b) w r w'"
    by (rule wp_runD [OF NotificationWorker_process_post [OF ok] 2(3) [unfolded notice_process_def E prod.case]])
  then consider "tabs w' = tabs w" | n where "asks_for H (with_body d b) (tabs w) (Some n)" "\<not> has_event (n_EventID n) (tabs w)"
    unfolding notice_effect_def using notified_event by blast
  then show ?case
  proof cases
    case (2 n)
    with asks_for_event [OF 2(1)] \<open>notice_settled E b (tabs w)\<close> show ?thesis by (auto simp: notice_settled_def E)
  qed
qed


end
