(* ===== verification/SseHub.thy ===== *)
theory SseHub
  imports Notification
begin

text \<open>
  The hub of \<open>internal/api/notification/handler.go\<close> as a state machine: streams subscribe, receive and
  unsubscribe while notifications are pushed. The hub stays well-formed, and a stream writes the
  notifications pushed for its account, in order and without repeats.
\<close>

section \<open>The hub's invariant\<close>

text \<open>No buffer exceeds its capacity, and no two streams share a channel.\<close>

definition hub_ok :: "memory \<Rightarrow> bool" where
  "hub_ok m \<longleftrightarrow> (\<forall>u. distinct (map ch_id (hub_clients m u)) \<and>
     (\<forall>ch \<in> set (hub_clients m u). length (ch_buf ch) \<le> 20 \<and> ch_id ch < hub_next m) \<and>
     (\<forall>v. u \<noteq> v \<longrightarrow> ch_id ` set (hub_clients m u) \<inter> ch_id ` set (hub_clients m v) = {}))"

datatype hub_op = HubPush uint notification | HubSubscribe uint | HubUnsubscribe uint nat | HubReceive uint nat

fun hub_do :: "hub_op \<Rightarrow> ('x, unit) io" where
  "hub_do (HubPush u n) = SSEHub_Push u n"
| "hub_do (HubSubscribe u) = do {_ \<leftarrow> SSEHub_Subscribe u; ret ()}"
| "hub_do (HubUnsubscribe u c) = SSEHub_Unsubscribe u c"
| "hub_do (HubReceive u c) = do {_ \<leftarrow> receive u c; ret ()}"

fun hub_do_all :: "hub_op list \<Rightarrow> ('x, unit) io" where
  "hub_do_all [] = ret ()"
| "hub_do_all (x # xs) = do {_ \<leftarrow> hub_do x; hub_do_all xs}"

lemma hub_clients_on_clients: "hub_clients (on_clients u f m) v = (if v = u then f (hub_clients m u) else hub_clients m v)"
  by (simp add: on_clients_def)

lemma hub_next_on_clients [simp]: "hub_next (on_clients u f m) = hub_next m"
  by (simp add: on_clients_def)

lemma ch_id_send [simp]: "ch_id (send_or_drop n ch) = ch_id ch"
  by (simp add: send_or_drop_def)

lemma set_remove_first: "set (remove_first c chs) \<subseteq> set chs"
  by (induction chs) auto

lemma distinct_remove_first: "distinct (map ch_id chs) \<Longrightarrow> distinct (map ch_id (remove_first c chs))"
  by (induction chs) (auto dest: set_remove_first [THEN subsetD])

lemma remove_first_other: "c' \<noteq> c \<Longrightarrow> filter (\<lambda>ch. ch_id ch = c) (remove_first c' chs) = filter (\<lambda>ch. ch_id ch = c) chs"
  by (induction chs) auto

lemma remove_first_gone: "distinct (map ch_id chs) \<Longrightarrow> c \<notin> ch_id ` set (remove_first c chs)"
  by (induction chs) auto

text \<open>An update of one account's streams that drops or changes streams and makes no new one.\<close>

lemma hub_ok_update:
  assumes "hub_ok m" "distinct (map ch_id (f (hub_clients m u)))" "ch_id ` set (f (hub_clients m u)) \<subseteq> ch_id ` set (hub_clients m u)"
    and "\<And>ch. ch \<in> set (f (hub_clients m u)) \<Longrightarrow> length (ch_buf ch) \<le> 20"
  shows "hub_ok (on_clients u f m)"
proof -
  have "ch_id ch < hub_next m" if "ch \<in> set (f (hub_clients m u))" for ch
    using that assms(1,3) by (auto simp: hub_ok_def)
  with assms show ?thesis unfolding hub_ok_def hub_clients_on_clients by (auto simp: disjoint_iff) (metis image_eqI subsetD)+
qed

lemma hub_ok_bufs: "hub_ok m \<Longrightarrow> ch \<in> set (hub_clients m u) \<Longrightarrow> length (ch_buf ch) \<le> 20"
  by (simp add: hub_ok_def)

lemma hub_ok_map:
  assumes "hub_ok m" "\<And>ch. ch_id (f ch) = ch_id ch" "\<And>ch. length (ch_buf ch) \<le> 20 \<Longrightarrow> length (ch_buf (f ch)) \<le> 20"
  shows "hub_ok (on_clients u (map f) m)"
  by (rule hub_ok_update) (use assms in \<open>auto simp: hub_ok_def comp_def image_image\<close>)

lemma hub_ok_push: "hub_ok m \<Longrightarrow> hub_ok (on_clients u (map (send_or_drop n)) m)"
  by (rule hub_ok_map) (auto simp: send_or_drop_def)

lemma hub_ok_subscribe:
  "hub_ok m \<Longrightarrow> hub_ok (on_clients u (\<lambda>chs. chs @ [\<lparr>ch_id = hub_next m, ch_buf = []\<rparr>]) (m\<lparr>hub_next := Suc (hub_next m)\<rparr>))"
  unfolding hub_ok_def hub_clients_on_clients
  by (auto simp: disjoint_iff less_Suc_eq) (metis image_eqI less_irrefl)+

lemma hub_ok_unsubscribe: "hub_ok m \<Longrightarrow> hub_ok (on_clients u (remove_first c) m)"
  by (rule hub_ok_update) (auto simp: hub_ok_def distinct_remove_first dest!: set_remove_first [THEN subsetD])

lemma hub_ok_receive: "hub_ok m \<Longrightarrow> hub_ok (on_clients u (map (\<lambda>ch. if ch_id ch = c then ch\<lparr>ch_buf := tl (ch_buf ch)\<rparr> else ch)) m)"
  by (rule hub_ok_map) auto

lemma hub_do_ok: "hub_ok (mem w) \<Longrightarrow> wp (hub_do x) (\<lambda>_ w'. hub_ok (mem w')) w"
  by (cases x) (auto simp: wp_bind wp_return SSEHub_Push_def SSEHub_Subscribe_def SSEHub_Unsubscribe_def receive_def wp_with_memory
    hub_ok_push hub_ok_subscribe hub_ok_unsubscribe hub_ok_receive split: list.splits)

text \<open>
  C17. The hub is well-formed in every state it can reach from an empty one: no channel holds more
  than its twenty notifications, every channel belongs to one stream of one account, and a new
  stream gets a channel of its own.
\<close>

theorem SSEHub_well_formed:
  assumes "\<forall>u. hub_clients (mem w) u = []" "run_state (hub_do_all xs) w = (r, w')"
  shows "hub_ok (mem w')"
proof -
  have "wp (hub_do_all xs) (\<lambda>_ w'. hub_ok (mem w')) w" if "hub_ok (mem w)" for w :: "'x world"
    using that
  proof (induction xs arbitrary: w)
    case (Cons x xs)
    show ?case unfolding hub_do_all.simps wp_bind by (rule wp_mono [OF hub_do_ok [OF Cons.prems] Cons.IH])
  qed (simp add: wp_return)
  moreover have "hub_ok (mem w)" using assms(1) by (simp add: hub_ok_def)
  ultimately show ?thesis using wp_runD [OF _ assms(2)] by blast
qed

section \<open>A push beside a closing stream\<close>

text \<open>
  \<open>Push\<close> reads the slice of channels under the lock and sends to them after releasing it: other
  goroutines run in between. A send to a closed channel panics (a channel that is not in the hub any
  more was closed by \<open>Unsubscribe\<close>).
\<close>

definition send_to :: "uint \<Rightarrow> notification \<Rightarrow> nat \<Rightarrow> ('x, unit res) io" where
  "send_to userID n c = with_memory (\<lambda>m.
     if c \<in> ch_id ` set (hub_clients m userID)
     then (Inr (), on_clients userID (map (\<lambda>ch. if ch_id ch = c then send_or_drop n ch else ch)) m)
     else (Inl (ErrNew ''panic: send on closed channel''), m))"

fun send_each :: "uint \<Rightarrow> notification \<Rightarrow> nat list \<Rightarrow> ('x, unit res) io" where
  "send_each userID n [] = ok ()"
| "send_each userID n (c # cs) = bindE (send_to userID n c) (\<lambda>_. send_each userID n cs)"

definition Push_in_steps :: "('x, unit) io \<Rightarrow> uint \<Rightarrow> notification \<Rightarrow> ('x, unit res) io" where
  "Push_in_steps others userID n = do {
     chs \<leftarrow> with_memory (\<lambda>m. (map ch_id (hub_clients m userID), m));
     _ \<leftarrow> others;
     send_each userID n chs}"

definition sent_to :: "notification \<Rightarrow> nat set \<Rightarrow> sse_chan \<Rightarrow> sse_chan" where
  "sent_to n S ch = (if ch_id ch \<in> S then send_or_drop n ch else ch)"

lemma ch_id_sent_to [simp]: "ch_id (sent_to n S ch) = ch_id ch"
  by (simp add: sent_to_def)

lemma on_clients_twice: "on_clients u g (on_clients u f m) = on_clients u (\<lambda>chs. g (f chs)) m"
  by (simp add: on_clients_def)

lemma on_clients_same: "f (hub_clients m u) = g (hub_clients m u) \<Longrightarrow> on_clients u f m = on_clients u g m"
  by (simp add: on_clients_def)

lemma sent_to_comp: "c \<notin> S \<Longrightarrow> sent_to n S (if ch_id ch = c then send_or_drop n ch else ch) = sent_to n (insert c S) ch"
  by (auto simp: sent_to_def)

lemma send_each_all:
  assumes "distinct cs" "set cs \<subseteq> ch_id ` set (hub_clients (mem w) u)"
  shows "run_state (send_each u n cs) w = (Inr (), w\<lparr>mem := on_clients u (map (sent_to n (set cs))) (mem w)\<rparr>)"
  using assms
proof (induction cs arbitrary: w)
  case Nil
  have "map (sent_to n {}) chs = chs" for chs by (simp add: sent_to_def map_idI)
  then have "on_clients u (map (sent_to n {})) (mem w) = mem w" by (simp add: on_clients_def)
  then show ?case by simp
next
  case (Cons c cs)
  let ?m = "on_clients u (map (\<lambda>ch. if ch_id ch = c then send_or_drop n ch else ch)) (mem w)"
  have "set cs \<subseteq> ch_id ` set (hub_clients (mem (w\<lparr>mem := ?m\<rparr>)) u)"
    using Cons.prems by (force simp: hub_clients_on_clients image_image)
  with Cons show ?case
    by (simp add: send_to_def with_memory_def bindE_def on_clients_twice comp_def sent_to_comp)
qed

lemma send_each_closed:
  assumes "c \<in> set cs" "c \<notin> ch_id ` set (hub_clients (mem w) u)"
  shows "fst (run_state (send_each u n cs) w) = Inl (ErrNew ''panic: send on closed channel'')"
  using assms
proof (induction cs arbitrary: w)
  case (Cons x xs)
  show ?case
  proof (cases "x \<in> ch_id ` set (hub_clients (mem w) u)")
    case True
    then have "c \<in> set xs" using Cons.prems by auto
    moreover have "c \<notin> ch_id ` set (hub_clients (on_clients u (map (\<lambda>ch. if ch_id ch = x then send_or_drop n ch else ch)) (mem w)) u)"
      using Cons.prems by (auto simp: hub_clients_on_clients)
    ultimately show ?thesis using True Cons.IH by (simp add: send_to_def with_memory_def bindE_def)
  qed (use Cons.prems in \<open>simp add: send_to_def with_memory_def bindE_def\<close>)
qed simp


section \<open>What a stream gets\<close>

text \<open>The stream \<open>c\<close> of account \<open>u\<close> is open and its channel holds \<open>b\<close>.\<close>

definition open_stream :: "uint \<Rightarrow> nat \<Rightarrow> notification list \<Rightarrow> memory \<Rightarrow> bool" where
  "open_stream u c b m \<longleftrightarrow> hub_ok m \<and> filter (\<lambda>ch. ch_id ch = c) (hub_clients m u) = [\<lparr>ch_id = c, ch_buf = b\<rparr>]"

definition pushes :: "uint \<Rightarrow> hub_op list \<Rightarrow> notification list" where
  "pushes u xs = concat (map (\<lambda>x. case x of HubPush v n \<Rightarrow> if v = u then [n] else [] | _ \<Rightarrow> []) xs)"

definition spares :: "uint \<Rightarrow> nat \<Rightarrow> hub_op \<Rightarrow> bool" where
  "spares u c x \<longleftrightarrow> x \<noteq> HubUnsubscribe u c \<and> x \<noteq> HubReceive u c"

lemma pushes_simps [simp]:
  "pushes u [] = []" "pushes u (xs @ ys) = pushes u xs @ pushes u ys"
  "pushes u (x # xs) = (case x of HubPush v n \<Rightarrow> if v = u then [n] else [] | _ \<Rightarrow> []) @ pushes u xs"
  by (simp_all add: pushes_def)

lemma open_stream_bound: "open_stream u c b m \<Longrightarrow> length b \<le> 20 \<and> c < hub_next m"
proof -
  assume o: "open_stream u c b m"
  then have "\<lparr>ch_id = c, ch_buf = b\<rparr> \<in> set (filter (\<lambda>ch. ch_id ch = c) (hub_clients m u))" by (simp add: open_stream_def)
  then have "\<lparr>ch_id = c, ch_buf = b\<rparr> \<in> set (hub_clients m u)" by simp
  moreover have "hub_ok m" using o by (simp add: open_stream_def)
  ultimately have "length (ch_buf \<lparr>ch_id = c, ch_buf = b\<rparr>) \<le> 20 \<and> ch_id \<lparr>ch_id = c, ch_buf = b\<rparr> < hub_next m" unfolding hub_ok_def by blast
  then show ?thesis by simp
qed

lemma filter_map_id:
  assumes "\<And>ch. ch_id (f ch) = ch_id ch"
  shows "filter (\<lambda>ch. ch_id ch = c) (map f chs) = map f (filter (\<lambda>ch. ch_id ch = c) chs)"
  by (simp add: filter_map comp_def assms)

lemma hub_do_stream:
  assumes o: "open_stream u c b (mem w)" and x: "spares u c x"
  shows "wp (hub_do x) (\<lambda>_ w'. \<exists>b'. open_stream u c b' (mem w') \<and> subseq b' (b @ pushes u [x]) \<and>
    (length b + length (pushes u [x]) \<le> 20 \<longrightarrow> b' = b @ pushes u [x])) w"
proof -
  let ?m = "mem w"
  have chs: "filter (\<lambda>ch. ch_id ch = c) (hub_clients ?m u) = [\<lparr>ch_id = c, ch_buf = b\<rparr>]" and ok: "hub_ok ?m" using o by (simp_all add: open_stream_def)
  have keep: "wp (hub_do x) (\<lambda>_ w'. filter (\<lambda>ch. ch_id ch = c) (hub_clients (mem w') u) = [\<lparr>ch_id = c, ch_buf = b'\<rparr>]) w \<Longrightarrow>
      subseq b' (b @ pushes u [x]) \<Longrightarrow> (length b + length (pushes u [x]) \<le> 20 \<longrightarrow> b' = b @ pushes u [x]) \<Longrightarrow> ?thesis" for b'
    using hub_do_ok [OF ok, of x] by (auto simp: wp_def open_stream_def split: prod.splits)
  show ?thesis
  proof (cases x)
    case (HubPush v n)
    define b' where "b' = (if v = u \<and> length b < 20 then b @ [n] else b)"
    show ?thesis
      by (rule keep [of b']) (use HubPush chs in \<open>auto simp: SSEHub_Push_def wp_with_memory hub_clients_on_clients filter_map_id send_or_drop_def b'_def\<close>)
  next
    case (HubSubscribe v)
    have "c \<noteq> hub_next ?m" using open_stream_bound [OF o] by simp
    then show ?thesis
      by (intro keep [of b]) (use HubSubscribe chs in \<open>auto simp: SSEHub_Subscribe_def wp_bind wp_return wp_with_memory hub_clients_on_clients\<close>)
  next
    case (HubUnsubscribe v c')
    with x chs show ?thesis
      by (intro keep [of b]) (auto simp: SSEHub_Unsubscribe_def wp_with_memory hub_clients_on_clients spares_def remove_first_other)
  next
    case (HubReceive v c')
    have "filter (\<lambda>ch. ch_id ch = c) (map (\<lambda>ch. if ch_id ch = c' then ch\<lparr>ch_buf := tl (ch_buf ch)\<rparr> else ch) (hub_clients ?m u)) = [\<lparr>ch_id = c, ch_buf = b\<rparr>]"
      if "c' \<noteq> c"
      using that chs by (subst filter_map_id) auto
    with x chs HubReceive show ?thesis
      by (intro keep [of b]) (auto simp: receive_def wp_bind wp_return wp_with_memory hub_clients_on_clients spares_def split: list.splits)
  qed
qed

text \<open>What may become of the channel's content \<open>b\<close> when \<open>ns\<close> are pushed.\<close>

definition buffered :: "notification list \<Rightarrow> notification list \<Rightarrow> notification list \<Rightarrow> bool" where
  "buffered b ns b' \<longleftrightarrow> subseq b' (b @ ns) \<and> (length b + length ns \<le> 20 \<longrightarrow> b' = b @ ns)"

lemma buffered_trans: "buffered b ns b1 \<Longrightarrow> buffered b1 ns' b2 \<Longrightarrow> buffered b (ns @ ns') b2"
proof -
  assume a: "buffered b ns b1" "buffered b1 ns' b2"
  then have "subseq (b1 @ ns') ((b @ ns) @ ns')" by (simp only: buffered_def subseq_append)
  with a show ?thesis by (auto simp: buffered_def intro: subseq_order.trans)
qed

lemma hub_do_all_stream:
  assumes "open_stream u c b (mem w)" "\<forall>x \<in> set xs. spares u c x"
  shows "wp (hub_do_all xs) (\<lambda>_ w'. \<exists>b'. open_stream u c b' (mem w') \<and> buffered b (pushes u xs) b') w"
  using assms
proof (induction xs arbitrary: b w)
  case Nil
  then show ?case by (auto simp: wp_return buffered_def)
next
  case (Cons x xs)
  have first: "wp (hub_do x) (\<lambda>_ w'. \<exists>b'. open_stream u c b' (mem w') \<and> buffered b (pushes u [x]) b') w"
    using hub_do_stream [OF Cons.prems(1), of x] Cons.prems(2) by (simp add: buffered_def)
  have split: "pushes u (x # xs) = pushes u [x] @ pushes u xs" by simp
  show ?case
    unfolding hub_do_all.simps wp_bind split
  proof (rule wp_mono [OF first], goal_cases)
    case (1 r w1)
    then obtain b1 where b1: "open_stream u c b1 (mem w1)" "buffered b (pushes u [x]) b1" by blast
    have rest: "\<forall>x \<in> set xs. spares u c x" using Cons.prems(2) by simp
    show ?case by (rule wp_mono [OF Cons.IH [OF b1(1) rest]]) (use buffered_trans [OF b1(2)] in blast)
  qed
qed

text \<open>A receive from an open stream takes its oldest notification.\<close>

lemma receive_stream:
  assumes "open_stream u c b (mem w)"
  shows "wp (receive u c) (\<lambda>r w'. case b of
      [] \<Rightarrow> r = Blocked \<and> open_stream u c [] (mem w')
    | n # b' \<Rightarrow> r = Got n \<and> open_stream u c b' (mem w')) w"
proof -
  have chs: "filter (\<lambda>ch. ch_id ch = c) (hub_clients (mem w) u) = [\<lparr>ch_id = c, ch_buf = b\<rparr>]" and ok: "hub_ok (mem w)"
    using assms by (simp_all add: open_stream_def)
  have "filter (\<lambda>ch. ch_id ch = c) (map (\<lambda>ch. if ch_id ch = c then ch\<lparr>ch_buf := tl (ch_buf ch)\<rparr> else ch) (hub_clients (mem w) u)) = [\<lparr>ch_id = c, ch_buf = tl b\<rparr>]"
    using chs by (subst filter_map_id) auto
  with assms hub_ok_receive [OF ok, of u c] chs show ?thesis
    by (cases b) (simp_all add: receive_def wp_with_memory open_stream_def hub_clients_on_clients)
qed

lemma data_not_keepalive: "data_line J n \<noteq> keepalive_line"
  by (simp add: data_line_def keepalive_line_def)

text \<open>What a stream has written, without the keepalive lines.\<close>

definition shown :: "string list \<Rightarrow> string list" where
  "shown out = filter (\<lambda>l. l \<noteq> keepalive_line) out"

lemma shown_simps [simp]: "shown [] = []" "shown (a @ b) = shown a @ shown b" "shown [keepalive_line] = []" "shown [data_line J n] = [data_line J n]"
  by (simp_all add: shown_def data_not_keepalive)

definition loop_events :: "(hub_op list \<times> stream_event) list \<Rightarrow> (('x, unit) io \<times> stream_event) list" where
  "loop_events evs = map (\<lambda>(xs, e). (hub_do_all xs, e)) evs"

lemma loop_events_Cons: "loop_events ((xs, e) # evs) = (hub_do_all xs, e) # loop_events evs"
  by (simp add: loop_events_def)

lemma sse_loop_stream:
  fixes w :: "'x world"
  assumes "open_stream u c b (mem w)" "\<forall>(xs, e) \<in> set evs. \<forall>x \<in> set xs. spares u c x"
  shows "wp (sse_loop J u c (loop_events evs) out) (\<lambda>out' w'. \<exists>got b'. open_stream u c b' (mem w') \<and>
    shown out' = shown out @ map (data_line J) got \<and> subseq (got @ b') (b @ pushes u (concat (map fst evs))) \<and>
    (StreamDone \<notin> snd ` set evs \<and> length b + length (pushes u (concat (map fst evs))) \<le> 20 \<longrightarrow>
       got @ b' = b @ pushes u (concat (map fst evs)))) w"
  using assms
proof (induction evs arbitrary: b w out)
  case Nil
  then show ?case by (auto simp: loop_events_def wp_return intro: exI [of _ "[]"])
next
  case (Cons xe evs)
  obtain xs e where xe: "xe = (xs, e)" by (cases xe)
  let ?p = "pushes u xs" and ?q = "pushes u (concat (map fst evs))"
  have first: "wp (hub_do_all xs) (\<lambda>_ w'. \<exists>b1. open_stream u c b1 (mem w') \<and> buffered b ?p b1) w"
    by (rule hub_do_all_stream [OF Cons.prems(1)]) (use Cons.prems(2) xe in auto)
  have rest: "\<forall>(xs, e) \<in> set evs. \<forall>x \<in> set xs. spares u c x" using Cons.prems(2) by simp
  let ?Q = "\<lambda>out' w'. \<exists>got b'. open_stream u c b' (mem w') \<and> shown out' = shown out @ map (data_line J) got \<and>
    subseq (got @ b') (b @ ?p @ ?q) \<and> (e \<noteq> StreamDone \<and> StreamDone \<notin> snd ` set evs \<and> length b + length (?p @ ?q) \<le> 20 \<longrightarrow> got @ b' = b @ ?p @ ?q)"
  have go: "wp (sse_loop J u c (loop_events evs) (out @ l)) ?Q w1"
    if b1: "buffered b ?p (ns @ b1)" and o: "open_stream u c b1 (mem w1)" and l: "shown l = map (data_line J) ns" for ns b1 l and w1 :: "'x world"
  proof (rule wp_mono [OF Cons.IH [OF o rest]], goal_cases)
    case (1 out' w')
    then obtain got b' where *: "open_stream u c b' (mem w')" "shown out' = shown (out @ l) @ map (data_line J) got" "subseq (got @ b') (b1 @ ?q)"
        "StreamDone \<notin> snd ` set evs \<and> length b1 + length ?q \<le> 20 \<longrightarrow> got @ b' = b1 @ ?q" by blast
    have "subseq ((ns @ got) @ b') (b @ ?p @ ?q)"
    proof -
      have "subseq (ns @ got @ b') (ns @ b1 @ ?q)" using *(3) by (simp only: subseq_append')
      moreover have "subseq ((ns @ b1) @ ?q) ((b @ ?p) @ ?q)" using b1 by (simp only: buffered_def subseq_append)
      ultimately show ?thesis by (metis append_assoc subseq_order.trans)
    qed
    moreover have "(ns @ got) @ b' = b @ ?p @ ?q" if "e \<noteq> StreamDone" "StreamDone \<notin> snd ` set evs" "length b + length (?p @ ?q) \<le> 20"
    proof -
      have eq: "ns @ b1 = b @ ?p" using b1 that(3) by (simp add: buffered_def)
      then have "length ns + length b1 = length b + length ?p" by (metis length_append)
      with that(3) have "length b1 + length ?q \<le> 20" by simp
      with *(4) that(2) have "got @ b' = b1 @ ?q" by blast
      with eq show ?thesis by (metis append_assoc)
    qed
    ultimately show ?case using *(1,2) l by (intro exI [of _ "ns @ got"] exI [of _ b']) auto
  qed
  have stop: "wp (ret out) ?Q w1" if "buffered b ?p b1" "open_stream u c b1 (mem w1)" "e = StreamDone" for b1 and w1 :: "'x world"
  proof -
    have "subseq (b1 @ []) ((b @ ?p) @ ?q)" using that(1) by (intro list_emb_append_mono) (auto simp: buffered_def)
    with that(2,3) show ?thesis unfolding wp_return by (intro exI [of _ "[]"] exI [of _ b1]) simp
  qed
  have "wp (sse_loop J u c (loop_events (xe # evs)) out) ?Q w"
    unfolding xe loop_events_Cons sse_loop.simps wp_bind [of "hub_do_all _"]
  proof (rule wp_mono [OF first], goal_cases)
    case (1 r w1)
    then obtain b1 where b1: "open_stream u c b1 (mem w1)" "buffered b ?p b1" by blast
    show ?case
    proof (cases e)
      case StreamDone
      show ?thesis unfolding StreamDone stream_event.case using stop [OF b1(2,1) StreamDone] by (simp add: StreamDone)
    next
      case StreamTick
      show ?thesis unfolding StreamTick stream_event.case using go [of "[]" b1 w1 "[keepalive_line]"] b1 by (simp add: StreamTick)
    next
      case StreamReceive
      have "wp (receive u c) (\<lambda>r. wp (case r of Closed \<Rightarrow> ret out | Blocked \<Rightarrow> sse_loop J u c (loop_events evs) out
          | Got n \<Rightarrow> sse_loop J u c (loop_events evs) (out @ [data_line J n])) ?Q) w1"
      proof (rule wp_mono [OF receive_stream [OF b1(1)]], goal_cases)
        case (1 r w2)
        show ?case
        proof (cases b1)
          case Nil
          with 1 have "r = Blocked" "open_stream u c [] (mem w2)" by auto
          then show ?thesis using go [of "[]" "[]" w2 "[]"] b1(2) Nil by simp
        next
          case (Cons n b2)
          with 1 have "r = Got n" "open_stream u c b2 (mem w2)" by auto
          then show ?thesis using go [of "[n]" b2 w2 "[data_line J n]"] b1(2) Cons by simp
        qed
      qed
      then show ?thesis unfolding StreamReceive stream_event.case wp_bind by simp
    qed
  qed
  then show ?case by (rule wp_mono) (auto simp: xe)
qed


end
