(* ===== verification/NotificationRuns.thy ===== *)
theory NotificationRuns
  imports SseHub JwtAuth
begin

text \<open>Concrete runs of the notification worker, the hub and the authentication of the streams.\<close>

section \<open>Revoked tokens\<close>

text \<open>
  The notification routes only check the signature of a token: after a logout that the account's
  other routes respect, the old token still passes their authentication.
\<close>

theorem revoked_token_opens_stream:
  "let (r, w1) = run_state (Logout sample_accounts 1) session_world
   in r = Inr () \<and> fst (auth_run sure_cache ''Bearer old'' w1) = Abort 401 ''token has been revoked'' \<and>
      fst (run_state (SSERequireAuth sample_crypto ''s'' ''old'' '''' Map.empty) w1) = Next [''accountID'' \<mapsto> GUint 1]"
  by (simp add: auth_run_def JWTAuth_def bearer check_def Logout_def AccountService_FindByID_def AccountRepo_FindByID_def
      NewAccountService_def uncache_session_def DeleteTokenAndRefreshToken_def session_world_def sure_cmd_def cmd_get_def cmd_del_def
      sample_accounts_def SSERequireAuth_def sse_token_def live_def session_run_defs)

section \<open>One notification\<close>

definition like_message :: like_event where
  "like_message = \<lparr>le_EventID = ''e1'', le_Action = ''like'', le_UserID = 7, le_VideoID = 1, le_OccurredAt = 0\<rparr>"

definition notice_host :: "ref_hid host" where
  "notice_host = ref_host [(like_message, ''A'')] [] [] [] [] []"

definition no_push :: push_json where
  "no_push = \<lparr>json_notification = table_codec [], json_push = table_codec []\<rparr>"

definition like_delivery :: delivery where
  "like_delivery = \<lparr>d_Pub = json_publishing 0 ''A'', d_Exchange = LikeExchange, d_RoutingKey = LikeRoutingKeyLike\<rparr>"

definition watched_video :: video where
  "watched_video = \<lparr>v_ID = 1, v_AuthorID = 3, v_Username = ''ann'', v_Title = ''a'', v_Description = ''b'',
     v_PlayURL = ''p'', v_CoverURL = ''c'', v_CreateTime = 7000000, v_LikesCount = 0, v_Popularity = 0\<rparr>"

definition notice_world :: ref_world where
  "notice_world = ref_start [] (no_tables\<lparr>t_videos := [watched_video]\<rparr>)"

definition notice_run :: "unit res \<times> ref_world" where
  "notice_run = run_state (NotificationWorker_process notice_host no_push ref_gorm None True like_delivery) notice_world"

lemma notice_run_fine: "fst notice_run = Inr ()"
  by (simp add: notice_run_def NotificationWorker_process_def buildNotification_def buildLikeNotification_def getVideoAuthorID_def
      publishNotification_def SSEHub_Push_def with_memory_def new_notification_def notice_world_def watched_video_def like_delivery_def
      json_publishing_def notice_host_def like_message_def bindE_def ref_defs Let_def)


section \<open>Two streams\<close>

definition some_notice :: "nat \<Rightarrow> notification" where
  "some_notice i = new_notification (''e'' @ FormatUint i) 3 7 ''like'' i liked_text"

theorem SSEHub_well_formed_witness:
  "hub_ok (mem (snd (run_state (hub_do_all [HubSubscribe 3, HubSubscribe 4, HubPush 3 (some_notice 1), HubReceive 3 0, HubUnsubscribe 3 0]) notice_world)))"
proof -
  let ?run = "run_state (hub_do_all [HubSubscribe 3, HubSubscribe 4, HubPush 3 (some_notice 1), HubReceive 3 0, HubUnsubscribe 3 0]) notice_world"
  have "?run = (fst ?run, snd ?run)" by (rule prod.collapse [symmetric])
  from SSEHub_well_formed [OF _ this] show ?thesis by (simp add: notice_world_def ref_start_def no_memory_def)
qed



end
