(* ===== verification/Topology.thy ===== *)
theory Topology
  imports Notification
begin

text \<open>
  The queue topology of \<open>internal/middleware/rabbitmq\<close>: \<open>DeclareTopic\<close>, \<open>DeclareDLX\<close>, the
  constructors of the publishers and \<open>NewNotificationMQ\<close>, and the order in which the API process
  (\<open>http/router.go\<close>, \<open>StartNotification\<close>) and the worker process (\<open>cmd/worker/main.go\<close>) call them.
  The amqp client and the broker are parameters. Whatever declarations fail and however often the
  processes are restarted, every event is routed to the queues of its workers and to no other.
\<close>

section \<open>The client\<close>

text \<open>What the broker holds: exchanges (kind, durable), queues (durable, dead-letter exchange) and bindings.\<close>

record topology =
  tp_exchanges :: "string \<rightharpoonup> string \<times> bool"
  tp_queues :: "string \<rightharpoonup> bool \<times> string option"
  tp_bindings :: "(string \<times> string \<times> string) list"

text \<open>
  \<open>amqp.Dial\<close>, \<open>conn.Channel\<close>, and the channel's \<open>Close\<close>, \<open>Qos\<close> and declarations. The flags the program
  leaves false and the table it leaves nil are left out.
\<close>

record 'x admin =
  ad_Dial :: "string \<Rightarrow> ('x, unit res) io"
  ad_Channel :: "('x, 'x channel res) io"
  ad_CloseConn :: "('x, unit res) io"
  ad_Close :: "'x channel \<Rightarrow> ('x, unit res) io"
  ad_Qos :: "'x channel \<Rightarrow> nat \<Rightarrow> ('x, unit res) io"
  ad_ExchangeDeclare :: "'x channel \<Rightarrow> string \<Rightarrow> string \<Rightarrow> bool \<Rightarrow> ('x, unit res) io"
  ad_QueueDeclare :: "'x channel \<Rightarrow> string \<Rightarrow> bool \<Rightarrow> string option \<Rightarrow> ('x, string res) io"
  ad_QueueBind :: "'x channel \<Rightarrow> string \<Rightarrow> string \<Rightarrow> string \<Rightarrow> ('x, unit res) io"
  ad_topology :: "'x world \<Rightarrow> topology"

text \<open>
  What is relied on: a declaration has its effect or fails with or without it; declaring something
  that exists changes nothing and fails when it differs; a binding needs its queue and its exchange;
  the other calls leave the topology alone.
\<close>

definition admin_ok :: "'x admin \<Rightarrow> bool" where
  "admin_ok A \<longleftrightarrow>
     (\<forall>w. wp (ad_Channel A) (\<lambda>_ w'. ad_topology A w' = ad_topology A w) w) \<and>
     (\<forall>c w. wp (ad_Close A c) (\<lambda>_ w'. ad_topology A w' = ad_topology A w) w) \<and>
     (\<forall>c n w. wp (ad_Qos A c n) (\<lambda>_ w'. ad_topology A w' = ad_topology A w) w) \<and>
     (\<forall>c x k d w. wp (ad_ExchangeDeclare A c x k d) (\<lambda>r w'.
        (\<exists>e. r = Inl e) \<and> ad_topology A w' = ad_topology A w \<or>
        tp_exchanges (ad_topology A w) x \<in> {None, Some (k, d)} \<and>
          ad_topology A w' = (ad_topology A w)\<lparr>tp_exchanges := (tp_exchanges (ad_topology A w))(x \<mapsto> (k, d))\<rparr>) w) \<and>
     (\<forall>c q d l w. q \<noteq> '''' \<longrightarrow> wp (ad_QueueDeclare A c q d l) (\<lambda>r w'.
        (\<exists>e. r = Inl e) \<and> ad_topology A w' = ad_topology A w \<or>
        (\<forall>n. r = Inr n \<longrightarrow> n = q) \<and> tp_queues (ad_topology A w) q \<in> {None, Some (d, l)} \<and>
          ad_topology A w' = (ad_topology A w)\<lparr>tp_queues := (tp_queues (ad_topology A w))(q \<mapsto> (d, l))\<rparr>) w) \<and>
     (\<forall>c q k x w. wp (ad_QueueBind A c q k x) (\<lambda>r w'.
        (\<exists>e. r = Inl e) \<and> ad_topology A w' = ad_topology A w \<or>
        tp_queues (ad_topology A w) q \<noteq> None \<and> tp_exchanges (ad_topology A w) x \<noteq> None \<and>
          ad_topology A w' = (ad_topology A w)\<lparr>tp_bindings := List.insert (x, k, q) (tp_bindings (ad_topology A w))\<rparr>) w)"

section \<open>rabbit\_mq.go and dlx.go\<close>

record rabbitmq_config =
  rq_Host :: string
  rq_Port :: int
  rq_Username :: string
  rq_Password :: string

text \<open>\<open>strconv.Itoa\<close>.\<close>

definition Itoa :: "int \<Rightarrow> string" where
  "Itoa n = (if n < 0 then CHR ''-'' # FormatUint (nat (- n)) else FormatUint (nat n))"

definition NewRabbitMQ :: "'x admin \<Rightarrow> rabbitmq_config option \<Rightarrow> ('x, 'x RabbitMQ option res) io" where
  "NewRabbitMQ A cfg = (case cfg of
     None \<Rightarrow> throw (ErrNew ''rabbitmq config is nil'')
   | Some c \<Rightarrow>
       bindE (ad_Dial A (''amqp://'' @ rq_Username c @ '':'' @ rq_Password c @ ''@'' @ rq_Host c @ '':'' @ Itoa (rq_Port c))) (\<lambda>_.
         bindE (ad_Channel A) (\<lambda>ch. ok (Some \<lparr>Conn = True, Ch = Some ch\<rparr>))))"

definition RabbitMQ_Close :: "'x admin \<Rightarrow> 'x RabbitMQ option \<Rightarrow> ('x, unit res) io" where
  "RabbitMQ_Close A r = (case r of
     None \<Rightarrow> ok ()
   | Some m \<Rightarrow> (case Ch m of
       None \<Rightarrow> ok ()
     | Some ch \<Rightarrow> if \<not> Conn m then ok () else bindE (ad_Close A ch) (\<lambda>_. bindE (ad_CloseConn A) (\<lambda>_. ok ()))))"

definition NewChannelClient :: "'x admin \<Rightarrow> 'x RabbitMQ option \<Rightarrow> ('x, 'x RabbitMQ option res) io" where
  "NewChannelClient A r =
     (if \<not> (case r of None \<Rightarrow> False | Some m \<Rightarrow> Conn m) then throw (ErrNew ''rabbitmq connection is not initialized'')
      else bindE (ad_Channel A) (\<lambda>ch. ok (Some \<lparr>Conn = True, Ch = Some ch\<rparr>)))"

definition CloseChannel :: "'x admin \<Rightarrow> 'x RabbitMQ option \<Rightarrow> ('x, unit res) io" where
  "CloseChannel A r = (case (case r of None \<Rightarrow> None | Some m \<Rightarrow> Ch m) of None \<Rightarrow> ok () | Some ch \<Rightarrow> ad_Close A ch)"

definition DLXExchange :: string where "DLXExchange = ''dlx.events''"

definition DeclareDLX :: "'x admin \<Rightarrow> 'x channel option \<Rightarrow> string \<Rightarrow> string \<Rightarrow> ('x, unit res) io" where
  "DeclareDLX A ch queueName bindingKey = (case ch of
     None \<Rightarrow> ok ()
   | Some c \<Rightarrow>
       bindE (ad_ExchangeDeclare A c DLXExchange ''topic'' True) (\<lambda>_.
       bindE (ad_QueueDeclare A c (queueName @ ''.dlx'') True None) (\<lambda>q.
       bindE (ad_QueueBind A c q bindingKey DLXExchange) (\<lambda>_. ok ()))))"

definition DeclareTopic :: "'x admin \<Rightarrow> 'x RabbitMQ option \<Rightarrow> string \<Rightarrow> string \<Rightarrow> string \<Rightarrow> ('x, unit res) io" where
  "DeclareTopic A r exchange queue bindingKey =
     (case (case r of None \<Rightarrow> None | Some m \<Rightarrow> if Conn m then Ch m else None) of
        None \<Rightarrow> throw (ErrNew ''rabbitmq is not initialized'')
      | Some c \<Rightarrow>
          if exchange = '''' \<or> queue = '''' \<or> bindingKey = '''' then throw (ErrNew ''exchange/queue/bindingKey is required'')
          else
            bindE (ad_ExchangeDeclare A c exchange ''topic'' True) (\<lambda>_.
            bindE (ad_QueueDeclare A c queue True (Some DLXExchange)) (\<lambda>q.
            bindE (ad_QueueBind A c q bindingKey exchange) (\<lambda>_. do {
              _ \<leftarrow> DeclareDLX A (Some c) queue bindingKey;
              ok ()}))))"

section \<open>The constructors\<close>

definition LikeBindingKey :: string where "LikeBindingKey = ''like.*''"
definition CommentQueue :: string where "CommentQueue = ''comment.events''"
definition CommentBindingKey :: string where "CommentBindingKey = ''comment.*''"
definition SocialQueue :: string where "SocialQueue = ''social.events''"
definition SocialBindingKey :: string where "SocialBindingKey = ''social.*''"
definition PopularityQueue :: string where "PopularityQueue = ''video.popularity.events''"
definition PopularityBindingKey :: string where "PopularityBindingKey = ''video.popularity.*''"
definition TimelineQueue :: string where "TimelineQueue = ''video.timeline.events''"
definition TimelineBindingKey :: string where "TimelineBindingKey = ''video.timeline.*''"

text \<open>A \<open>*LikeMQ\<close> and its like embed the client they were made from.\<close>

definition NewLikeMQ :: "'x admin \<Rightarrow> 'x RabbitMQ option \<Rightarrow> ('x, 'x mq_ptr res) io" where
  "NewLikeMQ A base = (if base = None then throw (ErrNew ''rabbitmq base is nil'')
     else bindE (DeclareTopic A base LikeExchange LikeQueue LikeBindingKey) (\<lambda>_. ok (Some base)))"

definition NewCommentMQ :: "'x admin \<Rightarrow> 'x RabbitMQ option \<Rightarrow> ('x, 'x mq_ptr res) io" where
  "NewCommentMQ A base = (if base = None then throw (ErrNew ''rabbitmq base is nil'')
     else bindE (DeclareTopic A base CommentExchange CommentQueue CommentBindingKey) (\<lambda>_. ok (Some base)))"

definition NewSocialMQ :: "'x admin \<Rightarrow> 'x RabbitMQ option \<Rightarrow> ('x, 'x mq_ptr res) io" where
  "NewSocialMQ A base = (if base = None then throw (ErrNew ''rabbitmq base is nil'')
     else bindE (DeclareTopic A base SocialExchange SocialQueue SocialBindingKey) (\<lambda>_. ok (Some base)))"

definition NewPopularityMQ :: "'x admin \<Rightarrow> 'x RabbitMQ option \<Rightarrow> ('x, 'x mq_ptr res) io" where
  "NewPopularityMQ A base = (if base = None then throw (ErrNew ''rabbitmq base is nil'')
     else bindE (DeclareTopic A base PopularityExchange PopularityQueue PopularityBindingKey) (\<lambda>_. ok (Some base)))"

definition NewTimelineMQ :: "'x admin \<Rightarrow> 'x RabbitMQ option \<Rightarrow> ('x, 'x mq_ptr res) io" where
  "NewTimelineMQ A base = (if base = None then throw (ErrNew ''rabbitmq base is nil'')
     else bindE (DeclareTopic A base TimelineExchange TimelineQueue TimelineBindingKey) (\<lambda>_. ok (Some base)))"

definition NewNotificationMQ :: "'x admin \<Rightarrow> 'x RabbitMQ option \<Rightarrow> ('x, 'x mq_ptr res) io" where
  "NewNotificationMQ A base = (if base = None then throw (ErrNew ''rabbitmq base is nil'')
     else
       bindE (DeclareTopic A base LikeExchange NotificationLikeQueue LikeRoutingKeyLike) (\<lambda>_.
       bindE (DeclareTopic A base CommentExchange NotificationCommentQueue CommentRoutingKeyPublish) (\<lambda>_.
       bindE (DeclareTopic A base SocialExchange NotificationSocialQueue SocialRoutingKeyFollow) (\<lambda>_.
       ok (Some base)))))"

section \<open>The processes\<close>

text \<open>\<open>router.go\<close>: every publisher has a channel of its own; one that cannot be set up is nil, and the service works without it.\<close>

definition router_mq :: "'x admin \<Rightarrow> ('x RabbitMQ option \<Rightarrow> ('x, 'x mq_ptr res) io) \<Rightarrow> 'x RabbitMQ option \<Rightarrow> ('x, 'x mq_ptr) io" where
  "router_mq A new rmq = do {
     client \<leftarrow> NewChannelClient A rmq;
     r \<leftarrow> new (case client of Inl _ \<Rightarrow> None | Inr c \<Rightarrow> c);
     ret (case r of Inl _ \<Rightarrow> None | Inr q \<Rightarrow> q)}"

definition router_queues :: "'x admin \<Rightarrow> 'x RabbitMQ option \<Rightarrow> ('x, 'x mq_ptr \<times> 'x mq_ptr \<times> 'x mq_ptr \<times> 'x mq_ptr) io" where
  "router_queues A rmq = do {
     likeMQ \<leftarrow> router_mq A (NewLikeMQ A) rmq;
     popularityMQ \<leftarrow> router_mq A (NewPopularityMQ A) rmq;
     commentMQ \<leftarrow> router_mq A (NewCommentMQ A) rmq;
     socialMQ \<leftarrow> router_mq A (NewSocialMQ A) rmq;
     ret (likeMQ, popularityMQ, commentMQ, socialMQ)}"

text \<open>\<open>StartNotification\<close> up to the start of the workers: it tells whether they are started.\<close>

definition declare_notifications :: "'x admin \<Rightarrow> 'x RabbitMQ option \<Rightarrow> ('x, bool) io" where
  "declare_notifications A rmq =
     (if \<not> (case rmq of None \<Rightarrow> False | Some m \<Rightarrow> Conn m) then ret False
      else do {
        client \<leftarrow> NewChannelClient A rmq;
        (case client of
           Inl _ \<Rightarrow> ret False
         | Inr c \<Rightarrow> do {
             r \<leftarrow> NewNotificationMQ A c;
             (case r of
                Inl _ \<Rightarrow> do {_ \<leftarrow> CloseChannel A c; ret False}
              | Inr _ \<Rightarrow> ret True)})})"

text \<open>\<open>cmd/worker/main.go\<close>: an error here ends the process.\<close>

definition WorkerPrefetchCount :: nat where "WorkerPrefetchCount = 50"

definition newWorkerClient :: "'x admin \<Rightarrow> 'x RabbitMQ option \<Rightarrow> bool \<Rightarrow> ('x, 'x RabbitMQ option res) io" where
  "newWorkerClient A rmq consumer =
     bindE (NewChannelClient A rmq) (\<lambda>client.
       (case (if consumer then (case client of None \<Rightarrow> None | Some m \<Rightarrow> Ch m) else None) of
          None \<Rightarrow> ok client
        | Some ch \<Rightarrow> do {
            r \<leftarrow> ad_Qos A ch WorkerPrefetchCount;
            (case r of
               Inl err \<Rightarrow> do {_ \<leftarrow> CloseChannel A client; throw err}
             | Inr _ \<Rightarrow> ok client)}))"

definition worker_queues :: "'x admin \<Rightarrow> 'x RabbitMQ option \<Rightarrow> bool \<Rightarrow> ('x, unit res) io" where
  "worker_queues A rmq redis =
     bindE (newWorkerClient A rmq True) (\<lambda>socialClient.
     bindE (NewSocialMQ A socialClient) (\<lambda>_.
     bindE (newWorkerClient A rmq True) (\<lambda>likeClient.
     bindE (NewLikeMQ A likeClient) (\<lambda>_.
     bindE (newWorkerClient A rmq True) (\<lambda>commentClient.
     bindE (NewCommentMQ A commentClient) (\<lambda>_.
     bindE (newWorkerClient A rmq False) (\<lambda>outboxClient.
     bindE (NewTimelineMQ A outboxClient) (\<lambda>_.
       if \<not> redis then ok ()
       else bindE (newWorkerClient A rmq True) (\<lambda>popularityClient.
            bindE (NewPopularityMQ A popularityClient) (\<lambda>_.
            bindE (newWorkerClient A rmq True) (\<lambda>timelineClient. ok ())))))))))))"

text \<open>
  The goroutines of \<open>notification_worker.go\<close>: one per queue, each with a channel of its own, and the
  subscriber. The result of a start is the list of goroutines, each with what its loop will be
  offered (\<open>consumed\<close>: the answer to \<open>Consume\<close>; \<open>evs\<close>: the events of its \<open>select\<close>).
\<close>

definition NewNotificationWorker :: "'x channel option \<Rightarrow> 'x gorm option \<Rightarrow> string \<Rightarrow> 'x cache \<Rightarrow> bool \<Rightarrow> 'x notification_worker" where
  "NewNotificationWorker ch db queue cache hub = \<lparr>nw_ch = ch, nw_db = db, nw_queue = queue, nw_cache = cache, nw_hub = hub\<rparr>"

definition notification_thread :: "'x admin \<Rightarrow> 'x host \<Rightarrow> push_json \<Rightarrow> 'x RabbitMQ option \<Rightarrow> 'x gorm option \<Rightarrow> 'x cache \<Rightarrow> bool
    \<Rightarrow> (string \<Rightarrow> unit res) \<Rightarrow> (string \<Rightarrow> select_event list) \<Rightarrow> string \<Rightarrow> ('x, unit) io" where
  "notification_thread A H J rmq db cache hub consumed evs queue = do {
     client \<leftarrow> NewChannelClient A rmq;
     (case client of
        Inl _ \<Rightarrow> ret ()
      | Inr c \<Rightarrow> do {
          _ \<leftarrow> NotificationWorker_Run H J (NewNotificationWorker (case c of None \<Rightarrow> None | Some m \<Rightarrow> Ch m) db queue cache hub)
                (consumed queue) (evs queue);
          _ \<leftarrow> CloseChannel A c;
          ret ()})}"

definition StartNotificationWorkers :: "'x admin \<Rightarrow> 'x host \<Rightarrow> push_json \<Rightarrow> 'x RabbitMQ option \<Rightarrow> 'x gorm option \<Rightarrow> 'x cache \<Rightarrow> bool
    \<Rightarrow> (string \<Rightarrow> unit res) \<Rightarrow> (string \<Rightarrow> select_event list) \<Rightarrow> ('x, unit) io list" where
  "StartNotificationWorkers A H J rmq db cache hub consumed evs =
     (if \<not> (case rmq of None \<Rightarrow> False | Some m \<Rightarrow> Conn m) \<or> db = None then []
      else map (notification_thread A H J rmq db cache hub consumed evs)
             [NotificationLikeQueue, NotificationCommentQueue, NotificationSocialQueue])"

definition StartNotification :: "'x admin \<Rightarrow> 'x host \<Rightarrow> push_json \<Rightarrow> 'x RabbitMQ option \<Rightarrow> 'x gorm option \<Rightarrow> 'x cache \<Rightarrow> bool
    \<Rightarrow> subscriber_event list \<Rightarrow> (string \<Rightarrow> unit res) \<Rightarrow> (string \<Rightarrow> select_event list) \<Rightarrow> ('x, ('x, unit) io list) io" where
  "StartNotification A H J rmq db cache hub payloads consumed evs = do {
     declared \<leftarrow> declare_notifications A rmq;
     ret (StartNotificationSubscriber J cache hub payloads #
       (if declared then StartNotificationWorkers A H J rmq db cache hub consumed evs else []))}"

section \<open>The topology the program builds\<close>

type_synonym topic = "string \<times> string \<times> string"

text \<open>An exchange, a queue and the key that binds them, as they are declared.\<close>

definition worker_topics :: "topic list" where
  "worker_topics = [(SocialExchange, SocialQueue, SocialBindingKey), (LikeExchange, LikeQueue, LikeBindingKey),
     (CommentExchange, CommentQueue, CommentBindingKey), (TimelineExchange, TimelineQueue, TimelineBindingKey)]"

definition popularity_topic :: topic where
  "popularity_topic = (PopularityExchange, PopularityQueue, PopularityBindingKey)"

definition notification_topics :: "topic list" where
  "notification_topics = [(LikeExchange, NotificationLikeQueue, LikeRoutingKeyLike),
     (CommentExchange, NotificationCommentQueue, CommentRoutingKeyPublish), (SocialExchange, NotificationSocialQueue, SocialRoutingKeyFollow)]"

definition program_topics :: "topic list" where
  "program_topics = popularity_topic # worker_topics @ notification_topics"

lemmas topic_defs = worker_topics_def popularity_topic_def notification_topics_def program_topics_def

text \<open>The bindings a topic makes: of its queue, and of its dead-letter queue.\<close>

definition topic_bindings :: "topic \<Rightarrow> (string \<times> string \<times> string) set" where
  "topic_bindings t = (case t of (x, q, k) \<Rightarrow> {(x, k, q), (DLXExchange, k, q @ ''.dlx'')})"

definition has_topic :: "topology \<Rightarrow> topic \<Rightarrow> bool" where
  "has_topic T t = (case t of (x, q, k) \<Rightarrow> (x, k, q) \<in> set (tp_bindings T) \<and> tp_queues T q = Some (True, Some DLXExchange))"

definition topology_inv :: "topic set \<Rightarrow> topology \<Rightarrow> bool" where
  "topology_inv D T \<longleftrightarrow> set (tp_bindings T) \<subseteq> (\<Union>t \<in> set program_topics. topic_bindings t) \<and> (\<forall>t \<in> D. has_topic T t)"

lemma topology_inv_mono: "topology_inv D T \<Longrightarrow> D' \<subseteq> D \<Longrightarrow> topology_inv D' T"
  by (auto simp: topology_inv_def)

lemma topology_inv_exchange: "topology_inv D (T\<lparr>tp_exchanges := xs\<rparr>) = topology_inv D T"
  by (simp add: topology_inv_def has_topic_def)

lemma topology_inv_queue:
  "topology_inv D T \<Longrightarrow> tp_queues T q \<in> {None, Some a} \<Longrightarrow> topology_inv D (T\<lparr>tp_queues := (tp_queues T)(q \<mapsto> a)\<rparr>)"
  by (force simp: topology_inv_def has_topic_def split: prod.splits)

lemma topology_inv_bind:
  assumes "topology_inv D T" "(x, k, q) \<in> (\<Union>t \<in> set program_topics. topic_bindings t)"
  shows "topology_inv D (T\<lparr>tp_bindings := List.insert (x, k, q) (tp_bindings T)\<rparr>)"
  using assms by (force simp: topology_inv_def has_topic_def split: prod.splits)

lemma admin_quiet:
  assumes "admin_ok A"
  shows "wp (ad_Channel A) (\<lambda>_ w'. ad_topology A w' = ad_topology A w) w"
    and "wp (ad_Close A c) (\<lambda>_ w'. ad_topology A w' = ad_topology A w) w"
    and "wp (ad_Qos A c n) (\<lambda>_ w'. ad_topology A w' = ad_topology A w) w"
  using assms by (simp_all add: admin_ok_def)

lemmas wp_Channel = wp_mono [OF admin_quiet(1)]
  and wp_Close = wp_mono [OF admin_quiet(2)]
  and wp_Qos = wp_mono [OF admin_quiet(3)]

text \<open>Each declaration keeps what was declared before.\<close>

lemma wp_ExchangeDeclare:
  assumes "admin_ok A" "topology_inv D (ad_topology A w)" "\<And>r w'. topology_inv D (ad_topology A w') \<Longrightarrow> Q r w'"
  shows "wp (ad_ExchangeDeclare A c x k d) Q w"
proof -
  have "wp (ad_ExchangeDeclare A c x k d) (\<lambda>r w'.
        (\<exists>e. r = Inl e) \<and> ad_topology A w' = ad_topology A w \<or>
        tp_exchanges (ad_topology A w) x \<in> {None, Some (k, d)} \<and>
          ad_topology A w' = (ad_topology A w)\<lparr>tp_exchanges := (tp_exchanges (ad_topology A w))(x \<mapsto> (k, d))\<rparr>) w"
    using assms(1) unfolding admin_ok_def by blast
  then show ?thesis by (rule wp_mono) (use assms(2,3) in \<open>auto simp: topology_inv_exchange\<close>)
qed

lemma wp_QueueDeclare:
  assumes "admin_ok A" "topology_inv D (ad_topology A w)" "q \<noteq> ''''" "\<And>e w'. topology_inv D (ad_topology A w') \<Longrightarrow> Q (Inl e) w'"
    and "\<And>w'. topology_inv D (ad_topology A w') \<Longrightarrow> tp_queues (ad_topology A w') q = Some (d, l) \<Longrightarrow> Q (Inr q) w'"
  shows "wp (ad_QueueDeclare A c q d l) Q w"
proof -
  have "wp (ad_QueueDeclare A c q d l) (\<lambda>r w'.
        (\<exists>e. r = Inl e) \<and> ad_topology A w' = ad_topology A w \<or>
        (\<forall>n. r = Inr n \<longrightarrow> n = q) \<and> tp_queues (ad_topology A w) q \<in> {None, Some (d, l)} \<and>
          ad_topology A w' = (ad_topology A w)\<lparr>tp_queues := (tp_queues (ad_topology A w))(q \<mapsto> (d, l))\<rparr>) w"
    using assms(1,3) unfolding admin_ok_def by blast
  then show ?thesis
  proof (rule wp_mono, goal_cases)
    case (1 r w')
    then have "topology_inv D (ad_topology A w') \<and> (\<forall>n. r = Inr n \<longrightarrow> n = q \<and> tp_queues (ad_topology A w') q = Some (d, l))"
      by (elim disjE conjE exE) (simp_all add: assms(2) topology_inv_queue [OF assms(2)])
    then show ?case by (cases r) (simp_all add: assms(4,5))
  qed
qed

lemma wp_QueueBind:
  assumes "admin_ok A" "topology_inv D (ad_topology A w)" "(x, k, q) \<in> (\<Union>t \<in> set program_topics. topic_bindings t)"
    and "\<And>e w'. topology_inv D (ad_topology A w') \<Longrightarrow> Q (Inl e) w'"
    and "\<And>w'. topology_inv D (ad_topology A w') \<Longrightarrow> (x, k, q) \<in> set (tp_bindings (ad_topology A w')) \<Longrightarrow>
      tp_queues (ad_topology A w') = tp_queues (ad_topology A w) \<Longrightarrow> Q (Inr ()) w'"
  shows "wp (ad_QueueBind A c q k x) Q w"
proof -
  have "wp (ad_QueueBind A c q k x) (\<lambda>r w'.
        (\<exists>e. r = Inl e) \<and> ad_topology A w' = ad_topology A w \<or>
        tp_queues (ad_topology A w) q \<noteq> None \<and> tp_exchanges (ad_topology A w) x \<noteq> None \<and>
          ad_topology A w' = (ad_topology A w)\<lparr>tp_bindings := List.insert (x, k, q) (tp_bindings (ad_topology A w))\<rparr>) w"
    using assms(1) unfolding admin_ok_def by blast
  then show ?thesis
  proof (rule wp_mono, goal_cases)
    case (1 r w')
    then show ?case using assms(2,4,5) topology_inv_bind [OF assms(2,3)] by (cases r) auto
  qed
qed

lemma wp_DeclareDLX:
  assumes "admin_ok A" "topology_inv D (ad_topology A w)" "(x, q, k) \<in> set program_topics"
    and "\<And>r w'. topology_inv D (ad_topology A w') \<Longrightarrow> Q r w'"
  shows "wp (DeclareDLX A (Some c) q k) Q w"
proof -
  have b: "(DLXExchange, k, q @ ''.dlx'') \<in> (\<Union>t \<in> set program_topics. topic_bindings t)"
    by (rule UN_I [OF assms(3)]) (simp add: topic_bindings_def)
  show ?thesis
    unfolding DeclareDLX_def option.case wp_bindE wp_return
    by (rule wp_ExchangeDeclare [OF assms(1,2)])
      (auto split: sum.split intro!: assms(4) wp_QueueDeclare [OF assms(1)] wp_QueueBind [OF assms(1) _ b])
qed

lemma wp_DeclareTopic:
  assumes "admin_ok A" "topology_inv D (ad_topology A w)" "(x, q, k) \<in> set program_topics"
    and "\<And>e w'. topology_inv D (ad_topology A w') \<Longrightarrow> Q (Inl e) w'"
    and "\<And>w'. topology_inv (insert (x, q, k) D) (ad_topology A w') \<Longrightarrow> Q (Inr ()) w'"
  shows "wp (DeclareTopic A r x q k) Q w"
proof (cases "case r of None \<Rightarrow> None | Some m \<Rightarrow> if Conn m then Ch m else None")
  case (Some c)
  have ne: "x \<noteq> ''''" "q \<noteq> ''''" "k \<noteq> ''''"
    using assms(3) by (auto simp: topic_defs LikeExchange_def CommentExchange_def SocialExchange_def TimelineExchange_def PopularityExchange_def
      LikeQueue_def CommentQueue_def SocialQueue_def TimelineQueue_def PopularityQueue_def LikeBindingKey_def CommentBindingKey_def
      SocialBindingKey_def TimelineBindingKey_def PopularityBindingKey_def NotificationLikeQueue_def NotificationCommentQueue_def
      NotificationSocialQueue_def LikeRoutingKeyLike_def CommentRoutingKeyPublish_def SocialRoutingKeyFollow_def)
  have b: "(x, k, q) \<in> (\<Union>t \<in> set program_topics. topic_bindings t)" by (rule UN_I [OF assms(3)]) (simp add: topic_bindings_def)
  have dlx: "wp (DeclareDLX A (Some c) q k) (\<lambda>_. Q (Inr ())) w1"
    if "topology_inv (insert (x, q, k) D) (ad_topology A w1)" for w1
    by (rule wp_DeclareDLX [OF assms(1) that assms(3) assms(5)])
  have "wp (ad_QueueBind A c q k x) (\<lambda>r w'. case r of Inl e \<Rightarrow> Q (Inl e) w' | Inr _ \<Rightarrow> wp (DeclareDLX A (Some c) q k) (\<lambda>_. Q (Inr ())) w') w1"
    if "topology_inv D (ad_topology A w1)" "tp_queues (ad_topology A w1) q = Some (True, Some DLXExchange)" for w1
    by (rule wp_QueueBind [OF assms(1) that(1) b]) (use that assms(4) dlx in \<open>auto simp: topology_inv_def has_topic_def\<close>)
  then have "wp (ad_QueueDeclare A c q True (Some DLXExchange)) (\<lambda>r w'. case r of Inl e \<Rightarrow> Q (Inl e) w' | Inr n \<Rightarrow>
      wp (ad_QueueBind A c n k x) (\<lambda>r w'. case r of Inl e \<Rightarrow> Q (Inl e) w' | Inr _ \<Rightarrow>
        wp (DeclareDLX A (Some c) q k) (\<lambda>_. Q (Inr ())) w') w') w1"
    if "topology_inv D (ad_topology A w1)" for w1
    by (intro wp_QueueDeclare [OF assms(1) that ne(2)]) (simp_all add: assms(4))
  then have "wp (ad_ExchangeDeclare A c x ''topic'' True) (\<lambda>r w'. case r of Inl e \<Rightarrow> Q (Inl e) w' | Inr _ \<Rightarrow>
      wp (ad_QueueDeclare A c q True (Some DLXExchange)) (\<lambda>r w'. case r of Inl e \<Rightarrow> Q (Inl e) w' | Inr n \<Rightarrow>
        wp (ad_QueueBind A c n k x) (\<lambda>r w'. case r of Inl e \<Rightarrow> Q (Inl e) w' | Inr _ \<Rightarrow>
          wp (DeclareDLX A (Some c) q k) (\<lambda>_. Q (Inr ())) w') w') w') w"
    by (intro wp_ExchangeDeclare [OF assms(1,2)]) (simp add: assms(4) split: sum.split)
  with ne show ?thesis unfolding DeclareTopic_def Some option.case wp_bindE wp_bind wp_return wp_if by simp
qed (simp add: DeclareTopic_def wp_return assms(2,4))

text \<open>The publishers all declare one topic.\<close>

definition declares :: "'x admin \<Rightarrow> ('x, 'a res) io \<Rightarrow> topic set \<Rightarrow> bool" where
  "declares A m T \<longleftrightarrow> (\<forall>D w. topology_inv D (ad_topology A w) \<longrightarrow>
     wp m (\<lambda>r w'. topology_inv (if isl r then D else T \<union> D) (ad_topology A w')) w)"

lemma declares_ret: "declares A (ret r) {}"
  by (simp add: declares_def wp_return)

lemma declares_throw: "declares A (throw e) T"
  by (simp add: declares_def wp_return)

lemma declares_bindE:
  assumes "declares A m T" "\<And>v. declares A (f v) U"
  shows "declares A (bindE m f) (T \<union> U)"
proof -
  have "wp (bindE m f) (\<lambda>r w'. topology_inv (if isl r then D else T \<union> U \<union> D) (ad_topology A w')) w"
    if D: "topology_inv D (ad_topology A w)" for D w
    unfolding wp_bindE
  proof (rule wp_mono [where P = "\<lambda>r w'. topology_inv (if isl r then D else T \<union> D) (ad_topology A w')"], goal_cases)
    case 1
    show ?case using assms(1) D by (simp add: declares_def)
  next
    case (2 r w')
    show ?case
    proof (cases r)
      case (Inr v)
      then have "wp (f v) (\<lambda>r w'. topology_inv (if isl r then T \<union> D else U \<union> (T \<union> D)) (ad_topology A w')) w'"
        using 2 assms(2) [of v] by (simp add: declares_def)
      then show ?thesis unfolding Inr sum.case
        by (rule wp_mono) (auto split: if_splits elim!: topology_inv_mono)
    qed (use 2 in simp)
  qed
  then show ?thesis by (simp add: declares_def)
qed

lemma declares_topic: "admin_ok A \<Longrightarrow> (x, q, k) \<in> set program_topics \<Longrightarrow> declares A (DeclareTopic A r x q k) {(x, q, k)}"
  unfolding declares_def by (intro allI impI) (rule wp_DeclareTopic; simp)

lemma declares_mono: "declares A m T \<Longrightarrow> U \<subseteq> T \<Longrightarrow> declares A m U"
  unfolding declares_def by (intro allI impI, rule wp_mono, blast) (auto split: if_splits elim!: topology_inv_mono)

lemma declares_quiet:
  assumes "\<And>w. wp m (\<lambda>_ w'. ad_topology A w' = ad_topology A w) w"
  shows "declares A m {}"
proof -
  have "wp m (\<lambda>r w'. topology_inv (if isl r then D else {} \<union> D) (ad_topology A w')) w" if "topology_inv D (ad_topology A w)" for D w
    by (rule wp_mono [OF assms]) (use that in simp)
  then show ?thesis by (simp add: declares_def)
qed

text \<open>For a computation without an error result.\<close>

definition keeps_topology :: "'x admin \<Rightarrow> ('x, 'a) io \<Rightarrow> bool" where
  "keeps_topology A m \<longleftrightarrow> (\<forall>D w. topology_inv D (ad_topology A w) \<longrightarrow> wp m (\<lambda>_ w'. topology_inv D (ad_topology A w')) w)"

lemma declares_keeps: "declares A m T \<Longrightarrow> keeps_topology A m"
  unfolding declares_def keeps_topology_def
  by (intro allI impI, rule wp_mono, blast) (auto split: if_splits elim!: topology_inv_mono)

lemma keeps_topology_ret: "keeps_topology A (ret a)"
  by (simp add: keeps_topology_def wp_return)

lemma keeps_topology_bind:
  assumes "keeps_topology A m" "\<And>v. keeps_topology A (f v)"
  shows "keeps_topology A (State_Monad.bind m f)"
proof -
  have "wp (State_Monad.bind m f) (\<lambda>_ w'. topology_inv D (ad_topology A w')) w" if D: "topology_inv D (ad_topology A w)" for D w
    unfolding wp_bind
  proof (rule wp_mono [where P = "\<lambda>_ w'. topology_inv D (ad_topology A w')"], goal_cases)
    case 1
    show ?case using assms(1) D by (simp add: keeps_topology_def)
  next
    case (2 a w')
    with assms(2) [of a] show ?case by (simp add: keeps_topology_def)
  qed
  then show ?thesis by (simp add: keeps_topology_def)
qed

lemma declares_after:
  assumes "keeps_topology A m" "\<And>v. declares A (f v) T"
  shows "declares A (State_Monad.bind m f) T"
proof -
  have "wp (State_Monad.bind m f) (\<lambda>r w'. topology_inv (if isl r then D else T \<union> D) (ad_topology A w')) w"
    if D: "topology_inv D (ad_topology A w)" for D w
    unfolding wp_bind
  proof (rule wp_mono [where P = "\<lambda>_ w'. topology_inv D (ad_topology A w')"], goal_cases)
    case 1
    show ?case using assms(1) D by (simp add: keeps_topology_def)
  next
    case (2 a w')
    with assms(2) [of a] show ?case by (simp add: declares_def)
  qed
  then show ?thesis by (simp add: declares_def)
qed

lemma declares_NewChannelClient:
  assumes A: "admin_ok A"
  shows "declares A (NewChannelClient A r) {}"
proof -
  have "declares A (bindE (ad_Channel A) (\<lambda>ch. ok (Some \<lparr>Conn = True, Ch = Some ch\<rparr>))) ({} \<union> {})"
    by (rule declares_bindE [OF declares_quiet [OF admin_quiet(1) [OF A]] declares_ret])
  then show ?thesis unfolding NewChannelClient_def by (simp add: declares_ret)
qed

lemma keeps_CloseChannel: "admin_ok A \<Longrightarrow> keeps_topology A (CloseChannel A r)"
  unfolding CloseChannel_def
  by (cases "case r of None \<Rightarrow> None | Some m \<Rightarrow> Ch m") (simp_all add: keeps_topology_ret declares_keeps [OF declares_quiet [OF admin_quiet(2)]])

lemma declares_newWorkerClient:
  assumes A: "admin_ok A"
  shows "declares A (newWorkerClient A rmq consumer) {}"
proof -
  have "declares A (do {r \<leftarrow> ad_Qos A ch n; (case r of Inl err \<Rightarrow> do {_ \<leftarrow> CloseChannel A c; throw err} | Inr _ \<Rightarrow> ok c)}) {}" for ch n c
    by (rule declares_after [OF declares_keeps [OF declares_quiet [OF admin_quiet(3) [OF A]]]])
      (simp add: declares_ret declares_after [OF keeps_CloseChannel [OF A]] split: sum.split)
  then have "declares A (newWorkerClient A rmq consumer) ({} \<union> {})"
    unfolding newWorkerClient_def by (intro declares_bindE [OF declares_NewChannelClient [OF A]]) (simp add: declares_ret split: option.split)
  then show ?thesis by simp
qed

lemma topics_known:
  "(LikeExchange, LikeQueue, LikeBindingKey) \<in> set program_topics"
  "(CommentExchange, CommentQueue, CommentBindingKey) \<in> set program_topics"
  "(SocialExchange, SocialQueue, SocialBindingKey) \<in> set program_topics"
  "(PopularityExchange, PopularityQueue, PopularityBindingKey) \<in> set program_topics"
  "(TimelineExchange, TimelineQueue, TimelineBindingKey) \<in> set program_topics"
  "(LikeExchange, NotificationLikeQueue, LikeRoutingKeyLike) \<in> set program_topics"
  "(CommentExchange, NotificationCommentQueue, CommentRoutingKeyPublish) \<in> set program_topics"
  "(SocialExchange, NotificationSocialQueue, SocialRoutingKeyFollow) \<in> set program_topics"
  by (simp_all add: topic_defs)

lemma declares_one:
  assumes "admin_ok A" "(x, q, k) \<in> set program_topics"
  shows "declares A (if base = None then throw e else bindE (DeclareTopic A base x q k) (\<lambda>_. ok b)) {(x, q, k)}"
proof -
  have "declares A (bindE (DeclareTopic A base x q k) (\<lambda>_. ok b)) ({(x, q, k)} \<union> {})"
    by (rule declares_bindE [OF declares_topic [OF assms] declares_ret])
  then show ?thesis by (simp add: declares_throw)
qed

lemma declares_constructors:
  assumes "admin_ok A"
  shows "declares A (NewLikeMQ A base) {(LikeExchange, LikeQueue, LikeBindingKey)}"
    and "declares A (NewCommentMQ A base) {(CommentExchange, CommentQueue, CommentBindingKey)}"
    and "declares A (NewSocialMQ A base) {(SocialExchange, SocialQueue, SocialBindingKey)}"
    and "declares A (NewPopularityMQ A base) {(PopularityExchange, PopularityQueue, PopularityBindingKey)}"
    and "declares A (NewTimelineMQ A base) {(TimelineExchange, TimelineQueue, TimelineBindingKey)}"
  unfolding NewLikeMQ_def NewCommentMQ_def NewSocialMQ_def NewPopularityMQ_def NewTimelineMQ_def
  by (intro declares_one [OF assms] topics_known)+

lemma declares_NewNotificationMQ:
  assumes "admin_ok A"
  shows "declares A (NewNotificationMQ A base) (set notification_topics)"
proof -
  have "declares A (bindE (DeclareTopic A base LikeExchange NotificationLikeQueue LikeRoutingKeyLike) (\<lambda>_.
       bindE (DeclareTopic A base CommentExchange NotificationCommentQueue CommentRoutingKeyPublish) (\<lambda>_.
       bindE (DeclareTopic A base SocialExchange NotificationSocialQueue SocialRoutingKeyFollow) (\<lambda>_. ok (Some base)))))
    ({(LikeExchange, NotificationLikeQueue, LikeRoutingKeyLike)} \<union> ({(CommentExchange, NotificationCommentQueue, CommentRoutingKeyPublish)} \<union>
      ({(SocialExchange, NotificationSocialQueue, SocialRoutingKeyFollow)} \<union> {})))"
    by (intro declares_bindE declares_topic [OF assms] topics_known declares_ret)
  then have "declares A (bindE (DeclareTopic A base LikeExchange NotificationLikeQueue LikeRoutingKeyLike) (\<lambda>_.
       bindE (DeclareTopic A base CommentExchange NotificationCommentQueue CommentRoutingKeyPublish) (\<lambda>_.
       bindE (DeclareTopic A base SocialExchange NotificationSocialQueue SocialRoutingKeyFollow) (\<lambda>_. ok (Some base)))))
    (set notification_topics)"
    by (rule declares_mono) (auto simp: notification_topics_def)
  then show ?thesis unfolding NewNotificationMQ_def by (simp add: declares_throw)
qed

lemma declares_worker_queues:
  assumes A: "admin_ok A"
  shows "declares A (worker_queues A rmq redis) (set worker_topics \<union> (if redis then {popularity_topic} else {}))"
proof -
  have "declares A (worker_queues A rmq redis)
     ({} \<union> ({(SocialExchange, SocialQueue, SocialBindingKey)} \<union> ({} \<union> ({(LikeExchange, LikeQueue, LikeBindingKey)} \<union> ({} \<union>
        ({(CommentExchange, CommentQueue, CommentBindingKey)} \<union> ({} \<union> ({(TimelineExchange, TimelineQueue, TimelineBindingKey)} \<union>
          (if redis then {} \<union> ({popularity_topic} \<union> ({} \<union> {})) else {})))))))))"
  proof (cases redis)
    case True
    show ?thesis unfolding worker_queues_def popularity_topic_def using True
      by (simp only: not_True_eq_False if_False if_True)
        (intro declares_bindE declares_newWorkerClient [OF A] declares_constructors [OF A] declares_ret)
  next
    case False
    show ?thesis unfolding worker_queues_def using False
      by (simp only: not_False_eq_True if_False if_True)
        (intro declares_bindE declares_newWorkerClient [OF A] declares_constructors [OF A] declares_ret)
  qed
  then show ?thesis by (rule declares_mono) (auto simp: worker_topics_def)
qed

lemma keeps_router_queues:
  assumes A: "admin_ok A"
  shows "keeps_topology A (router_queues A rmq)"
proof -
  have mq: "keeps_topology A (router_mq A new rmq)" if "\<And>c. declares A (new c) T" for new T
    unfolding router_mq_def
    by (intro keeps_topology_bind declares_keeps [OF declares_NewChannelClient [OF A]] declares_keeps [OF that] keeps_topology_ret)
  show ?thesis unfolding router_queues_def
    by (intro keeps_topology_bind keeps_topology_ret mq [OF declares_constructors(1) [OF A]] mq [OF declares_constructors(2) [OF A]]
      mq [OF declares_constructors(3) [OF A]] mq [OF declares_constructors(4) [OF A]])
qed

lemma declare_notifications_topics:
  assumes A: "admin_ok A" and D: "topology_inv D (ad_topology A w)"
  shows "wp (declare_notifications A rmq) (\<lambda>ok w'. topology_inv (if ok then set notification_topics \<union> D else D) (ad_topology A w')) w"
proof -
  let ?Q = "\<lambda>ok w'. topology_inv (if ok then set notification_topics \<union> D else D) (ad_topology A w')"
  have close: "wp (do {_ \<leftarrow> CloseChannel A c; ret False}) ?Q w1" if "topology_inv D (ad_topology A w1)" for c w1
    using keeps_CloseChannel [OF A, of c] that by (simp add: keeps_topology_def wp_simps)
  have new: "wp (do {r \<leftarrow> NewNotificationMQ A c; (case r of Inl _ \<Rightarrow> do {_ \<leftarrow> CloseChannel A c; ret False} | Inr _ \<Rightarrow> ret True)}) ?Q w1"
    if "topology_inv D (ad_topology A w1)" for c w1
    unfolding wp_bind [of "NewNotificationMQ A c"]
  proof (rule wp_mono [where P = "\<lambda>r w'. topology_inv (if isl r then D else set notification_topics \<union> D) (ad_topology A w')"], goal_cases)
    case 1
    show ?case using declares_NewNotificationMQ [OF A] that by (simp add: declares_def)
  next
    case (2 r w2)
    then show ?case by (cases r) (simp_all add: close wp_return)
  qed
  have "wp (NewChannelClient A rmq) (\<lambda>_ w'. topology_inv D (ad_topology A w')) w"
    using declares_keeps [OF declares_NewChannelClient [OF A]] D by (simp add: keeps_topology_def)
  then show ?thesis unfolding declare_notifications_def wp_if wp_bind [of "NewChannelClient A rmq"]
    by (auto simp: wp_return D elim!: wp_mono) (auto simp: new wp_return split: sum.split)
qed

section \<open>Routing\<close>

text \<open>The two processes start, in any order and any number of times, and tell whether all went well.\<close>

datatype startup = ApiStart | WorkerStart bool

fun start :: "'x admin \<Rightarrow> 'x RabbitMQ option \<Rightarrow> startup \<Rightarrow> ('x, bool) io" where
  "start A rmq ApiStart = do {_ \<leftarrow> router_queues A rmq; declare_notifications A rmq}"
| "start A rmq (WorkerStart redis) = do {r \<leftarrow> worker_queues A rmq redis; ret (\<not> isl r)}"

fun starts :: "'x admin \<Rightarrow> 'x RabbitMQ option \<Rightarrow> startup list \<Rightarrow> ('x, bool list) io" where
  "starts A rmq [] = ret []"
| "starts A rmq (s # ss) = do {b \<leftarrow> start A rmq s; bs \<leftarrow> starts A rmq ss; ret (b # bs)}"

fun start_topics :: "startup \<times> bool \<Rightarrow> topic set" where
  "start_topics (s, False) = {}"
| "start_topics (ApiStart, True) = set notification_topics"
| "start_topics (WorkerStart redis, True) = set worker_topics \<union> (if redis then {popularity_topic} else {})"

lemma wp_start:
  assumes A: "admin_ok A" and D: "topology_inv D (ad_topology A w)"
  shows "wp (start A rmq s) (\<lambda>b w'. topology_inv (start_topics (s, b) \<union> D) (ad_topology A w')) w"
proof (cases s)
  case ApiStart
  have "wp (declare_notifications A rmq) (\<lambda>b w'. topology_inv (start_topics (ApiStart, b) \<union> D) (ad_topology A w')) w1"
    if "topology_inv D (ad_topology A w1)" for w1
    by (rule wp_mono [OF declare_notifications_topics [OF A that]]) (simp split: if_splits)
  moreover have "wp (router_queues A rmq) (\<lambda>_ w'. topology_inv D (ad_topology A w')) w"
    using keeps_router_queues [OF A] D by (simp add: keeps_topology_def)
  ultimately show ?thesis unfolding ApiStart start.simps wp_bind by (blast intro: wp_mono)
next
  case (WorkerStart redis)
  have "wp (worker_queues A rmq redis) (\<lambda>r w'. topology_inv (if isl r then D else
      set worker_topics \<union> (if redis then {popularity_topic} else {}) \<union> D) (ad_topology A w')) w"
    using declares_worker_queues [OF A] D by (simp add: declares_def)
  then show ?thesis unfolding WorkerStart start.simps wp_bind wp_return
    by (rule wp_mono) (simp split: if_splits)
qed

lemma wp_starts:
  assumes A: "admin_ok A"
  shows "topology_inv D (ad_topology A w) \<Longrightarrow>
    wp (starts A rmq ss) (\<lambda>bs w'. topology_inv ((\<Union>s \<in> set (zip ss bs). start_topics s) \<union> D) (ad_topology A w')) w"
proof (induction ss arbitrary: D w)
  case (Cons s ss)
  show ?case unfolding starts.simps wp_bind wp_return
  proof (rule wp_mono [OF wp_start [OF A Cons.prems]], goal_cases)
    case (1 b w1)
    show ?case by (rule wp_mono [OF Cons.IH [OF 1]]) (simp add: Un_ac)
  qed
qed (simp add: wp_return)

text \<open>
  A topic exchange: a key without wildcards matches itself only, and a final \<open>*\<close> stands for one word.
  A message goes to every queue bound with a key that matches.
\<close>

definition plain :: "string \<Rightarrow> bool" where
  "plain k \<longleftrightarrow> (\<forall>c \<in> set k. c \<noteq> CHR ''*'' \<and> c \<noteq> CHR ''#'')"

definition topic_ok :: "(string \<Rightarrow> string \<Rightarrow> bool) \<Rightarrow> bool" where
  "topic_ok mt \<longleftrightarrow> (\<forall>k key. plain k \<longrightarrow> mt k key = (key = k)) \<and>
     (\<forall>p u. plain p \<longrightarrow> plain u \<longrightarrow> u \<noteq> '''' \<longrightarrow> CHR ''.'' \<notin> set u \<longrightarrow> mt (p @ ''.*'') (p @ ''.'' @ u))"

definition routes :: "(string \<Rightarrow> string \<Rightarrow> bool) \<Rightarrow> topology \<Rightarrow> string \<Rightarrow> string \<Rightarrow> string set" where
  "routes mt T x key = {q. \<exists>k. (x, k, q) \<in> set (tp_bindings T) \<and> mt k key}"

text \<open>The events the publishers send, and the queues of the workers they are meant for.\<close>

definition event_queues :: "(string \<times> string \<times> string list) list" where
  "event_queues =
     [(LikeExchange, LikeRoutingKeyLike, [LikeQueue, NotificationLikeQueue]),
      (LikeExchange, LikeRoutingKeyUnlike, [LikeQueue]),
      (CommentExchange, CommentRoutingKeyPublish, [CommentQueue, NotificationCommentQueue]),
      (CommentExchange, CommentRoutingKeyDelete, [CommentQueue]),
      (SocialExchange, SocialRoutingKeyFollow, [SocialQueue, NotificationSocialQueue]),
      (SocialExchange, SocialRoutingKeyUnFollow, [SocialQueue]),
      (PopularityExchange, PopularityRoutingKeyUpdate, [PopularityQueue]),
      (TimelineExchange, TimelineRoutingKeyPublish, [TimelineQueue])]"

lemmas key_defs = LikeExchange_def CommentExchange_def SocialExchange_def TimelineExchange_def PopularityExchange_def DLXExchange_def
  LikeQueue_def CommentQueue_def SocialQueue_def TimelineQueue_def PopularityQueue_def LikeBindingKey_def CommentBindingKey_def
  SocialBindingKey_def TimelineBindingKey_def PopularityBindingKey_def NotificationLikeQueue_def NotificationCommentQueue_def
  NotificationSocialQueue_def LikeRoutingKeyLike_def LikeRoutingKeyUnlike_def CommentRoutingKeyPublish_def CommentRoutingKeyDelete_def
  SocialRoutingKeyFollow_def SocialRoutingKeyUnFollow_def PopularityRoutingKeyUpdate_def TimelineRoutingKeyPublish_def

lemma topic_star:
  assumes "topic_ok mt"
  shows "mt ''like.*'' ''like.like''" "mt ''like.*'' ''like.unlike''" "mt ''comment.*'' ''comment.publish''"
    "mt ''comment.*'' ''comment.delete''" "mt ''social.*'' ''social.follow''" "mt ''social.*'' ''social.unfollow''"
    "mt ''video.popularity.*'' ''video.popularity.update''" "mt ''video.timeline.*'' ''video.timeline.publish''"
proof -
  have star: "mt (p @ ''.*'') (p @ ''.'' @ u)" if "plain p" "plain u" "u \<noteq> ''''" "CHR ''.'' \<notin> set u" for p u
    using assms that by (simp add: topic_ok_def)
  show "mt ''like.*'' ''like.like''" using star [of "''like''" "''like''"] by (simp add: plain_def)
  show "mt ''like.*'' ''like.unlike''" using star [of "''like''" "''unlike''"] by (simp add: plain_def)
  show "mt ''comment.*'' ''comment.publish''" using star [of "''comment''" "''publish''"] by (simp add: plain_def)
  show "mt ''comment.*'' ''comment.delete''" using star [of "''comment''" "''delete''"] by (simp add: plain_def)
  show "mt ''social.*'' ''social.follow''" using star [of "''social''" "''follow''"] by (simp add: plain_def)
  show "mt ''social.*'' ''social.unfollow''" using star [of "''social''" "''unfollow''"] by (simp add: plain_def)
  show "mt ''video.popularity.*'' ''video.popularity.update''"
    using star [of "''video.popularity''" "''update''"] by (simp add: plain_def)
  show "mt ''video.timeline.*'' ''video.timeline.publish''"
    using star [of "''video.timeline''" "''publish''"] by (simp add: plain_def)
qed

lemma topic_plain: "topic_ok mt \<Longrightarrow> plain k \<Longrightarrow> mt k key = (key = k)"
  by (simp add: topic_ok_def)

lemma topic_bindings_at:
  "x \<noteq> DLXExchange \<Longrightarrow> (x, k, q) \<in> (\<Union>t \<in> set ts. topic_bindings t) \<longleftrightarrow> (x, q, k) \<in> set ts"
  by (auto simp: topic_bindings_def)

lemma routes_known:
  assumes "topology_inv D T" "x \<noteq> DLXExchange"
  shows "routes mt T x key \<subseteq> {q. \<exists>k. (x, q, k) \<in> set program_topics \<and> mt k key}"
proof
  fix q assume "q \<in> routes mt T x key"
  then obtain k where k: "(x, k, q) \<in> set (tp_bindings T)" "mt k key" by (auto simp: routes_def)
  have "(x, k, q) \<in> (\<Union>t \<in> set program_topics. topic_bindings t)" using k(1) assms(1) by (simp add: topology_inv_def subset_iff)
  with k(2) show "q \<in> {q. \<exists>k. (x, q, k) \<in> set program_topics \<and> mt k key}" unfolding topic_bindings_at [OF assms(2)] by blast
qed

lemma routes_declared:
  assumes "topology_inv D T" "(x, q, k) \<in> D" "mt k key"
  shows "q \<in> routes mt T x key"
  using assms by (auto simp: topology_inv_def routes_def has_topic_def)

lemma event_exchange: "(x, key, qs) \<in> set event_queues \<Longrightarrow> x \<noteq> DLXExchange"
  by (auto simp: event_queues_def key_defs)

lemma matching_filter: "{q. \<exists>k. (x, q, k) \<in> set ts \<and> mt k key} = set (map (\<lambda>(x, q, k). q) (filter (\<lambda>(y, q, k). y = x \<and> mt k key) ts))"
  by force

lemma matching_topics:
  assumes "topic_ok mt" "(x, key, qs) \<in> set event_queues"
  shows "{q. \<exists>k. (x, q, k) \<in> set program_topics \<and> mt k key} = set qs"
proof -
  have p: "plain ''like.like''" "plain ''comment.publish''" "plain ''social.follow''" by (simp_all add: plain_def)
  note m = topic_star [OF assms(1)] topic_plain [OF assms(1) p(1)] topic_plain [OF assms(1) p(2)] topic_plain [OF assms(1) p(3)]
  from assms(2) consider
      "x = LikeExchange" "key = LikeRoutingKeyLike" "qs = [LikeQueue, NotificationLikeQueue]"
    | "x = LikeExchange" "key = LikeRoutingKeyUnlike" "qs = [LikeQueue]"
    | "x = CommentExchange" "key = CommentRoutingKeyPublish" "qs = [CommentQueue, NotificationCommentQueue]"
    | "x = CommentExchange" "key = CommentRoutingKeyDelete" "qs = [CommentQueue]"
    | "x = SocialExchange" "key = SocialRoutingKeyFollow" "qs = [SocialQueue, NotificationSocialQueue]"
    | "x = SocialExchange" "key = SocialRoutingKeyUnFollow" "qs = [SocialQueue]"
    | "x = PopularityExchange" "key = PopularityRoutingKeyUpdate" "qs = [PopularityQueue]"
    | "x = TimelineExchange" "key = TimelineRoutingKeyPublish" "qs = [TimelineQueue]"
    unfolding event_queues_def by auto
  then show ?thesis
    unfolding matching_filter by cases (simp_all add: topic_defs key_defs m)
qed

text \<open>
  C14. Whatever declarations fail and however often and in whatever order the two processes start, an
  event is routed only to the queues of the workers it is meant for; and once the worker process,
  with Redis, and the notifications of the API process have been set up, it is routed to all of them.
\<close>

theorem events_reach_their_workers:
  assumes "admin_ok A" "topic_ok mt" "tp_bindings (ad_topology A w) = []" "run_state (starts A rmq ss) w = (bs, w')"
    and "(x, key, qs) \<in> set event_queues"
  shows "routes mt (ad_topology A w') x key \<subseteq> set qs \<and>
    ((ApiStart, True) \<in> set (zip ss bs) \<and> (WorkerStart True, True) \<in> set (zip ss bs) \<longrightarrow> routes mt (ad_topology A w') x key = set qs)"
proof -
  let ?D = "(\<Union>s \<in> set (zip ss bs). start_topics s)"
  have "topology_inv {} (ad_topology A w)" using assms(3) by (simp add: topology_inv_def)
  from wp_runD [OF wp_starts [OF assms(1) this] assms(4)] have inv: "topology_inv ?D (ad_topology A w')" by simp
  have sub: "routes mt (ad_topology A w') x key \<subseteq> set qs"
    using routes_known [OF inv event_exchange [OF assms(5)], of mt key] unfolding matching_topics [OF assms(2,5)] .
  moreover have "set qs \<subseteq> routes mt (ad_topology A w') x key"
    if "(ApiStart, True) \<in> set (zip ss bs)" "(WorkerStart True, True) \<in> set (zip ss bs)"
  proof
    fix q assume "q \<in> set qs"
    then obtain k where k: "(x, q, k) \<in> set program_topics" "mt k key" using matching_topics [OF assms(2,5)] by blast
    have "set program_topics \<subseteq> start_topics (ApiStart, True) \<union> start_topics (WorkerStart True, True)"
      by (auto simp: program_topics_def)
    also have "\<dots> \<subseteq> ?D" using that by blast
    finally show "q \<in> routes mt (ad_topology A w') x key" using routes_declared [of _ _ x q k mt key, OF inv _ k(2)] k(1) by blast
  qed
  ultimately show ?thesis by blast
qed

section \<open>Dead letters\<close>

text \<open>
  A dead letter keeps its routing key and goes to the dead-letter exchange of its queue.
\<close>

definition dead_letter_queues :: "(string \<Rightarrow> string \<Rightarrow> bool) \<Rightarrow> topology \<Rightarrow> string \<Rightarrow> string \<Rightarrow> string set" where
  "dead_letter_queues mt T q key = (case tp_queues T q of Some (_, Some dlx) \<Rightarrow> routes mt T dlx key | _ \<Rightarrow> {})"

end
