(* ===== verification/TopologyRuns.thy ===== *)
theory TopologyRuns
  imports Topology
begin

text \<open>A broker that computes, and the topology the two processes build on it.\<close>

definition idle_channel :: "'x channel" where
  "idle_channel = \<lparr>ch_Publish = (\<lambda>_ _ _. ok ()), ch_Ack = (\<lambda>_ _. ok ()), ch_Nack = (\<lambda>_ _ _. ok ()), ch_bound = (\<lambda>_ _. [])\<rparr>"

text \<open>The topology is in the hidden part of the world; a declaration that contradicts it fails.\<close>

definition on_topology :: "(topology \<Rightarrow> topology option) \<Rightarrow> 'a \<Rightarrow> (topology, 'a res) io" where
  "on_topology f a = State (\<lambda>w. case f (hidden w) of
     None \<Rightarrow> (Inl (ErrNew ''PRECONDITION_FAILED''), w) | Some T \<Rightarrow> (Inr a, w\<lparr>hidden := T\<rparr>))"

definition ref_admin :: "topology admin" where
  "ref_admin = \<lparr>ad_Dial = (\<lambda>_. ok ()), ad_Channel = ok idle_channel, ad_CloseConn = ok (), ad_Close = (\<lambda>_. ok ()), ad_Qos = (\<lambda>_ _. ok ()),
     ad_ExchangeDeclare = (\<lambda>_ x k d. on_topology (\<lambda>T. if tp_exchanges T x \<in> {None, Some (k, d)}
        then Some (T\<lparr>tp_exchanges := (tp_exchanges T)(x \<mapsto> (k, d))\<rparr>) else None) ()),
     ad_QueueDeclare = (\<lambda>_ q d l. on_topology (\<lambda>T. if tp_queues T q \<in> {None, Some (d, l)}
        then Some (T\<lparr>tp_queues := (tp_queues T)(q \<mapsto> (d, l))\<rparr>) else None) q),
     ad_QueueBind = (\<lambda>_ q k x. on_topology (\<lambda>T. if tp_queues T q \<noteq> None \<and> tp_exchanges T x \<noteq> None
        then Some (T\<lparr>tp_bindings := List.insert (x, k, q) (tp_bindings T)\<rparr>) else None) ()),
     ad_topology = hidden\<rparr>"

lemma wp_on_topology: "wp (on_topology f a) Q w = (case f (hidden w) of
    None \<Rightarrow> Q (Inl (ErrNew ''PRECONDITION_FAILED'')) w | Some T \<Rightarrow> Q (Inr a) (w\<lparr>hidden := T\<rparr>))"
  by (simp add: wp_def on_topology_def split: option.split)

lemma ref_admin_ok: "admin_ok ref_admin"
  unfolding admin_ok_def by (simp add: ref_admin_def wp_return wp_on_topology)

definition sample_match :: "string \<Rightarrow> string \<Rightarrow> bool" where
  "sample_match k key = (if plain k then key = k
     else drop (length k - 2) k = ''.*'' \<and> take (length k - 1) key = butlast k \<and> CHR ''.'' \<notin> set (drop (length k - 1) key))"

lemma sample_match_ok: "topic_ok sample_match"
  by (auto simp: topic_ok_def sample_match_def plain_def butlast_append)

definition no_topology :: "topology world" where
  "no_topology = \<lparr>tabs = \<lparr>t_accounts = [], t_videos = [], t_outbox = [], t_tags = [], t_video_tags = [], t_likes = [], t_comments = [],
     t_socials = [], t_messages = [], t_notifications = []\<rparr>, rds = Map.empty, rclock = 0,
     mq = \<lparr>bk_log = [], bk_ready = (\<lambda>_. []), bk_unacked = (\<lambda>_. []), bk_dead = (\<lambda>_. [])\<rparr>, pubs = [],
     mem = \<lparr>local_videos = Map.empty, hub_clients = (\<lambda>_. []), hub_next = 0\<rparr>,
     hidden = \<lparr>tp_exchanges = Map.empty, tp_queues = Map.empty, tp_bindings = []\<rparr>\<rparr>"

definition connected :: "topology RabbitMQ option" where
  "connected = Some \<lparr>Conn = True, Ch = Some idle_channel\<rparr>"

section \<open>Nothing fails on it\<close>

text \<open>What the program declares never contradicts itself.\<close>

definition is_dlx :: "string \<Rightarrow> bool" where
  "is_dlx q \<longleftrightarrow> drop (length q - 4) q = ''.dlx''"

definition consistent :: "(string \<times> string \<times> string) set \<Rightarrow> topology \<Rightarrow> bool" where
  "consistent B T \<longleftrightarrow> (\<forall>x. tp_exchanges T x \<in> {None, Some (''topic'', True)}) \<and>
     (\<forall>q. tp_queues T q \<in> {None, Some (True, if is_dlx q then None else Some DLXExchange)}) \<and> B \<subseteq> set (tp_bindings T)"

definition sure :: "(topology, 'a res) io \<Rightarrow> (string \<times> string \<times> string) set \<Rightarrow> bool" where
  "sure m B \<longleftrightarrow> (\<forall>C w. consistent C (hidden w) \<longrightarrow> wp m (\<lambda>r w'. \<not> isl r \<and> consistent (B \<union> C) (hidden w')) w)"

lemma sure_ok: "sure (ok a) {}"
  by (simp add: sure_def wp_return)

lemma sure_mono: "sure m B \<Longrightarrow> C \<subseteq> B \<Longrightarrow> sure m C"
  unfolding sure_def by (intro allI impI, rule wp_mono, blast) (auto simp: consistent_def)

lemma sure_bindE:
  assumes "sure m B" "\<And>v. sure (f v) C"
  shows "sure (bindE m f) (B \<union> C)"
proof -
  have "wp (bindE m f) (\<lambda>r w'. \<not> isl r \<and> consistent (B \<union> C \<union> E) (hidden w')) w" if E: "consistent E (hidden w)" for E w
    unfolding wp_bindE
  proof (rule wp_mono [where P = "\<lambda>r w'. \<not> isl r \<and> consistent (B \<union> E) (hidden w')"], goal_cases)
    case 1
    show ?case using assms(1) E by (simp add: sure_def)
  next
    case (2 r w')
    then obtain v where v: "r = Inr v" by (cases r) auto
    have "wp (f v) (\<lambda>r w'. \<not> isl r \<and> consistent (C \<union> (B \<union> E)) (hidden w')) w'"
      using 2 assms(2) [of v] by (simp add: sure_def)
    then show ?case unfolding v sum.case by (simp add: Un_ac)
  qed
  then show ?thesis by (simp add: sure_def)
qed

lemma is_dlx_append: "is_dlx (q @ ''.dlx'')"
  by (simp add: is_dlx_def)

lemma consistent_after:
  assumes "consistent B T"
  shows "tp_exchanges T x \<in> {None, Some (''topic'', True)}" "tp_queues T q \<in> {None, Some (True, if is_dlx q then None else Some DLXExchange)}"
    "consistent B (T\<lparr>tp_exchanges := (tp_exchanges T)(x \<mapsto> (''topic'', True))\<rparr>)"
    "consistent B (T\<lparr>tp_queues := (tp_queues T)(q \<mapsto> (True, if is_dlx q then None else Some DLXExchange))\<rparr>)"
    "consistent (insert b B) (T\<lparr>tp_bindings := List.insert b (tp_bindings T)\<rparr>)"
  using assms by (auto simp: consistent_def)

lemma sure_topic:
  assumes "x \<noteq> ''''" "q \<noteq> ''''" "k \<noteq> ''''" "\<not> is_dlx q"
  shows "sure (DeclareTopic ref_admin connected x q k) (topic_bindings (x, q, k))"
proof -
  let ?dlx = "q @ ''.dlx''"
  have "wp (DeclareTopic ref_admin connected x q k) (\<lambda>r w'. \<not> isl r \<and> consistent (topic_bindings (x, q, k) \<union> C) (hidden w')) w"
    if C: "consistent C (hidden w)" for C w
  proof -
    let ?T = "hidden w"
    let ?T1 = "?T\<lparr>tp_exchanges := (tp_exchanges ?T)(x \<mapsto> (''topic'', True))\<rparr>"
    let ?T2 = "?T1\<lparr>tp_queues := (tp_queues ?T1)(q \<mapsto> (True, if is_dlx q then None else Some DLXExchange))\<rparr>"
    let ?T3 = "?T2\<lparr>tp_bindings := List.insert (x, k, q) (tp_bindings ?T2)\<rparr>"
    let ?T4 = "?T3\<lparr>tp_exchanges := (tp_exchanges ?T3)(DLXExchange \<mapsto> (''topic'', True))\<rparr>"
    let ?T5 = "?T4\<lparr>tp_queues := (tp_queues ?T4)(?dlx \<mapsto> (True, if is_dlx ?dlx then None else Some DLXExchange))\<rparr>"
    note c1 = consistent_after(3) [OF C, of x]
    note c2 = consistent_after(4) [OF c1, of q]
    note c3 = consistent_after(5) [OF c2, of "(x, k, q)"]
    note c4 = consistent_after(3) [OF c3, of DLXExchange]
    note c5 = consistent_after(4) [OF c4, of ?dlx]
    note c6 = consistent_after(5) [OF c5, of "(DLXExchange, k, ?dlx)"]
    have d: "is_dlx ?dlx = True" "is_dlx q = False" using assms(4) is_dlx_append by auto
    note e = consistent_after(1) [OF C, of x] consistent_after(2) [OF c1, of q] consistent_after(1) [OF c3, of DLXExchange]
      consistent_after(2) [OF c4, of ?dlx]
    have some: "tp_queues ?T2 q \<noteq> None" "tp_exchanges ?T2 x \<noteq> None" "tp_queues ?T5 ?dlx \<noteq> None" "tp_exchanges ?T5 DLXExchange \<noteq> None"
      by simp_all
    show ?thesis using assms(1-3) unfolding DeclareTopic_def DeclareDLX_def connected_def ref_admin_def option.case RabbitMQ.simps admin.simps if_True if_False
        wp_bindE wp_bind wp_return wp_if wp_on_topology
      using e some c6 unfolding d
      by (simp add: topic_bindings_def insert_commute)
  qed
  then show ?thesis by (simp add: sure_def)
qed

lemma bindE_ok: "bindE (ok a) f = f a"
  by (simp add: bindE_def State_Monad.bind_left_identity)

lemma ref_clients: "NewChannelClient ref_admin connected = ok connected" "newWorkerClient ref_admin connected c = ok connected"
  unfolding newWorkerClient_def NewChannelClient_def
  by (simp_all add: connected_def ref_admin_def bindE_ok State_Monad.bind_left_identity)

lemma connected_base: "(if connected = None then a else b) = b"
  by (simp add: connected_def)

lemma sure_program_topic: "(x, q, k) \<in> set program_topics \<Longrightarrow> sure (DeclareTopic ref_admin connected x q k) (topic_bindings (x, q, k))"
  by (rule sure_topic) (auto simp: topic_defs key_defs is_dlx_def)

lemma sure_after:
  assumes "sure m B" "\<And>v. sure (f v) C" "C \<union> B = E"
  shows "sure (bindE m f) E"
  using sure_bindE [OF assms(1,2)] assms(3) by (simp add: Un_commute)

lemma sure_constructors:
  "sure (NewLikeMQ ref_admin connected) (topic_bindings (LikeExchange, LikeQueue, LikeBindingKey))"
  "sure (NewCommentMQ ref_admin connected) (topic_bindings (CommentExchange, CommentQueue, CommentBindingKey))"
  "sure (NewSocialMQ ref_admin connected) (topic_bindings (SocialExchange, SocialQueue, SocialBindingKey))"
  "sure (NewPopularityMQ ref_admin connected) (topic_bindings (PopularityExchange, PopularityQueue, PopularityBindingKey))"
  "sure (NewTimelineMQ ref_admin connected) (topic_bindings (TimelineExchange, TimelineQueue, TimelineBindingKey))"
  unfolding NewLikeMQ_def NewCommentMQ_def NewSocialMQ_def NewPopularityMQ_def NewTimelineMQ_def connected_base
  by (rule sure_after [OF sure_program_topic sure_ok], simp_all add: topics_known)+

lemma sure_notifications: "sure (NewNotificationMQ ref_admin connected) (topic_bindings (LikeExchange, NotificationLikeQueue, LikeRoutingKeyLike))"
proof -
  have "sure (NewNotificationMQ ref_admin connected) (topic_bindings (LikeExchange, NotificationLikeQueue, LikeRoutingKeyLike) \<union>
      (topic_bindings (CommentExchange, NotificationCommentQueue, CommentRoutingKeyPublish) \<union>
      (topic_bindings (SocialExchange, NotificationSocialQueue, SocialRoutingKeyFollow) \<union> {})))"
    unfolding NewNotificationMQ_def connected_base
    by (intro sure_bindE sure_program_topic sure_ok topics_known)
  then show ?thesis by (rule sure_mono) blast
qed

lemma sure_worker: "sure (worker_queues ref_admin connected True) (topic_bindings (LikeExchange, LikeQueue, LikeBindingKey))"
proof -
  have "sure (worker_queues ref_admin connected True) (topic_bindings (SocialExchange, SocialQueue, SocialBindingKey) \<union>
      (topic_bindings (LikeExchange, LikeQueue, LikeBindingKey) \<union> (topic_bindings (CommentExchange, CommentQueue, CommentBindingKey) \<union>
      (topic_bindings (TimelineExchange, TimelineQueue, TimelineBindingKey) \<union> (topic_bindings (PopularityExchange, PopularityQueue, PopularityBindingKey) \<union> {})))))"
    unfolding worker_queues_def ref_clients bindE_ok not_True_eq_False if_False
    by (intro sure_bindE sure_constructors sure_ok)
  then show ?thesis by (rule sure_mono) blast
qed

text \<open>The worker process and then the API process are started on an empty broker.\<close>

definition built :: "bool list \<times> topology world" where
  "built = run_state (starts ref_admin connected [WorkerStart True, ApiStart]) no_topology"

lemma consistent_mono: "consistent B T \<Longrightarrow> C \<subseteq> B \<Longrightarrow> consistent C T"
  by (auto simp: consistent_def)

lemma wp_sure: "sure m B \<Longrightarrow> consistent C (hidden w) \<Longrightarrow> (\<And>v w'. consistent (B \<union> C) (hidden w') \<Longrightarrow> Q (Inr v) w') \<Longrightarrow> wp m Q w"
  unfolding sure_def by (rule wp_mono, blast) (metis isl_def sum.exhaust_sel)

lemma router_mq_consistent:
  assumes "sure (new connected) B" "consistent C (hidden w)"
  shows "wp (router_mq ref_admin new connected) (\<lambda>_ w'. consistent C (hidden w')) w"
  unfolding router_mq_def ref_clients State_Monad.bind_left_identity sum.case wp_bind
  by (rule wp_sure [OF assms]) (auto simp: wp_return elim: consistent_mono)

lemma built_well: "fst built = [True, True] \<and> consistent (topic_bindings (LikeExchange, NotificationLikeQueue, LikeRoutingKeyLike) \<union>
    topic_bindings (LikeExchange, LikeQueue, LikeBindingKey)) (hidden (snd built))"
proof -
  let ?L = "topic_bindings (LikeExchange, LikeQueue, LikeBindingKey)" and ?N = "topic_bindings (LikeExchange, NotificationLikeQueue, LikeRoutingKeyLike)"
  let ?Q = "\<lambda>bs w'. bs = [True, True] \<and> consistent (?N \<union> ?L) (hidden w')"
  have notif: "wp (declare_notifications ref_admin connected) (\<lambda>b w'. b \<and> consistent (?N \<union> ?L) (hidden w')) w1" if "consistent ?L (hidden w1)" for w1
    unfolding declare_notifications_def ref_clients State_Monad.bind_left_identity sum.case wp_if wp_bind
    by (simp add: connected_def wp_return, fold connected_def, rule wp_sure [OF sure_notifications that]) (simp add: wp_return)
  have router: "wp (router_queues ref_admin connected) (\<lambda>_ w'. consistent ?L (hidden w')) w1" if "consistent ?L (hidden w1)" for w1
    unfolding router_queues_def wp_bind wp_return
    by (intro wp_mono [OF router_mq_consistent [of "NewLikeMQ ref_admin", OF sure_constructors(1) that]] wp_mono [OF router_mq_consistent [of "NewPopularityMQ ref_admin", OF sure_constructors(4)]]
        wp_mono [OF router_mq_consistent [of "NewCommentMQ ref_admin", OF sure_constructors(2)]] wp_mono [OF router_mq_consistent [of "NewSocialMQ ref_admin", OF sure_constructors(3)]])
  have "consistent {} (hidden no_topology)" by (simp add: consistent_def no_topology_def)
  then have "wp (starts ref_admin connected [WorkerStart True, ApiStart]) ?Q no_topology"
    unfolding starts.simps start.simps wp_bind wp_return
    by (intro wp_sure [OF sure_worker] wp_mono [OF router] wp_mono [OF notif]) (auto simp: isl_def)
  then show ?thesis unfolding built_def wp_def by (simp split: prod.splits)
qed

text \<open>On this broker every event has exactly the queues of its workers.\<close>

theorem events_reach_their_workers_witness:
  "routes sample_match (hidden (snd built)) LikeExchange LikeRoutingKeyLike = {LikeQueue, NotificationLikeQueue}"
proof -
  have run: "run_state (starts ref_admin connected [WorkerStart True, ApiStart]) no_topology = ([True, True], snd built)"
    using built_well by (metis built_def prod.collapse)
  have empty: "tp_bindings (ad_topology ref_admin no_topology) = []" by (simp add: ref_admin_def no_topology_def)
  have event: "(LikeExchange, LikeRoutingKeyLike, [LikeQueue, NotificationLikeQueue]) \<in> set event_queues" by (simp add: event_queues_def)
  show ?thesis
    using events_reach_their_workers [OF ref_admin_ok sample_match_ok empty run event] by (simp add: ref_admin_def)
qed

text \<open>
  All queues have the same dead-letter exchange, and a dead-letter queue is bound to it with the
  key of its queue: a like event that only the notification worker gave up also arrives in the
  dead-letter queue of the like worker, and the other way round.
\<close>

theorem dead_letters_are_shared:
  "fst built = [True, True] \<and>
   {LikeQueue @ ''.dlx'', NotificationLikeQueue @ ''.dlx''} \<subseteq> dead_letter_queues sample_match (hidden (snd built)) NotificationLikeQueue LikeRoutingKeyLike \<and>
   {LikeQueue @ ''.dlx'', NotificationLikeQueue @ ''.dlx''} \<subseteq> dead_letter_queues sample_match (hidden (snd built)) LikeQueue LikeRoutingKeyLike"
proof -
  let ?T = "hidden (snd built)"
  have "wp (starts ref_admin connected [WorkerStart True, ApiStart]) (\<lambda>bs w'. topology_inv ((\<Union>s \<in> set (zip [WorkerStart True, ApiStart] bs).
      start_topics s) \<union> {}) (ad_topology ref_admin w')) no_topology"
    by (rule wp_starts [OF ref_admin_ok]) (simp add: topology_inv_def ref_admin_def no_topology_def)
  moreover have "run_state (starts ref_admin connected [WorkerStart True, ApiStart]) no_topology = ([True, True], snd built)"
    using built_well by (metis built_def prod.collapse)
  ultimately have inv: "topology_inv (set notification_topics \<union> (set worker_topics \<union> {popularity_topic})) ?T"
    by (simp add: wp_def ref_admin_def Un_ac)
  have q: "tp_queues ?T NotificationLikeQueue = Some (True, Some DLXExchange)" "tp_queues ?T LikeQueue = Some (True, Some DLXExchange)"
    using inv by (simp_all add: topology_inv_def has_topic_def notification_topics_def worker_topics_def)
  have b: "{(DLXExchange, LikeBindingKey, LikeQueue @ ''.dlx''), (DLXExchange, LikeRoutingKeyLike, NotificationLikeQueue @ ''.dlx'')} \<subseteq> set (tp_bindings ?T)"
    using built_well by (simp add: consistent_def topic_bindings_def)
  have m: "sample_match LikeBindingKey LikeRoutingKeyLike" "sample_match LikeRoutingKeyLike LikeRoutingKeyLike"
    by (simp_all add: sample_match_def plain_def key_defs)
  have "{LikeQueue @ ''.dlx'', NotificationLikeQueue @ ''.dlx''} \<subseteq> routes sample_match ?T DLXExchange LikeRoutingKeyLike"
    using b m unfolding routes_def by auto
  with built_well show ?thesis by (simp add: dead_letter_queues_def q)
qed

end
