(* ===== verification/Profile.thy ===== *)
theory Profile
  imports Video Social
begin

text \<open>
  Profiles: \<open>internal/api/profile\<close>. The profile is the account with its four counts; a count whose query
  fails is shown as 0.
\<close>

section \<open>entity.go and service.go\<close>

record profile_response =
  pr_Account :: account_json
  pr_VideoCount :: int
  pr_TotalLikes :: int
  pr_FollowerCount :: int
  pr_VloggerCount :: int

record 'x profile_service =
  ps_accountRepo :: "'x gorm"
  ps_videoRepo :: "'x gorm"
  ps_socialRepo :: "'x gorm"

definition GetAccountProfile :: "'x profile_service \<Rightarrow> uint \<Rightarrow> ('x, profile_response res) io" where
  "GetAccountProfile s accountID =
     bindE (AccountRepo_FindByID (ps_accountRepo s) accountID) (\<lambda>acc. do {
       videoCount \<leftarrow> CountByAuthorID (ps_videoRepo s) accountID;
       totalLikes \<leftarrow> TotalLikesByAuthorID (ps_videoRepo s) accountID;
       followerCount \<leftarrow> SocialRepo_CountFollowers (ps_socialRepo s) accountID;
       vloggerCount \<leftarrow> SocialRepo_CountVloggers (ps_socialRepo s) accountID;
       ok \<lparr>pr_Account = account_json acc, pr_VideoCount = count_or_zero videoCount, pr_TotalLikes = count_or_zero totalLikes,
           pr_FollowerCount = count_or_zero followerCount, pr_VloggerCount = count_or_zero vloggerCount\<rparr>})"

section \<open>handler.go\<close>

definition ProfileHandler_GetAccountProfile :: "'x profile_service \<Rightarrow> uint res \<Rightarrow> ('x, profile_response reply) io" where
  "ProfileHandler_GetAccountProfile s bound = (case bound of
     Inl err \<Rightarrow> ret (Fail 400 (error_text err))
   | Inr accountID \<Rightarrow>
       if accountID = 0 then ret (Fail 400 ''account_id is required'')
       else do {
         r \<leftarrow> GetAccountProfile s accountID;
         ret (case r of Inl err \<Rightarrow> Fail 500 (error_text err) | Inr resp \<Rightarrow> Sent resp)})"

section \<open>What a profile shows\<close>

text \<open>A count is right, or 0 because its query failed.\<close>

definition shown_count :: "int \<Rightarrow> int \<Rightarrow> bool" where
  "shown_count n real \<longleftrightarrow> n = real \<or> n = 0"

definition profile_of :: "uint \<Rightarrow> tables \<Rightarrow> profile_response \<Rightarrow> bool" where
  "profile_of i t p \<longleftrightarrow>
     (\<exists>a \<in> set (t_accounts t). a_ID a = i \<and> pr_Account p = account_json a) \<and>
     shown_count (pr_VideoCount p) (int (length (filter (\<lambda>v. v_AuthorID v = i) (t_videos t)))) \<and>
     shown_count (pr_TotalLikes p) (sum_list (map v_LikesCount (filter (\<lambda>v. v_AuthorID v = i) (t_videos t)))) \<and>
     shown_count (pr_FollowerCount p) (int (length (filter (\<lambda>s. s_VloggerID s = i) (t_socials t)))) \<and>
     shown_count (pr_VloggerCount p) (int (length (filter (\<lambda>s. s_FollowerID s = i) (t_socials t))))"

lemma wp_social_counts:
  assumes "gorm_ok G" "tabs w = t"
    and "\<And>r w'. tabs w' = t \<Longrightarrow> shown_count (count_or_zero r) (int (length (filter P (t_socials t)))) \<Longrightarrow> Q r w'"
  shows "wp (db_count (db_socials G) P) Q w"
  by (rule wp_count [OF socials_ok [OF assms(1)]]) (use assms(2,3) in \<open>auto simp: shown_count_def count_or_zero_def frame_defs\<close>)

lemma wp_video_count:
  assumes "gorm_ok G" "tabs w = t"
    and "\<And>r w'. tabs w' = t \<Longrightarrow> shown_count (count_or_zero r) (int (length (filter (\<lambda>v. v_AuthorID v = i) (t_videos t)))) \<Longrightarrow> Q r w'"
  shows "wp (CountByAuthorID G i) Q w"
  unfolding CountByAuthorID_def wp_bindE
  by (rule wp_count [OF videos_ok [OF assms(1)]]) (use assms(2,3) in \<open>auto simp: wp_return shown_count_def count_or_zero_def frame_defs\<close>)

lemma wp_total_likes:
  assumes "gorm_ok G" "tabs w = t"
    and "\<And>r w'. tabs w' = t \<Longrightarrow> shown_count (count_or_zero r) (sum_list (map v_LikesCount (filter (\<lambda>v. v_AuthorID v = i) (t_videos t)))) \<Longrightarrow> Q r w'"
  shows "wp (TotalLikesByAuthorID G i) Q w"
proof -
  have "wp (db_sum_likes G (\<lambda>v. v_AuthorID v = i)) (\<lambda>r w'. quiet w w' \<and> (\<forall>n. r = Inr n \<longrightarrow>
      n = sum_list (map v_LikesCount (filter (\<lambda>v. v_AuthorID v = i) (t_videos (tabs w)))))) w"
    using assms(1) by (simp add: gorm_ok_def videos_queries_ok_def Let_def)
  then show ?thesis unfolding TotalLikesByAuthorID_def wp_bindE
    by (rule wp_mono) (use assms(2,3) in \<open>auto simp: wp_return shown_count_def count_or_zero_def frame_defs split: sum.split\<close>)
qed

definition profile_service_ok :: "'x profile_service \<Rightarrow> bool" where
  "profile_service_ok s \<longleftrightarrow> gorm_ok (ps_accountRepo s) \<and> gorm_ok (ps_videoRepo s) \<and> gorm_ok (ps_socialRepo s)"

text \<open>
  A profile that is answered belongs to the account that was asked for, shows neither its password
  nor its tokens, and each of its counts is right or 0; reading it changes no table.
\<close>

theorem profile_is_right:
  assumes "profile_service_ok s" "run_state (ProfileHandler_GetAccountProfile s (Inr i)) w = (r, w')"
  shows "tabs w' = tabs w \<and> (case r of Sent p \<Rightarrow> i \<noteq> 0 \<and> profile_of i (tabs w) p | Fail n _ \<Rightarrow> n \<in> {400, 500})"
proof -
  have "wp (GetAccountProfile s i) (\<lambda>r w'. tabs w' = tabs w \<and> (\<forall>p. r = Inr p \<longrightarrow> profile_of i (tabs w) p)) w"
    unfolding GetAccountProfile_def wp_bindE SocialRepo_CountFollowers_def SocialRepo_CountVloggers_def wp_bind wp_return
    by (rule account_finds(1))
      (use assms(1) in \<open>auto simp: profile_service_ok_def profile_of_def frame_defs intro!: wp_video_count wp_total_likes wp_social_counts\<close>)
  then have "wp (ProfileHandler_GetAccountProfile s (Inr i)) (\<lambda>r w'. tabs w' = tabs w \<and>
      (case r of Sent p \<Rightarrow> i \<noteq> 0 \<and> profile_of i (tabs w) p | Fail n _ \<Rightarrow> n \<in> {400, 500})) w"
    unfolding ProfileHandler_GetAccountProfile_def sum.case wp_if wp_bind wp_return
    by (auto elim!: wp_mono split: sum.split)
  from wp_runD [OF this assms(2)] show ?thesis .
qed

section \<open>A profile\<close>

definition profile_world :: ref_world where
  "profile_world = ref_start [] (no_tables\<lparr>t_accounts := [\<lparr>a_ID = 5, a_Username = ''ann'', a_Password = ''h'',
     a_Token = '''', a_RefreshToken = '''', a_AvatarURL = '''', a_Bio = ''b''\<rparr>], t_socials := [\<lparr>s_ID = 1, s_FollowerID = 6, s_VloggerID = 5\<rparr>]\<rparr>)"

definition profile_run :: "profile_response reply \<times> ref_world" where
  "profile_run = run_state (ProfileHandler_GetAccountProfile \<lparr>ps_accountRepo = ref_gorm, ps_videoRepo = ref_gorm, ps_socialRepo = ref_gorm\<rparr> (Inr 5)) profile_world"

theorem profile_is_right_witness:
  "\<exists>p. fst profile_run = Sent p \<and> profile_of 5 (tabs profile_world) p \<and> pr_FollowerCount p = 1 \<and> tabs (snd profile_run) = tabs profile_world"
proof -
  let ?s = "\<lparr>ps_accountRepo = ref_gorm, ps_videoRepo = ref_gorm, ps_socialRepo = ref_gorm\<rparr>"
  have ok: "profile_service_ok ?s" by (simp add: profile_service_ok_def ref_gorm_ok)
  have "\<exists>p. fst profile_run = Sent p \<and> pr_FollowerCount p = 1"
    by (simp add: profile_run_def profile_world_def ProfileHandler_GetAccountProfile_def GetAccountProfile_def AccountRepo_FindByID_def CountByAuthorID_def
        TotalLikesByAuthorID_def SocialRepo_CountFollowers_def SocialRepo_CountVloggers_def count_or_zero_def bindE_def ref_defs)
  moreover have "run_state (ProfileHandler_GetAccountProfile ?s (Inr 5)) profile_world = (fst profile_run, snd profile_run)"
    by (simp add: profile_run_def)
  ultimately show ?thesis using profile_is_right [OF ok, of 5 profile_world "fst profile_run" "snd profile_run"] by auto
qed

end
