(* ===== verification/Message.thy ===== *)
theory Message
  imports Reference Http "HOL-Library.Multiset"
begin

text \<open>
  Private messages: \<open>internal/api/message\<close>, repository, service and handlers. What was sent is what
  the two accounts of the conversation, and no other, can list.
\<close>

section \<open>repo.go\<close>

definition CreateMessage :: "'x gorm \<Rightarrow> message \<Rightarrow> ('x, message res) io" where
  "CreateMessage db m = db_create (db_messages db) m"

definition between :: "uint \<Rightarrow> uint \<Rightarrow> message \<Rightarrow> bool" where
  "between userID peerID m \<longleftrightarrow>
     (m_FromID m = userID \<and> m_ToID m = peerID) \<or> (m_FromID m = peerID \<and> m_ToID m = userID)"

definition ListMessages :: "'x gorm \<Rightarrow> uint \<Rightarrow> uint \<Rightarrow> int \<Rightarrow> ('x, message list res) io" where
  "ListMessages db userID peerID limit =
     bindE (db_find (db_messages db) (between userID peerID) (\<lambda>a b. m_CreatedAt b \<le> m_CreatedAt a) limit) ok"

section \<open>service.go\<close>

text \<open>\<open>Send\<close> writes through its pointer: the message it was given gets its content trimmed, its time and its identifier.\<close>

definition MessageService_Send :: "'x host \<Rightarrow> 'x gorm \<Rightarrow> message \<Rightarrow> ('x, message res) io" where
  "MessageService_Send H db m = (let m = m\<lparr>m_Content := TrimSpace (m_Content m)\<rparr> in
     if m_Content m = '''' then throw (ErrNew ''content is required'')
     else do {
       now \<leftarrow> time_Now H;
       CreateMessage db (m\<lparr>m_CreatedAt := now\<rparr>)})"

definition MessageService_List :: "'x gorm \<Rightarrow> uint \<Rightarrow> uint \<Rightarrow> ('x, message list res) io" where
  "MessageService_List db userID peerID = ListMessages db userID peerID 50"

section \<open>handler.go\<close>

definition MessageHandler_Send :: "'x host \<Rightarrow> 'x gorm \<Rightarrow> (uint \<times> string) res \<Rightarrow> gin_ctx \<Rightarrow> ('x, message reply) io" where
  "MessageHandler_Send H db bound c = (case GetAccountID c of
     Inl err \<Rightarrow> ret (Fail 401 (error_text err))
   | Inr fromID \<Rightarrow> (case bound of
       Inl err \<Rightarrow> ret (Fail 400 (error_text err))
     | Inr (toID, content) \<Rightarrow>
         if toID = 0 \<or> TrimSpace content = '''' then ret (Fail 400 ''to_id and content are required'')
         else do {
           r \<leftarrow> MessageService_Send H db \<lparr>m_ID = 0, m_FromID = fromID, m_ToID = toID, m_Content = content, m_IsRead = False, m_CreatedAt = time_zero\<rparr>;
           ret (case r of Inl err \<Rightarrow> classified err | Inr m \<Rightarrow> Sent m)}))"

definition MessageHandler_List :: "'x gorm \<Rightarrow> uint res \<Rightarrow> gin_ctx \<Rightarrow> ('x, message list reply) io" where
  "MessageHandler_List db bound c = (case GetAccountID c of
     Inl err \<Rightarrow> ret (Fail 401 (error_text err))
   | Inr userID \<Rightarrow> (case bound of
       Inl err \<Rightarrow> ret (Fail 400 (error_text err))
     | Inr peerID \<Rightarrow>
         if peerID = 0 then ret (Fail 400 ''peer_id is required'')
         else do {
           r \<leftarrow> MessageService_List db userID peerID;
           ret (case r of Inl err \<Rightarrow> classified err | Inr msgs \<Rightarrow> Sent msgs)}))"

section \<open>What is listed\<close>

text \<open>The messages of a conversation, in both directions; the newest of them, newest first.\<close>

definition conversation :: "uint \<Rightarrow> uint \<Rightarrow> message \<Rightarrow> bool" where
  "conversation a b m \<longleftrightarrow> {m_FromID m, m_ToID m} = {a, b}"

lemma between_conversation: "between a b = conversation a b"
  by (auto simp: fun_eq_iff between_def conversation_def doubleton_eq_iff)

definition newest_page :: "(message \<Rightarrow> bool) \<Rightarrow> message list \<Rightarrow> message list \<Rightarrow> bool" where
  "newest_page P rows ms \<longleftrightarrow> mset ms \<subseteq># mset (filter P rows) \<and> length ms = min 50 (length (filter P rows)) \<and>
     sorted_wrt (\<lambda>a b. m_CreatedAt b \<le> m_CreatedAt a) ms \<and>
     (\<forall>x \<in> set (filter P rows) - set ms. \<forall>y \<in> set ms. m_CreatedAt x \<le> m_CreatedAt y)"

lemma query_newest_page:
  assumes "query_result P (\<lambda>a b. m_CreatedAt b \<le> m_CreatedAt a) 50 rows ms"
  shows "newest_page P rows ms"
proof -
  from assms obtain ys where ys: "mset ys = mset (filter P rows)" "sorted_wrt (\<lambda>a b. m_CreatedAt b \<le> m_CreatedAt a) ys" "ms = take 50 ys"
    by (auto simp: query_result_def limit_rows_def)
  have set: "set ys = set (filter P rows)" and len: "length ys = length (filter P rows)"
    using ys(1) by (metis set_mset_mset, metis size_mset)
  have split: "sorted_wrt (\<lambda>a b. m_CreatedAt b \<le> m_CreatedAt a) (take 50 ys @ drop 50 ys)" using ys(2) by simp
  have "set ys = set (take 50 ys) \<union> set (drop 50 ys)" by (metis append_take_drop_id set_append)
  then have "\<forall>x \<in> set ys - set ms. \<forall>y \<in> set ms. m_CreatedAt x \<le> m_CreatedAt y"
    using split unfolding sorted_wrt_append ys(3) by blast
  moreover have "mset ms \<subseteq># mset (filter P rows)"
    unfolding ys(1) [symmetric] ys(3) by (metis append_take_drop_id mset_append mset_subset_eq_add_left)
  ultimately show ?thesis unfolding newest_page_def using set len ys(2) by (simp add: ys(3) sorted_wrt_take min.commute)
qed

lemma newest_page_all:
  assumes "newest_page P rows ms" "x \<in> set rows" "P x" "length (filter P rows) \<le> 50"
  shows "x \<in> set ms"
proof -
  have "mset ms = mset (filter P rows)"
    using assms(1,4) unfolding newest_page_def by (metis min.absorb2 mset_subset_size size_mset subset_mset.le_neq_trans less_irrefl)
  then have "set ms = set (filter P rows)" by (metis set_mset_mset)
  with assms(2,3) show ?thesis by simp
qed

lemma wp_MessageHandler_List:
  assumes "gorm_ok G"
  shows "wp (MessageHandler_List G bound c) (\<lambda>r w'. quiet w w' \<and> (\<forall>ms. r = Sent ms \<longrightarrow>
    (\<exists>b p. GetAccountID c = Inr b \<and> bound = Inr p \<and> newest_page (between b p) (t_messages (tabs w)) ms))) w"
proof -
  have ord: "total_preorder (\<lambda>a b. m_CreatedAt b \<le> m_CreatedAt a)" by (auto simp: total_preorder_def transp_def)
  show ?thesis
    unfolding MessageHandler_List_def MessageService_List_def ListMessages_def
    by (cases "GetAccountID c"; cases bound)
      (auto simp: wp_simps classified_def frame_defs intro!: wp_find [OF messages_ok [OF assms] ord] query_newest_page)
qed

lemma wp_MessageHandler_Send:
  assumes "gorm_ok G" "host_ok H"
  shows "wp (MessageHandler_Send H G bound c) (\<lambda>r w'. \<forall>m. r = Sent m \<longrightarrow>
    (\<exists>a p content. GetAccountID c = Inr a \<and> bound = Inr (p, content) \<and> TrimSpace content \<noteq> '''' \<and>
      m_FromID m = a \<and> m_ToID m = p \<and> m_Content m = TrimSpace content \<and> \<not> m_IsRead m \<and>
      tabs w' = t_messages_update (\<lambda>_. t_messages (tabs w) @ [m\<lparr>m_CreatedAt := db_col_time G (m_CreatedAt m)\<rparr>]) (tabs w))) w"
proof -
  have create: "wp (db_create (db_messages G) \<lparr>m_ID = 0, m_FromID = a, m_ToID = p, m_Content = s, m_IsRead = False, m_CreatedAt = t\<rparr>)
      (\<lambda>r w'. \<forall>m. r = Inr m \<longrightarrow> m_FromID m = a \<and> m_ToID m = p \<and> m_Content m = s \<and> \<not> m_IsRead m \<and>
        tabs w' = t_messages_update (\<lambda>_. t_messages (tabs w) @ [m\<lparr>m_CreatedAt := db_col_time G (m_CreatedAt m)\<rparr>]) (tabs w)) w1"
    if "quiet w w1" for a p s t w1
    by (rule wp_create [OF messages_ok [OF assms(1)]])
      (use that in \<open>auto simp: create_post_def inserted_def message_schema_def frame_defs\<close>)
  show ?thesis
    unfolding MessageHandler_Send_def MessageService_Send_def CreateMessage_def
    by (cases "GetAccountID c"; cases bound)
      (auto simp: wp_simps classified_def Let_def intro!: wp_time_Now [OF assms(2)] wp_mono [OF create] split: sum.splits)
qed

text \<open>
  C19. A message that was accepted comes from the authenticated account, has the trimmed content and is
  stored; a list that is answered afterwards shows only messages between the account that asks and
  its peer, the newest fifty of them, newest first, the accepted message among what they are taken from.
\<close>

theorem message_sent_is_listed:
  assumes "gorm_ok G" "host_ok H"
    and "run_state (MessageHandler_Send H G (Inr (p, content)) c) w = (Sent m, w1)"
    and "run_state (MessageHandler_List G (Inr peer) c') w1 = (Sent ms, w2)"
    and "stored = m\<lparr>m_CreatedAt := db_col_time G (m_CreatedAt m)\<rparr>"
  shows "GetAccountID c = Inr (m_FromID m) \<and> m_ToID m = p \<and> m_Content m = TrimSpace content \<and> m_Content m \<noteq> '''' \<and>
    (\<exists>b. GetAccountID c' = Inr b \<and> newest_page (conversation b peer) (t_messages (tabs w) @ [stored]) ms \<and>
      (conversation b peer m \<and> length (filter (conversation b peer) (t_messages (tabs w))) < 50 \<longrightarrow> stored \<in> set ms))"
proof -
  from wp_runD [OF wp_MessageHandler_Send [OF assms(1,2)] assms(3)]
  have m: "GetAccountID c = Inr (m_FromID m)" "m_ToID m = p" "m_Content m = TrimSpace content" "m_Content m \<noteq> ''''"
    and t: "t_messages (tabs w1) = t_messages (tabs w) @ [stored]" by (auto simp: assms(5))
  from wp_runD [OF wp_MessageHandler_List [OF assms(1)] assms(4)] t
  obtain b where b: "GetAccountID c' = Inr b" and page: "newest_page (between b peer) (t_messages (tabs w) @ [stored]) ms" by auto
  have "stored \<in> set ms" if "between b peer m" "length (filter (between b peer) (t_messages (tabs w))) < 50"
    by (rule newest_page_all [OF page]) (use that in \<open>simp_all add: assms(5) between_def\<close>)
  with m b page show ?thesis unfolding between_conversation by blast
qed

section \<open>A conversation\<close>

definition chat_start :: ref_world where
  "chat_start = ref_start [] no_tables"

definition chat_host :: "ref_hid host" where
  "chat_host = ref_host [] [] [] [] [] []"

definition chat_ctx :: "uint \<Rightarrow> gin_ctx" where
  "chat_ctx i = [''accountID'' \<mapsto> GUint i]"

definition chat_sent :: "message reply \<times> ref_world" where
  "chat_sent = run_state (MessageHandler_Send chat_host ref_gorm (Inr (8, ''hi'')) (chat_ctx 7)) chat_start"

definition chat_listed :: "message list reply \<times> ref_world" where
  "chat_listed = run_state (MessageHandler_List ref_gorm (Inr 7) (chat_ctx 8)) (snd chat_sent)"

lemmas chat_defs = chat_sent_def chat_listed_def chat_ctx_def chat_start_def chat_host_def MessageHandler_Send_def MessageHandler_List_def
  MessageService_Send_def MessageService_List_def CreateMessage_def ListMessages_def GetAccountID_def

lemma chat_trim: "TrimSpace ''hi'' = ''hi''"
  by (simp add: TrimSpace_visible visible_def)

lemma chat_fine: "\<exists>m ms. fst chat_sent = Sent m \<and> fst chat_listed = Sent ms \<and> m_FromID m = 7 \<and> m_ToID m = 8"
  by (simp add: chat_defs bindE_def Let_def chat_trim ref_defs message_schema_def auto_time_def between_def)

text \<open>Account 7 sends to account 8, who lists the conversation.\<close>

theorem message_sent_is_listed_witness:
  "\<exists>m ms. fst chat_sent = Sent m \<and> fst chat_listed = Sent ms \<and> m_Content m = TrimSpace ''hi'' \<and>
    m\<lparr>m_CreatedAt := db_col_time ref_gorm (m_CreatedAt m)\<rparr> \<in> set ms"
proof -
  obtain m ms where f: "fst chat_sent = Sent m" "fst chat_listed = Sent ms" "m_FromID m = 7" "m_ToID m = 8" using chat_fine by blast
  have host: "host_ok chat_host" unfolding chat_host_def by (rule ref_host_ok) simp_all
  have send: "run_state (MessageHandler_Send chat_host ref_gorm (Inr (8, ''hi'')) (chat_ctx 7)) chat_start = (Sent m, snd chat_sent)"
    using f(1) by (metis chat_sent_def prod.collapse)
  have list: "run_state (MessageHandler_List ref_gorm (Inr 7) (chat_ctx 8)) (snd chat_sent) = (Sent ms, snd chat_listed)"
    using f(2) by (metis chat_listed_def prod.collapse)
  from message_sent_is_listed [OF ref_gorm_ok host send list refl] f
  show ?thesis by (auto simp: chat_ctx_def GetAccountID_def conversation_def insert_commute chat_start_def ref_start_def no_tables_def)
qed

end
