(* ===== verification/Router.thy ===== *)
theory Router
  imports JwtAuth RateLimit Notification Message
begin

text \<open>
  \<open>internal/http/router.go\<close>: the routes with the middlewares before their handlers. A request runs
  through the middlewares of its route in order; one of them answers, or the handler does.
\<close>

section \<open>The routes\<close>

datatype limit_key = ByIP | ByAccount

datatype middleware = LimitBy string int int limit_key | Auth | SoftAuth | StreamAuth

definition loginLimiter :: middleware where "loginLimiter = LimitBy ''account_login'' 10 (60 * 10 ^ 9) ByIP"
definition registerLimiter :: middleware where "registerLimiter = LimitBy ''account_register'' 5 (3600 * 10 ^ 9) ByIP"
definition likeLimiter :: middleware where "likeLimiter = LimitBy ''like_write'' 30 (60 * 10 ^ 9) ByAccount"
definition commentLimiter :: middleware where "commentLimiter = LimitBy ''comment_write'' 10 (60 * 10 ^ 9) ByAccount"
definition socialLimiter :: middleware where "socialLimiter = LimitBy ''social_write'' 20 (60 * 10 ^ 9) ByAccount"

text \<open>A route: its method and path. Before its handler stand the middlewares of its group, then its own.\<close>

datatype http_method = GET | POST

type_synonym route = "http_method \<times> string"

definition account_routes :: "(route \<times> middleware list) list" where
  "account_routes =
     [((POST, ''/account/register''), [registerLimiter]), ((POST, ''/account/login''), [loginLimiter]), ((POST, ''/account/refresh''), []),
      ((POST, ''/account/changePassword''), []), ((POST, ''/account/findByID''), []), ((POST, ''/account/findByUsername''), []),
      ((POST, ''/account/rename''), [Auth]), ((POST, ''/account/logout''), [Auth]), ((POST, ''/account/uploadAvatar''), [Auth]), ((POST, ''/account/updateProfile''), [Auth])]"

definition video_routes :: "(route \<times> middleware list) list" where
  "video_routes =
     [((POST, ''/video/listByAuthorID''), []), ((POST, ''/video/getDetail''), []),
      ((POST, ''/video/uploadVideo''), [Auth]), ((POST, ''/video/uploadCover''), [Auth]), ((POST, ''/video/publish''), [Auth])]"

definition like_routes :: "(route \<times> middleware list) list" where
  "like_routes =
     [((POST, ''/like/like''), [Auth, likeLimiter]), ((POST, ''/like/unlike''), [Auth, likeLimiter]), ((POST, ''/like/isLiked''), [Auth]),
      ((POST, ''/like/listMyLikedVideos''), [Auth])]"

definition comment_routes :: "(route \<times> middleware list) list" where
  "comment_routes =
     [((POST, ''/comment/listAll''), []), ((POST, ''/comment/publish''), [Auth, commentLimiter]), ((POST, ''/comment/delete''), [Auth, commentLimiter])]"

definition social_routes :: "(route \<times> middleware list) list" where
  "social_routes =
     [((POST, ''/social/follow''), [Auth, socialLimiter]), ((POST, ''/social/unfollow''), [Auth, socialLimiter]), ((POST, ''/social/listAllFollowers''), [Auth]),
      ((POST, ''/social/listAllVloggers''), [Auth]), ((POST, ''/social/getCounts''), [Auth])]"

definition feed_routes :: "(route \<times> middleware list) list" where
  "feed_routes =
     [((POST, ''/feed/listByFollowing''), [Auth]), ((POST, ''/feed/listLatest''), [SoftAuth]), ((POST, ''/feed/listLikesCount''), [SoftAuth]),
      ((POST, ''/feed/listByPopularity''), [SoftAuth]), ((POST, ''/feed/listByTag''), [SoftAuth])]"

definition message_routes :: "(route \<times> middleware list) list" where
  "message_routes = [((POST, ''/message/send''), [Auth]), ((POST, ''/message/list''), [Auth])]"

definition profile_routes :: "(route \<times> middleware list) list" where
  "profile_routes = [((POST, ''/profile/getAccountProfile''), [])]"

definition notification_routes :: "(route \<times> middleware list) list" where
  "notification_routes =
     [((GET, ''/notification/stream''), [StreamAuth]), ((POST, ''/notification/list''), [StreamAuth]), ((POST, ''/notification/markRead''), [StreamAuth]),
      ((POST, ''/notification/unreadCount''), [StreamAuth])]"

definition all_routes :: "(route \<times> middleware list) list" where
  "all_routes = account_routes @ video_routes @ like_routes @ comment_routes @ social_routes @ feed_routes @ message_routes @ profile_routes @
     notification_routes"

lemmas route_defs = account_routes_def video_routes_def like_routes_def comment_routes_def social_routes_def feed_routes_def
  message_routes_def profile_routes_def notification_routes_def all_routes_def registerLimiter_def loginLimiter_def likeLimiter_def
  commentLimiter_def socialLimiter_def

section \<open>A request\<close>

text \<open>What the middlewares are built from, and what they read from the request.\<close>

record 'x server =
  sr_host :: "'x host"
  sr_crypto :: "'x crypto"
  sr_secret :: string
  sr_db :: "'x gorm"
  sr_cache :: "'x cache"

record client_request =
  rq_Authorization :: string
  rq_QueryToken :: string
  rq_ClientIP :: string

definition run_middleware :: "'x server \<Rightarrow> client_request \<Rightarrow> middleware \<Rightarrow> gin_ctx \<Rightarrow> ('x, decision) io" where
  "run_middleware s q m c = (case m of
     LimitBy name n window key \<Rightarrow> Limit (sr_host s) (sr_cache s) name n window
       (Some (case key of ByIP \<Rightarrow> KeyByIP (rq_ClientIP q) | ByAccount \<Rightarrow> KeyByAccount)) c
   | Auth \<Rightarrow> JWTAuth (sr_crypto s) (sr_secret s) (sr_db s) (sr_cache s) (rq_Authorization q) c
   | SoftAuth \<Rightarrow> SoftJWTAuth (sr_crypto s) (sr_secret s) (sr_db s) (sr_cache s) (rq_Authorization q) c
   | StreamAuth \<Rightarrow> SSERequireAuth (sr_crypto s) (sr_secret s) (rq_QueryToken q) (rq_Authorization q) c)"

fun run_chain :: "'x server \<Rightarrow> client_request \<Rightarrow> middleware list \<Rightarrow> gin_ctx \<Rightarrow> (gin_ctx \<Rightarrow> ('x, 'a reply) io) \<Rightarrow> ('x, 'a reply) io" where
  "run_chain s q [] c handler = handler c"
| "run_chain s q (m # ms) c handler = do {
     d \<leftarrow> run_middleware s q m c;
     (case d of
        Abort n text \<Rightarrow> ret (Fail n text)
      | Next c' \<Rightarrow> run_chain s q ms c' handler)}"

text \<open>A method and path without a route are answered with 404.\<close>

definition serve :: "'x server \<Rightarrow> client_request \<Rightarrow> route \<Rightarrow> (gin_ctx \<Rightarrow> ('x, 'a reply) io) \<Rightarrow> ('x, 'a reply) io" where
  "serve s q path handler = (case map_of all_routes path of
     None \<Rightarrow> ret (Fail 404 ''404 page not found'')
   | Some ms \<Rightarrow> run_chain s q ms Map.empty handler)"

section \<open>Protected routes\<close>

text \<open>A limiter by account stands behind the authentication that tells the account, on every route.\<close>

fun limits_after_auth :: "bool \<Rightarrow> middleware list \<Rightarrow> bool" where
  "limits_after_auth b [] = True"
| "limits_after_auth b (LimitBy _ _ _ ByAccount # ms) = (b \<and> limits_after_auth b ms)"
| "limits_after_auth b (Auth # ms) = limits_after_auth True ms"
| "limits_after_auth b (_ # ms) = limits_after_auth b ms"

lemma account_limits_know_the_account: "\<forall>(path, ms) \<in> set all_routes. limits_after_auth False ms"
  by (simp add: route_defs)

text \<open>
  The routes anyone may use: signing up and in, what everyone may see, the feeds, which only look for an
  account, and the notifications, which have an authentication of their own.
\<close>

definition open_routes :: "route list" where
  "open_routes = map (Pair POST)
     [''/account/register'', ''/account/login'', ''/account/refresh'', ''/account/changePassword'', ''/account/findByID'', ''/account/findByUsername'',
      ''/video/listByAuthorID'', ''/video/getDetail'', ''/comment/listAll'', ''/profile/getAccountProfile'',
      ''/feed/listLatest'', ''/feed/listLikesCount'', ''/feed/listByPopularity'', ''/feed/listByTag'',
      ''/notification/list'', ''/notification/markRead'', ''/notification/unreadCount''] @ [(GET, ''/notification/stream'')]"

text \<open>On every other route the authentication stands first, and only limiters follow.\<close>

definition limiter :: "middleware \<Rightarrow> bool" where
  "limiter m \<longleftrightarrow> (\<exists>n i w k. m = LimitBy n i w k)"

lemma protected_chain:
  assumes "(path, ms) \<in> set all_routes" "path \<notin> set open_routes"
  shows "\<exists>ls. ms = Auth # ls \<and> (\<forall>m \<in> set ls. limiter m)"
proof -
  have "\<forall>(path, ms) \<in> set all_routes. path \<in> set open_routes \<or> (\<exists>ls. ms = Auth # ls \<and> (\<forall>m \<in> set ls. limiter m))"
    by (simp add: route_defs open_routes_def limiter_def)
  with assms show ?thesis by blast
qed

definition server_ok :: "'x server \<Rightarrow> bool" where
  "server_ok s \<longleftrightarrow> host_ok (sr_host s) \<and> crypto_ok (sr_crypto s) \<and> gorm_ok (sr_db s) \<and> cache_redis_ok (sr_cache s)"

lemma wp_SlidingWindowAllow:
  assumes "host_ok H" "cache_redis_ok cache" "\<And>r w'. redis_frame w w' \<Longrightarrow> Q r w'"
  shows "wp (SlidingWindowAllow H cache key n window) Q w"
proof -
  have "wp (slidingWindowAllowAt cache key n window now) Q w1" if "quiet w w1" for now w1
  proof (cases "rdb_of cache")
    case None
    then show ?thesis using assms(3) [of w1] that by (simp add: slidingWindowAllowAt_def wp_return frame_defs)
  next
    case (Some R)
    let ?script = "slidingWindowScript (rdb_lua R) key (key @ '':seq'') (UnixMilli now) (milliseconds window) n (milliseconds (window + 10 ^ 9))"
    have call: "call_ok (run_script ?script) (rdb_Run R ?script)" using assms(2) Some by (simp add: cache_redis_ok_def redis_ok_def)
    have "wp (rdb_Run R ?script) (\<lambda>res. Q (window_answer res)) w1"
      by (rule wp_call [OF call]) (use assms(3) that in \<open>auto simp: call_post_def frame_defs\<close>)
    then show ?thesis using Some assms(3) [of w1] that
      by (auto simp: slidingWindowAllowAt_def Let_def wp_simps frame_defs)
  qed
  then show ?thesis unfolding SlidingWindowAllow_def wp_bind by (rule wp_time_Now [OF assms(1)])
qed

lemma wp_Limit:
  assumes "host_ok H" "cache_redis_ok cache"
  shows "wp (Limit H cache name n window kf c) (\<lambda>d w'. redis_frame w w' \<and> (\<forall>c'. d = Next c' \<longrightarrow> c' = c)) w"
  unfolding Limit_def
  by (auto simp: wp_simps redis_frame_def intro!: wp_SlidingWindowAllow [OF assms] split: option.split prod.split)

text \<open>Limiters before a handler: they refuse, or the handler runs on the same tables and queues.\<close>

lemma wp_limiters:
  assumes "server_ok s" "\<forall>m \<in> set ms. limiter m" "redis_frame w w1"
  shows "wp (run_chain s q ms c handler) (\<lambda>r w'. (\<exists>n text. r = Fail n text \<and> redis_frame w w') \<or>
    (\<exists>w2. redis_frame w w2 \<and> run_state (handler c) w2 = (r, w'))) w1"
  using assms(2,3)
proof (induction ms arbitrary: w1)
  case Nil
  then show ?case by (auto intro: wp_runI)
next
  case (Cons m ms)
  then obtain name n window k where m: "m = LimitBy name n window k" by (auto simp: limiter_def)
  have ok: "host_ok (sr_host s)" "cache_redis_ok (sr_cache s)" using assms(1) by (simp_all add: server_ok_def)
  show ?case unfolding run_chain.simps run_middleware_def m middleware.case wp_bind
  proof (rule wp_mono [OF wp_Limit [OF ok]], goal_cases)
    case (1 d w2)
    then have frame: "redis_frame w w2" using Cons.prems(2) by (auto intro: redis_frame_trans)
    show ?case
    proof (cases d)
      case (Next c')
      with 1 have "c' = c" by simp
      then show ?thesis unfolding Next decision.case using Cons.IH [OF _ frame] Cons.prems(1) by simp
    qed (use frame in \<open>simp add: wp_return\<close>)
  qed
qed


section \<open>A protected request\<close>

definition sample_server :: "ref_hid server" where
  "sample_server = \<lparr>sr_host = plain_host, sr_crypto = sample_crypto, sr_secret = ''s'', sr_db = ref_gorm, sr_cache = sure_cache\<rparr>"

definition sample_request :: client_request where
  "sample_request = \<lparr>rq_Authorization = ''Bearer old'', rq_QueryToken = '''', rq_ClientIP = ''1.2.3.4''\<rparr>"

definition protected_run :: "message list reply \<times> ref_world" where
  "protected_run = run_state (serve sample_server sample_request (POST, ''/message/list'') (MessageHandler_List ref_gorm (Inr 8))) session_world"

lemma message_list_route: "map_of all_routes (POST, ''/message/list'') = Some [Auth]"
  by (simp add: route_defs)


end
