(* ===== verification/Files.thy ===== *)
theory Files
  imports Reference Http
begin

text \<open>
  Paths and files: the functions of \<open>path\<close> and \<open>filepath\<close> the upload handlers use, the temporary files on
  disk, and \<open>internal/middleware/cos/cos.go\<close> over the object storage. The disk, gin's
  \<open>SaveUploadedFile\<close> and the storage client are parameters.
\<close>

section \<open>path and filepath\<close>

fun split_on :: "char \<Rightarrow> string \<Rightarrow> string list" where
  "split_on d [] = [[]]"
| "split_on d (c # cs) = (if c = d then [] # split_on d cs else (case split_on d cs of
     [] \<Rightarrow> [[c]] | p # ps \<Rightarrow> (c # p) # ps))"

fun join_with :: "string \<Rightarrow> string list \<Rightarrow> string" where
  "join_with d [] = []"
| "join_with d [p] = p"
| "join_with d (p # q # ps) = p @ d @ join_with d (q # ps)"

text \<open>\<open>path.Clean\<close>: the elements so far, newest first, and the next one.\<close>

definition clean_step :: "bool \<Rightarrow> string \<Rightarrow> string list \<Rightarrow> string list" where
  "clean_step rooted p acc =
     (if p = '''' \<or> p = ''.'' then acc
      else if p = ''..'' then (case acc of
          [] \<Rightarrow> if rooted then [] else [''..'']
        | q # qs \<Rightarrow> if q = ''..'' then ''..'' # acc else qs)
      else p # acc)"

definition path_Clean :: "string \<Rightarrow> string" where
  "path_Clean p = (let rooted = (take 1 p = ''/''); parts = rev (fold (clean_step rooted) (split_on CHR ''/'' p) []) in
     if rooted then ''/'' @ join_with ''/'' parts else if parts = [] then ''.'' else join_with ''/'' parts)"

definition path_Join :: "string list \<Rightarrow> string" where
  "path_Join ps = (let qs = filter (\<lambda>p. p \<noteq> '''') ps in if qs = [] then '''' else path_Clean (join_with ''/'' qs))"

text \<open>\<open>filepath.Ext\<close>: from the last dot of the last element.\<close>

definition filepath_Ext :: "string \<Rightarrow> string" where
  "filepath_Ext p = (let r = rev p; t = takeWhile (\<lambda>c. c \<noteq> CHR ''/'' \<and> c \<noteq> CHR ''.'') r in
     case drop (length t) r of
       c # _ \<Rightarrow> if c = CHR ''.'' then CHR ''.'' # rev t else ''''
     | [] \<Rightarrow> '''')"

text \<open>
  \<open>strings.ToLower\<close> on the bytes of ASCII letters. A letter of another script never becomes one of the
  letters of the extensions that are allowed.
\<close>

definition lower_char :: "char \<Rightarrow> char" where
  "lower_char c = (let n = of_char c :: nat in if 65 \<le> n \<and> n \<le> 90 then char_of (n + 32) else c)"

definition ToLower :: "string \<Rightarrow> string" where
  "ToLower s = map lower_char s"

section \<open>util.go\<close>

text \<open>
  \<open>BuildAbsoluteURL\<close>, which nothing calls any more: the scheme of the connection or the first one a proxy
  names, the host of the request, and the path.
\<close>

definition BuildAbsoluteURL :: "bool \<Rightarrow> string \<Rightarrow> string \<Rightarrow> string \<Rightarrow> string" where
  "BuildAbsoluteURL tls xfp host urlPath = (let scheme = (if tls then ''https'' else ''http'');
     scheme = (if xfp \<noteq> '''' then TrimSpace (hd (split_on CHR '','' xfp)) else scheme)
     in scheme @ ''://'' @ host @ urlPath)"

section \<open>Joining plain elements\<close>

definition plain_element :: "string \<Rightarrow> bool" where
  "plain_element p \<longleftrightarrow> CHR ''/'' \<notin> set p \<and> p \<noteq> '''' \<and> p \<noteq> ''.'' \<and> p \<noteq> ''..''"

lemma split_on_plain: "d \<notin> set p \<Longrightarrow> split_on d p = [p]"
  by (induction p) auto

lemma split_on_append: "d \<notin> set p \<Longrightarrow> split_on d (p @ d # s) = p # split_on d s"
proof (induction p)
  case (Cons c p)
  then have "c \<noteq> d" by auto
  with Cons show ?case by simp
qed simp

lemma split_join: "ps \<noteq> [] \<Longrightarrow> \<forall>p \<in> set ps. plain_element p \<Longrightarrow> split_on CHR ''/'' (join_with ''/'' ps) = ps"
proof (induction ps rule: induct_list012)
  case (2 p)
  then show ?case by (simp add: split_on_plain plain_element_def)
next
  case (3 p q ps)
  then show ?case by (simp add: split_on_append plain_element_def)
qed simp

lemma fold_clean_plain: "\<forall>p \<in> set ps. plain_element p \<Longrightarrow> fold (clean_step b) ps acc = rev ps @ acc"
  by (induction ps arbitrary: acc) (auto simp: clean_step_def plain_element_def)

lemma path_Clean_join:
  assumes "ps \<noteq> []" "\<forall>p \<in> set ps. plain_element p"
  shows "path_Clean (join_with ''/'' ps) = join_with ''/'' ps"
proof -
  from assms(1) obtain p qs where ps: "ps = p # qs" by (cases ps) auto
  then have p: "p \<noteq> []" "CHR ''/'' \<notin> set p" using assms(2) by (auto simp: plain_element_def)
  have "take 1 (join_with ''/'' ps) = take 1 p" using p(1) by (cases qs; cases p) (auto simp: ps)
  then have "take 1 (join_with ''/'' ps) \<noteq> ''/''" using p by (cases p) auto
  then show ?thesis using assms by (simp add: path_Clean_def split_join fold_clean_plain)
qed

lemma path_Join_plain:
  assumes "ps \<noteq> []" "\<forall>p \<in> set ps. plain_element p"
  shows "path_Join ps = join_with ''/'' ps"
proof -
  have "filter (\<lambda>p. p \<noteq> '''') ps = ps" using assms(2) by (auto simp: filter_id_conv plain_element_def)
  then show ?thesis using assms path_Clean_join by (simp add: path_Join_def)
qed

section \<open>The disk and the object storage\<close>

text \<open>A file of a multipart form: \<open>multipart.FileHeader\<close> with its content.\<close>

record upload_file =
  uf_Filename :: string
  uf_Size :: int
  uf_Data :: string

record 'x storage =
  st_MkdirAll :: "string \<Rightarrow> ('x, unit res) io"
  st_Save :: "upload_file \<Rightarrow> string \<Rightarrow> ('x, unit res) io"
  st_Remove :: "string \<Rightarrow> ('x, unit res) io"
  st_Upload :: "string \<Rightarrow> string \<Rightarrow> ('x, unit res) io"
  st_Delete :: "string \<Rightarrow> ('x, unit res) io"
  st_disk :: "'x world \<Rightarrow> string \<rightharpoonup> string"
  st_bucket :: "'x world \<Rightarrow> string \<rightharpoonup> string"

text \<open>
  What is relied on: saving writes one file and may leave it damaged when it fails; an upload stores
  the file under its key, or fails with or without doing so; nothing here touches the tables, and the
  clock and the random numbers touch no file.
\<close>

definition same_files :: "'x storage \<Rightarrow> 'x world \<Rightarrow> 'x world \<Rightarrow> bool" where
  "same_files S w w' \<longleftrightarrow> tabs w' = tabs w \<and> st_disk S w' = st_disk S w \<and> st_bucket S w' = st_bucket S w"

definition storage_ok :: "'x host \<Rightarrow> 'x storage \<Rightarrow> bool" where
  "storage_ok H S \<longleftrightarrow>
     (\<forall>w. wp (time_Now H) (\<lambda>_ w'. same_files S w w') w) \<and>
     (\<forall>n w. wp (rand_Read H n) (\<lambda>r w'. same_files S w w' \<and> (\<forall>bs. r = Inr bs \<longrightarrow> length bs = n)) w) \<and>
     (\<forall>d w. wp (st_MkdirAll S d) (\<lambda>_ w'. same_files S w w') w) \<and>
     (\<forall>f p w. wp (st_Save S f p) (\<lambda>r w'. tabs w' = tabs w \<and> st_bucket S w' = st_bucket S w \<and>
        (\<exists>v. st_disk S w' = (st_disk S w)(p := v) \<and> (r = Inr () \<longrightarrow> v = Some (uf_Data f)))) w) \<and>
     (\<forall>p w. wp (st_Remove S p) (\<lambda>r w'. tabs w' = tabs w \<and> st_bucket S w' = st_bucket S w \<and>
        st_disk S w' = (if r = Inr () then (st_disk S w)(p := None) else st_disk S w)) w) \<and>
     (\<forall>k p w. wp (st_Upload S k p) (\<lambda>r w'. tabs w' = tabs w \<and> st_disk S w' = st_disk S w \<and>
        ((\<exists>e. r = Inl e) \<and> st_bucket S w' = st_bucket S w \<or>
         (\<exists>d. st_disk S w p = Some d \<and> st_bucket S w' = (st_bucket S w)(k \<mapsto> d)))) w)"

section \<open>cos.go\<close>

record cos_config =
  cos_Bucket :: string
  cos_Region :: string
  cos_SecretID :: string
  cos_SecretKey :: string
  cos_PublicBaseURL :: string
  cos_TimeoutSeconds :: int

text \<open>A \<open>*Client\<close>: whether its client is set, the text of its bucket URL, the public URL; and its timeout.\<close>

record cos_client =
  cc_client :: bool
  cc_bucketURL :: "string option"
  cc_publicBaseURL :: string
  cc_Timeout :: int

definition TrimRight_slash :: "string \<Rightarrow> string" where
  "TrimRight_slash s = rev (dropWhile (\<lambda>c. c = CHR ''/'') (rev s))"

definition TrimLeft_slash :: "string \<Rightarrow> string" where
  "TrimLeft_slash s = dropWhile (\<lambda>c. c = CHR ''/'') s"

definition normalizeKey :: "string \<Rightarrow> string" where
  "normalizeKey key = TrimLeft_slash (TrimSpace key)"

text \<open>\<open>url_Parse\<close>: \<open>url.Parse\<close> and then the text of the URL.\<close>

definition NewCosClient :: "(string \<Rightarrow> string res) \<Rightarrow> cos_config option \<Rightarrow> cos_client res" where
  "NewCosClient url_Parse cfg = (case cfg of
     None \<Rightarrow> Inl (ErrNew ''cos config is nil'')
   | Some c \<Rightarrow>
       if cos_Bucket c = '''' \<or> cos_Region c = '''' then Inl (ErrNew ''cos bucket and region are required'')
       else if cos_SecretID c = '''' \<or> cos_SecretKey c = '''' then Inl (ErrNew ''cos secret id and secret key are required'')
       else (case url_Parse (''https://'' @ cos_Bucket c @ ''.cos.'' @ cos_Region c @ ''.myqcloud.com'') of
          Inl err \<Rightarrow> Inl err
        | Inr bucketURL \<Rightarrow> Inr \<lparr>cc_client = True, cc_bucketURL = Some bucketURL,
            cc_publicBaseURL = TrimRight_slash (TrimSpace (cos_PublicBaseURL c)),
            cc_Timeout = (if cos_TimeoutSeconds c > 0 then cos_TimeoutSeconds c else 300) * 10 ^ 9\<rparr>))"

definition ObjectURL :: "cos_client option \<Rightarrow> string \<Rightarrow> string res" where
  "ObjectURL c key0 = (let key = normalizeKey key0 in
     if key = '''' then Inl (ErrNew ''cos object key is required'')
     else (case (case c of None \<Rightarrow> None | Some k \<Rightarrow> cc_bucketURL k) of
        None \<Rightarrow> Inl (ErrNew ''cos client is not initialized'')
      | Some bucketURL \<Rightarrow> Inr ((case c of Some k \<Rightarrow> if cc_publicBaseURL k \<noteq> '''' then cc_publicBaseURL k else TrimRight_slash bucketURL
           | None \<Rightarrow> '''') @ ''/'' @ key)))"

definition UploadFile :: "'x storage \<Rightarrow> cos_client option \<Rightarrow> string \<Rightarrow> string \<Rightarrow> ('x, string res) io" where
  "UploadFile S c key0 filePath = (let key = normalizeKey key0 in
     if \<not> (case c of None \<Rightarrow> False | Some k \<Rightarrow> cc_client k) then throw (ErrNew ''cos client is not initialized'')
     else if key = '''' then throw (ErrNew ''cos object key is required'')
     else if TrimSpace filePath = '''' then throw (ErrNew ''cos upload file path is required'')
     else bindE (st_Upload S key filePath) (\<lambda>_. ret (ObjectURL c key)))"

definition DeleteObject :: "'x storage \<Rightarrow> cos_client option \<Rightarrow> string \<Rightarrow> ('x, unit res) io" where
  "DeleteObject S c key0 = (let key = normalizeKey key0 in
     if \<not> (case c of None \<Rightarrow> False | Some k \<Rightarrow> cc_client k) then throw (ErrNew ''cos client is not initialized'')
     else if key = '''' then throw (ErrNew ''cos object key is required'')
     else st_Delete S key)"

text \<open>The base of an object's URL.\<close>

definition base_URL :: "cos_client \<Rightarrow> string \<Rightarrow> string" where
  "base_URL k bucketURL = (if cc_publicBaseURL k \<noteq> '''' then cc_publicBaseURL k else TrimRight_slash bucketURL)"

text \<open>A key that has nothing to normalize: it starts and ends with visible characters, and not with a slash.\<close>

lemma normalizeKey_plain:
  assumes "s \<noteq> ''''" "visible (hd s)" "visible (last s)" "hd s \<noteq> CHR ''/''"
  shows "normalizeKey s = s"
  using assms by (cases s) (simp_all add: normalizeKey_def TrimLeft_slash_def TrimSpace_visible)

text \<open>Normalizing twice is not normalizing once: an object may be stored under another key than its URL names.\<close>

lemma normalizeKey_not_idempotent: "normalizeKey ''/ a'' = '' a''" "normalizeKey '' a'' = ''a''"
proof -
  have "TrimSpace ''/ a'' = ''/ a''" by (simp add: TrimSpace_visible visible_def)
  then show "normalizeKey ''/ a'' = '' a''" by (simp add: normalizeKey_def TrimLeft_slash_def)
  have "TrimSpace '' a'' = ''a''" by code_simp
  then show "normalizeKey '' a'' = ''a''" by (simp add: normalizeKey_def TrimLeft_slash_def)
qed

end
