(* ===== verification/Upload.thy ===== *)
theory Upload
  imports Files VideoDetail Account
begin

text \<open>
  The handlers of \<open>internal/api/video/handler.go\<close> and \<open>UploadAvatar\<close> of \<open>internal/api/account/handler.go\<close>.
  An upload checks the size and the extension, saves the file on disk under a random name, hands it to
  the object storage and removes it from the disk again.
\<close>

section \<open>The handlers\<close>

text \<open>\<open>time.Now().Format("20060102")\<close>, with the server in UTC.\<close>

definition format_date :: "time \<Rightarrow> string" where
  "format_date t = (let (y, m, d) = civil (t div 10 ^ 9 div 86400) in padded 4 y @ padded 2 m @ padded 2 d)"

definition removeTempFile :: "'x storage \<Rightarrow> string \<Rightarrow> ('x, unit) io" where
  "removeTempFile S filepath = do {_ \<leftarrow> st_Remove S filepath; ret ()}"

text \<open>
  What the three handlers do with an accepted file: \<open>dir\<close> is the directory on disk, \<open>keys\<close> the
  elements of the key before the name, \<open>rand_text\<close> what is answered when there is no random name,
  \<open>after\<close> what is done with the URL before the deferred removal of the temporary file.
\<close>

definition store_upload :: "'x host \<Rightarrow> 'x storage \<Rightarrow> cos_client option \<Rightarrow> (go_error \<Rightarrow> string) \<Rightarrow> string list \<Rightarrow> string list \<Rightarrow> string
    \<Rightarrow> upload_file \<Rightarrow> (string \<Rightarrow> ('x, 'a reply) io) \<Rightarrow> ('x, 'a reply) io" where
  "store_upload H S cos rand_text dirs keys ext file after = (let dir = path_Join dirs in do {
     r \<leftarrow> st_MkdirAll S dir;
     (case r of
        Inl err \<Rightarrow> ret (Fail 500 (error_text err))
      | Inr _ \<Rightarrow> do {
          name \<leftarrow> RandHex H 16;
          (case name of
             Inl err \<Rightarrow> ret (Fail 500 (rand_text err))
           | Inr hex \<Rightarrow> (let filename = hex @ ext; absPath = path_Join [dir, filename] in do {
               saved \<leftarrow> st_Save S file absPath;
               (case saved of
                  Inl err \<Rightarrow> ret (Fail 500 (error_text err))
                | Inr _ \<Rightarrow> do {
                    url \<leftarrow> UploadFile S cos (path_Join (keys @ [filename])) absPath;
                    reply \<leftarrow> (case url of Inl err \<Rightarrow> ret (Fail 500 (error_text err)) | Inr u \<Rightarrow> after u);
                    _ \<leftarrow> removeTempFile S absPath;
                    ret reply})}))})})"

definition UploadVideo :: "'x host \<Rightarrow> 'x storage \<Rightarrow> cos_client option \<Rightarrow> upload_file res \<Rightarrow> gin_ctx \<Rightarrow> ('x, string reply) io" where
  "UploadVideo H S cos form c = (case GetAccountID c of
     Inl err \<Rightarrow> ret (Fail 401 (error_text err))
   | Inr authorID \<Rightarrow>
       if cos = None then ret (Fail 500 ''cos client is not initialized'')
       else (case form of
          Inl _ \<Rightarrow> ret (Fail 400 ''missing file'')
        | Inr file \<Rightarrow>
            if uf_Size file \<le> 0 \<or> uf_Size file > 200 * 2 ^ 20 then ret (Fail 400 ''invalid file size'')
            else (let ext = ToLower (filepath_Ext (uf_Filename file)) in
              if ext \<noteq> ''.mp4'' then ret (Fail 400 ''only .mp4 is allowed'')
              else do {
                now \<leftarrow> time_Now H;
                (let date = format_date now in
                   store_upload H S cos (\<lambda>_. ''failed to generate filename'')
                     [''.run'', ''uploads'', ''videos'', FormatUint authorID, date] [''videos'', FormatUint authorID, date] ext file
                     (\<lambda>url. ret (Sent url)))})))"

definition image_extensions :: "string list" where
  "image_extensions = [''.jpg'', ''.jpeg'', ''.png'', ''.webp'']"

definition UploadCover :: "'x host \<Rightarrow> 'x storage \<Rightarrow> cos_client option \<Rightarrow> upload_file res \<Rightarrow> gin_ctx \<Rightarrow> ('x, string reply) io" where
  "UploadCover H S cos form c = (case GetAccountID c of
     Inl err \<Rightarrow> ret (Fail 401 (error_text err))
   | Inr authorID \<Rightarrow>
       if cos = None then ret (Fail 500 ''cos client is not initialized'')
       else (case form of
          Inl _ \<Rightarrow> ret (Fail 400 ''missing file'')
        | Inr file \<Rightarrow>
            if uf_Size file \<le> 0 \<or> uf_Size file > 10 * 2 ^ 20 then ret (Fail 400 ''invalid file size'')
            else (let ext = ToLower (filepath_Ext (uf_Filename file)) in
              if ext \<notin> set image_extensions then ret (Fail 400 ''only .jpg/.jpeg/.png/.webp allowed'')
              else do {
                now \<leftarrow> time_Now H;
                (let date = format_date now in
                   store_upload H S cos (\<lambda>_. ''failed to generate filename'')
                     [''.run'', ''uploads'', ''covers'', FormatUint authorID, date] [''covers'', FormatUint authorID, date] ext file
                     (\<lambda>url. ret (Sent url)))})))"

definition UploadAvatar :: "'x host \<Rightarrow> 'x storage \<Rightarrow> cos_client option \<Rightarrow> 'x account_service \<Rightarrow> upload_file res \<Rightarrow> gin_ctx \<Rightarrow> ('x, string reply) io" where
  "UploadAvatar H S cos s form c = (case getAccountID c of
     Inl err \<Rightarrow> ret (Fail 401 (error_text err))
   | Inr accountID \<Rightarrow>
       if cos = None then ret (Fail 500 ''cos client is not initialized'')
       else (case form of
          Inl _ \<Rightarrow> ret (Fail 400 ''missing file'')
        | Inr file \<Rightarrow>
            if uf_Size file \<le> 0 \<or> uf_Size file > 10 * 2 ^ 20 then ret (Fail 400 ''invalid file size'')
            else (let ext = ToLower (filepath_Ext (uf_Filename file)) in
              if ext \<notin> set image_extensions then ret (Fail 400 ''only .jpg/.jpeg/.png/.webp allowed'')
              else store_upload H S cos error_text
                     [''.run'', ''uploads'', ''avatars'', FormatUint accountID] [''avatars'', FormatUint accountID] ext file
                     (\<lambda>url. do {
                        r \<leftarrow> AccountService_UpdateAvatar s accountID url;
                        ret (case r of Inl err \<Rightarrow> Fail 500 (error_text err) | Inr _ \<Rightarrow> Sent url)}))))"

text \<open>
  The other handlers of the videos. \<open>PublishVideo\<close> answers with the struct that \<open>Publish\<close> filled; only that
  it answers with success is modelled.
\<close>

definition PublishVideo :: "'x host \<Rightarrow> (string \<Rightarrow> bool) \<Rightarrow> 'x video_service \<Rightarrow> (string \<times> string \<times> string \<times> string) res \<Rightarrow> gin_ctx
    \<Rightarrow> ('x, unit reply) io" where
  "PublishVideo H cls s bound c = (case bound of
     Inl err \<Rightarrow> ret (classified err)
   | Inr (title, description, playURL, coverURL) \<Rightarrow> (case GetAccountID c of
       Inl err \<Rightarrow> ret (classified err)
     | Inr authorID \<Rightarrow> (case GetUsername c of
         Inl err \<Rightarrow> ret (classified err)
       | Inr username \<Rightarrow> do {
           now \<leftarrow> time_Now H;
           r \<leftarrow> VideoService_Publish cls s (Some \<lparr>v_ID = 0, v_AuthorID = authorID, v_Username = username, v_Title = title,
                  v_Description = description, v_PlayURL = playURL, v_CoverURL = coverURL, v_CreateTime = now, v_LikesCount = 0, v_Popularity = 0\<rparr>);
           ret (case r of Inl err \<Rightarrow> classified err | Inr _ \<Rightarrow> Sent ())})))"

definition VideoHandler_ListByAuthorID :: "'x video_service \<Rightarrow> uint res \<Rightarrow> ('x, video list reply) io" where
  "VideoHandler_ListByAuthorID s bound = (case bound of
     Inl err \<Rightarrow> ret (classified err)
   | Inr authorID \<Rightarrow> do {
       r \<leftarrow> VideoService_ListByAuthorID s authorID;
       ret (case r of Inl err \<Rightarrow> classified err | Inr videos \<Rightarrow> Sent videos)})"

definition VideoHandler_GetDetail :: "'x host \<Rightarrow> 'x flight \<Rightarrow> 'x video_service \<Rightarrow> uint res \<Rightarrow> ('x, video reply) io" where
  "VideoHandler_GetDetail H F s bound = (case bound of
     Inl err \<Rightarrow> ret (classified err)
   | Inr i \<Rightarrow> do {
       r \<leftarrow> GetDetail H F s i;
       ret (case r of Inl err \<Rightarrow> classified err | Inr video \<Rightarrow> Sent video)})"

section \<open>Names of files and keys\<close>

text \<open>A word: visible characters without dots and slashes.\<close>

definition word_char :: "char \<Rightarrow> bool" where
  "word_char c \<longleftrightarrow> 47 < (of_char c :: nat) \<and> (of_char c :: nat) < 128"

definition path_word :: "string \<Rightarrow> bool" where
  "path_word s \<longleftrightarrow> s \<noteq> '''' \<and> (\<forall>c \<in> set s. word_char c)"

lemma word_charD: "word_char c \<Longrightarrow> visible c \<and> c \<noteq> CHR ''/'' \<and> c \<noteq> CHR ''.''"
  by (auto simp: word_char_def visible_def)

lemma word_char_code: "(47 :: nat) < n \<Longrightarrow> n < 128 \<Longrightarrow> word_char (char_of n)"
  by (simp add: word_char_def)

lemma path_word_FormatUint: "path_word (FormatUint n)"
proof (induction n rule: FormatUint.induct)
  case (1 n)
  have "word_char (char_of (48 + k))" if "k < 10" for k :: nat by (rule word_char_code) (use that in simp_all)
  with 1 show ?case by (subst FormatUint.simps) (auto simp: path_word_def)
qed

lemma path_word_append: "path_word s \<Longrightarrow> \<forall>c \<in> set p. word_char c \<Longrightarrow> path_word (p @ s)"
  by (auto simp: path_word_def)

lemma path_word_padded: "path_word (padded n x)"
proof -
  have "word_char CHR ''0''" by (simp add: word_char_def)
  then show ?thesis unfolding padded_def Let_def by (intro path_word_append path_word_FormatUint) simp
qed

lemma path_word_date: "path_word (format_date t)"
  using path_word_padded by (auto simp: format_date_def path_word_def split: prod.split)

lemma word_char_hex_digit: "n < 16 \<Longrightarrow> word_char (hex_digit n)"
  unfolding hex_digit_def by (auto intro!: word_char_code)

lemma path_word_hex: "length bs = 16 \<Longrightarrow> path_word (hex_EncodeToString bs) \<and> length (hex_EncodeToString bs) = 32"
proof -
  assume l: "length bs = 16"
  have b: "unat (b :: 8 word) div 16 < 16" "unat b mod 16 < 16" for b
    using unsigned_less [of b, where 'a = nat] by (simp_all add: less_mult_imp_div_less)
  have "length (hex_EncodeToString bs) = 2 * length bs" for bs
    by (induction bs) (simp_all add: hex_EncodeToString_def)
  moreover have "\<forall>c \<in> set (hex_EncodeToString bs). word_char c"
    using b by (auto simp: hex_EncodeToString_def intro!: word_char_hex_digit)
  ultimately show ?thesis using l by (metis path_word_def list.size(3) mult_eq_0_iff num.distinct(1) numeral_times_numeral semiring_norm(12,13) zero_neq_numeral)
qed

lemma path_word_element: "path_word s \<Longrightarrow> plain_element s"
  using word_charD by (fastforce simp: path_word_def plain_element_def)

text \<open>The extensions that are allowed.\<close>

definition extension :: "string \<Rightarrow> bool" where
  "extension e \<longleftrightarrow> e \<noteq> [] \<and> hd e = CHR ''.'' \<and> path_word (tl e)"

lemma extensions: "extension ''.mp4''" "e \<in> set image_extensions \<Longrightarrow> extension e"
  by (auto simp: extension_def path_word_def word_char_def image_extensions_def)

lemma file_element:
  assumes "path_word s" "extension e"
  shows "plain_element (s @ e)"
proof -
  obtain c cs where s: "s = c # cs" "word_char c" using assms(1) by (cases s) (auto simp: path_word_def)
  obtain t where e: "e = CHR ''.'' # t" using assms(2) by (cases e) (auto simp: extension_def)
  have "CHR ''/'' \<notin> set s" "CHR ''/'' \<notin> set e"
    using assms word_charD e by (auto simp: path_word_def extension_def)
  moreover have "c \<noteq> CHR ''.''" using s(2) word_charD by blast
  ultimately show ?thesis by (simp add: plain_element_def s(1))
qed

lemma join_snoc: "ps \<noteq> [] \<Longrightarrow> join_with d (ps @ [f]) = join_with d ps @ d @ f"
  by (induction d ps rule: join_with.induct) auto

lemma path_Join_file:
  assumes "ps \<noteq> []" "\<forall>p \<in> set ps. plain_element p" "plain_element f"
  shows "path_Join [path_Join ps, f] = join_with ''/'' ps @ ''/'' @ f"
proof -
  have "join_with ''/'' ps \<noteq> ''''" using assms(1,2) by (cases ps rule: remdups_adj.cases) (auto simp: plain_element_def)
  then have "path_Join [path_Join ps, f] = path_Clean (join_with ''/'' (ps @ [f]))"
    using assms by (simp add: path_Join_plain join_snoc) (simp add: path_Join_def plain_element_def)
  also have "\<dots> = join_with ''/'' (ps @ [f])" by (rule path_Clean_join) (use assms in auto)
  finally show ?thesis by (simp add: join_snoc assms(1))
qed

section \<open>What an upload leaves\<close>

text \<open>
  The account's files: one object whose key begins with \<open>pre\<close> and ends with \<open>ext\<close>, and at most one
  temporary file under \<open>tmp\<close>. A URL that is answered names the object, which holds the file.
\<close>

definition upload_post :: "'x storage \<Rightarrow> cos_client option \<Rightarrow> string \<Rightarrow> string \<Rightarrow> string \<Rightarrow> upload_file \<Rightarrow> 'x world \<Rightarrow> string reply \<Rightarrow> 'x world \<Rightarrow> bool" where
  "upload_post S cos tmp pre ext f w r w' \<longleftrightarrow> (\<exists>hex. length hex = 32 \<and>
     (\<forall>p. p \<noteq> tmp @ hex @ ext \<longrightarrow> st_disk S w' p = st_disk S w p) \<and>
     st_bucket S w' \<in> {st_bucket S w, (st_bucket S w)(pre @ hex @ ext \<mapsto> uf_Data f)} \<and>
     (\<forall>url. r = Sent url \<longrightarrow> st_bucket S w' = (st_bucket S w)(pre @ hex @ ext \<mapsto> uf_Data f) \<and>
        (\<exists>k b. cos = Some k \<and> cc_bucketURL k = Some b \<and> url = base_URL k b @ ''/'' @ pre @ hex @ ext)))"

lemma upload_post_fail: "same_files S w w' \<Longrightarrow> upload_post S cos tmp pre ext f w (Fail n s) w'"
  unfolding upload_post_def by (rule exI [of _ "replicate 32 CHR ''0''"]) (simp add: same_files_def)

lemma upload_post_same: "same_files S w w1 \<Longrightarrow> upload_post S cos tmp pre ext f w1 r w' \<Longrightarrow> upload_post S cos tmp pre ext f w r w'"
  by (simp add: upload_post_def same_files_def)

lemma wp_files_Now: "storage_ok H S \<Longrightarrow> (\<And>t w'. same_files S w w' \<Longrightarrow> Q t w') \<Longrightarrow> wp (time_Now H) Q w"
  by (rule wp_mono [where P = "\<lambda>_ w'. same_files S w w'"]) (simp_all add: storage_ok_def)

lemma wp_MkdirAll: "storage_ok H S \<Longrightarrow> (\<And>r w'. same_files S w w' \<Longrightarrow> Q r w') \<Longrightarrow> wp (st_MkdirAll S d) Q w"
  by (rule wp_mono [where P = "\<lambda>_ w'. same_files S w w'"]) (simp_all add: storage_ok_def)

lemma wp_files_RandHex:
  assumes "storage_ok H S" "\<And>e w'. same_files S w w' \<Longrightarrow> Q (Inl e) w'"
    and "\<And>s w'. same_files S w w' \<Longrightarrow> path_word s \<Longrightarrow> length s = 32 \<Longrightarrow> Q (Inr s) w'"
  shows "wp (RandHex H 16) Q w"
proof -
  have "wp (rand_Read H 16) (\<lambda>r w'. same_files S w w' \<and> (\<forall>bs. r = Inr bs \<longrightarrow> length bs = 16)) w"
    using assms(1) by (simp add: storage_ok_def)
  then show ?thesis unfolding RandHex_def wp_bindE wp_return
    by (rule wp_mono) (auto split: sum.split intro!: assms(2,3) dest: path_word_hex)
qed

lemma wp_Save:
  assumes "storage_ok H S"
    and "\<And>e w' v. tabs w' = tabs w \<Longrightarrow> st_bucket S w' = st_bucket S w \<Longrightarrow> st_disk S w' = (st_disk S w)(p := v) \<Longrightarrow> Q (Inl e) w'"
    and "\<And>w'. tabs w' = tabs w \<Longrightarrow> st_bucket S w' = st_bucket S w \<Longrightarrow> st_disk S w' = (st_disk S w)(p \<mapsto> uf_Data f) \<Longrightarrow> Q (Inr ()) w'"
  shows "wp (st_Save S f p) Q w"
proof -
  have "wp (st_Save S f p) (\<lambda>r w'. tabs w' = tabs w \<and> st_bucket S w' = st_bucket S w \<and>
        (\<exists>v. st_disk S w' = (st_disk S w)(p := v) \<and> (r = Inr () \<longrightarrow> v = Some (uf_Data f)))) w"
    using assms(1) by (simp add: storage_ok_def)
  then show ?thesis
  proof (rule wp_mono, goal_cases)
    case (1 r w')
    then show ?case using assms(2,3) by (cases r) auto
  qed
qed

lemma wp_remove:
  assumes "storage_ok H S"
    and "\<And>w' v. tabs w' = tabs w \<Longrightarrow> st_bucket S w' = st_bucket S w \<Longrightarrow> st_disk S w' = (st_disk S w)(p := v) \<Longrightarrow> Q () w'"
  shows "wp (removeTempFile S p) Q w"
proof -
  have "wp (st_Remove S p) (\<lambda>r w'. tabs w' = tabs w \<and> st_bucket S w' = st_bucket S w \<and>
        st_disk S w' = (if r = Inr () then (st_disk S w)(p := None) else st_disk S w)) w"
    using assms(1) by (simp add: storage_ok_def)
  then show ?thesis unfolding removeTempFile_def wp_bind wp_return
  proof (rule wp_mono, goal_cases)
    case (1 r w')
    then show ?case using assms(2) [of w' "if r = Inr () then None else st_disk S w p"] by (auto simp: fun_upd_idem)
  qed
qed

lemma wp_UploadFile:
  assumes "storage_ok H S" "key \<noteq> ''''" "normalizeKey key = key" "st_disk S w p = Some d"
    and "\<And>e w'. tabs w' = tabs w \<Longrightarrow> st_disk S w' = st_disk S w \<Longrightarrow>
      st_bucket S w' \<in> {st_bucket S w, (st_bucket S w)(key \<mapsto> d)} \<Longrightarrow> Q (Inl e) w'"
    and "\<And>k b w'. tabs w' = tabs w \<Longrightarrow> st_disk S w' = st_disk S w \<Longrightarrow> st_bucket S w' = (st_bucket S w)(key \<mapsto> d) \<Longrightarrow>
      cos = Some k \<Longrightarrow> cc_bucketURL k = Some b \<Longrightarrow> Q (Inr (base_URL k b @ ''/'' @ key)) w'"
  shows "wp (UploadFile S cos key p) Q w"
proof -
  have url: "ObjectURL cos key = (case (case cos of None \<Rightarrow> None | Some k \<Rightarrow> map_option (\<lambda>b. base_URL k b) (cc_bucketURL k)) of
      None \<Rightarrow> Inl (ErrNew ''cos client is not initialized'') | Some b \<Rightarrow> Inr (b @ ''/'' @ key))"
    using assms(2,3) by (simp add: ObjectURL_def Let_def base_URL_def split: option.splits)
  have answer: "Q (ObjectURL cos key) w'" if "tabs w' = tabs w" "st_disk S w' = st_disk S w" "st_bucket S w' = (st_bucket S w)(key \<mapsto> d)" for w'
    unfolding url using assms(5,6) that by (auto split: option.split)
  have "wp (st_Upload S key p) (\<lambda>r w'. tabs w' = tabs w \<and> st_disk S w' = st_disk S w \<and>
        ((\<exists>e. r = Inl e) \<and> st_bucket S w' = st_bucket S w \<or>
         (\<exists>d. st_disk S w p = Some d \<and> st_bucket S w' = (st_bucket S w)(key \<mapsto> d)))) w"
    using assms(1) by (simp add: storage_ok_def)
  then have "wp (st_Upload S key p) (\<lambda>r w'. case r of Inl e \<Rightarrow> Q (Inl e) w' | Inr _ \<Rightarrow> Q (ObjectURL cos key) w') w"
  proof (rule wp_mono, goal_cases)
    case (1 r w')
    then show ?case using assms(4) by (cases r) (auto intro: answer assms(5))
  qed
  moreover have "Q (Inl e) w" for e by (rule assms(5)) simp_all
  ultimately show ?thesis using assms(2,3) unfolding UploadFile_def Let_def assms(3) wp_if wp_bindE wp_return by simp
qed

text \<open>What is done with the URL touches no file, answers with the URL if at all, and relates the tables.\<close>

definition after_ok :: "'x storage \<Rightarrow> (string reply \<Rightarrow> tables \<Rightarrow> tables \<Rightarrow> bool) \<Rightarrow> (string \<Rightarrow> ('x, string reply) io) \<Rightarrow> bool" where
  "after_ok S R after \<longleftrightarrow> (\<forall>n s t. R (Fail n s) t t) \<and>
     (\<forall>u w. wp (after u) (\<lambda>r w'. st_disk S w' = st_disk S w \<and> st_bucket S w' = st_bucket S w \<and>
        (\<forall>v. r = Sent v \<longrightarrow> v = u) \<and> R r (tabs w) (tabs w')) w)"

lemma key_normal:
  assumes "path_word p" "ps \<noteq> []" "hd ps = p" "path_word hex" "extension ext"
  shows "normalizeKey (join_with ''/'' ps @ ''/'' @ hex @ ext) = join_with ''/'' ps @ ''/'' @ hex @ ext"
proof -
  let ?s = "join_with ''/'' ps @ ''/'' @ hex @ ext"
  obtain c cs where p: "p = c # cs" "word_char c" using assms(1) by (cases p) (auto simp: path_word_def)
  have "hd (join_with ''/'' ps) = c \<and> join_with ''/'' ps \<noteq> ''''"
    using assms(2,3) p(1) by (cases ps rule: remdups_adj.cases) auto
  then have h: "hd ?s = c" by simp
  have e: "ext \<noteq> ''''" "tl ext \<noteq> ''''" "\<forall>c \<in> set (tl ext). word_char c" using assms(5) by (auto simp: extension_def path_word_def)
  then have "last ?s = last (tl ext)" by (cases ext) auto
  then have "word_char (last ?s)" using e by simp
  then show ?thesis using p(2) word_charD h by (intro normalizeKey_plain) auto
qed

lemma wp_store_upload:
  assumes S: "storage_ok H S" and after: "after_ok S R after" and ext: "extension ext"
    and dirs: "dirs \<noteq> []" "\<forall>p \<in> set dirs. plain_element p"
    and keys: "keys \<noteq> []" "\<forall>p \<in> set keys. path_word p"
  shows "wp (store_upload H S cos rand_text dirs keys ext file after) (\<lambda>r w'. R r (tabs w) (tabs w') \<and>
    upload_post S cos (join_with ''/'' dirs @ ''/'') (join_with ''/'' keys @ ''/'') ext file w r w') w"
proof -
  let ?P = "\<lambda>r w'. R r (tabs w) (tabs w') \<and> upload_post S cos (join_with ''/'' dirs @ ''/'') (join_with ''/'' keys @ ''/'') ext file w r w'"
  have fail: "?P (Fail n s) w'" if "same_files S w w'" for n s w'
    using that after upload_post_fail [OF that] by (simp add: after_ok_def same_files_def)
  have main: "wp (do {saved \<leftarrow> st_Save S file (path_Join [path_Join dirs, hex @ ext]);
      (case saved of Inl err \<Rightarrow> ret (Fail 500 (error_text err))
       | Inr _ \<Rightarrow> do {
          url \<leftarrow> UploadFile S cos (path_Join (keys @ [hex @ ext])) (path_Join [path_Join dirs, hex @ ext]);
          reply \<leftarrow> (case url of Inl err \<Rightarrow> ret (Fail 500 (error_text err)) | Inr u \<Rightarrow> after u);
          _ \<leftarrow> removeTempFile S (path_Join [path_Join dirs, hex @ ext]);
          ret reply})}) ?P w1"
    if w1: "same_files S w w1" and hex: "path_word hex" "length hex = 32" for hex w1
  proof -
    let ?tmp = "join_with ''/'' dirs @ ''/'' @ hex @ ext" and ?key = "join_with ''/'' keys @ ''/'' @ hex @ ext"
    have tmp: "path_Join [path_Join dirs, hex @ ext] = ?tmp" using path_Join_file [OF dirs file_element [OF hex(1) ext]] by simp
    have "path_Join (keys @ [hex @ ext]) = join_with ''/'' (keys @ [hex @ ext])"
      by (rule path_Join_plain) (use keys(2) path_word_element file_element [OF hex(1) ext] in auto)
    then have key: "path_Join (keys @ [hex @ ext]) = ?key" using join_snoc [OF keys(1)] by simp
    have norm: "normalizeKey ?key = ?key" by (rule key_normal [OF _ keys(1) refl hex(1) ext]) (use keys in simp)
    have bucket: "st_bucket S w1 = st_bucket S w" and disk: "st_disk S w1 = st_disk S w" and tabs: "tabs w1 = tabs w"
      using w1 by (simp_all add: same_files_def)
    have post: "?P r w'" if "R r (tabs w) (tabs w')" "st_disk S w' = (st_disk S w)(?tmp := v)"
        "st_bucket S w' \<in> {st_bucket S w, (st_bucket S w)(?key \<mapsto> uf_Data file)}"
        "\<And>url. r = Sent url \<Longrightarrow> st_bucket S w' = (st_bucket S w)(?key \<mapsto> uf_Data file) \<and>
          (\<exists>k b. cos = Some k \<and> cc_bucketURL k = Some b \<and> url = base_URL k b @ ''/'' @ ?key)" for r w' v
      unfolding upload_post_def using that hex(2) by (intro conjI exI [of _ hex]) auto
    have finish: "wp (do {_ \<leftarrow> removeTempFile S ?tmp; ret r}) ?P w3"
      if "R r (tabs w) (tabs w3)" "st_disk S w3 = (st_disk S w)(?tmp := v)" "st_bucket S w3 \<in> {st_bucket S w, (st_bucket S w)(?key \<mapsto> uf_Data file)}"
        "\<And>url. r = Sent url \<Longrightarrow> st_bucket S w3 = (st_bucket S w)(?key \<mapsto> uf_Data file) \<and>
          (\<exists>k b. cos = Some k \<and> cc_bucketURL k = Some b \<and> url = base_URL k b @ ''/'' @ ?key)" for r w3 v
      unfolding wp_bind wp_return by (rule wp_remove [OF S]) (rule post, use that in auto)
    have none: "R (Fail n s) (tabs w) (tabs w)" for n s using after by (simp add: after_ok_def)
    have url: "wp (do {reply \<leftarrow> after (base_URL k b @ ''/'' @ ?key); _ \<leftarrow> removeTempFile S ?tmp; ret reply}) ?P w2"
      if "tabs w2 = tabs w" "st_disk S w2 = (st_disk S w)(?tmp := v)" "st_bucket S w2 = (st_bucket S w)(?key \<mapsto> uf_Data file)"
        "cos = Some k" "cc_bucketURL k = Some b" for k b w2 v
    proof -
      have "wp (after (base_URL k b @ ''/'' @ ?key)) (\<lambda>r w'. st_disk S w' = st_disk S w2 \<and> st_bucket S w' = st_bucket S w2 \<and>
          (\<forall>v. r = Sent v \<longrightarrow> v = base_URL k b @ ''/'' @ ?key) \<and> R r (tabs w2) (tabs w')) w2"
        using after unfolding after_ok_def by blast
      then show ?thesis unfolding wp_bind [of "after _"]
        by (rule wp_mono) (rule finish [of _ _ v], use that in auto)
    qed
    have upload: "wp (do {url \<leftarrow> UploadFile S cos ?key ?tmp;
          reply \<leftarrow> (case url of Inl err \<Rightarrow> ret (Fail 500 (error_text err)) | Inr u \<Rightarrow> after u);
          _ \<leftarrow> removeTempFile S ?tmp; ret reply}) ?P w2"
      if w2: "tabs w2 = tabs w" "st_bucket S w2 = st_bucket S w" "st_disk S w2 = (st_disk S w)(?tmp \<mapsto> uf_Data file)" for w2
      unfolding wp_bind [of "UploadFile _ _ _ _"]
    proof (rule wp_UploadFile [OF S _ norm, where d = "uf_Data file"], goal_cases)
      case 2
      show ?case by (simp add: w2)
    next
      case (3 e w3)
      then show ?case unfolding sum.case State_Monad.bind_left_identity
        by (intro finish [of _ _ "Some (uf_Data file)"]) (use w2 none in auto)
    next
      case (4 k b w3)
      then show ?case unfolding sum.case by (intro url [of _ "Some (uf_Data file)"]) (use w2 in auto)
    qed simp
    show ?thesis unfolding tmp key wp_bind [of "st_Save _ _ _"]
    proof (rule wp_Save [OF S], goal_cases)
      case (1 e w2 v)
      then show ?case unfolding sum.case wp_return by (intro post [of _ _ v]) (use bucket disk tabs none in auto)
    next
      case (2 w2)
      then show ?case unfolding sum.case by (intro upload) (use bucket disk tabs in auto)
    qed
  qed
  have rand: "wp (do {name \<leftarrow> RandHex H 16; (case name of Inl err \<Rightarrow> ret (Fail 500 (rand_text err))
      | Inr hex \<Rightarrow> do {saved \<leftarrow> st_Save S file (path_Join [path_Join dirs, hex @ ext]);
      (case saved of Inl err \<Rightarrow> ret (Fail 500 (error_text err))
       | Inr _ \<Rightarrow> do {
          url \<leftarrow> UploadFile S cos (path_Join (keys @ [hex @ ext])) (path_Join [path_Join dirs, hex @ ext]);
          reply \<leftarrow> (case url of Inl err \<Rightarrow> ret (Fail 500 (error_text err)) | Inr u \<Rightarrow> after u);
          _ \<leftarrow> removeTempFile S (path_Join [path_Join dirs, hex @ ext]);
          ret reply})})}) ?P w1" if w1: "same_files S w w1" for w1
    unfolding wp_bind [of "RandHex _ _"]
  proof (rule wp_files_RandHex [OF S], goal_cases)
    case (1 e w2)
    then have "same_files S w w2" using w1 by (simp add: same_files_def)
    then show ?case unfolding sum.case wp_return by (rule fail)
  next
    case (2 hex w2)
    then have "same_files S w w2" using w1 by (simp add: same_files_def)
    then show ?case unfolding sum.case by (rule main) (use 2 in simp_all)
  qed
  show ?thesis unfolding store_upload_def Let_def wp_bind [of "st_MkdirAll _ _"]
  proof (rule wp_MkdirAll [OF S], goal_cases)
    case (1 r w1)
    then show ?case by (cases r) (simp_all only: sum.case wp_return fail rand)
  qed
qed

lemma after_answer: "after_ok S (\<lambda>_ t t'. t' = t) (\<lambda>url. ret (Sent url))"
  by (simp add: after_ok_def wp_return)

lemma upload_dirs:
  assumes "path_word a" "path_word b" "s \<in> {''videos'', ''covers'', ''avatars''}"
  shows "\<forall>p \<in> set [''.run'', ''uploads'', s, a, b]. plain_element p" "\<forall>p \<in> set [''.run'', ''uploads'', s, a]. plain_element p"
    "\<forall>p \<in> set [s, a, b]. path_word p" "\<forall>p \<in> set [s, a]. path_word p"
  using assms path_word_element by (auto simp: plain_element_def path_word_def word_char_def)

text \<open>A request that is refused or an upload of an accepted file.\<close>

definition upload_outcome :: "'x storage \<Rightarrow> cos_client option \<Rightarrow> string \<Rightarrow> (string \<Rightarrow> bool) \<Rightarrow> int \<Rightarrow> uint res \<Rightarrow> upload_file res
    \<Rightarrow> 'x world \<Rightarrow> string reply \<Rightarrow> 'x world \<Rightarrow> bool" where
  "upload_outcome S cos dir allowed most account form w r w' \<longleftrightarrow>
     same_files S w w' \<and> (\<exists>n s. r = Fail n s \<and> n \<in> {400, 401, 500}) \<or>
     (\<exists>a f ext date. account = Inr a \<and> form = Inr f \<and> 0 < uf_Size f \<and> uf_Size f \<le> most \<and>
        ext = ToLower (filepath_Ext (uf_Filename f)) \<and> allowed ext \<and>
        upload_post S cos (''.run/uploads/'' @ dir @ ''/'' @ FormatUint a @ ''/'' @ date @ ''/'') (dir @ ''/'' @ FormatUint a @ ''/'' @ date @ ''/'') ext f w r w')"

lemma refused: "same_files S w w' \<Longrightarrow> n \<in> {400, 401, 500} \<Longrightarrow> upload_outcome S cos dir allowed most account form w (Fail n s) w'"
  by (simp add: upload_outcome_def)

lemma same_files_refl [simp]: "same_files S w w"
  by (simp add: same_files_def)

text \<open>The upload of an accepted video or cover.\<close>

lemma wp_dated_upload:
  assumes S: "storage_ok H S" and f: "0 < uf_Size f" "uf_Size f \<le> most" "ext = ToLower (filepath_Ext (uf_Filename f))" "allowed ext" "extension ext"
    and dir: "dir \<in> {''videos'', ''covers''}"
  shows "wp (do {now \<leftarrow> time_Now H; store_upload H S cos rt [''.run'', ''uploads'', dir, FormatUint a, format_date now]
      [dir, FormatUint a, format_date now] ext f (\<lambda>url. ret (Sent url))})
    (\<lambda>r w'. tabs w' = tabs w \<and> upload_outcome S cos dir allowed most (Inr a) (Inr f) w r w') w"
  unfolding wp_bind
proof (rule wp_files_Now [OF S], goal_cases)
  case (1 now w1)
  have dir': "dir \<in> {''videos'', ''covers'', ''avatars''}" using dir by auto
  note parts = upload_dirs [OF path_word_FormatUint [of a] path_word_date [of now] dir']
  show ?case
  proof (rule wp_mono [OF wp_store_upload [OF S after_answer f(5) _ parts(1) _ parts(3)]], goal_cases)
    case (3 r w')
    then have "upload_post S cos (''.run/uploads/'' @ dir @ ''/'' @ FormatUint a @ ''/'' @ format_date now @ ''/'')
        (dir @ ''/'' @ FormatUint a @ ''/'' @ format_date now @ ''/'') ext f w1 r w'" by simp
    from upload_post_same [OF 1 this] have "upload_outcome S cos dir allowed most (Inr a) (Inr f) w r w'"
      unfolding upload_outcome_def using f(1-4) by blast
    with 3 1 show ?case by (simp add: same_files_def)
  qed simp_all
qed


theorem UploadCover_stores:
  assumes "storage_ok H S" "run_state (UploadCover H S cos form c) w = (r, w')"
  shows "tabs w' = tabs w \<and> upload_outcome S cos ''covers'' (\<lambda>e. e \<in> set image_extensions) (10 * 2 ^ 20) (GetAccountID c) form w r w'"
proof -
  have "wp (UploadCover H S cos form c) (\<lambda>r w'. tabs w' = tabs w \<and>
      upload_outcome S cos ''covers'' (\<lambda>e. e \<in> set image_extensions) (10 * 2 ^ 20) (GetAccountID c) form w r w') w"
  proof (cases "GetAccountID c"; cases form)
    fix a f assume a: "GetAccountID c = Inr a" "form = Inr f"
    let ?e = "ToLower (filepath_Ext (uf_Filename f))"
    show ?thesis
    proof (cases "cos = None \<or> uf_Size f \<le> 0 \<or> uf_Size f > 10 * 2 ^ 20 \<or> ?e \<notin> set image_extensions")
      case True
      then show ?thesis unfolding UploadCover_def a Let_def by (auto simp: wp_return refused)
    next
      case False
      then have f: "0 < uf_Size f" "uf_Size f \<le> 10 * 2 ^ 20" "?e \<in> set image_extensions" "cos \<noteq> None" by auto
      show ?thesis unfolding UploadCover_def a Let_def sum.case
        using wp_dated_upload [OF assms(1) f(1,2) refl _ extensions(2) [OF f(3)], of "\<lambda>e. e \<in> set image_extensions" "''covers''"] f by auto
    qed
  qed (auto simp: UploadCover_def wp_return refused)
  from wp_runD [OF this assms(2)] show ?thesis .
qed

text \<open>
  An avatar: when the URL is answered it is also the avatar of the account, and no other row is
  changed. The database holds no files.
\<close>

theorem UploadAvatar_stores:
  assumes "storage_ok H S" "gorm_ok (as_accountRepo s)" "run_state (UploadAvatar H S cos s form c) w = (r, w')"
    and files: "\<And>P f w. wp (db_updates (db_accounts (as_accountRepo s)) P f) (\<lambda>_ w'. st_disk S w' = st_disk S w \<and> st_bucket S w' = st_bucket S w) w"
  shows "(\<exists>url. tabs w' \<in> {tabs w, set_account (case getAccountID c of Inr i \<Rightarrow> i | Inl _ \<Rightarrow> 0) (\<lambda>a. a\<lparr>a_AvatarURL := url\<rparr>) (tabs w)}) \<and>
    (\<forall>url. r = Sent url \<longrightarrow> (\<exists>i f. getAccountID c = Inr i \<and> form = Inr f \<and> 0 < uf_Size f \<and> uf_Size f \<le> 10 * 2 ^ 20 \<and>
      tabs w' = set_account i (\<lambda>a. a\<lparr>a_AvatarURL := url\<rparr>) (tabs w) \<and>
      upload_post S cos (''.run/uploads/avatars/'' @ FormatUint i @ ''/'') (''avatars/'' @ FormatUint i @ ''/'') (ToLower (filepath_Ext (uf_Filename f))) f w r w'))"
proof -
  let ?P = "\<lambda>r w'. (\<exists>url. tabs w' \<in> {tabs w, set_account (case getAccountID c of Inr i \<Rightarrow> i | Inl _ \<Rightarrow> 0) (\<lambda>a. a\<lparr>a_AvatarURL := url\<rparr>) (tabs w)}) \<and>
    (\<forall>url. r = Sent url \<longrightarrow> (\<exists>i f. getAccountID c = Inr i \<and> form = Inr f \<and> 0 < uf_Size f \<and> uf_Size f \<le> 10 * 2 ^ 20 \<and>
      tabs w' = set_account i (\<lambda>a. a\<lparr>a_AvatarURL := url\<rparr>) (tabs w) \<and>
      upload_post S cos (''.run/uploads/avatars/'' @ FormatUint i @ ''/'') (''avatars/'' @ FormatUint i @ ''/'') (ToLower (filepath_Ext (uf_Filename f))) f w r w'))"
  have after: "after_ok S (\<lambda>r t t'. (\<exists>url. t' \<in> {t, set_account i (\<lambda>a. a\<lparr>a_AvatarURL := url\<rparr>) t}) \<and>
      (\<forall>url. r = Sent url \<longrightarrow> t' = set_account i (\<lambda>a. a\<lparr>a_AvatarURL := url\<rparr>) t))
      (\<lambda>url. do {r \<leftarrow> AccountService_UpdateAvatar s i url; ret (case r of Inl err \<Rightarrow> Fail 500 (error_text err) | Inr _ \<Rightarrow> Sent url)})" for i
  proof -
    have "wp (AccountRepo_UpdateAvatar (as_accountRepo s) i url) (\<lambda>r w'. (st_disk S w' = st_disk S w \<and> st_bucket S w' = st_bucket S w) \<and>
        tabs w' \<in> {tabs w, set_account i (\<lambda>a. a\<lparr>a_AvatarURL := url\<rparr>) (tabs w)} \<and>
        (\<not> isl r \<longrightarrow> tabs w' = set_account i (\<lambda>a. a\<lparr>a_AvatarURL := url\<rparr>) (tabs w))) w" for url w
      unfolding wp_conj
    proof (intro conjI)
      show "wp (AccountRepo_UpdateAvatar (as_accountRepo s) i url) (\<lambda>_ w'. st_disk S w' = st_disk S w) w"
        "wp (AccountRepo_UpdateAvatar (as_accountRepo s) i url) (\<lambda>_ w'. st_bucket S w' = st_bucket S w) w"
        unfolding AccountRepo_UpdateAvatar_def wp_bindE wp_return
        by (rule wp_mono [OF files], simp split: sum.split)+
    qed (rule account_updates(5) [OF assms(2)], auto)+
    note upd = this
    show ?thesis unfolding after_ok_def AccountService_UpdateAvatar_def wp_bind wp_return
    proof (intro conjI allI, goal_cases)
      case (3 u w)
      show ?case by (rule wp_mono [OF upd]) (auto split: sum.split)
    qed auto
  qed
  have "wp (UploadAvatar H S cos s form c) ?P w"
  proof (cases "getAccountID c"; cases form)
    fix i f assume a: "getAccountID c = Inr i" "form = Inr f"
    let ?e = "ToLower (filepath_Ext (uf_Filename f))"
    show ?thesis
    proof (cases "cos = None \<or> uf_Size f \<le> 0 \<or> uf_Size f > 10 * 2 ^ 20 \<or> ?e \<notin> set image_extensions")
      case True
      then show ?thesis unfolding UploadAvatar_def a Let_def by (auto simp: wp_return)
    next
      case False
      then have f: "0 < uf_Size f" "uf_Size f \<le> 10 * 2 ^ 20" "?e \<in> set image_extensions" "cos \<noteq> None" by auto
      have dir: "''avatars'' \<in> {''videos'', ''covers'', ''avatars''}" by simp
      note parts = upload_dirs [OF path_word_FormatUint [of i] path_word_FormatUint [of i] dir]
      have "wp (store_upload H S cos error_text [''.run'', ''uploads'', ''avatars'', FormatUint i] [''avatars'', FormatUint i] ?e f
          (\<lambda>url. do {r \<leftarrow> AccountService_UpdateAvatar s i url; ret (case r of Inl err \<Rightarrow> Fail 500 (error_text err) | Inr _ \<Rightarrow> Sent url)})) ?P w"
        by (rule wp_mono [OF wp_store_upload [OF assms(1) after extensions(2) [OF f(3)] _ parts(2) _ parts(4)]]) (use a f in auto)
      then show ?thesis unfolding UploadAvatar_def a Let_def sum.case using f by (auto simp: not_less)
    qed
  qed (auto simp: UploadAvatar_def wp_return)
  from wp_runD [OF this assms(3)] show ?thesis .
qed

section \<open>An upload\<close>

text \<open>A disk and a bucket that never fail, in the hidden part of the world.\<close>

type_synonym files = "(string \<rightharpoonup> string) \<times> (string \<rightharpoonup> string)"

definition with_files :: "(files \<Rightarrow> unit res \<times> files) \<Rightarrow> (files, unit res) io" where
  "with_files f = State (\<lambda>w. case f (hidden w) of (r, x) \<Rightarrow> (r, w\<lparr>hidden := x\<rparr>))"

definition sure_storage :: "files storage" where
  "sure_storage = \<lparr>st_MkdirAll = (\<lambda>_. ok ()), st_Save = (\<lambda>f p. with_files (\<lambda>(d, b). (Inr (), d(p \<mapsto> uf_Data f), b))),
     st_Remove = (\<lambda>p. with_files (\<lambda>(d, b). (Inr (), d(p := None), b))),
     st_Upload = (\<lambda>k p. with_files (\<lambda>(d, b). case d p of None \<Rightarrow> (Inl (ErrExternal ''no such file''), d, b) | Some x \<Rightarrow> (Inr (), d, b(k \<mapsto> x)))),
     st_Delete = (\<lambda>k. with_files (\<lambda>(d, b). (Inr (), d, b(k := None)))), st_disk = (\<lambda>w. fst (hidden w)), st_bucket = (\<lambda>w. snd (hidden w))\<rparr>"

definition files_host :: "files host" where
  "files_host = \<lparr>time_Now = ret 0, rand_Read = (\<lambda>n. ok (replicate n 0)), json_like = table_codec [], json_comment = table_codec [],
     json_popularity = table_codec [], json_timeline = table_codec [], json_social = table_codec [], json_video = table_codec []\<rparr>"

lemma sure_storage_ok: "storage_ok files_host sure_storage"
  unfolding storage_ok_def
  by (auto simp: sure_storage_def files_host_def wp_return same_files_def wp_def with_files_def split: prod.split option.split)

definition empty_disk :: "files world" where
  "empty_disk = \<lparr>tabs = no_tables, rds = Map.empty, rclock = 0, mq = \<lparr>bk_log = [], bk_ready = (\<lambda>_. []), bk_unacked = (\<lambda>_. []), bk_dead = (\<lambda>_. [])\<rparr>,
     pubs = [], mem = \<lparr>local_videos = Map.empty, hub_clients = (\<lambda>_. []), hub_next = 0\<rparr>, hidden = (Map.empty, Map.empty)\<rparr>"

definition clip :: upload_file where
  "clip = \<lparr>uf_Filename = ''clip.MP4'', uf_Size = 3, uf_Data = ''abc''\<rparr>"

definition clip_cos :: cos_client where
  "clip_cos = \<lparr>cc_client = True, cc_bucketURL = Some ''https://b'', cc_publicBaseURL = '''', cc_Timeout = 0\<rparr>"

definition clip_run :: "string reply \<times> files world" where
  "clip_run = run_state (UploadVideo files_host sure_storage (Some clip_cos) (Inr clip) [''accountID'' \<mapsto> GUint 7]) empty_disk"

lemma clip_name: "ToLower (filepath_Ext ''clip.MP4'') = ''.mp4''"
  by code_simp

lemma sure_upload:
  assumes "path_word hex" "extension ext" "dirs \<noteq> []" "\<forall>p \<in> set dirs. plain_element p" "keys \<noteq> []" "\<forall>p \<in> set keys. path_word p"
    and "rand_Read files_host 16 = ok bs" "hex_EncodeToString bs = hex" "visible (hd (join_with ''/'' dirs))"
  shows "\<exists>url. fst (run_state (store_upload files_host sure_storage (Some clip_cos) rt dirs keys ext f (\<lambda>u. ret (Sent u))) w) = Sent url"
proof -
  let ?tmp = "join_with ''/'' dirs @ ''/'' @ hex @ ext" and ?key = "join_with ''/'' keys @ ''/'' @ hex @ ext"
  have tmp: "path_Join [path_Join dirs, hex @ ext] = ?tmp" using path_Join_file [OF assms(3,4) file_element [OF assms(1,2)]] by simp
  have "path_Join (keys @ [hex @ ext]) = join_with ''/'' (keys @ [hex @ ext])"
    by (rule path_Join_plain) (use assms(6) path_word_element file_element [OF assms(1,2)] in auto)
  then have key: "path_Join (keys @ [hex @ ext]) = ?key" using join_snoc [OF assms(5)] by simp
  have norm: "normalizeKey ?key = ?key" by (rule key_normal [OF _ assms(5) refl assms(1,2)]) (use assms(5,6) in simp)
  have e: "ext \<noteq> ''''" "tl ext \<noteq> ''''" "\<forall>c \<in> set (tl ext). word_char c" using assms(2) by (auto simp: extension_def path_word_def)
  have "last ?tmp = last (tl ext)" using e by (cases ext) auto
  moreover have "join_with ''/'' dirs \<noteq> ''''" using assms(3,4) by (cases dirs rule: remdups_adj.cases) (auto simp: plain_element_def)
  ultimately have trim: "TrimSpace ?tmp = ?tmp" using e word_charD assms(9) by (intro TrimSpace_visible) auto
  have ne: "?key \<noteq> ''''" "?tmp \<noteq> ''''" by simp_all
  show ?thesis unfolding store_upload_def Let_def RandHex_def assms(7) UploadFile_def key [unfolded append.simps] tmp
    using norm trim
    by (simp add: assms(8) key tmp bindE_def sure_storage_def with_files_def removeTempFile_def clip_cos_def ObjectURL_def Let_def split: prod.split)
qed


end
