(* ===== verification/Config.thy ===== *)
theory Config
  imports Topology Files
begin

text \<open>
  The configuration, \<open>internal/config/loadconfig.go\<close>: the file, then the environment. And what the start
  of the processes does with it: the text MySQL is opened with, and the repeated attempts of
  \<open>cmd/worker/main.go\<close> to connect. Reading the file and the YAML parser are parameters.
\<close>

section \<open>loadconfig.go\<close>

record server_config =
  sv_Port :: int

record database_config =
  dc_Host :: string
  dc_Port :: int
  dc_User :: string
  dc_Password :: string
  dc_DBName :: string

record redis_config =
  rc_Host :: string
  rc_Port :: int
  rc_Password :: string
  rc_DB :: int

record jwt_config =
  jc_JWTSecret :: string

record pprof_config =
  pp_Enabled :: bool
  pp_ApiAddr :: string
  pp_WorkerAddr :: string

record observability_config =
  ob_Pprof :: pprof_config

record config =
  cf_Server :: server_config
  cf_Database :: database_config
  cf_Redis :: redis_config
  cf_RabbitMQ :: rabbitmq_config
  cf_JWT :: jwt_config
  cf_COS :: cos_config
  cf_Observability :: observability_config

text \<open>\<open>strconv.Atoi\<close>: a sign, digits, and the range of a 64-bit integer.\<close>

definition Atoi :: "string \<Rightarrow> int option" where
  "Atoi s = (let neg = (s \<noteq> '''' \<and> hd s = CHR ''-''); ds = (if s \<noteq> '''' \<and> (hd s = CHR ''-'' \<or> hd s = CHR ''+'') then tl s else s) in
     if ds = '''' then None
     else (case parse_digits 0 ds of
        None \<Rightarrow> None
      | Some n \<Rightarrow> if neg then (if n \<le> 2 ^ 63 then Some (- int n) else None)
          else if n < 2 ^ 63 then Some (int n) else None))"

text \<open>\<open>if v := os.Getenv(name); v != "" \<dots>\<close> for a text and for a number.\<close>

definition env_text :: "(string \<Rightarrow> string) \<Rightarrow> string \<Rightarrow> (string \<Rightarrow> config \<Rightarrow> config) \<Rightarrow> config \<Rightarrow> config" where
  "env_text env name upd c = (if env name \<noteq> '''' then upd (env name) c else c)"

definition env_int :: "(string \<Rightarrow> string) \<Rightarrow> string \<Rightarrow> (int \<Rightarrow> config \<Rightarrow> config) \<Rightarrow> config \<Rightarrow> config" where
  "env_int env name upd c = (if env name \<noteq> '''' then (case Atoi (env name) of Some n \<Rightarrow> upd n c | None \<Rightarrow> c) else c)"

definition ApplyEnvOverrides :: "(string \<Rightarrow> string) \<Rightarrow> config \<Rightarrow> config" where
  "ApplyEnvOverrides env c0 = (let
     c = env_int env ''SERVER_PORT'' (\<lambda>v. cf_Server_update (sv_Port_update (\<lambda>_. v))) c0;
     c = env_text env ''MYSQL_HOST'' (\<lambda>v. cf_Database_update (dc_Host_update (\<lambda>_. v))) c;
     c = env_int env ''MYSQL_PORT'' (\<lambda>v. cf_Database_update (dc_Port_update (\<lambda>_. v))) c;
     c = env_text env ''MYSQL_USER'' (\<lambda>v. cf_Database_update (dc_User_update (\<lambda>_. v))) c;
     c = env_text env ''MYSQL_ROOT_PASSWORD'' (\<lambda>v. cf_Database_update (dc_Password_update (\<lambda>_. v))) c;
     c = env_text env ''MYSQL_PASSWORD'' (\<lambda>v. cf_Database_update (dc_Password_update (\<lambda>_. v))) c;
     c = env_text env ''MYSQL_DATABASE'' (\<lambda>v. cf_Database_update (dc_DBName_update (\<lambda>_. v))) c;
     c = env_text env ''REDIS_HOST'' (\<lambda>v. cf_Redis_update (rc_Host_update (\<lambda>_. v))) c;
     c = env_int env ''REDIS_PORT'' (\<lambda>v. cf_Redis_update (rc_Port_update (\<lambda>_. v))) c;
     c = env_text env ''REDIS_PASSWORD'' (\<lambda>v. cf_Redis_update (rc_Password_update (\<lambda>_. v))) c;
     c = env_int env ''REDIS_DB'' (\<lambda>v. cf_Redis_update (rc_DB_update (\<lambda>_. v))) c;
     c = env_text env ''RABBITMQ_HOST'' (\<lambda>v. cf_RabbitMQ_update (rq_Host_update (\<lambda>_. v))) c;
     c = env_int env ''RABBITMQ_PORT'' (\<lambda>v. cf_RabbitMQ_update (rq_Port_update (\<lambda>_. v))) c;
     c = env_text env ''RABBITMQ_USER'' (\<lambda>v. cf_RabbitMQ_update (rq_Username_update (\<lambda>_. v))) c;
     c = env_text env ''RABBITMQ_PASS'' (\<lambda>v. cf_RabbitMQ_update (rq_Password_update (\<lambda>_. v))) c;
     c = env_text env ''JWT_SECRET'' (\<lambda>v. cf_JWT_update (jc_JWTSecret_update (\<lambda>_. v))) c;
     c = env_text env ''COS_BUCKET'' (\<lambda>v. cf_COS_update (cos_Bucket_update (\<lambda>_. v))) c;
     c = env_text env ''COS_REGION'' (\<lambda>v. cf_COS_update (cos_Region_update (\<lambda>_. v))) c;
     c = env_text env ''COS_SECRET_ID'' (\<lambda>v. cf_COS_update (cos_SecretID_update (\<lambda>_. v))) c;
     c = env_text env ''COS_SECRET_KEY'' (\<lambda>v. cf_COS_update (cos_SecretKey_update (\<lambda>_. v))) c;
     c = env_text env ''COS_PUBLIC_BASE_URL'' (\<lambda>v. cf_COS_update (cos_PublicBaseURL_update (\<lambda>_. v))) c
     in env_int env ''COS_TIMEOUT_SECONDS'' (\<lambda>v. cf_COS_update (cos_TimeoutSeconds_update (\<lambda>_. v))) c)"

definition Load :: "(string \<Rightarrow> string res) \<Rightarrow> (string \<Rightarrow> config res) \<Rightarrow> (string \<Rightarrow> string) \<Rightarrow> string \<Rightarrow> config res" where
  "Load ReadFile yaml_Unmarshal env filename = (case ReadFile filename of
     Inl err \<Rightarrow> Inl (ErrNew (''failed to read config file: '' @ error_text err))
   | Inr data \<Rightarrow> (case yaml_Unmarshal data of
       Inl err \<Rightarrow> Inl (ErrNew (''failed to parse config file '' @ filename @ '': '' @ error_text err))
     | Inr c \<Rightarrow> Inr (ApplyEnvOverrides env c)))"

section \<open>db.go and cmd/worker/main.go\<close>

definition dsn :: "database_config \<Rightarrow> string" where
  "dsn c = dc_User c @ '':'' @ dc_Password c @ ''@tcp('' @ dc_Host c @ '':'' @ Itoa (dc_Port c) @ '')/'' @ dc_DBName c @
     ''?charset=utf8mb4&parseTime=True&loc=Local''"

definition NewDB :: "(string \<Rightarrow> ('x, 'x gorm res) io) \<Rightarrow> database_config \<Rightarrow> ('x, 'x gorm res) io" where
  "NewDB gorm_Open c = bindE (gorm_Open (dsn c)) ok"

text \<open>
  \<open>connectWithRetry\<close>: what was connected, if anything, and how long was waited, in nanoseconds;
  with nothing connected \<open>log.Fatalf\<close> ends the process. The wait is a 64-bit product and may wrap around.
\<close>

definition retry_wait :: "nat \<Rightarrow> int" where
  "retry_wait i = (let wait = sint (push_bit i (1 :: 64 word) * 10 ^ 9) in if wait > 30 * 10 ^ 9 then 30 * 10 ^ 9 else wait)"

fun connect_loop :: "nat \<Rightarrow> nat \<Rightarrow> ('s, 'a res) state \<Rightarrow> int list \<Rightarrow> ('s, 'a option \<times> int list) state" where
  "connect_loop i 0 fn waits = ret (None, waits)"
| "connect_loop i (Suc left) fn waits = do {
     r \<leftarrow> fn;
     (case r of
        Inr v \<Rightarrow> ret (Some v, waits)
      | Inl _ \<Rightarrow> connect_loop (Suc i) left fn (waits @ [retry_wait i]))}"

definition connectWithRetry :: "nat \<Rightarrow> ('s, 'a res) state \<Rightarrow> ('s, 'a option \<times> int list) state" where
  "connectWithRetry maxRetries fn = connect_loop 0 maxRetries fn []"

section \<open>The environment is enough\<close>

lemma FormatUint_hd: "hd (FormatUint m) \<noteq> CHR ''-'' \<and> hd (FormatUint m) \<noteq> CHR ''+''"
proof -
  obtain c cs where f: "FormatUint m = c # cs" using FormatUint_nonempty [of m] by (cases "FormatUint m") auto
  then have "digit_val c \<noteq> None" using parse_digits_FormatUint [of m] by (auto split: option.splits)
  then show ?thesis using f by (auto simp: digit_val_def Let_def)
qed

lemma Atoi_Itoa:
  assumes "- (2 ^ 63) \<le> n" "n < 2 ^ 63"
  shows "Atoi (Itoa n) = Some n"
  using assms FormatUint_hd [of "nat n"] by (auto simp: Atoi_def Itoa_def parse_digits_FormatUint nat_le_iff nat_less_iff Let_def)

text \<open>The variables that describe a configuration.\<close>

definition env_of :: "config \<Rightarrow> string \<Rightarrow> string" where
  "env_of c name = (case map_of
     [(''SERVER_PORT'', Itoa (sv_Port (cf_Server c))), (''MYSQL_HOST'', dc_Host (cf_Database c)), (''MYSQL_PORT'', Itoa (dc_Port (cf_Database c))),
      (''MYSQL_USER'', dc_User (cf_Database c)), (''MYSQL_PASSWORD'', dc_Password (cf_Database c)), (''MYSQL_DATABASE'', dc_DBName (cf_Database c)),
      (''REDIS_HOST'', rc_Host (cf_Redis c)), (''REDIS_PORT'', Itoa (rc_Port (cf_Redis c))), (''REDIS_PASSWORD'', rc_Password (cf_Redis c)),
      (''REDIS_DB'', Itoa (rc_DB (cf_Redis c))), (''RABBITMQ_HOST'', rq_Host (cf_RabbitMQ c)), (''RABBITMQ_PORT'', Itoa (rq_Port (cf_RabbitMQ c))),
      (''RABBITMQ_USER'', rq_Username (cf_RabbitMQ c)), (''RABBITMQ_PASS'', rq_Password (cf_RabbitMQ c)), (''JWT_SECRET'', jc_JWTSecret (cf_JWT c)),
      (''COS_BUCKET'', cos_Bucket (cf_COS c)), (''COS_REGION'', cos_Region (cf_COS c)), (''COS_SECRET_ID'', cos_SecretID (cf_COS c)),
      (''COS_SECRET_KEY'', cos_SecretKey (cf_COS c)), (''COS_PUBLIC_BASE_URL'', cos_PublicBaseURL (cf_COS c)),
      (''COS_TIMEOUT_SECONDS'', Itoa (cos_TimeoutSeconds (cf_COS c)))] name of Some v \<Rightarrow> v | None \<Rightarrow> '''')"

definition texts :: "config \<Rightarrow> string list" where
  "texts c = [dc_Host (cf_Database c), dc_User (cf_Database c), dc_Password (cf_Database c), dc_DBName (cf_Database c), rc_Host (cf_Redis c),
     rc_Password (cf_Redis c), rq_Host (cf_RabbitMQ c), rq_Username (cf_RabbitMQ c), rq_Password (cf_RabbitMQ c), jc_JWTSecret (cf_JWT c),
     cos_Bucket (cf_COS c), cos_Region (cf_COS c), cos_SecretID (cf_COS c), cos_SecretKey (cf_COS c), cos_PublicBaseURL (cf_COS c)]"

definition numbers :: "config \<Rightarrow> int list" where
  "numbers c = [sv_Port (cf_Server c), dc_Port (cf_Database c), rc_Port (cf_Redis c), rc_DB (cf_Redis c), rq_Port (cf_RabbitMQ c),
     cos_TimeoutSeconds (cf_COS c)]"

lemma Itoa_nonempty [simp]: "Itoa n \<noteq> ''''"
  by (simp add: Itoa_def)

lemma env_of_text: "env_of c name = v \<Longrightarrow> v \<noteq> '''' \<Longrightarrow> env_text (env_of c) name upd d = upd v d"
  by (simp add: env_text_def)

lemma env_of_int: "env_of c name = Itoa n \<Longrightarrow> - (2 ^ 63) \<le> n \<Longrightarrow> n < 2 ^ 63 \<Longrightarrow> env_int (env_of c) name upd d = upd n d"
  by (simp add: env_int_def Atoi_Itoa)

text \<open>
  C40. A configuration whose texts are not empty and whose numbers fit can be given by the environment
  alone, whatever the file says; only the settings of pprof have no variables.
\<close>

theorem environment_is_enough:
  assumes t: "\<forall>s \<in> set (texts c). s \<noteq> ''''" and n: "\<forall>i \<in> set (numbers c). - (2 ^ 63) \<le> i \<and> i < 2 ^ 63"
  shows "ApplyEnvOverrides (env_of c) d = c\<lparr>cf_Observability := cf_Observability d\<rparr>"
proof -
  have root: "env_of c ''MYSQL_ROOT_PASSWORD'' = ''''" by (simp add: env_of_def)
  have i: "env_int (env_of c) name upd d = upd n d" if "env_of c name = Itoa n" "n \<in> set (numbers c)" for name upd d n
    using env_of_int [OF that(1)] n that(2) by blast
  have s: "env_text (env_of c) name upd d = upd v d" if "env_of c name = v" "v \<in> set (texts c)" for name upd d v
    using env_of_text [OF that(1)] t that(2) by blast
  note ints = i [of "''SERVER_PORT''" "sv_Port (cf_Server c)"] i [of "''MYSQL_PORT''" "dc_Port (cf_Database c)"] i [of "''REDIS_PORT''" "rc_Port (cf_Redis c)"]
    i [of "''REDIS_DB''" "rc_DB (cf_Redis c)"] i [of "''RABBITMQ_PORT''" "rq_Port (cf_RabbitMQ c)"] i [of "''COS_TIMEOUT_SECONDS''" "cos_TimeoutSeconds (cf_COS c)"]
  note strs = s [of "''MYSQL_HOST''" "dc_Host (cf_Database c)"] s [of "''MYSQL_USER''" "dc_User (cf_Database c)"]
    s [of "''MYSQL_PASSWORD''" "dc_Password (cf_Database c)"] s [of "''MYSQL_DATABASE''" "dc_DBName (cf_Database c)"] s [of "''REDIS_HOST''" "rc_Host (cf_Redis c)"]
    s [of "''REDIS_PASSWORD''" "rc_Password (cf_Redis c)"] s [of "''RABBITMQ_HOST''" "rq_Host (cf_RabbitMQ c)"] s [of "''RABBITMQ_USER''" "rq_Username (cf_RabbitMQ c)"]
    s [of "''RABBITMQ_PASS''" "rq_Password (cf_RabbitMQ c)"] s [of "''JWT_SECRET''" "jc_JWTSecret (cf_JWT c)"] s [of "''COS_BUCKET''" "cos_Bucket (cf_COS c)"]
    s [of "''COS_REGION''" "cos_Region (cf_COS c)"] s [of "''COS_SECRET_ID''" "cos_SecretID (cf_COS c)"] s [of "''COS_SECRET_KEY''" "cos_SecretKey (cf_COS c)"]
    s [of "''COS_PUBLIC_BASE_URL''" "cos_PublicBaseURL (cf_COS c)"]
  have "env_text (env_of c) ''MYSQL_ROOT_PASSWORD'' upd d = d" for upd d using root by (simp add: env_text_def)
  moreover have "env_of c ''SERVER_PORT'' = Itoa (sv_Port (cf_Server c))" by (simp add: env_of_def)
  ultimately show ?thesis unfolding ApplyEnvOverrides_def Let_def
    by (simp add: ints strs env_of_def texts_def numbers_def)
qed

section \<open>Connecting\<close>

text \<open>The waits that are used, in seconds; a thirty-fifth attempt would wrap around.\<close>

lemma retry_waits: "map (\<lambda>i. retry_wait i div 10 ^ 9) [0..<10] = [1, 2, 4, 8, 16, 30, 30, 30, 30, 30]" "retry_wait 34 < 0"
  by (simp_all add: retry_wait_def upt_rec push_bit_eq_mult)

text \<open>How often was waited, and whether it is because of an answer or because the attempts were used up.\<close>

lemma connect_loop_waits:
  "fst (run_state (connect_loop i n fn ws) s) = (v, vs) \<Longrightarrow> \<exists>k \<le> n. vs = ws @ map retry_wait [i..<i + k] \<and> (v = None \<longleftrightarrow> k = n)"
proof (induction n arbitrary: i ws s)
  case (Suc n)
  obtain r s1 where r: "run_state fn s = (r, s1)" by fastforce
  show ?case
  proof (cases r)
    case (Inl e)
    have "fst (run_state (connect_loop (Suc i) n fn (ws @ [retry_wait i])) s1) = (v, vs)" using Suc.prems r Inl by simp
    from Suc.IH [OF this] obtain k where k: "k \<le> n" "vs = (ws @ [retry_wait i]) @ map retry_wait [Suc i..<Suc i + k]" "v = None \<longleftrightarrow> k = n" by blast
    have "[i..<i + Suc k] = i # [Suc i..<Suc i + k]" by (simp add: upt_conv_Cons)
    with k show ?thesis by (intro exI [of _ "Suc k"]) simp
  next
    case (Inr a)
    with Suc.prems r show ?thesis by (intro exI [of _ 0]) auto
  qed
qed simp

text \<open>
  The worker tries its database and its broker ten times each; it waits after each failure, about three
  minutes in all when nothing answers.
\<close>

theorem connect_is_bounded:
  assumes "fst (run_state (connectWithRetry 10 fn) s) = (v, ws)"
  shows "\<exists>k \<le> 10. ws = take k (map (\<lambda>s. s * 10 ^ 9) [1, 2, 4, 8, 16, 30, 30, 30, 30, 30]) \<and> (v = None \<longleftrightarrow> k = 10)"
proof -
  from connect_loop_waits [OF assms [unfolded connectWithRetry_def]]
  obtain k where k: "k \<le> 10" "ws = map retry_wait [0..<k]" "v = None \<longleftrightarrow> k = 10" by auto
  have "map retry_wait [0..<10] = map (\<lambda>s. s * 10 ^ 9) [1, 2, 4, 8, 16, 30, 30, 30, 30, 30]"
    by (simp add: retry_wait_def upt_rec push_bit_eq_mult)
  then have "map retry_wait [0..<k] = take k (map (\<lambda>s. s * 10 ^ 9) [1, 2, 4, 8, 16, 30, 30, 30, 30, 30])"
    using k(1) by (metis add_0 min.absorb1 take_map take_upt)
  with k show ?thesis by auto
qed

section \<open>A configuration\<close>

definition sample_config :: config where
  "sample_config = \<lparr>cf_Server = \<lparr>sv_Port = 8080\<rparr>,
     cf_Database = \<lparr>dc_Host = ''m'', dc_Port = 3306, dc_User = ''u'', dc_Password = ''p'', dc_DBName = ''d''\<rparr>,
     cf_Redis = \<lparr>rc_Host = ''r'', rc_Port = 6379, rc_Password = ''q'', rc_DB = 0\<rparr>,
     cf_RabbitMQ = \<lparr>rq_Host = ''b'', rq_Port = 5672, rq_Username = ''g'', rq_Password = ''h''\<rparr>, cf_JWT = \<lparr>jc_JWTSecret = ''s''\<rparr>,
     cf_COS = \<lparr>cos_Bucket = ''c'', cos_Region = ''e'', cos_SecretID = ''i'', cos_SecretKey = ''k'', cos_PublicBaseURL = ''l'', cos_TimeoutSeconds = 60\<rparr>,
     cf_Observability = \<lparr>ob_Pprof = \<lparr>pp_Enabled = False, pp_ApiAddr = '''', pp_WorkerAddr = ''''\<rparr>\<rparr>\<rparr>"

text \<open>Another file with the variables of this configuration.\<close>

theorem environment_is_enough_witness:
  "ApplyEnvOverrides (env_of sample_config) (sample_config\<lparr>cf_Server := \<lparr>sv_Port = 1\<rparr>, cf_JWT := \<lparr>jc_JWTSecret = ''file''\<rparr>\<rparr>) = sample_config"
proof -
  have t: "\<forall>s \<in> set (texts sample_config). s \<noteq> ''''" by (simp add: texts_def sample_config_def)
  have n: "\<forall>i \<in> set (numbers sample_config). - (2 ^ 63) \<le> i \<and> i < 2 ^ 63" by (simp add: numbers_def sample_config_def)
  show ?thesis using environment_is_enough [OF t n] by (simp add: sample_config_def)
qed

end
