(* ===== verification/Startup.thy ===== *)
theory Startup
  imports Config
begin

text \<open>
  The start of the two processes: \<open>cmd/main.go\<close>, the API, and \<open>cmd/worker/main.go\<close>, with \<open>db/db.go\<close> and
  \<open>observability/pprof.go\<close>. The API needs its configuration, its secret and its database, and does without
  everything else; the worker process needs the broker too. The libraries they call are parameters.
\<close>

section \<open>What the processes are started on\<close>

text \<open>The libraries, and what the goroutines of the notifications will be offered (see \<open>StartNotification\<close>).\<close>

record 'x platform =
  pf_ReadFile :: "string \<Rightarrow> string res"
  pf_Unmarshal :: "string \<Rightarrow> config res"
  pf_Getenv :: "string \<Rightarrow> string"
  pf_Open :: "string \<Rightarrow> ('x, 'x gorm res) io"
  pf_Migrate :: "'x gorm \<Rightarrow> string list \<Rightarrow> ('x, unit res) io"
  pf_DB :: "'x gorm \<Rightarrow> ('x, unit res) io"
  pf_CloseSQL :: "'x gorm \<Rightarrow> ('x, unit res) io"
  pf_Redis :: "string \<Rightarrow> string \<Rightarrow> int \<Rightarrow> 'x rdb"
  pf_Ping :: "'x rdb \<Rightarrow> ('x, unit res) io"
  pf_CloseRedis :: "'x rdb \<Rightarrow> ('x, unit res) io"
  pf_Admin :: "'x admin"
  pf_ParseURL :: "string \<Rightarrow> string res"
  pf_Listen :: "string \<Rightarrow> ('x, unit res) io"
  pf_Shutdown :: "string \<Rightarrow> ('x, unit res) io"
  pf_Host :: "'x host"
  pf_PushJson :: push_json
  pf_Payloads :: "subscriber_event list"
  pf_Consumed :: "string \<Rightarrow> unit res"
  pf_Selected :: "string \<Rightarrow> select_event list"

text \<open>\<open>AutoMigrate\<close> and \<open>CloseDB\<close> of \<open>db.go\<close>.\<close>

definition AutoMigrate :: "'x platform \<Rightarrow> 'x gorm \<Rightarrow> ('x, unit res) io" where
  "AutoMigrate P db = pf_Migrate P db [''account.Account'', ''video.Video'', ''video.OutboxMsg'', ''tag.Tag'', ''tag.VideoTag'', ''like.Like'',
     ''comment.Comment'', ''social.Social'', ''message.Message'', ''notification.Notification'']"

definition CloseDB :: "'x platform \<Rightarrow> 'x gorm \<Rightarrow> ('x, unit res) io" where
  "CloseDB P db = bindE (pf_DB P db) (\<lambda>_. pf_CloseSQL P db)"

text \<open>\<open>NewClient\<close>, \<open>Ping\<close> and \<open>Close\<close> of the Redis client, and what both processes do with them.\<close>

definition redis_client :: "'x platform \<Rightarrow> redis_config \<Rightarrow> 'x cache" where
  "redis_client P c = NewClient (pf_Redis P (rc_Host c @ '':'' @ Itoa (rc_Port c)) (rc_Password c) (rc_DB c))"

definition Client_Ping :: "'x platform \<Rightarrow> 'x cache \<Rightarrow> ('x, unit res) io" where
  "Client_Ping P c = (case rdb_of c of None \<Rightarrow> ok () | Some R \<Rightarrow> pf_Ping P R)"

definition Client_Close :: "'x platform \<Rightarrow> 'x cache \<Rightarrow> ('x, unit res) io" where
  "Client_Close P c = (case rdb_of c of None \<Rightarrow> ok () | Some R \<Rightarrow> pf_CloseRedis P R)"

definition open_cache :: "'x platform \<Rightarrow> redis_config \<Rightarrow> ('x, 'x cache) io" where
  "open_cache P c = (let cache = redis_client P c in do {
     r \<leftarrow> Client_Ping P cache;
     (case r of
        Inl _ \<Rightarrow> do {_ \<leftarrow> Client_Close P cache; ret None}
      | Inr _ \<Rightarrow> ret cache)})"

section \<open>pprof.go\<close>

text \<open>The server is known by its address.\<close>

record PprofServer =
  ps_name :: string
  ps_server :: "string option"
  ps_shutdownTimeout :: int

definition NewPprofMux :: "string list" where
  "NewPprofMux = map ((@) ''/debug/pprof/'') ['''', ''cmdline'', ''profile'', ''symbol'', ''trace'']"

definition NewPprofServer :: "'x platform \<Rightarrow> string \<Rightarrow> bool \<Rightarrow> string \<Rightarrow> ('x, PprofServer option res) io" where
  "NewPprofServer P name enabled addr =
     (if \<not> enabled \<or> addr = '''' then ok None
      else do {
        listener \<leftarrow> pf_Listen P addr;
        (case listener of
           Inl err \<Rightarrow> throw (ErrNew (''failed to start '' @ name @ '' pprof server on '' @ addr @ '': '' @ error_text err))
         | Inr _ \<Rightarrow> ok (Some \<lparr>ps_name = name, ps_server = Some addr, ps_shutdownTimeout = 3 * 10 ^ 9\<rparr>))})"

definition Shutdown :: "'x platform \<Rightarrow> string option \<Rightarrow> ('x, unit res) io" where
  "Shutdown P server = (case server of None \<Rightarrow> ok () | Some addr \<Rightarrow> pf_Shutdown P addr)"

definition PprofServer_Close :: "'x platform \<Rightarrow> PprofServer option \<Rightarrow> ('x, unit res) io" where
  "PprofServer_Close P s = (case s of None \<Rightarrow> ok () | Some p \<Rightarrow> Shutdown P (ps_server p))"

section \<open>cmd/main.go\<close>

text \<open>A process that runs, or what \<open>log.Fatal\<close> writes before it ends.\<close>

datatype 'a launch = Fatal string | Running 'a

definition config_path :: "'x platform \<Rightarrow> string" where
  "config_path P = (let configPath = pf_Getenv P ''CONFIG_PATH'' in if configPath = '''' then ''configs/config-dev.yaml'' else configPath)"

definition load_config :: "'x platform \<Rightarrow> config res" where
  "load_config P = Load (pf_ReadFile P) (pf_Unmarshal P) (pf_Getenv P) (config_path P)"

record 'x api =
  ap_secret :: string
  ap_db :: "'x gorm"
  ap_cache :: "'x cache"
  ap_rmq :: "'x RabbitMQ option"
  ap_cos :: "cos_client option"
  ap_pprof :: "PprofServer option"
  ap_queues :: "'x mq_ptr \<times> 'x mq_ptr \<times> 'x mq_ptr \<times> 'x mq_ptr"
  ap_threads :: "('x, unit) io list"
  ap_addr :: string

text \<open>What the API is built on once the database is there, up to \<open>r.Run\<close>, which serves at \<open>ap_addr\<close>.\<close>

definition api_parts :: "'x platform \<Rightarrow> config \<Rightarrow> string \<Rightarrow> 'x gorm \<Rightarrow> ('x, 'x api) io" where
  "api_parts P cfg secret db = do {
     cache \<leftarrow> open_cache P (cf_Redis cfg);
     dialed \<leftarrow> NewRabbitMQ (pf_Admin P) (Some (cf_RabbitMQ cfg));
     (let rmq = (case dialed of Inl _ \<Rightarrow> None | Inr r \<Rightarrow> r);
          cosClient = (case NewCosClient (pf_ParseURL P) (Some (cf_COS cfg)) of Inl _ \<Rightarrow> None | Inr c \<Rightarrow> Some c);
          pprof = ob_Pprof (cf_Observability cfg)
      in do {
        started \<leftarrow> NewPprofServer P ''API'' (pp_Enabled pprof) (pp_ApiAddr pprof);
        queues \<leftarrow> router_queues (pf_Admin P) rmq;
        threads \<leftarrow> StartNotification (pf_Admin P) (pf_Host P) (pf_PushJson P) rmq (Some db) cache True (pf_Payloads P) (pf_Consumed P) (pf_Selected P);
        ret \<lparr>ap_secret = secret, ap_db = db, ap_cache = cache, ap_rmq = rmq, ap_cos = cosClient,
          ap_pprof = (case started of Inl _ \<Rightarrow> None | Inr s \<Rightarrow> s), ap_queues = queues, ap_threads = threads,
          ap_addr = '':'' @ Itoa (sv_Port (cf_Server cfg))\<rparr>})}"

definition api_main :: "'x platform \<Rightarrow> ('x, 'x api launch) io" where
  "api_main P = (case load_config P of
     Inl _ \<Rightarrow> ret (Fatal ''load config failed! please set correct CONFIG_PATH'')
   | Inr cfg \<Rightarrow> (case SetJWTSecret (jc_JWTSecret (cf_JWT cfg)) of
       Inl err \<Rightarrow> ret (Fatal (''jwt config error: '' @ error_text err))
     | Inr secret \<Rightarrow> do {
         opened \<leftarrow> NewDB (pf_Open P) (cf_Database cfg);
         (case opened of
            Inl err \<Rightarrow> ret (Fatal (''failed to connect database: '' @ error_text err))
          | Inr db \<Rightarrow> do {
              migrated \<leftarrow> AutoMigrate P db;
              (case migrated of
                 Inl err \<Rightarrow> ret (Fatal (''failed to auto migrate database: '' @ error_text err))
               | Inr _ \<Rightarrow> do {
                   a \<leftarrow> api_parts P cfg secret db;
                   ret (Running a)})})}))"

section \<open>cmd/worker/main.go\<close>

record 'x worker_process =
  wk_db :: "'x gorm"
  wk_cache :: "'x cache"
  wk_rmq :: "'x RabbitMQ option"
  wk_pprof :: "PprofServer option"
  wk_workers :: "string list"

definition worker_names :: "'x cache \<Rightarrow> string list" where
  "worker_names cache = [''social_worker'', ''like_worker'', ''comment_worker'', ''outbox_worker''] @
     (if cache \<noteq> None then [''popularity_worker'', ''timeline_worker''] else [])"

text \<open>
  A refused declaration ends the process with the error; the texts that go with it, and the one after
  too many attempts, are left out.
\<close>

definition worker_main :: "'x platform \<Rightarrow> ('x, 'x worker_process launch) io" where
  "worker_main P = (case load_config P of
     Inl err \<Rightarrow> ret (Fatal (''Failed to load config: '' @ error_text err))
   | Inr cfg \<Rightarrow> do {
       (sqlDB, _) \<leftarrow> connectWithRetry 10 (NewDB (pf_Open P) (cf_Database cfg));
       (case sqlDB of
          None \<Rightarrow> ret (Fatal ''MySQL'')
        | Some db \<Rightarrow> do {
            cache \<leftarrow> open_cache P (cf_Redis cfg);
            (connection, _) \<leftarrow> connectWithRetry 10 (NewRabbitMQ (pf_Admin P) (Some (cf_RabbitMQ cfg)));
            (case connection of
               None \<Rightarrow> ret (Fatal ''RabbitMQ'')
             | Some rmq \<Rightarrow> do {
                 declared \<leftarrow> worker_queues (pf_Admin P) rmq (cache \<noteq> None);
                 (case declared of
                    Inl err \<Rightarrow> ret (Fatal (error_text err))
                  | Inr _ \<Rightarrow> (let pprof = ob_Pprof (cf_Observability cfg) in do {
                      started \<leftarrow> NewPprofServer P ''Worker'' (pp_Enabled pprof) (pp_WorkerAddr pprof);
                      ret (Running \<lparr>wk_db = db, wk_cache = cache, wk_rmq = rmq, wk_pprof = (case started of Inl _ \<Rightarrow> None | Inr s \<Rightarrow> s),
                        wk_workers = worker_names cache\<rparr>)}))})})})"

text \<open>
  The first worker that returns ends the process: what \<open>log.Fatalf\<close> writes, or nothing when its context
  was cancelled.
\<close>

definition worker_exit :: "(go_error \<Rightarrow> bool) \<Rightarrow> string \<times> unit res \<Rightarrow> string option" where
  "worker_exit canceled e = (case snd e of
     Inl err \<Rightarrow> if canceled err then None else Some (fst e @ '' stopped error: '' @ error_text err)
   | Inr _ \<Rightarrow> None)"

section \<open>The API does without what is optional\<close>

definition db_ready :: "'x platform \<Rightarrow> config \<Rightarrow> bool" where
  "db_ready P cfg \<longleftrightarrow> (\<forall>w. wp (pf_Open P (dsn (cf_Database cfg))) (\<lambda>r _. \<not> isl r) w) \<and> (\<forall>db w. wp (AutoMigrate P db) (\<lambda>r _. \<not> isl r) w)"

lemma wp_any: "wp m (\<lambda>_ _. True) w"
  by (simp add: wp_def split: prod.split)

lemma no_broker_queues: "router_queues A None = ret (None, None, None, None)"
  unfolding router_queues_def router_mq_def NewChannelClient_def NewLikeMQ_def NewCommentMQ_def NewSocialMQ_def NewPopularityMQ_def
  by (simp add: State_Monad.bind_left_identity)

lemma no_broker_threads: "StartNotification A H J None db cache hub payloads consumed evs = ret [StartNotificationSubscriber J cache hub payloads]"
  by (simp add: StartNotification_def declare_notifications_def State_Monad.bind_left_identity)

lemma wp_open_cache: "wp (open_cache P c) (\<lambda>cache _. cache = None \<or> cache = redis_client P c) w"
  unfolding open_cache_def Let_def wp_bind
  by (rule wp_mono [OF wp_any]) (auto simp: wp_simps intro!: wp_mono [OF wp_any] split: sum.split)

text \<open>The parts of a running API.\<close>

definition api_fits :: "'x platform \<Rightarrow> config \<Rightarrow> 'x api \<Rightarrow> bool" where
  "api_fits P cfg a \<longleftrightarrow> ap_addr a = '':'' @ Itoa (sv_Port (cf_Server cfg)) \<and>
     (ap_cache a = None \<or> ap_cache a = redis_client P (cf_Redis cfg)) \<and>
     (ap_rmq a = None \<longrightarrow> ap_queues a = (None, None, None, None) \<and>
        ap_threads a = [StartNotificationSubscriber (pf_PushJson P) (ap_cache a) True (pf_Payloads P)])"

lemma wp_api_parts: "wp (api_parts P cfg secret db) (\<lambda>a _. ap_secret a = secret \<and> api_fits P cfg a) w"
  unfolding api_parts_def Let_def wp_bind
proof (rule wp_mono [OF wp_open_cache], goal_cases)
  case cache: (1 cache w1)
  show ?case
  proof (rule wp_mono [OF wp_any], goal_cases)
    case (1 dialed w2)
    show ?case
    proof (rule wp_mono [OF wp_any], goal_cases)
      case (1 started w3)
      show ?case
      proof (cases "case dialed of Inl _ \<Rightarrow> None | Inr r \<Rightarrow> r")
        case None
        then show ?thesis unfolding None using cache
          by (simp add: no_broker_queues no_broker_threads wp_return api_fits_def)
      next
        case (Some m)
        then show ?thesis unfolding Some wp_return using cache
          by (auto simp: api_fits_def intro!: wp_mono [OF wp_any])
      qed
    qed
  qed
qed


section \<open>The worker process has its queues\<close>

text \<open>The other libraries leave the topology of the broker alone.\<close>

definition platform_ok :: "'x platform \<Rightarrow> bool" where
  "platform_ok P \<longleftrightarrow> (let A = pf_Admin P in admin_ok A \<and> (\<forall>u. keeps_topology A (ad_Dial A u)) \<and> (\<forall>d. keeps_topology A (pf_Open P d)) \<and>
     (\<forall>R. keeps_topology A (pf_Ping P R)) \<and> (\<forall>R. keeps_topology A (pf_CloseRedis P R)) \<and> (\<forall>a. keeps_topology A (pf_Listen P a)))"

lemma keeps_topology_bindE:
  assumes "keeps_topology A m" "\<And>v. keeps_topology A (f v)"
  shows "keeps_topology A (bindE m f)"
  unfolding bindE_def by (rule keeps_topology_bind [OF assms(1)]) (simp add: assms(2) keeps_topology_ret split: sum.split)

lemma keeps_connect_loop: "keeps_topology A fn \<Longrightarrow> keeps_topology A (connect_loop i n fn ws)"
proof (induction n arbitrary: i ws)
  case (Suc n)
  then show ?case unfolding connect_loop.simps by (intro keeps_topology_bind) (simp_all add: keeps_topology_ret split: sum.split)
qed (simp add: keeps_topology_ret)

lemma platform_keeps:
  assumes "platform_ok P"
  shows "keeps_topology (pf_Admin P) (NewDB (pf_Open P) d)" "keeps_topology (pf_Admin P) (open_cache P c)"
    "keeps_topology (pf_Admin P) (NewRabbitMQ (pf_Admin P) q)" "keeps_topology (pf_Admin P) (NewPprofServer P name e addr)"
proof -
  note laws = assms [unfolded platform_ok_def Let_def]
  show "keeps_topology (pf_Admin P) (NewDB (pf_Open P) d)"
    unfolding NewDB_def using laws by (intro keeps_topology_bindE) (simp_all add: keeps_topology_ret)
  have ping: "keeps_topology (pf_Admin P) (Client_Ping P x)" "keeps_topology (pf_Admin P) (Client_Close P x)" for x
    unfolding Client_Ping_def Client_Close_def using laws by (simp_all add: keeps_topology_ret split: option.split)
  show "keeps_topology (pf_Admin P) (open_cache P c)"
    unfolding open_cache_def Let_def
    by (rule keeps_topology_bind [OF ping(1)]) (simp add: keeps_topology_ret keeps_topology_bind [OF ping(2)] split: sum.split)
  have "keeps_topology (pf_Admin P) (ad_Channel (pf_Admin P))"
    using declares_keeps [OF declares_quiet [OF admin_quiet(1)]] laws by blast
  then show "keeps_topology (pf_Admin P) (NewRabbitMQ (pf_Admin P) q)"
    unfolding NewRabbitMQ_def using laws by (cases q) (auto simp: keeps_topology_ret intro!: keeps_topology_bindE)
  show "keeps_topology (pf_Admin P) (NewPprofServer P name e addr)"
    unfolding NewPprofServer_def using laws
    by (auto simp: keeps_topology_ret intro!: keeps_topology_bind split: sum.split)
qed

lemma keepsD: "keeps_topology A m \<Longrightarrow> topology_inv D (ad_topology A w) \<Longrightarrow> (\<And>a w'. topology_inv D (ad_topology A w') \<Longrightarrow> Q a w') \<Longrightarrow> wp m Q w"
  unfolding keeps_topology_def by (blast intro: wp_mono)

definition process_topics :: "'x worker_process \<Rightarrow> topic set" where
  "process_topics p = set worker_topics \<union> (if wk_cache p \<noteq> None then {popularity_topic} else {})"

lemma wp_worker_main:
  assumes "platform_ok P" "topology_inv D (ad_topology (pf_Admin P) w)"
  shows "wp (worker_main P) (\<lambda>r w'. \<forall>p. r = Running p \<longrightarrow> wk_workers p = worker_names (wk_cache p) \<and>
    topology_inv (process_topics p \<union> D) (ad_topology (pf_Admin P) w')) w"
proof (cases "load_config P")
  case (Inr cfg)
  let ?A = "pf_Admin P"
  let ?Q = "\<lambda>r w'. \<forall>p. r = Running p \<longrightarrow> wk_workers p = worker_names (wk_cache p) \<and> topology_inv (process_topics p \<union> D) (ad_topology ?A w')"
  note keeps = platform_keeps [OF assms(1)]
  have A: "admin_ok ?A" using assms(1) by (simp add: platform_ok_def Let_def)
  show ?thesis unfolding worker_main_def Inr sum.case wp_bind connectWithRetry_def
  proof (rule keepsD [OF keeps_connect_loop [OF keeps(1)] assms(2)], goal_cases)
    case (1 sql w1)
    show ?case
    proof (cases "fst sql")
      case (Some db)
      show ?thesis unfolding prod.case_eq_if Some option.case wp_bind
      proof (rule keepsD [OF keeps(2) 1], rule keepsD [OF keeps_connect_loop [OF keeps(3)]], assumption, goal_cases)
        case (1 cache w2 conn w3)
        show ?case
        proof (cases "fst conn")
          case (Some rmq)
          let ?T = "set worker_topics \<union> (if cache \<noteq> None then {popularity_topic} else {})"
          have q: "wp (worker_queues ?A rmq (cache \<noteq> None)) (\<lambda>r w'. topology_inv (if isl r then D else ?T \<union> D) (ad_topology ?A w')) w3"
            using declares_worker_queues [OF A] 1(2) unfolding declares_def by blast
          show ?thesis unfolding prod.case_eq_if Some option.case wp_bind Let_def
          proof (rule wp_mono [OF q], goal_cases)
            case (1 r w4)
            show ?case
            proof (cases r)
              case (Inr u)
              with 1 have "topology_inv (?T \<union> D) (ad_topology ?A w4)" by simp
              then show ?thesis unfolding Inr sum.case wp_bind wp_return
                by (rule keepsD [OF keeps(4)]) (simp add: process_topics_def)
            qed (simp add: wp_return)
          qed
        qed (simp add: wp_return prod.case_eq_if)
      qed
    qed (simp add: wp_return prod.case_eq_if)
  qed
qed (simp add: worker_main_def wp_return)

text \<open>
  A worker process that runs has declared the queues of its workers, dead letters included: the two
  that need Redis run only with it.
\<close>

theorem workers_have_queues:
  assumes "platform_ok P" "topology_inv {} (ad_topology (pf_Admin P) w)" "run_state (worker_main P) w = (Running p, w')" "t \<in> process_topics p"
  shows "has_topic (ad_topology (pf_Admin P) w') t \<and> wk_workers p = worker_names (wk_cache p)"
  using wp_runD [OF wp_worker_main [OF assms(1,2)] assms(3)] assms(4) by (auto simp: topology_inv_def)

section \<open>A start without Redis and without the broker\<close>

definition down_admin :: "ref_hid admin" where
  "down_admin = \<lparr>ad_Dial = (\<lambda>_. throw (ErrExternal ''refused'')), ad_Channel = throw (ErrExternal ''refused''), ad_CloseConn = ok (), ad_Close = (\<lambda>_. ok ()),
     ad_Qos = (\<lambda>_ _. ok ()), ad_ExchangeDeclare = (\<lambda>_ _ _ _. throw (ErrExternal ''refused'')), ad_QueueDeclare = (\<lambda>_ _ _ _. throw (ErrExternal ''refused'')),
     ad_QueueBind = (\<lambda>_ _ _ _. throw (ErrExternal ''refused'')), ad_topology = (\<lambda>_. \<lparr>tp_exchanges = Map.empty, tp_queues = Map.empty, tp_bindings = []\<rparr>)\<rparr>"

definition bare_platform :: "ref_hid platform" where
  "bare_platform = \<lparr>pf_ReadFile = (\<lambda>_. Inr ''yaml''), pf_Unmarshal = (\<lambda>_. Inr sample_config), pf_Getenv = (\<lambda>_. ''''), pf_Open = (\<lambda>_. ok ref_gorm),
     pf_Migrate = (\<lambda>_ _. ok ()), pf_DB = (\<lambda>_. ok ()), pf_CloseSQL = (\<lambda>_. ok ()), pf_Redis = (\<lambda>_ _ _. ref_redis),
     pf_Ping = (\<lambda>_. throw (ErrExternal ''refused'')), pf_CloseRedis = (\<lambda>_. ok ()), pf_Admin = down_admin, pf_ParseURL = Inr,
     pf_Listen = (\<lambda>_. ok ()), pf_Shutdown = (\<lambda>_. ok ()), pf_Host = ref_host [] [] [] [] [] [],
     pf_PushJson = \<lparr>json_notification = table_codec [], json_push = table_codec []\<rparr>, pf_Payloads = [], pf_Consumed = (\<lambda>_. Inr ()), pf_Selected = (\<lambda>_. [])\<rparr>"

lemma no_environment: "ApplyEnvOverrides (\<lambda>_. '''') c = c"
  by (simp add: ApplyEnvOverrides_def env_text_def env_int_def)

lemma bare_config: "load_config bare_platform = Inr sample_config"
  by (simp add: load_config_def config_path_def Load_def bare_platform_def no_environment)


end
