(* ===== verification/Spec2Isabelle.thy ===== *)
theory Spec2Isabelle
  imports Retry Outbox RateLimit VideoDetail Like Comment JwtAuth Social FeedWitness NotificationRuns TopologyRuns Profile
    Router Upload Startup
begin

text \<open>
  \<^bold>\<open>GoVideo\<close>: a short-video backend. HTTP handlers (\<open>internal/api/*/handler.go\<close>, Gin) call services
  that read and write MySQL through gorm repositories, cache in Redis and send events to RabbitMQ;
  workers (\<open>internal/worker\<close>) consume the events and apply them. A video is published in one
  transaction with an outbox row; the outbox worker hands the row to the timeline exchange, the
  timeline worker adds the video to a sorted set in Redis, and the latest feed reads this set.
  Likes, comments and follows are accepted by a handler, handed to a queue, and applied by a
  worker; when the queue cannot be reached the service applies them itself.

  \<^bold>\<open>How the code is modelled.\<close> A Go function with effects is a definition in the state monad
  \<open>('x, 'a) io\<close> over a \<open>world\<close>: the tables of MySQL, the database of Redis with its clock, the queues
  of RabbitMQ, the messages published on Redis channels and the memory of the process; \<open>'x\<close> is the
  hidden state of the parameters. An \<open>error\<close> result is a sum, \<open>'a res = go_error + 'a\<close>; \<open>bindE\<close> is
  the \<open>if err != nil { return err }\<close> of Go. Handlers answer with \<open>Sent\<close> or \<open>Fail status message\<close>.
  Identifiers are \<open>nat\<close> (no arithmetic is done on them), counters and times \<open>int\<close> (nanoseconds since
  1970), the retry header a signed 32-bit word, random bytes 8-bit words.

  \<^bold>\<open>Parameters.\<close> Code that is not in the repository is an argument of the definitions and is
  described by named laws: \<open>gorm_ok\<close> (theory Gorm: every statement may fail; a failed write may have
  been done; unique keys hold; a failed transaction leaves no trace), \<open>redis_ok\<close> (Redis: commands
  have their documented effect, or fail with or without it; a script is atomic), \<open>channel_ok\<close> and
  \<open>host_ok\<close> (Amqp: publish, ack, nack; clock, randomness, JSON), \<open>crypto_ok\<close> (Auth: signatures and
  password hashes), \<open>flight_ok\<close>, \<open>local_ok\<close>, \<open>runtime_ok\<close> (collapsed calls, the in-memory cache, the
  scheduler), \<open>admin_ok\<close> and \<open>topic_ok\<close> (Topology: declaring and routing in the broker), \<open>storage_ok\<close>
  (Files: the disk and the object storage), \<open>platform_ok\<close> (Startup: what the processes start on). Reference gives an instance of each that computes, with injectable faults; the
  witnesses run on it. A theorem that assumes only the laws holds under every failure they allow.

  \<^bold>\<open>Theories.\<close>
  \<^item> Prelude: Go errors, strings, times, number formatting with its round trip, the weakest
    precondition calculus \<open>wp\<close> with its rules in \<open>wp_simps\<close>.
  \<^item> Entities, Gorm, Amqp, Redis, Reference: entities and world; database, broker, Redis client
    (\<open>internal/middleware/redis\<close> with its Lua scripts) and the publishers
    (\<open>internal/middleware/rabbitmq\<close>); the reference instance.
  \<^item> Retry (\<open>worker/retry.go\<close>): every outcome of a delivery, and that a failing message is
    dead-lettered after exactly the remaining retries. Outbox (\<open>worker/outbox\_worker.go\<close>): every run
    keeps the rows legal and marks none published before its event was handed over.
  \<^item> RateLimit (\<open>middleware/ratelimit\<close>): no window holds more allowed requests than the limit, and a
    request is refused only when the window is full, in any history of requests (step relation).
  \<^item> Video, VideoDetail (\<open>api/video\<close>): atomic publishing; the cached, locked and collapsed lookup.
  \<^item> Enqueue, Consumer: what the services and the workers share. The locales of Consumer are the
    contract of at-least-once delivery: after a success a message is settled, and processing a settled
    message changes no table. \<open>settling_consumer\<close> may assume something of the tables and is interpreted on
    the notification worker; \<open>idempotent_consumer\<close>, a sublocale of it that assumes nothing, is interpreted
    on the like, comment and social workers.
  \<^item> Like, Comment, Social (\<open>api/like\<close>, \<open>api/comment\<close>, \<open>api/social\<close> and their workers): accepted
    requests are handed over or stored, counts equal the number of likes, redelivery is harmless.
  \<^item> Auth, Account, Cache, JwtAuth (\<open>auth\<close>, \<open>api/account\<close>, \<open>middleware/jwt\<close>): sessions. The tokens that
    pass are the current ones; passwords are hashed; names stay unique.
  \<^item> Timeline (\<open>worker/timeline\_worker.go\<close>, \<open>worker/popularity\_worker.go\<close>): the timeline keeps the
    newest thousand entries in whatever order the events arrive.
  \<^item> Paging, Feed, FeedPages, FeedEntities, FeedLatest, FeedWitness (\<open>api/feed\<close>): the locale
    \<open>paged_feed\<close> is the contract of a cursor; the feeds by likes, by popularity and by time are
    interpretations of it, so a client that follows the cursors gets every video once and in order.
  \<^item> Notification, SseHub, NotificationRuns (\<open>api/notification\<close>, \<open>worker/notification\_worker.go\<close>,
    \<open>worker/notification\_subscriber.go\<close>): the hub of open streams as a step relation with its
    invariant, what a stream writes, and that an event is notified of once.
  \<^item> Topology, TopologyRuns (\<open>middleware/rabbitmq\<close>, \<open>http/router.go\<close>): the exchanges and queues both
    processes declare; every event is routed to the queues of its workers and to no others.
  \<^item> Message, Profile (\<open>api/message\<close>, \<open>api/profile\<close>): what is sent is stored and listed; the sums of a
    profile.
  \<^item> Files, Upload (\<open>middleware/cos\<close>, \<open>util\<close>, \<open>api/video/handler.go\<close>, \<open>UploadAvatar\<close>): paths, keys and URLs;
    an upload stores the file under the account's own directory and nothing else.
  \<^item> Router (\<open>http/router.go\<close>): every route with its middlewares; what is not open is answered only to
    the account of a current token. The handlers of the other theories are what the routes run.
  \<^item> Config, Startup (\<open>config\<close>, \<open>db\<close>, \<open>observability\<close>, \<open>cmd/main.go\<close>, \<open>cmd/worker/main.go\<close>): the
    configuration from file and environment, connecting with bounded retries, and the start of both
    processes, the API without what is optional.

  \<^bold>\<open>Bounds and fuel.\<close> \<open>follow\<close> (a client) takes the number of requests; one per page is enough.
  \<open>ListLatest\<close> calls itself after a rebuild of the timeline; its fuel is the number of calls, two are
  enough when the rebuilt timeline reaches Redis, and none is when it does not. \<open>consume_loop\<close> and
  \<open>outbox_loop\<close> take the list of events the \<open>select\<close> statement sees, so they hold for runs of any length.

  \<^bold>\<open>Not modelled.\<close> Context deadlines and cancellation other than as failures of the calls they bound;
  goroutines interleaved inside one request (the scheduler's order is a parameter, their steps are
  not interleaved); the inside of Gin (binding of requests, writing of responses, matching of paths:
  a route is looked up by method and path) and the JSON names of fields, so the request and response
  structs are arguments and results; the struct \<open>PublishVideo\<close> answers with; log lines; closing the
  parts when a process ends; the handlers of the profiler, which are the Go library's.
\<close>

end
